(* ===== verification/Py_Base.thy ===== *)
theory Py_Base
  imports Complex_Main
begin

text \<open>
  Shared foundation of the development: the Python values the scripts exchange (the
  result of \<^verbatim>\<open>json.loads\<close>), Python exceptions as error values, the result type and its
  sequencing combinators, and the dictionary, equality, membership and type-test
  operations the scripts use. Dictionaries are association lists with string keys in
  insertion order. Every later theory builds on these.
\<close>

named_theorems py_simps \<open>rewrite rules of the Python value and error layer\<close>
named_theorems py_dest \<open>inversion rules: what a successful result says\<close>

section \<open>Exceptions\<close>

text \<open>
  One constructor per exception class that the modelled code raises or catches. The
  message is kept where the source builds it from literals and names.
\<close>

datatype pyerr =
    ValueError string
  | JSONDecodeError
  | UnicodeDecodeError
  | UnicodeEncodeError
  | CandidateEvidenceError string
  | TypeError
  | KeyError
  | IndexError
  | AttributeError
  | ZeroDivisionError
  | OverflowError
  | StructError
  | RuntimeError string
  | TimeoutError string
  | OSError string
  | FileNotFoundError string
  | FileExistsError string
  | PermissionError string
  | TimeoutExpired
  | SystemExit string
  | ConfigError string
  | OutOfFuel

type_synonym 'a res = "pyerr + 'a"

text \<open>The classes an \<^verbatim>\<open>except ValueError\<close> clause catches (with their subclasses).\<close>

fun is_value_error :: "pyerr \<Rightarrow> bool" where
  "is_value_error (ValueError _) = True"
| "is_value_error JSONDecodeError = True"
| "is_value_error UnicodeDecodeError = True"
| "is_value_error UnicodeEncodeError = True"
| "is_value_error (CandidateEvidenceError _) = True"
| "is_value_error _ = False"

section \<open>Sequencing of fallible computations\<close>

definition rbind :: "'a res \<Rightarrow> ('a \<Rightarrow> 'b res) \<Rightarrow> 'b res" where
  "rbind m f = (case m of Inl e \<Rightarrow> Inl e | Inr x \<Rightarrow> f x)"

lemma rbind_simps [simp]:
  "rbind (Inl e) f = Inl e" "rbind (Inr x) f = f x"
  by (simp_all add: rbind_def)

lemma rbind_Inr_iff [py_dest]:
  "rbind m f = Inr y \<longleftrightarrow> (\<exists>x. m = Inr x \<and> f x = Inr y)"
  by (cases m) simp_all

lemma rbind_Inl_iff:
  "rbind m f = Inl e \<longleftrightarrow> m = Inl e \<or> (\<exists>x. m = Inr x \<and> f x = Inl e)"
  by (cases m) simp_all

lemma rbind_assoc: "rbind (rbind m f) g = rbind m (\<lambda>x. rbind (f x) g)"
  by (cases m) simp_all

lemma rbind_cong [fundef_cong]:
  "m = m' \<Longrightarrow> (\<And>x. m' = Inr x \<Longrightarrow> f x = f' x) \<Longrightarrow> rbind m f = rbind m' f'"
  by (cases m') simp_all

text \<open>Inversion of a case distinction with an error branch.\<close>

lemma case_list_Inr_iff [py_dest]:
  "(case xs of [] \<Rightarrow> Inl e | x # r \<Rightarrow> f x r) = Inr y \<longleftrightarrow> (\<exists>x r. xs = x # r \<and> f x r = Inr y)"
  by (cases xs) simp_all

lemma case_list_Inl_iff:
  "(case xs of [] \<Rightarrow> Inl e | x # r \<Rightarrow> f x r) = Inl e' \<longleftrightarrow>
     xs = [] \<and> e' = e \<or> (\<exists>x r. xs = x # r \<and> f x r = Inl e')"
  by (cases xs) auto

text \<open>\<^verbatim>\<open>raise e\<close> when the condition holds, otherwise go on.\<close>

definition rcheck :: "bool \<Rightarrow> pyerr \<Rightarrow> unit res" where
  "rcheck bad e = (if bad then Inl e else Inr ())"

lemma rcheck_Inr [simp]: "rcheck bad e = Inr u \<longleftrightarrow> \<not> bad"
  by (simp add: rcheck_def)

lemma rcheck_Inl: "rcheck bad e = Inl e' \<longleftrightarrow> bad \<and> e' = e"
  by (auto simp: rcheck_def)

lemma rcheck_simps [simp]: "rcheck True e = Inl e" "rcheck False e = Inr ()"
  by (simp_all add: rcheck_def)

text \<open>A \<^verbatim>\<open>for\<close> loop with state: stops at the first exception.\<close>

fun rfold :: "('s \<Rightarrow> 'a \<Rightarrow> 's res) \<Rightarrow> 's \<Rightarrow> 'a list \<Rightarrow> 's res" where
  "rfold f s [] = Inr s"
| "rfold f s (x # xs) = rbind (f s x) (\<lambda>s'. rfold f s' xs)"

lemma rfold_append: "rfold f s (xs @ ys) = rbind (rfold f s xs) (\<lambda>s'. rfold f s' ys)"
  by (induction xs arbitrary: s) (simp_all add: rbind_assoc)

text \<open>Invariant rule for such a loop.\<close>

lemma rfold_invariant:
  assumes "rfold f s xs = Inr t" and "P s"
    and "\<And>u x u'. x \<in> set xs \<Longrightarrow> P u \<Longrightarrow> f u x = Inr u' \<Longrightarrow> P u'"
  shows "P t"
  using assms
proof (induction xs arbitrary: s)
  case Nil
  then show ?case by simp
next
  case (Cons x xs)
  from Cons.prems(1) obtain u where u: "f s x = Inr u" "rfold f u xs = Inr t"
    by (auto simp: rbind_Inr_iff)
  from Cons.prems(2) u(1) have "P u" by (rule Cons.prems(3)[rotated 1]) simp
  with u(2) show ?case by (rule Cons.IH) (use Cons.prems(3) in auto)
qed

text \<open>A comprehension or loop that collects results, and one that only checks.\<close>

fun rmap :: "('a \<Rightarrow> 'b res) \<Rightarrow> 'a list \<Rightarrow> 'b list res" where
  "rmap f [] = Inr []"
| "rmap f (x # xs) = rbind (f x) (\<lambda>y. rbind (rmap f xs) (\<lambda>ys. Inr (y # ys)))"

lemma rmap_Inr_iff [py_dest]:
  "rmap f xs = Inr ys \<longleftrightarrow> list_all2 (\<lambda>x y. f x = Inr y) xs ys"
  by (induction xs arbitrary: ys) (auto simp: rbind_Inr_iff list_all2_Cons1)

fun rforall :: "('a \<Rightarrow> unit res) \<Rightarrow> 'a list \<Rightarrow> unit res" where
  "rforall f [] = Inr ()"
| "rforall f (x # xs) = rbind (f x) (\<lambda>_. rforall f xs)"

lemma rforall_Inr_iff [simp]: "rforall f xs = Inr u \<longleftrightarrow> (\<forall>x\<in>set xs. f x = Inr ())"
  by (induction xs) (auto simp: rbind_Inr_iff)

lemma rforall_cong [fundef_cong]:
  "xs = ys \<Longrightarrow> (\<And>x. x \<in> set ys \<Longrightarrow> f x = g x) \<Longrightarrow> rforall f xs = rforall g ys"
  by (induction xs arbitrary: ys) auto

fun rfilter :: "('a \<Rightarrow> bool res) \<Rightarrow> 'a list \<Rightarrow> 'a list res" where
  "rfilter p [] = Inr []"
| "rfilter p (x # xs) =
     rbind (p x) (\<lambda>b. rbind (rfilter p xs) (\<lambda>ys. Inr (if b then x # ys else ys)))"

lemma rfilter_Inr:
  "rfilter p xs = Inr ys \<Longrightarrow> ys = filter (\<lambda>x. p x = Inr True) xs"
  by (induction xs arbitrary: ys) (auto simp: rbind_Inr_iff split: if_splits)

lemma rfilter_pure [simp]: "rfilter (\<lambda>x. Inr (q x)) xs = Inr (filter q xs)"
  by (induction xs) simp_all

text \<open>
  A chain \<^verbatim>\<open>a and b and c\<close> whose operands may raise: evaluated from the left, stopping
  at the first false operand or exception. The dual is a chain of \<^verbatim>\<open>or\<close>.
\<close>

fun rconj :: "bool res list \<Rightarrow> bool res" where
  "rconj [] = Inr True"
| "rconj (m # ms) = rbind m (\<lambda>b. if b then rconj ms else Inr False)"

lemma rconj_True_iff [simp]: "rconj ms = Inr True \<longleftrightarrow> (\<forall>m\<in>set ms. m = Inr True)"
  by (induction ms) (auto simp: rbind_Inr_iff)

fun rdisj :: "bool res list \<Rightarrow> bool res" where
  "rdisj [] = Inr False"
| "rdisj (m # ms) = rbind m (\<lambda>b. if b then Inr True else rdisj ms)"

lemma rdisj_False_iff [simp]: "rdisj ms = Inr False \<longleftrightarrow> (\<forall>m\<in>set ms. m = Inr False)"
  by (induction ms) (auto simp: rbind_Inr_iff)

text \<open>\<^verbatim>\<open>try: ... except ValueError: return d\<close>.\<close>

definition except_value_error :: "'a res \<Rightarrow> 'a \<Rightarrow> 'a res" where
  "except_value_error m d =
     (case m of Inl e \<Rightarrow> if is_value_error e then Inr d else Inl e | Inr x \<Rightarrow> Inr x)"

lemma except_value_error_simps [simp]:
  "except_value_error (Inr x) d = Inr x"
  "is_value_error e \<Longrightarrow> except_value_error (Inl e) d = Inr d"
  "\<not> is_value_error e \<Longrightarrow> except_value_error (Inl e) d = Inl e"
  by (simp_all add: except_value_error_def)

section \<open>Python values\<close>

text \<open>
  A \<^verbatim>\<open>float\<close> is a rational that is a binary64 value, an infinity or not-a-number. The two
  zeros are one value: no modelled operation distinguishes them.
\<close>

datatype pyfloat = Fin rat | PInf | NInf | NaN

datatype pyval =
    PNone
  | PBool bool
  | PInt int
  | PFloat pyfloat
  | PStr string
  | PList "pyval list"
  | PDict "(string \<times> pyval) list"

type_synonym pydict = "(string \<times> pyval) list"

text \<open>\<^verbatim>\<open>d.get(k)\<close>, \<^verbatim>\<open>d[k]\<close> and \<^verbatim>\<open>d[k] = v\<close>.\<close>

definition dget :: "pydict \<Rightarrow> string \<Rightarrow> pyval" where
  "dget d k = (case map_of d k of None \<Rightarrow> PNone | Some v \<Rightarrow> v)"

definition dindex :: "pydict \<Rightarrow> string \<Rightarrow> pyval res" where
  "dindex d k = (case map_of d k of None \<Rightarrow> Inl KeyError | Some v \<Rightarrow> Inr v)"

fun aset :: "'k \<Rightarrow> 'v \<Rightarrow> ('k \<times> 'v) list \<Rightarrow> ('k \<times> 'v) list" where
  "aset k v [] = [(k, v)]"
| "aset k v ((k', v') # d) = (if k' = k then (k, v) # d else (k', v') # aset k v d)"

lemma map_of_aset [simp]: "map_of (aset k v d) = (map_of d)(k \<mapsto> v)"
  by (induction k v d rule: aset.induct) auto

lemma keys_aset [simp]:
  "map fst (aset k v d) = (if k \<in> fst ` set d then map fst d else map fst d @ [k])"
  by (induction k v d rule: aset.induct) auto

lemma distinct_aset: "distinct (map fst d) \<Longrightarrow> distinct (map fst (aset k v d))"
  by (simp only: keys_aset) auto

lemma dget_Cons [simp]: "dget ((k, v) # d) n = (if k = n then v else dget d n)"
  by (simp add: dget_def)

lemma dget_Nil [simp]: "dget [] n = PNone"
  by (simp add: dget_def)

lemma dget_eqD: "dget d k = v \<Longrightarrow> v \<noteq> PNone \<Longrightarrow> map_of d k = Some v"
  by (auto simp: dget_def split: option.splits)

text \<open>\<^verbatim>\<open>v.get(k)\<close> of any value: only dictionaries have the method.\<close>

definition get_of :: "pyval \<Rightarrow> string \<Rightarrow> pyval res" where
  "get_of v name = (case v of PDict d \<Rightarrow> Inr (dget d name) | _ \<Rightarrow> Inl AttributeError)"

lemma get_of_Inr [py_dest]: "get_of v name = Inr w \<longleftrightarrow> (\<exists>d. v = PDict d \<and> w = dget d name)"
  by (auto simp: get_of_def split: pyval.splits)

lemma case_dict_Inr [py_dest]:
  "(case v of PDict d \<Rightarrow> f d | _ \<Rightarrow> Inl e) = Inr y \<longleftrightarrow> (\<exists>d. v = PDict d \<and> f d = Inr y)"
  by (cases v) simp_all

text \<open>\<^verbatim>\<open>isinstance\<close> tests. Python's \<^verbatim>\<open>bool\<close> is a subclass of \<^verbatim>\<open>int\<close>.\<close>

fun is_bool :: "pyval \<Rightarrow> bool" where
  "is_bool (PBool _) = True" | "is_bool _ = False"

fun is_int :: "pyval \<Rightarrow> bool" where
  "is_int (PInt _) = True" | "is_int (PBool _) = True" | "is_int _ = False"

text \<open>An instance of \<^verbatim>\<open>int\<close> and its value.\<close>

fun int_value :: "pyval \<Rightarrow> int option" where
  "int_value (PInt i) = Some i" | "int_value (PBool b) = Some (if b then 1 else 0)" | "int_value _ = None"

fun is_str :: "pyval \<Rightarrow> bool" where
  "is_str (PStr _) = True" | "is_str _ = False"

fun is_list :: "pyval \<Rightarrow> bool" where
  "is_list (PList _) = True" | "is_list _ = False"

fun is_dict :: "pyval \<Rightarrow> bool" where
  "is_dict (PDict _) = True" | "is_dict _ = False"

lemma is_tests_iff [py_simps]:
  "is_bool v \<longleftrightarrow> (\<exists>b. v = PBool b)" "is_str v \<longleftrightarrow> (\<exists>s. v = PStr s)"
  "is_list v \<longleftrightarrow> (\<exists>l. v = PList l)" "is_dict v \<longleftrightarrow> (\<exists>d. v = PDict d)"
  by (cases v; simp)+

text \<open>Truth value, as in \<^verbatim>\<open>if v\<close>.\<close>

fun truthy :: "pyval \<Rightarrow> bool" where
  "truthy PNone = False"
| "truthy (PBool b) = b"
| "truthy (PInt i) = (i \<noteq> 0)"
| "truthy (PFloat f) = (f \<noteq> Fin 0)"
| "truthy (PStr s) = (s \<noteq> [])"
| "truthy (PList l) = (l \<noteq> [])"
| "truthy (PDict d) = (d \<noteq> [])"

text \<open>The number a value stands for in a comparison, if it is numeric.\<close>

fun num_of :: "pyval \<Rightarrow> pyfloat option" where
  "num_of (PBool b) = Some (Fin (if b then 1 else 0))"
| "num_of (PInt i) = Some (Fin (of_int i))"
| "num_of (PFloat f) = Some f"
| "num_of _ = None"

fun float_eq :: "pyfloat \<Rightarrow> pyfloat \<Rightarrow> bool" where
  "float_eq (Fin a) (Fin b) = (a = b)"
| "float_eq PInf PInf = True"
| "float_eq NInf NInf = True"
| "float_eq _ _ = False"

fun float_le :: "pyfloat \<Rightarrow> pyfloat \<Rightarrow> bool" where
  "float_le NaN _ = False"
| "float_le _ NaN = False"
| "float_le (Fin a) (Fin b) = (a \<le> b)"
| "float_le NInf _ = True"
| "float_le _ PInf = True"
| "float_le _ _ = False"

text \<open>
  Python's \<^verbatim>\<open>==\<close>: numbers compare by value across \<^verbatim>\<open>bool\<close>, \<^verbatim>\<open>int\<close> and \<^verbatim>\<open>float\<close>,
  dictionaries without regard to order.
\<close>

lemma size_zip_member: "(x, y) \<in> set (zip a b) \<Longrightarrow> size x < Suc (size_list size a)"
proof -
  assume "(x, y) \<in> set (zip a b)"
  then have "x \<in> set a" by (rule set_zip_leftD)
  then show ?thesis by (induction a) auto
qed

lemma size_pair_member:
  "(k, v) \<in> set d \<Longrightarrow> size v < Suc (size_list (size_prod (\<lambda>x. 0) size) d)"
  by (induction d) auto

function py_eq :: "pyval \<Rightarrow> pyval \<Rightarrow> bool" where
  "py_eq v w =
     (case (v, w) of
        (PNone, PNone) \<Rightarrow> True
      | (PStr a, PStr b) \<Rightarrow> a = b
      | (PList a, PList b) \<Rightarrow>
          length a = length b \<and> (\<forall>p \<in> set (zip a b). py_eq (fst p) (snd p))
      | (PDict a, PDict b) \<Rightarrow>
          length a = length b \<and>
          (\<forall>p \<in> set a. case map_of b (fst p) of None \<Rightarrow> False | Some y \<Rightarrow> py_eq (snd p) y)
      | _ \<Rightarrow> (case (num_of v, num_of w) of
                (Some x, Some y) \<Rightarrow> float_eq x y | _ \<Rightarrow> False))"
  by pat_completeness auto
termination
  by (relation "measure (\<lambda>(v, w). size v)") (auto simp: size_zip_member size_pair_member)

declare py_eq.simps [simp del]

lemma py_eq_str [simp]:
  "py_eq v (PStr s) \<longleftrightarrow> v = PStr s" "py_eq (PStr s) v \<longleftrightarrow> v = PStr s"
  by (cases v; auto simp: py_eq.simps)+

text \<open>Equality with an integer literal: \<^verbatim>\<open>True == 1\<close> and \<^verbatim>\<open>1.0 == 1\<close> hold.\<close>

lemma py_eq_int [simp]:
  "py_eq v (PInt i) \<longleftrightarrow>
     v = PInt i \<or> v = PBool True \<and> i = 1 \<or> v = PBool False \<and> i = 0 \<or> v = PFloat (Fin (of_int i))"
  by (cases v; cases "case v of PFloat f \<Rightarrow> f | _ \<Rightarrow> NaN") (auto simp: py_eq.simps)

text \<open>
  \<^verbatim>\<open>v in {"a", "b"}\<close> hashes \<^verbatim>\<open>v\<close> first, which raises for lists and dictionaries;
  \<^verbatim>\<open>v in ("a", "b")\<close> only compares.
\<close>

fun hashable :: "pyval \<Rightarrow> bool" where
  "hashable (PList _) = False" | "hashable (PDict _) = False" | "hashable _ = True"

definition in_tuple :: "pyval \<Rightarrow> string list \<Rightarrow> bool" where
  "in_tuple v ss = (\<exists>s\<in>set ss. v = PStr s)"

lemma in_tuple_code [code]: "in_tuple v ss = (case v of PStr s \<Rightarrow> s \<in> set ss | _ \<Rightarrow> False)"
  by (cases v) (auto simp: in_tuple_def)

definition in_set :: "pyval \<Rightarrow> string list \<Rightarrow> bool res" where
  "in_set v ss = (if hashable v then Inr (in_tuple v ss) else Inl TypeError)"

lemma in_set_True [simp]: "in_set v ss = Inr True \<longleftrightarrow> (\<exists>s\<in>set ss. v = PStr s)"
  by (auto simp: in_set_def in_tuple_def)

lemma in_set_str [simp]: "in_set (PStr s) ss = Inr (s \<in> set ss)"
  by (auto simp: in_set_def in_tuple_def)

section \<open>Integer fields\<close>

text \<open>
  The contract that every integer field reader of the scripts implements: exactly the
  \<^verbatim>\<open>int\<close> values (and not the booleans) pass, everything else is a \<^verbatim>\<open>ValueError\<close>.
\<close>

locale int_field_reader =
  fixes read :: "pydict \<Rightarrow> string \<Rightarrow> int res"
    and message :: "string \<Rightarrow> string"
  assumes read_def: "read d n =
     (case dget d n of PInt i \<Rightarrow> Inr i | _ \<Rightarrow> Inl (ValueError (message n)))"
begin

lemma read_Inr_iff: "read d n = Inr i \<longleftrightarrow> dget d n = PInt i"
  by (simp add: read_def split: pyval.splits)

lemma read_Inl_iff: "read d n = Inl e \<longleftrightarrow> e = ValueError (message n) \<and> (\<nexists>i. dget d n = PInt i)"
  by (auto simp: read_def split: pyval.splits)

lemma read_value_error: "read d n = Inl e \<Longrightarrow> is_value_error e"
  by (auto simp: read_Inl_iff)

lemma read_rejects_bool: "dget d n = PBool b \<Longrightarrow> read d n = Inl (ValueError (message n))"
  by (simp add: read_def)

lemma read_eq_iff:
  "rbind (read d n) (\<lambda>i. Inr (i = j)) = Inr True \<longleftrightarrow> dget d n = PInt j"
  by (simp add: read_def split: pyval.splits)

end

end
