(* ===== verification/Py_Text.thy ===== *)
theory Py_Text
  imports Py_Base
begin

text \<open>
  The string operations of Python that the scripts apply to console text, log files and
  command lines. A Python \<^verbatim>\<open>str\<close> is modelled by its UTF-8 encoding, a list of bytes, so
  that \<^verbatim>\<open>bytes\<close> and \<^verbatim>\<open>str\<close> share one type: decoding is the identity on valid UTF-8, and
  the line breaks and white space of \<^verbatim>\<open>str\<close> that are not ASCII are the byte sequences
  listed in \<open>line_break\<close> and \<open>white_len\<close>.
\<close>

abbreviation ord :: "char \<Rightarrow> nat" where
  "ord c \<equiv> of_char c"

section \<open>Numbers as text\<close>

fun show_nat :: "nat \<Rightarrow> string" where
  "show_nat n = (if n < 10 then [''0123456789'' ! n]
                 else show_nat (n div 10) @ [''0123456789'' ! (n mod 10)])"

declare show_nat.simps [simp del]

definition show_int :: "int \<Rightarrow> string" where
  "show_int i = (if i < 0 then CHR ''-'' # show_nat (nat (- i)) else show_nat (nat i))"

fun hex_nat :: "nat \<Rightarrow> string" where
  "hex_nat n = (if n < 16 then [''0123456789abcdef'' ! n]
                else hex_nat (n div 16) @ [''0123456789abcdef'' ! (n mod 16)])"

declare hex_nat.simps [simp del]

text \<open>\<^verbatim>\<open>hex(i)\<close>.\<close>

definition py_hex :: "int \<Rightarrow> string" where
  "py_hex i = (if i < 0 then ''-0x'' @ hex_nat (nat (- i)) else ''0x'' @ hex_nat (nat i))"

text \<open>Evaluation on literals.\<close>

lemmas show_nat_eval [py_simps] = show_nat.simps [of 0] show_nat.simps [of "Suc 0"] show_nat.simps [of "numeral n" for n]

lemmas hex_nat_eval [py_simps] = hex_nat.simps [of 0] hex_nat.simps [of "Suc 0"] hex_nat.simps [of "numeral n" for n]

fun is_digit :: "char \<Rightarrow> bool" where
  "is_digit c = (48 \<le> ord c \<and> ord c \<le> 57)"

definition digit_val :: "char \<Rightarrow> nat" where
  "digit_val c = ord c - 48"

definition nat_of_digits :: "string \<Rightarrow> nat" where
  "nat_of_digits s = foldl (\<lambda>n c. 10 * n + digit_val c) 0 s"

lemma nat_of_digits_snoc: "nat_of_digits (s @ [c]) = 10 * nat_of_digits s + digit_val c"
  by (simp add: nat_of_digits_def)

lemma digit_char [simp]:
  assumes "n < 10"
  shows "is_digit (''0123456789'' ! n)" and "digit_val (''0123456789'' ! n) = n"
proof -
  have "\<forall>k\<in>set [0..<10]. is_digit (''0123456789'' ! k) \<and> digit_val (''0123456789'' ! k) = k"
    by code_simp
  with assms show "is_digit (''0123456789'' ! n)" "digit_val (''0123456789'' ! n) = n"
    by (simp_all del: is_digit.simps)
qed

lemma show_nat_nonempty [simp]: "show_nat n \<noteq> []"
  by (subst show_nat.simps) simp

lemma show_nat_digits: "list_all is_digit (show_nat n)"
proof (induction n rule: show_nat.induct)
  case (1 n)
  then show ?case by (subst show_nat.simps) (simp del: is_digit.simps)
qed

text \<open>Printing a natural number and reading the digits gives it back.\<close>

lemma nat_of_digits_show [simp]: "nat_of_digits (show_nat n) = n"
proof (induction n rule: show_nat.induct)
  case (1 n)
  show ?case
  proof (cases "n < 10")
    case True
    then show ?thesis by (subst show_nat.simps) (simp add: nat_of_digits_def)
  next
    case False
    with "1.IH" show ?thesis
      by (subst show_nat.simps) (simp add: nat_of_digits_snoc)
  qed
qed

lemma show_nat_inj: "show_nat m = show_nat n \<Longrightarrow> m = n"
  by (metis nat_of_digits_show)

section \<open>Substrings\<close>

definition starts_with :: "string \<Rightarrow> string \<Rightarrow> bool" where
  "starts_with s p = (take (length p) s = p)"

lemma starts_with_append [simp]: "starts_with (p @ s) p"
  by (simp add: starts_with_def)

lemma starts_with_iff: "starts_with s p \<longleftrightarrow> (\<exists>r. s = p @ r)"
  by (auto simp: starts_with_def) (metis append_take_drop_id)

text \<open>\<^verbatim>\<open>s.find(p)\<close>, with \<open>None\<close> for the result \<open>-1\<close>.\<close>

fun find_sub :: "string \<Rightarrow> string \<Rightarrow> nat option" where
  "find_sub p s =
     (if starts_with s p then Some 0
      else case s of [] \<Rightarrow> None | _ # cs \<Rightarrow> map_option Suc (find_sub p cs))"

declare find_sub.simps [simp del]

definition contains :: "string \<Rightarrow> string \<Rightarrow> bool" where
  "contains p s = (find_sub p s \<noteq> None)"

lemma find_sub_Some:
  "find_sub p s = Some i \<Longrightarrow>
     starts_with (drop i s) p \<and> i \<le> length s \<and> (\<forall>j<i. \<not> starts_with (drop j s) p)"
proof (induction p s arbitrary: i rule: find_sub.induct)
  case (1 p s)
  show ?case
  proof (cases "starts_with s p")
    case True
    with "1.prems" show ?thesis by (simp add: find_sub.simps)
  next
    case False
    with "1.prems" obtain c cs k where s: "s = c # cs" "find_sub p cs = Some k" "i = Suc k"
      by (subst (asm) find_sub.simps) (auto split: list.splits)
    from "1.IH" [OF False s(1,2)] have
      "starts_with (drop k cs) p \<and> k \<le> length cs \<and> (\<forall>j<k. \<not> starts_with (drop j cs) p)" .
    with s False show ?thesis by (auto simp: less_Suc_eq_0_disj)
  qed
qed

lemma contains_rec:
  "contains p [] \<longleftrightarrow> p = []" "contains p (c # cs) \<longleftrightarrow> starts_with (c # cs) p \<or> contains p cs"
  by (subst contains_def, subst find_sub.simps, simp add: starts_with_def)
     (subst contains_def, subst find_sub.simps, simp add: contains_def)

text \<open>\<^verbatim>\<open>p in s\<close>: some occurrence splits the text.\<close>

lemma contains_iff: "contains p s \<longleftrightarrow> (\<exists>a b. s = a @ p @ b)"
proof (induction s)
  case Nil
  then show ?case by (simp add: contains_rec)
next
  case (Cons c cs)
  have "(\<exists>a b. c # cs = a @ p @ b) \<longleftrightarrow> starts_with (c # cs) p \<or> (\<exists>a b. cs = a @ p @ b)"
    by (auto simp: starts_with_iff Cons_eq_append_conv)
  with Cons.IH show ?case by (simp add: contains_rec)
qed

text \<open>\<^verbatim>\<open>s.count(p)\<close> for a nonempty \<^verbatim>\<open>p\<close>: occurrences that do not overlap.\<close>

function count_sub :: "string \<Rightarrow> string \<Rightarrow> nat" where
  "count_sub p s =
     (case s of [] \<Rightarrow> 0
      | c # cs \<Rightarrow> if p \<noteq> [] \<and> starts_with s p then Suc (count_sub p (drop (length p) s))
                 else count_sub p cs)"
  by pat_completeness auto
termination
  by (relation "measure (\<lambda>(p, s). length s)") auto

declare count_sub.simps [simp del]

section \<open>Lines and white space\<close>

text \<open>Length in bytes of the line break at the head of the text, 0 if there is none.\<close>

fun line_break :: "string \<Rightarrow> nat" where
  "line_break [] = 0"
| "line_break (c # cs) =
     (if ord c = 13 then (case cs of d # _ \<Rightarrow> if ord d = 10 then 2 else 1 | [] \<Rightarrow> 1)
      else if ord c \<in> {10, 11, 12, 28, 29, 30} then 1
      else if ord c = 194 then (case cs of d # _ \<Rightarrow> if ord d = 133 then 2 else 0 | [] \<Rightarrow> 0)
      else if ord c = 226 then
        (case cs of d # e # _ \<Rightarrow> if ord d = 128 \<and> (ord e = 168 \<or> ord e = 169) then 3 else 0
         | _ \<Rightarrow> 0)
      else 0)"

fun byte_line_break :: "string \<Rightarrow> nat" where
  "byte_line_break [] = 0"
| "byte_line_break (c # cs) =
     (if ord c = 13 then (case cs of d # _ \<Rightarrow> if ord d = 10 then 2 else 1 | [] \<Rightarrow> 1)
      else if ord c = 10 then 1 else 0)"

text \<open>\<^verbatim>\<open>splitlines()\<close> for a given notion of line break; the accumulator is reversed.\<close>

function lines_by :: "(string \<Rightarrow> nat) \<Rightarrow> string \<Rightarrow> string \<Rightarrow> string list" where
  "lines_by brk acc [] = (if acc = [] then [] else [rev acc])"
| "lines_by brk acc (c # cs) =
     (if brk (c # cs) = 0 then lines_by brk (c # acc) cs
      else rev acc # lines_by brk [] (drop (brk (c # cs) - 1) cs))"
  by pat_completeness auto
termination
  by (relation "measure (\<lambda>(brk, acc, s). length s)") auto

definition splitlines :: "string \<Rightarrow> string list" where
  "splitlines s = lines_by line_break [] s"

definition bytes_splitlines :: "string \<Rightarrow> string list" where
  "bytes_splitlines s = lines_by byte_line_break [] s"

lemma ord_break: "ord c = 10 \<longleftrightarrow> c = CHR 0x0A" "ord c = 13 \<longleftrightarrow> c = CHR 0x0D"
  using of_char_eq_iff [of c "CHR 0x0A", where 'a = nat] of_char_eq_iff [of c "CHR 0x0D", where 'a = nat]
  by simp_all

lemma lines_by_line:
  assumes "CHR 0x0A \<notin> set l" "CHR 0x0D \<notin> set l"
  shows "lines_by byte_line_break acc (l @ CHR 0x0A # s) = (rev acc @ l) # lines_by byte_line_break [] s"
  using assms
proof (induction l arbitrary: acc)
  case Nil
  then show ?case by simp
next
  case (Cons c l)
  then have "ord c \<noteq> 10" "ord c \<noteq> 13" by (auto simp: ord_break)
  with Cons show ?case by simp
qed

text \<open>Lines joined with line feeds come apart again.\<close>

lemma bytes_splitlines_lines:
  "\<forall>l\<in>set ls. CHR 0x0A \<notin> set l \<and> CHR 0x0D \<notin> set l \<Longrightarrow>
     bytes_splitlines (concat (map (\<lambda>l. l @ [CHR 0x0A]) ls)) = ls"
  unfolding bytes_splitlines_def
  by (induction ls) (simp_all add: lines_by_line)

text \<open>Length in bytes of the white-space character at the head, 0 if there is none.\<close>

fun white_len :: "string \<Rightarrow> nat" where
  "white_len [] = 0"
| "white_len (c # cs) =
     (if 9 \<le> ord c \<and> ord c \<le> 13 \<or> 28 \<le> ord c \<and> ord c \<le> 32 then 1
      else if ord c = 194 then
        (case cs of d # _ \<Rightarrow> if ord d = 133 \<or> ord d = 160 then 2 else 0 | [] \<Rightarrow> 0)
      else if ord c = 225 then
        (case cs of d # e # _ \<Rightarrow> if ord d = 154 \<and> ord e = 128 then 3 else 0 | _ \<Rightarrow> 0)
      else if ord c = 226 then
        (case cs of d # e # _ \<Rightarrow>
           if ord d = 128 \<and> (128 \<le> ord e \<and> ord e \<le> 138 \<or> ord e = 168 \<or> ord e = 169 \<or> ord e = 175)
              \<or> ord d = 129 \<and> ord e = 159 then 3 else 0
         | _ \<Rightarrow> 0)
      else if ord c = 227 then
        (case cs of d # e # _ \<Rightarrow> if ord d = 128 \<and> ord e = 128 then 3 else 0 | _ \<Rightarrow> 0)
      else 0)"

function lstrip :: "string \<Rightarrow> string" where
  "lstrip [] = []"
| "lstrip (c # cs) =
     (if white_len (c # cs) = 0 then c # cs else lstrip (drop (white_len (c # cs) - 1) cs))"
  by pat_completeness auto
termination
  by (relation "measure length") auto

text \<open>A suffix that is all white space goes; continuation bytes never start white space.\<close>

fun rstrip :: "string \<Rightarrow> string" where
  "rstrip [] = []"
| "rstrip (c # cs) = (if lstrip (c # cs) = [] then [] else c # rstrip cs)"

definition strip :: "string \<Rightarrow> string" where
  "strip s = rstrip (lstrip s)"

text \<open>\<^verbatim>\<open>s.split()\<close>: the maximal runs without white space.\<close>

function split_words :: "string \<Rightarrow> string \<Rightarrow> string list" where
  "split_words acc [] = (if acc = [] then [] else [rev acc])"
| "split_words acc (c # cs) =
     (if white_len (c # cs) = 0 then split_words (c # acc) cs
      else (if acc = [] then [] else [rev acc])
           @ split_words [] (drop (white_len (c # cs) - 1) cs))"
  by pat_completeness auto
termination
  by (relation "measure (\<lambda>(acc, s). length s)") auto

definition py_split :: "string \<Rightarrow> string list" where
  "py_split s = split_words [] s"

text \<open>\<^verbatim>\<open>s.lower()\<close> on the ASCII letters.\<close>

definition ascii_lower :: "string \<Rightarrow> string" where
  "ascii_lower s = map (\<lambda>c. if 65 \<le> ord c \<and> ord c \<le> 90 then char_of (ord c + 32) else c) s"

section \<open>Printable ASCII\<close>

text \<open>Text of printable ASCII characters has no line break inside and only spaces as white space.\<close>

definition ascii_char :: "char \<Rightarrow> bool" where
  "ascii_char c = (32 \<le> ord c \<and> ord c < 127)"

abbreviation ascii_line :: "string \<Rightarrow> bool" where
  "ascii_line l \<equiv> list_all ascii_char l"

lemma line_break_ascii: "ascii_char c \<Longrightarrow> line_break (c # cs) = 0"
  by (simp add: ascii_char_def)

lemma lines_by_ascii:
  "ascii_line l \<Longrightarrow> lines_by line_break acc (l @ CHR 0x0A # s) = (rev acc @ l) # lines_by line_break [] s"
  by (induction l arbitrary: acc) (simp_all add: line_break_ascii del: line_break.simps(2) add: line_break.simps(2) [of "CHR 0x0A"])

lemma splitlines_ascii:
  "list_all ascii_line ls \<Longrightarrow> splitlines (concat (map (\<lambda>l. l @ [CHR 0x0A]) ls)) = ls"
  unfolding splitlines_def by (induction ls) (simp_all add: lines_by_ascii)

lemma white_len_ascii: "ascii_char c \<Longrightarrow> white_len (c # cs) = (if c = CHR '' '' then 1 else 0)"
proof -
  have "ord c = 32 \<longleftrightarrow> c = CHR '' ''"
    using of_char_eq_iff [of c "CHR '' ''", where 'a = nat] by simp
  then show "ascii_char c \<Longrightarrow> ?thesis" by (auto simp: ascii_char_def)
qed

lemma lstrip_ascii: "ascii_line l \<Longrightarrow> lstrip l = dropWhile (\<lambda>c. c = CHR '' '') l"
  by (induction l) (auto simp: white_len_ascii simp del: white_len.simps)

lemma rstrip_ascii:
  assumes "ascii_line l" "l \<noteq> []" "last l \<noteq> CHR '' ''"
  shows "rstrip l = l"
  using assms
proof (induction l)
  case (Cons c cs)
  have "\<exists>x\<in>set (c # cs). x \<noteq> CHR '' ''" using Cons.prems(3) last_in_set [of "c # cs"] by blast
  then have "lstrip (c # cs) \<noteq> []"
    using lstrip_ascii [OF Cons.prems(1)] by (auto simp: dropWhile_eq_Nil_conv simp del: lstrip.simps)
  with Cons show ?case by (cases "cs = []") (simp_all del: lstrip.simps)
qed simp

lemma strip_ascii:
  assumes "ascii_line l" "l \<noteq> []" "hd l \<noteq> CHR '' ''" "last l \<noteq> CHR '' ''"
  shows "strip l = l"
proof -
  have "lstrip l = l" using assms by (cases l) (simp_all add: lstrip_ascii del: lstrip.simps)
  then show ?thesis using rstrip_ascii assms by (simp add: strip_def)
qed

text \<open>
  A marker whose last character occurs nowhere else in it is found right after any text
  that does not contain it.
\<close>

lemma find_sub_after:
  assumes "\<not> contains p pre" "p = q @ [c]" "c \<notin> set q"
  shows "find_sub p (pre @ p @ s) = Some (length pre)"
  using assms(1)
proof (induction pre)
  case Nil
  then show ?case by (subst find_sub.simps) simp
next
  case (Cons a pre)
  have "\<not> starts_with (a # pre @ p @ s) p"
  proof
    assume "starts_with (a # pre @ p @ s) p"
    then have t: "take (length p) ((a # pre) @ p @ s) = p" by (simp add: starts_with_def)
    show False
    proof (cases "length p \<le> length (a # pre)")
      case True
      then have "take (length p) ((a # pre) @ p @ s) = take (length p) (a # pre)" by (simp only: take_append) simp
      with t have "starts_with (a # pre) p" by (simp only: starts_with_def)
      with Cons.prems show False by (simp add: contains_rec)
    next
      case False
      let ?k = "length p - 1 - length (a # pre)"
      have k: "?k < length q" "length p - 1 = length (a # pre) + ?k" using False assms(2) by auto
      have "p ! (length p - 1) = ((a # pre) @ p @ s) ! (length p - 1)"
        using t assms(2) by (metis add_diff_cancel_right' diff_less le_add2 length_append length_greater_0_conv
            list.size(3) list.size(4) nth_take one_add_one snoc_eq_iff_butlast zero_less_one)
      also have "\<dots> = p ! ?k" using k(1) assms(2) by (subst k(2)) (simp add: nth_append)
      also have "\<dots> = q ! ?k" using k(1) by (simp add: assms(2) nth_append)
      finally have "c = q ! ?k" by (simp add: assms(2))
      with k(1) assms(3) show False by simp
    qed
  qed
  moreover have "find_sub p (pre @ p @ s) = Some (length pre)"
    using Cons by (simp add: contains_rec)
  ultimately show ?case by (subst find_sub.simps) simp
qed

section \<open>UTF-8\<close>

fun is_cont :: "char \<Rightarrow> bool" where
  "is_cont c = (128 \<le> ord c \<and> ord c \<le> 191)"

text \<open>Well-formed UTF-8 (no overlong forms, no surrogates, at most U+10FFFF).\<close>

fun utf8_valid :: "string \<Rightarrow> bool" where
  "utf8_valid [] = True"
| "utf8_valid (c # cs) =
     (if ord c < 128 then utf8_valid cs
      else if 194 \<le> ord c \<and> ord c \<le> 223 then
        (case cs of d # r \<Rightarrow> is_cont d \<and> utf8_valid r | [] \<Rightarrow> False)
      else if 224 \<le> ord c \<and> ord c \<le> 239 then
        (case cs of d # e # r \<Rightarrow>
           is_cont d \<and> is_cont e \<and> (ord c = 224 \<longrightarrow> 160 \<le> ord d) \<and> (ord c = 237 \<longrightarrow> ord d \<le> 159)
           \<and> utf8_valid r
         | _ \<Rightarrow> False)
      else if 240 \<le> ord c \<and> ord c \<le> 244 then
        (case cs of d # e # f # r \<Rightarrow>
           is_cont d \<and> is_cont e \<and> is_cont f \<and> (ord c = 240 \<longrightarrow> 144 \<le> ord d)
           \<and> (ord c = 244 \<longrightarrow> ord d \<le> 143) \<and> utf8_valid r
         | _ \<Rightarrow> False)
      else False)"

text \<open>\<^verbatim>\<open>raw.decode("utf-8")\<close>.\<close>

definition utf8_decode :: "string \<Rightarrow> string res" where
  "utf8_decode raw = (if utf8_valid raw then Inr raw else Inl UnicodeDecodeError)"

text \<open>\<^verbatim>\<open>text.encode("utf-8")\<close>, which fails on a lone surrogate.\<close>

definition utf8_encode :: "string \<Rightarrow> string res" where
  "utf8_encode s = (if utf8_valid s then Inr s else Inl UnicodeEncodeError)"

lemma utf8_valid_ascii: "list_all (\<lambda>c. ord c < 128) s \<Longrightarrow> utf8_valid s"
  by (induction s rule: utf8_valid.induct) auto

end
