(* ===== verification/Py_Float.thy ===== *)
theory Py_Float
  imports Py_Base "HOL-Library.Log_Nat"
begin

text \<open>
  Python's \<^verbatim>\<open>float\<close>: IEEE binary64 arithmetic with rounding to nearest, ties to even,
  gradual underflow and overflow to the infinities. A finite value is kept as the
  rational it denotes; every operation computes the exact rational result and rounds it
  once with \<open>fl\<close>, which is what a correctly rounded operation does.
\<close>

section \<open>Rounding\<close>

definition round_half_even :: "rat \<Rightarrow> int" where
  "round_half_even x =
     (let f = \<lfloor>x\<rfloor>; d = x - of_int f
      in if d < 1 / 2 then f else if 1 / 2 < d then f + 1 else if even f then f else f + 1)"

text \<open>The exponent \<open>e\<close> with \<open>2 powi e \<le> x < 2 powi (e + 1)\<close>, for positive \<open>x\<close>.\<close>

definition ilog2 :: "rat \<Rightarrow> int" where
  "ilog2 x = (let (n, d) = quotient_of x; k = bitlen n - bitlen d
              in if 2 powi k \<le> x then k else k - 1)"

definition ulp :: "rat \<Rightarrow> rat" where
  "ulp x = 2 powi (max (ilog2 x) (- 1022) - 52)"

definition fl_pos :: "rat \<Rightarrow> rat" where
  "fl_pos x = of_int (round_half_even (x / ulp x)) * ulp x"

definition fl :: "rat \<Rightarrow> pyfloat" where
  "fl x = (if x = 0 then Fin 0
           else let y = fl_pos \<bar>x\<bar>
                in if 2 ^ 1024 \<le> y then (if 0 < x then PInf else NInf)
                   else Fin (sgn x * y))"

text \<open>\<^verbatim>\<open>float(i)\<close> of an integer and \<^verbatim>\<open>a / b\<close> of two integers raise instead of overflowing.\<close>

definition int_float :: "rat \<Rightarrow> pyfloat res" where
  "int_float x = (case fl x of Fin q \<Rightarrow> Inr (Fin q) | _ \<Rightarrow> Inl OverflowError)"

definition int_truediv :: "int \<Rightarrow> int \<Rightarrow> pyfloat res" where
  "int_truediv a b = (if b = 0 then Inl ZeroDivisionError else int_float (of_int a / of_int b))"

fun fneg :: "pyfloat \<Rightarrow> pyfloat" where
  "fneg (Fin a) = Fin (- a)" | "fneg PInf = NInf" | "fneg NInf = PInf" | "fneg NaN = NaN"

fun fadd :: "pyfloat \<Rightarrow> pyfloat \<Rightarrow> pyfloat" where
  "fadd (Fin a) (Fin b) = fl (a + b)"
| "fadd NaN _ = NaN" | "fadd _ NaN = NaN"
| "fadd PInf NInf = NaN" | "fadd NInf PInf = NaN"
| "fadd PInf _ = PInf" | "fadd _ PInf = PInf"
| "fadd NInf _ = NInf" | "fadd _ NInf = NInf"

text \<open>The infinity with the sign of a product or quotient.\<close>

definition signed_inf :: "bool \<Rightarrow> pyfloat" where
  "signed_inf pos = (if pos then PInf else NInf)"

fun fpos :: "pyfloat \<Rightarrow> bool" where
  "fpos (Fin a) = (0 < a)" | "fpos PInf = True" | "fpos NInf = False" | "fpos NaN = False"

fun fmul :: "pyfloat \<Rightarrow> pyfloat \<Rightarrow> pyfloat" where
  "fmul (Fin a) (Fin b) = fl (a * b)"
| "fmul NaN _ = NaN" | "fmul _ NaN = NaN"
| "fmul a b = (if a = Fin 0 \<or> b = Fin 0 then NaN else signed_inf (fpos a = fpos b))"

fun fdiv :: "pyfloat \<Rightarrow> pyfloat \<Rightarrow> pyfloat res" where
  "fdiv a (Fin b) =
     (if b = 0 then Inl ZeroDivisionError
      else Inr (case a of Fin x \<Rightarrow> fl (x / b) | NaN \<Rightarrow> NaN | _ \<Rightarrow> signed_inf (fpos a = (0 < b))))"
| "fdiv a NaN = Inr NaN"
| "fdiv a b = Inr (case a of Fin _ \<Rightarrow> Fin 0 | _ \<Rightarrow> NaN)"

fun is_finite :: "pyfloat \<Rightarrow> bool" where
  "is_finite (Fin _) = True" | "is_finite _ = False"

definition float_lt :: "pyfloat \<Rightarrow> pyfloat \<Rightarrow> bool" where
  "float_lt a b = (float_le a b \<and> \<not> float_eq a b)"

text \<open>\<^verbatim>\<open>math.ceil\<close> and \<^verbatim>\<open>math.floor\<close>.\<close>

fun float_ceil :: "pyfloat \<Rightarrow> int res" where
  "float_ceil (Fin a) = Inr \<lceil>a\<rceil>"
| "float_ceil NaN = Inl (ValueError ''cannot convert float NaN to integer'')"
| "float_ceil _ = Inl OverflowError"

fun float_floor :: "pyfloat \<Rightarrow> int res" where
  "float_floor (Fin a) = Inr \<lfloor>a\<rfloor>"
| "float_floor NaN = Inl (ValueError ''cannot convert float NaN to integer'')"
| "float_floor _ = Inl OverflowError"

section \<open>Properties of rounding\<close>

lemma round_half_even_bounds:
  "of_int (round_half_even x) \<le> x + 1 / 2" "x - 1 / 2 \<le> of_int (round_half_even x)"
  by (auto simp: round_half_even_def Let_def; linarith)+

lemma round_half_even_of_int [simp]: "round_half_even (of_int k) = k"
  by (simp add: round_half_even_def)

lemma round_half_even_floor:
  "\<lfloor>x\<rfloor> \<le> round_half_even x" "round_half_even x \<le> \<lfloor>x\<rfloor> + 1"
  by (auto simp: round_half_even_def Let_def)

lemma round_half_even_mono:
  assumes "x \<le> y"
  shows "round_half_even x \<le> round_half_even y"
proof (cases "\<lfloor>x\<rfloor> = \<lfloor>y\<rfloor>")
  case True
  with assms show ?thesis by (auto simp: round_half_even_def Let_def)
next
  case False
  with assms have "\<lfloor>x\<rfloor> + 1 \<le> \<lfloor>y\<rfloor>" using floor_mono [OF assms] by linarith
  with round_half_even_floor [of x] round_half_even_floor [of y] show ?thesis by linarith
qed

lemma bitlen_powi_bounds:
  assumes "0 < n"
  shows "2 powi (bitlen n - 1) \<le> (of_int n :: rat)" and "(of_int n :: rat) < 2 powi bitlen n"
proof -
  have "1 \<le> bitlen n" using bitlen_nonneg [of n] assms bitlen_eq_zero_iff [of n] by linarith
  then have pow: "(of_int (2 ^ nat (bitlen n - 1)) :: rat) = 2 powi (bitlen n - 1)"
    "(of_int (2 ^ nat (bitlen n)) :: rat) = 2 powi bitlen n"
    by (simp_all add: power_int_def)
  have "(of_int (2 ^ nat (bitlen n - 1)) :: rat) \<le> of_int n" "(of_int n :: rat) < of_int (2 ^ nat (bitlen n))"
    using bitlen_bounds [OF assms] by (simp_all only: of_int_le_iff of_int_less_iff)
  then show "2 powi (bitlen n - 1) \<le> (of_int n :: rat)" "(of_int n :: rat) < 2 powi bitlen n"
    by (simp_all only: pow)
qed

lemma ilog2_bounds:
  assumes "0 < x"
  shows "2 powi ilog2 x \<le> x" and "x < 2 powi (ilog2 x + 1)"
proof -
  obtain n d where q: "quotient_of x = (n, d)" by force
  then have x: "x = of_int n / of_int d" and d: "0 < d"
    by (simp_all add: quotient_of_div quotient_of_denom_pos)
  from assms x d have n: "0 < n" by (simp add: zero_less_divide_iff)
  have N: "2 powi (bitlen n - 1) \<le> (of_int n :: rat)" "(of_int n :: rat) < 2 powi bitlen n"
    and D: "2 powi (bitlen d - 1) \<le> (of_int d :: rat)" "(of_int d :: rat) < 2 powi bitlen d"
    using bitlen_powi_bounds n d by blast+
  let ?k = "bitlen n - bitlen d"
  have hi: "x < 2 powi (?k + 1)"
  proof -
    have "x \<le> of_int n / 2 powi (bitlen d - 1)"
      unfolding x using D(1) n d by (intro divide_left_mono) auto
    also have "\<dots> < 2 powi bitlen n / 2 powi (bitlen d - 1)"
      using N(2) by (simp add: divide_strict_right_mono)
    also have "\<dots> = 2 powi (?k + 1)"
      by (simp flip: power_int_diff add: algebra_simps)
    finally show ?thesis .
  qed
  have lo: "2 powi (?k - 1) \<le> x"
  proof -
    have "(2 :: rat) powi (?k - 1) = 2 powi (bitlen n - 1) / 2 powi bitlen d"
      by (simp flip: power_int_diff add: algebra_simps)
    also have "\<dots> \<le> of_int n / of_int d"
      using N(1) D n d by (intro frac_le) auto
    finally show ?thesis by (simp add: x)
  qed
  show "2 powi ilog2 x \<le> x" "x < 2 powi (ilog2 x + 1)"
    using hi lo by (auto simp: ilog2_def q Let_def)
qed

lemma powi2_mono: "i \<le> j \<Longrightarrow> (2 :: rat) powi i \<le> 2 powi j"
  by (rule power_int_increasing) auto

lemma powi2_less: "(2 :: rat) powi i < 2 powi j \<Longrightarrow> i < j"
  by (meson leD leI powi2_mono)

lemma ilog2_mono:
  assumes "0 < x" "x \<le> y"
  shows "ilog2 x \<le> ilog2 y"
proof -
  have "2 powi ilog2 x < (2 :: rat) powi (ilog2 y + 1)"
    using ilog2_bounds [of x] ilog2_bounds [of y] assms by linarith
  then show ?thesis by (auto dest: powi2_less)
qed

lemma ulp_pos [simp]: "0 < ulp x"
  by (simp add: ulp_def)

lemma ulp_nonzero [simp]: "ulp x \<noteq> 0"
  using ulp_pos [of x] by linarith

lemma ulp_nonneg [simp]: "0 \<le> ulp x"
  by (rule less_imp_le) (rule ulp_pos)

lemma fl_pos_nonneg: "0 < x \<Longrightarrow> 0 \<le> fl_pos x"
  using round_half_even_mono [of 0 "x / ulp x"] round_half_even_of_int [of 0]
  by (simp add: fl_pos_def)

lemma ulp_mono: "0 < x \<Longrightarrow> x \<le> y \<Longrightarrow> ulp x \<le> ulp y"
  unfolding ulp_def by (rule powi2_mono) (use ilog2_mono [of x y] in linarith)

text \<open>A multiple of its own unit in the last place is represented exactly.\<close>

lemma fl_pos_exact: "x = of_int k * ulp x \<Longrightarrow> fl_pos x = x"
  unfolding fl_pos_def by (metis nonzero_mult_div_cancel_right order_less_irrefl
      round_half_even_of_int ulp_pos)

text \<open>A power of two bounds what rounding can do below it and above it.\<close>

lemma fl_pos_le_powi:
  assumes "0 < x" "x \<le> 2 powi b" "- 1022 \<le> b"
  shows "fl_pos x \<le> 2 powi b"
proof -
  let ?e = "max (ilog2 x) (- 1022)"
  have "2 powi ilog2 x \<le> (2 :: rat) powi b" using ilog2_bounds(1) [OF assms(1)] assms(2) by linarith
  then have "ilog2 x \<le> b" 
    by (metis linorder_not_le one_less_numeral_iff power_int_strict_increasing semiring_norm(76))
  with assms(3) have k: "0 \<le> b - (?e - 52)" by linarith
  define m :: int where "m = 2 ^ nat (b - (?e - 52))"
  have "(of_int m :: rat) = 2 powi (b - (?e - 52))"
    using k by (simp add: m_def power_int_def)
  also have "\<dots> = 2 powi b / ulp x" by (simp add: ulp_def power_int_diff)
  finally have m: "of_int m = 2 powi b / ulp x" .
  have "x / ulp x \<le> of_int m" unfolding m using assms(2) by (rule divide_right_mono) simp
  then have "round_half_even (x / ulp x) \<le> m"
    using round_half_even_mono [of "x / ulp x" "of_int m"] by simp
  then have "of_int (round_half_even (x / ulp x)) * ulp x \<le> of_int m * ulp x"
    by (intro mult_right_mono) auto
  also have "\<dots> = 2 powi b" using ulp_pos [of x] by (simp add: m)
  finally show ?thesis by (simp add: fl_pos_def)
qed

lemma fl_pos_ge_powi:
  assumes "0 < x" "- 1022 \<le> ilog2 x"
  shows "2 powi ilog2 x \<le> fl_pos x"
proof -
  have u: "ulp x = 2 powi ilog2 x / 2 ^ 52"
    using assms(2) by (simp add: ulp_def power_int_diff)
  have "(of_int (2 ^ 52) :: rat) \<le> x / ulp x"
    using ilog2_bounds(1) [OF assms(1)] by (simp add: u field_simps)
  then have "2 ^ 52 \<le> round_half_even (x / ulp x)"
    using round_half_even_mono [of "of_int (2 ^ 52)" "x / ulp x"] by (simp only: round_half_even_of_int)
  then have "(of_int (2 ^ 52) :: rat) \<le> of_int (round_half_even (x / ulp x))"
    by (simp only: of_int_le_iff)
  then have "of_int (2 ^ 52) * ulp x \<le> of_int (round_half_even (x / ulp x)) * ulp x"
    by (intro mult_right_mono) auto
  then show ?thesis by (simp add: fl_pos_def u)
qed

text \<open>Rounding is monotone.\<close>

lemma fl_pos_mono:
  assumes "0 < x" "x \<le> y"
  shows "fl_pos x \<le> fl_pos y"
proof (cases "max (ilog2 x) (- 1022) = max (ilog2 y) (- 1022)")
  case True
  then have u: "ulp x = ulp y" by (simp add: ulp_def)
  have "round_half_even (x / ulp x) \<le> round_half_even (y / ulp y)"
    unfolding u using assms(2) by (intro round_half_even_mono divide_right_mono) auto
  then show ?thesis unfolding fl_pos_def u by (intro mult_right_mono) auto
next
  case False
  with ilog2_mono [OF assms] have e: "ilog2 x + 1 \<le> ilog2 y" "- 1022 \<le> ilog2 y" by linarith+
  have "x \<le> 2 powi ilog2 y"
    using ilog2_bounds(2) [OF assms(1)] powi2_mono [OF e(1)] by linarith
  with assms(1) have "fl_pos x \<le> 2 powi ilog2 y" using e(2) by (rule fl_pos_le_powi)
  also have "\<dots> \<le> fl_pos y" using assms e(2) by (intro fl_pos_ge_powi) auto
  finally show ?thesis .
qed

text \<open>Multiples below \<open>2 ^ 53\<close> of a power of two, so also the integers there, are exact.\<close>

lemma fl_pos_dyadic:
  assumes "0 < k" "k < 2 ^ 53" "- 1074 \<le> s"
  shows "fl_pos (of_int k * 2 powi s) = of_int k * 2 powi s" (is "fl_pos ?x = ?x")
proof (rule fl_pos_exact)
  let ?e = "ilog2 ?x" and ?u = "max (ilog2 ?x) (- 1022) - 52"
  have pos: "0 < ?x" using assms(1) by simp
  have "(of_int k :: rat) < of_int (2 ^ 53)" using assms(2) by (simp only: of_int_less_iff)
  then have "?x < 2 powi 53 * 2 powi s" by (intro mult_strict_right_mono) simp_all
  also have "(2 :: rat) powi 53 * 2 powi s = 2 powi (53 + s)" by (rule power_int_add [symmetric]) simp
  finally have "(2 :: rat) powi ?e < 2 powi (53 + s)" using ilog2_bounds(1) [OF pos] by linarith
  then have "?u \<le> s" using powi2_less [of ?e "53 + s"] assms(3) by linarith
  then have "(of_int (2 ^ nat (s - ?u)) :: rat) = 2 powi (s - ?u)" by (simp add: power_int_def)
  moreover have "2 powi (s - ?u) * ulp ?x = 2 powi s" by (simp add: ulp_def flip: power_int_add)
  ultimately show "?x = of_int (k * 2 ^ nat (s - ?u)) * ulp ?x"
    by (simp add: mult.assoc)
qed

lemma fl_pos_of_int: "0 < n \<Longrightarrow> n < 2 ^ 53 \<Longrightarrow> fl_pos (of_int n) = of_int n"
  using fl_pos_dyadic [of n 0] by simp

text \<open>Rounding is idempotent: a rounded value is a float.\<close>

lemma fl_pos_idem:
  assumes "0 < x"
  shows "fl_pos (fl_pos x) = fl_pos x \<or> fl_pos x = 0"
proof -
  let ?s = "max (ilog2 x) (- 1022) - 52" and ?k = "round_half_even (x / ulp x)"
  have u: "ulp x = 2 powi ?s" by (simp add: ulp_def)
  have "x < 2 powi (?s + 53)"
    using ilog2_bounds(2) [OF assms] powi2_mono [of "ilog2 x + 1" "?s + 53"] by linarith
  also have "(2 :: rat) powi (?s + 53) = 2 powi 53 * ulp x"
    unfolding u by (subst power_int_add) simp_all
  finally have "x / ulp x < of_int (2 ^ 53)" by (simp add: field_simps)
  then have k: "?k \<le> 2 ^ 53" using round_half_even_mono [of "x / ulp x" "of_int (2 ^ 53)"]
    by (simp only: round_half_even_of_int less_imp_le)
  have k0: "0 \<le> ?k" using round_half_even_mono [of 0 "x / ulp x"] round_half_even_of_int [of 0] assms by simp
  have f: "fl_pos x = of_int ?k * 2 powi ?s" by (simp add: fl_pos_def u)
  consider "?k = 0" | "0 < ?k" "?k < 2 ^ 53" | "?k = 2 ^ 53" using k k0 by linarith
  then show ?thesis
  proof cases
    case 3
    then have "fl_pos x = of_int 1 * 2 powi (53 + ?s)" unfolding f by (subst power_int_add) simp_all
    then show ?thesis using fl_pos_dyadic [of 1 "53 + ?s"] by simp
  qed (use fl_pos_dyadic [of ?k ?s] in \<open>simp_all add: f\<close>)
qed

lemma fl_idem: "fl x = Fin y \<Longrightarrow> fl y = Fin y"
proof -
  assume a: "fl x = Fin y"
  show ?thesis
  proof (cases "y = 0 \<or> x = 0")
    case True
    with a show ?thesis by (auto simp: fl_def)
  next
    case False
    let ?z = "fl_pos \<bar>x\<bar>"
    from False have "0 < \<bar>x\<bar>" by simp
    note z = fl_pos_idem [OF this] fl_pos_nonneg [OF this]
    from a False have y: "y = sgn x * ?z" "?z < 2 ^ 1024" by (auto simp: fl_def Let_def split: if_splits)
    with False z have "0 < ?z" "fl_pos ?z = ?z" by auto
    then show ?thesis using y False by (cases "0 < x") (auto simp: fl_def Let_def sgn_if)
  qed
qed

lemma fl_of_int:
  assumes "\<bar>n\<bar> < 2 ^ 53"
  shows "fl (of_int n) = Fin (of_int n)"
proof (cases "n = 0")
  case True
  then show ?thesis by (simp add: fl_def)
next
  case False
  have "fl_pos (of_int \<bar>n\<bar>) = of_int \<bar>n\<bar>" using False assms by (intro fl_pos_of_int) auto
  moreover have "(of_int \<bar>n\<bar> :: rat) < 2 ^ 1024"
  proof -
    have "(of_int \<bar>n\<bar> :: rat) < of_int (2 ^ 53)" using assms by (simp only: of_int_less_iff)
    also have "\<dots> \<le> (2 :: rat) ^ 1024" by (simp add: power_increasing)
    finally show ?thesis .
  qed
  ultimately show ?thesis using False by (simp add: fl_def Let_def sgn_if)
qed

lemma fl_nonneg_finite:
  assumes "0 \<le> x" "x \<le> of_int n" "n < 2 ^ 53"
  obtains y where "fl x = Fin y" "0 \<le> y" "y \<le> of_int n"
proof (cases "x = 0")
  case True
  with assms that [of 0] show ?thesis by (simp add: fl_def)
next
  case False
  with assms have "0 < x" "0 < (of_int n :: rat)" by auto
  then have pos: "0 < x" "0 < n" by simp_all
  have le: "fl_pos x \<le> of_int n"
    using fl_pos_mono [OF pos(1) assms(2)] fl_pos_of_int [OF pos(2) assms(3)] by simp
  have "(of_int n :: rat) < of_int (2 ^ 53)" using assms(3) by (simp only: of_int_less_iff)
  also have "\<dots> \<le> (2 :: rat) ^ 1024" by (simp add: power_increasing)
  finally have "fl_pos x < 2 ^ 1024" using le by simp
  then show ?thesis using pos le fl_pos_nonneg [OF pos(1)] that [of "fl_pos x"] by (simp add: fl_def Let_def)
qed

text \<open>Monotonicity of the operation, for finite results.\<close>

lemma fl_mono:
  assumes "0 \<le> x" "x \<le> y" "fl x = Fin a" "fl y = Fin b"
  shows "a \<le> b"
proof (cases "x = 0")
  case True
  with True assms show ?thesis by (auto intro: fl_pos_nonneg simp: fl_def Let_def split: if_splits)
next
  case False
  with assms have "0 < x" "0 < y" by auto
  with assms fl_pos_mono [of x y] show ?thesis by (simp add: fl_def Let_def split: if_splits)
qed

lemma round_half_even_eqI: "\<bar>y - of_int k\<bar> < 1 / 2 \<Longrightarrow> round_half_even y = k"
  using round_half_even_bounds [of y] by linarith

lemma ilog2_eqI:
  assumes "2 powi e \<le> x" "x < 2 powi (e + 1)"
  shows "ilog2 x = e"
proof -
  have pos: "0 < x" using assms(1) zero_less_power_int [of "2 :: rat" e] by linarith
  have "(2 :: rat) powi e < 2 powi (ilog2 x + 1)" "(2 :: rat) powi ilog2 x < 2 powi (e + 1)"
    using ilog2_bounds [OF pos] assms by linarith+
  then show ?thesis using powi2_less [of e "ilog2 x + 1"] powi2_less [of "ilog2 x" "e + 1"] by linarith
qed

text \<open>Evaluation of a literal, given its exponent.\<close>

lemma fl_literal:
  assumes "2 powi e \<le> x" "x < 2 powi (e + 1)" "- 1022 \<le> e" "e < 1023"
    "\<bar>x * 2 powi (52 - e) - of_int k\<bar> < 1 / 2"
  shows "fl x = Fin (of_int k * 2 powi (e - 52))"
proof -
  have l: "ilog2 x = e" using assms(1,2) by (rule ilog2_eqI)
  have pos: "0 < x" using assms(1) zero_less_power_int [of "2 :: rat" e] by linarith
  have u: "ulp x = 2 powi (e - 52)" using assms(3) by (simp add: ulp_def l)
  have "x / ulp x = x * 2 powi (52 - e)"
    by (simp add: u power_int_diff field_simps)
  then have f: "fl_pos x = of_int k * 2 powi (e - 52)" using round_half_even_eqI [OF assms(5)] by (simp add: fl_pos_def u)
  have "fl_pos x \<le> 2 powi (e + 1)" using pos assms by (intro fl_pos_le_powi) auto
  also have "\<dots> < 2 powi 1024" using assms(4) by (intro power_int_strict_increasing) auto
  finally show ?thesis using pos f by (simp add: fl_def Let_def sgn_if)
qed

end
