(* ===== verification/Py_Json.thy ===== *)
theory Py_Json
  imports Py_Text Py_Float
begin

text \<open>
  \<^verbatim>\<open>json.loads\<close> of the Python standard library as the scripts use it: the scanner for
  strings, numbers, arrays and objects, the constants the library accepts beyond JSON
  (\<^verbatim>\<open>NaN\<close>, \<^verbatim>\<open>Infinity\<close>), and the object hook that the strict loaders install. The
  scanner is recursive over the text; a fuel argument bounds the nesting and
  \<open>scan_value_fuel\<close> shows that the fuel \<open>json_loads\<close> gives is always enough. A printer
  for the compact form (\<^verbatim>\<open>separators=(",", ":")\<close>, \<^verbatim>\<open>ensure_ascii=False\<close>) is the
  reference for the round-trip theorem. Limits of the interpreter (recursion depth,
  digits of an integer literal) are not part of the model.
\<close>

section \<open>Strings\<close>

text \<open>The UTF-8 encoding of a code point; a lone surrogate keeps its three-byte form.\<close>

definition utf8_of :: "nat \<Rightarrow> string" where
  "utf8_of u =
     (if u < 128 then [char_of u]
      else if u < 2048 then [char_of (192 + u div 64), char_of (128 + u mod 64)]
      else if u < 65536 then
        [char_of (224 + u div 4096), char_of (128 + u div 64 mod 64), char_of (128 + u mod 64)]
      else [char_of (240 + u div 262144), char_of (128 + u div 4096 mod 64),
            char_of (128 + u div 64 mod 64), char_of (128 + u mod 64)])"

definition hex_val :: "char \<Rightarrow> nat option" where
  "hex_val c =
     (if 48 \<le> ord c \<and> ord c \<le> 57 then Some (ord c - 48)
      else if 97 \<le> ord c \<and> ord c \<le> 102 then Some (ord c - 87)
      else if 65 \<le> ord c \<and> ord c \<le> 70 then Some (ord c - 55) else None)"

text \<open>Four hexadecimal digits at the head of the text.\<close>

fun hex4 :: "string \<Rightarrow> nat option" where
  "hex4 (a # b # c # d # _) =
     (case (hex_val a, hex_val b, hex_val c, hex_val d) of
        (Some w, Some x, Some y, Some z) \<Rightarrow> Some (4096 * w + 256 * x + 16 * y + z)
      | _ \<Rightarrow> None)"
| "hex4 _ = None"

text \<open>The second half of a surrogate pair, if the text goes on with one.\<close>

definition low_surrogate :: "string \<Rightarrow> nat option" where
  "low_surrogate s =
     (if starts_with s [CHR 0x5C, CHR ''u''] then
        (case hex4 (drop 2 s) of
           Some u \<Rightarrow> if 56320 \<le> u \<and> u \<le> 57343 then Some u else None
         | None \<Rightarrow> None)
      else None)"

definition escape_char :: "char \<Rightarrow> char option" where
  "escape_char c =
     (if c = CHR 0x22 \<or> c = CHR 0x5C \<or> c = CHR ''/'' then Some c
      else if c = CHR ''b'' then Some (CHR 0x08) else if c = CHR ''f'' then Some (CHR 0x0C)
      else if c = CHR ''n'' then Some (CHR 0x0A) else if c = CHR ''r'' then Some (CHR 0x0D)
      else if c = CHR ''t'' then Some (CHR 0x09) else None)"

definition prepend :: "string \<Rightarrow> (string \<times> string) res \<Rightarrow> (string \<times> string) res" where
  "prepend p m = rbind m (\<lambda>(t, r). Inr (p @ t, r))"

text \<open>\<^verbatim>\<open>scanstring\<close> with \<^verbatim>\<open>strict=True\<close>: the text after the opening quote.\<close>

function scan_string :: "string \<Rightarrow> (string \<times> string) res" where
  "scan_string [] = Inl JSONDecodeError"
| "scan_string (c # cs) =
     (if c = CHR 0x22 then Inr ([], cs)
      else if c = CHR 0x5C then
        (case cs of
           [] \<Rightarrow> Inl JSONDecodeError
         | e # r \<Rightarrow>
             if e = CHR ''u'' then
               (case hex4 r of
                  None \<Rightarrow> Inl JSONDecodeError
                | Some u \<Rightarrow>
                    (case (if 55296 \<le> u \<and> u \<le> 56319 then low_surrogate (drop 4 r) else None) of
                       Some v \<Rightarrow> prepend (utf8_of (65536 + (u - 55296) * 1024 + (v - 56320)))
                                   (scan_string (drop 10 r))
                     | None \<Rightarrow> prepend (utf8_of u) (scan_string (drop 4 r))))
             else (case escape_char e of
                     None \<Rightarrow> Inl JSONDecodeError
                   | Some d \<Rightarrow> prepend [d] (scan_string r)))
      else if ord c < 32 then Inl JSONDecodeError
      else prepend [c] (scan_string cs))"
  by pat_completeness auto
termination
  by (relation "measure length") auto

section \<open>Numbers\<close>

definition digits_of :: "string \<Rightarrow> string" where
  "digits_of s = takeWhile is_digit s"

text \<open>The fraction and the exponent of a number literal; empty when they do not match.\<close>

definition frac_part :: "string \<Rightarrow> string" where
  "frac_part s = (case s of c # cs \<Rightarrow> if c = CHR ''.'' then digits_of cs else [] | [] \<Rightarrow> [])"

definition exp_part :: "string \<Rightarrow> (int \<times> nat) option" where
  "exp_part s =
     (case s of
        c # cs \<Rightarrow>
          if c = CHR ''e'' \<or> c = CHR ''E'' then
            (let (neg, k) = (case cs of d # _ \<Rightarrow> if d = CHR ''-'' then (True, 1)
                                               else if d = CHR ''+'' then (False, 1) else (False, 0)
                             | [] \<Rightarrow> (False, 0));
                 ds = digits_of (drop k cs)
             in if ds = [] then None
                else Some ((if neg then - int (nat_of_digits ds) else int (nat_of_digits ds)),
                           1 + k + length ds))
          else None
      | [] \<Rightarrow> None)"

definition scan_number :: "string \<Rightarrow> (pyval \<times> string) option" where
  "scan_number s =
     (let (neg, body) = (case s of c # cs \<Rightarrow> if c = CHR ''-'' then (True, cs) else (False, s)
                         | [] \<Rightarrow> (False, s));
          ip = (case body of c # cs \<Rightarrow> if c = CHR ''0'' then [c] else digits_of body | [] \<Rightarrow> [])
      in if ip = [] then None
         else
           let r1 = drop (length ip) body; fp = frac_part r1;
               r2 = (if fp = [] then r1 else drop (Suc (length fp)) r1)
           in (case exp_part r2 of
                 None \<Rightarrow>
                   if fp = [] then
                     Some (PInt (if neg then - int (nat_of_digits ip) else int (nat_of_digits ip)), r2)
                   else
                     let q = rat_of_nat (nat_of_digits (ip @ fp)) / 10 ^ length fp
                     in Some (PFloat (fl (if neg then - q else q)), r2)
               | Some (e, n) \<Rightarrow>
                   let q = rat_of_nat (nat_of_digits (ip @ fp)) * 10 powi (e - int (length fp))
                   in Some (PFloat (fl (if neg then - q else q)), drop n r2)))"

section \<open>Values\<close>

fun is_json_space :: "char \<Rightarrow> bool" where
  "is_json_space c = (c = CHR '' '' \<or> c = CHR 0x09 \<or> c = CHR 0x0A \<or> c = CHR 0x0D)"

definition skip_ws :: "string \<Rightarrow> string" where
  "skip_ws s = dropWhile is_json_space s"

text \<open>The values without structure; the constants are tried before the number pattern.\<close>

definition scan_atom :: "string \<Rightarrow> (pyval \<times> string) res" where
  "scan_atom s =
     (if starts_with s ''null'' then Inr (PNone, drop 4 s)
      else if starts_with s ''true'' then Inr (PBool True, drop 4 s)
      else if starts_with s ''false'' then Inr (PBool False, drop 5 s)
      else (case scan_number s of
              Some (v, r) \<Rightarrow> Inr (v, r)
            | None \<Rightarrow>
                if starts_with s ''NaN'' then Inr (PFloat NaN, drop 3 s)
                else if starts_with s ''Infinity'' then Inr (PFloat PInf, drop 8 s)
                else if starts_with s ''-Infinity'' then Inr (PFloat NInf, drop 9 s)
                else Inl JSONDecodeError))"

text \<open>A quoted key, the colon and the white space around it.\<close>

definition scan_key :: "string \<Rightarrow> (string \<times> string) res" where
  "scan_key s =
     (case s of
        [] \<Rightarrow> Inl JSONDecodeError
      | c # cs \<Rightarrow>
          if c \<noteq> CHR 0x22 then Inl JSONDecodeError
          else rbind (scan_string cs) (\<lambda>(k, r).
            case skip_ws r of
              [] \<Rightarrow> Inl JSONDecodeError
            | d # r1 \<Rightarrow> if d \<noteq> CHR '':'' then Inl JSONDecodeError else Inr (k, skip_ws r1)))"

text \<open>
  \<open>scan_value\<close> reads one value, \<open>scan_members\<close> the members of an object from the opening
  quote of a key, \<open>scan_elements\<close> the elements of an array. The hook turns the list of
  key/value pairs of an object into a dictionary when its closing brace is read.
\<close>

fun scan_value :: "nat \<Rightarrow> (pydict \<Rightarrow> pydict res) \<Rightarrow> string \<Rightarrow> (pyval \<times> string) res"
and scan_members :: "nat \<Rightarrow> (pydict \<Rightarrow> pydict res) \<Rightarrow> pydict \<Rightarrow> string \<Rightarrow> (pyval \<times> string) res"
and scan_elements ::
  "nat \<Rightarrow> (pydict \<Rightarrow> pydict res) \<Rightarrow> pyval list \<Rightarrow> string \<Rightarrow> (pyval \<times> string) res"
where
  "scan_value 0 hook s = Inl OutOfFuel"
| "scan_value (Suc n) hook s =
     (case s of
        [] \<Rightarrow> Inl JSONDecodeError
      | c # cs \<Rightarrow>
          if c = CHR 0x22 then rbind (scan_string cs) (\<lambda>(t, r). Inr (PStr t, r))
          else if c = CHR ''{'' then
            (case skip_ws cs of
               [] \<Rightarrow> Inl JSONDecodeError
             | d # r \<Rightarrow> if d = CHR ''}'' then rbind (hook []) (\<lambda>m. Inr (PDict m, r))
                       else scan_members n hook [] (d # r))
          else if c = CHR ''['' then
            (case skip_ws cs of
               [] \<Rightarrow> Inl JSONDecodeError
             | d # r \<Rightarrow> if d = CHR '']'' then Inr (PList [], r)
                       else scan_elements n hook [] (d # r))
          else scan_atom s)"
| "scan_members 0 hook acc s = Inl OutOfFuel"
| "scan_members (Suc n) hook acc s =
     rbind (scan_key s) (\<lambda>(k, r1). rbind (scan_value n hook r1) (\<lambda>(v, r2).
       case skip_ws r2 of
         [] \<Rightarrow> Inl JSONDecodeError
       | e # r3 \<Rightarrow>
           if e = CHR ''}'' then rbind (hook (rev ((k, v) # acc))) (\<lambda>m. Inr (PDict m, r3))
           else if e = CHR '','' then scan_members n hook ((k, v) # acc) (skip_ws r3)
           else Inl JSONDecodeError))"
| "scan_elements 0 hook acc s = Inl OutOfFuel"
| "scan_elements (Suc n) hook acc s =
     rbind (scan_value n hook s) (\<lambda>(v, r2).
       case skip_ws r2 of
         [] \<Rightarrow> Inl JSONDecodeError
       | e # r3 \<Rightarrow>
           if e = CHR '']'' then Inr (PList (rev (v # acc)), r3)
           else if e = CHR '','' then scan_elements n hook (v # acc) (skip_ws r3)
           else Inl JSONDecodeError)"

text \<open>\<^verbatim>\<open>json.loads(text, object_pairs_hook=hook)\<close>; a byte order mark is refused.\<close>

definition json_loads :: "(pydict \<Rightarrow> pydict res) \<Rightarrow> string \<Rightarrow> pyval res" where
  "json_loads hook s =
     (if starts_with s [CHR 0xEF, CHR 0xBB, CHR 0xBF] then Inl JSONDecodeError
      else rbind (scan_value (2 * length s + 2) hook (skip_ws s)) (\<lambda>(v, r).
        if skip_ws r = [] then Inr v else Inl JSONDecodeError))"

text \<open>Without a hook a later duplicate replaces the earlier value.\<close>

definition plain_hook :: "pydict \<Rightarrow> pydict res" where
  "plain_hook ps = Inr (foldl (\<lambda>d (k, v). aset k v d) [] ps)"

section \<open>The scanner consumes text and has enough fuel\<close>

lemma plain_hook_distinct: "distinct (map fst ps) \<Longrightarrow> plain_hook ps = Inr ps"
proof -
  have aset_new: "k \<notin> fst ` set d \<Longrightarrow> aset k v d = d @ [(k, v)]" for k :: string and v :: pyval and d
    by (induction d) auto
  have "distinct (map fst (acc @ ps)) \<Longrightarrow> foldl (\<lambda>d (k, v). aset k v d) acc ps = acc @ ps" for acc :: pydict
    by (induction ps arbitrary: acc) (auto simp: aset_new)
  from this [of "[]"] show "distinct (map fst ps) \<Longrightarrow> ?thesis" by (simp add: plain_hook_def)
qed

lemma prepend_Inr [py_dest]:
  "prepend p m = Inr (t, r) \<longleftrightarrow> (\<exists>t'. m = Inr (t', r) \<and> t = p @ t')"
  by (auto simp: prepend_def rbind_Inr_iff)

lemma prepend_Inl: "prepend p m = Inl e \<longleftrightarrow> m = Inl e"
  by (auto simp: prepend_def rbind_Inl_iff)

lemma scan_string_shorter: "scan_string s = Inr (t, r) \<Longrightarrow> length r < length s"
proof (induction "length s" arbitrary: s t r rule: less_induct)
  case less
  show ?case
  proof (cases s)
    case Nil
    with less.prems show ?thesis by simp
  next
    case (Cons c cs)
    have IH: "length r < length (drop k cs)" if "scan_string (drop k cs) = Inr (t', r)" for k t'
      by (rule less.hyps [OF _ that]) (simp add: Cons)
    from less.prems Cons show ?thesis
      using IH [of 0] IH [of 1] IH [of 5] IH [of 11]
      by (auto simp: prepend_Inr split: if_splits list.splits option.splits)
  qed
qed

lemma scan_string_error: "e \<noteq> JSONDecodeError \<Longrightarrow> scan_string s \<noteq> Inl e"
proof (induction "length s" arbitrary: s rule: less_induct)
  case less
  show ?case
  proof (cases s)
    case Nil
    with less.prems show ?thesis by simp
  next
    case (Cons c cs)
    have IH: "scan_string (drop k cs) \<noteq> Inl e" for k
      by (rule less.hyps [OF _ less.prems]) (simp add: Cons)
    from less.prems Cons show ?thesis
      using IH [of 0] IH [of 1] IH [of 5] IH [of 11]
      by (auto simp: prepend_Inl split: if_splits list.splits option.splits)
  qed
qed

lemma skip_ws_length: "length (skip_ws s) \<le> length s"
  by (simp add: skip_ws_def length_dropWhile_le)

lemma skip_ws_Cons: "skip_ws s = c # r \<Longrightarrow> length r < length s"
  using skip_ws_length [of s] by simp

lemma scan_number_shorter: "scan_number s = Some (v, r) \<Longrightarrow> length r < length s"
  by (auto simp: scan_number_def Let_def split: list.splits if_splits option.splits prod.splits)

lemma scan_atom_shorter: "scan_atom s = Inr (v, r) \<Longrightarrow> length r < length s"
  by (cases s) (auto simp: scan_atom_def starts_with_def split: if_splits option.splits
      dest: scan_number_shorter)

lemma scan_atom_error: "scan_atom s = Inl e \<Longrightarrow> e = JSONDecodeError"
  by (auto simp: scan_atom_def split: if_splits option.splits)

lemma scan_key_shorter: "scan_key s = Inr (k, r) \<Longrightarrow> length r < length s"
proof -
  assume "scan_key s = Inr (k, r)"
  then obtain c cs q d r1 where
    p: "s = c # cs" "scan_string cs = Inr (k, q)" "skip_ws q = d # r1" "r = skip_ws r1"
    by (auto simp: scan_key_def rbind_Inr_iff case_list_Inr_iff split: if_splits)
  show ?thesis
    using scan_string_shorter [OF p(2)] skip_ws_Cons [OF p(3)] skip_ws_length [of r1] p(1,4) by simp
qed

lemma scan_key_error: "e \<noteq> JSONDecodeError \<Longrightarrow> scan_key s \<noteq> Inl e"
  using scan_string_error [of e]
  by (auto simp: scan_key_def rbind_Inl_iff case_list_Inl_iff split: if_splits)

lemma scan_shorter_all:
  "(\<forall>s v r. scan_value n hook s = Inr (v, r) \<longrightarrow> length r < length s) \<and>
   (\<forall>acc s v r. scan_members n hook acc s = Inr (v, r) \<longrightarrow> length r < length s) \<and>
   (\<forall>acc s v r. scan_elements n hook acc s = Inr (v, r) \<longrightarrow> length r < length s)"
proof (induction n)
  case 0
  show ?case by simp
next
  case (Suc n)
  then have IV: "\<And>s v r. scan_value n hook s = Inr (v, r) \<Longrightarrow> length r < length s"
    and IM: "\<And>acc s v r. scan_members n hook acc s = Inr (v, r) \<Longrightarrow> length r < length s"
    and IE: "\<And>acc s v r. scan_elements n hook acc s = Inr (v, r) \<Longrightarrow> length r < length s"
    by blast+
  have V: "length r < length s" if "scan_value (Suc n) hook s = Inr (v, r)" for s v r
  proof (cases s)
    case Nil
    with that show ?thesis by simp
  next
    case (Cons c cs)
    from that Cons consider
        (str) t where "scan_string cs = Inr (t, r)"
      | (empty) d where "skip_ws cs = d # r"
      | (mem) d q where "skip_ws cs = d # q" "scan_members n hook [] (d # q) = Inr (v, r)"
      | (elem) d q where "skip_ws cs = d # q" "scan_elements n hook [] (d # q) = Inr (v, r)"
      | (atom) "scan_atom s = Inr (v, r)"
      by (auto simp: rbind_Inr_iff case_list_Inr_iff split: if_splits)
    then show ?thesis
    proof cases
      case str
      from scan_string_shorter [OF this] Cons show ?thesis by simp
    next
      case empty
      from skip_ws_Cons [OF this] Cons show ?thesis by simp
    next
      case mem
      from skip_ws_Cons [OF mem(1)] IM [OF mem(2)] Cons show ?thesis by simp
    next
      case elem
      from skip_ws_Cons [OF elem(1)] IE [OF elem(2)] Cons show ?thesis by simp
    next
      case atom
      then show ?thesis by (rule scan_atom_shorter)
    qed
  qed
  have M: "length r < length s" if m: "scan_members (Suc n) hook acc s = Inr (v, r)" for acc s v r
  proof -
    from m obtain k r1 w r2 e r3 where
      p: "scan_key s = Inr (k, r1)" "scan_value n hook r1 = Inr (w, r2)" "skip_ws r2 = e # r3"
      and e: "r = r3 \<or> scan_members n hook ((k, w) # acc) (skip_ws r3) = Inr (v, r)"
      by (auto simp: rbind_Inr_iff case_list_Inr_iff split: if_splits)
    show ?thesis
      using scan_key_shorter [OF p(1)] IV [OF p(2)] skip_ws_Cons [OF p(3)] e IM
        skip_ws_length [of r3] by fastforce
  qed
  have E: "length r < length s" if m: "scan_elements (Suc n) hook acc s = Inr (v, r)" for acc s v r
  proof -
    from m obtain w r2 e r3 where
      p: "scan_value n hook s = Inr (w, r2)" "skip_ws r2 = e # r3"
      and e: "r = r3 \<or> scan_elements n hook (w # acc) (skip_ws r3) = Inr (v, r)"
      by (auto simp: rbind_Inr_iff case_list_Inr_iff split: if_splits)
    show ?thesis
      using IV [OF p(1)] skip_ws_Cons [OF p(2)] e IE skip_ws_length [of r3] by fastforce
  qed
  from V M E show ?case by blast
qed

lemmas scan_value_shorter = scan_shorter_all [THEN conjunct1, rule_format]


text \<open>With this much fuel the scanner never stops for lack of it.\<close>

lemma scan_fuel_all:
  assumes hook: "\<And>ps. hook ps \<noteq> Inl OutOfFuel"
  shows
  "(\<forall>s. 2 * length s < n \<longrightarrow> scan_value n hook s \<noteq> Inl OutOfFuel) \<and>
   (\<forall>acc s. 2 * length s < n \<longrightarrow> scan_members n hook acc s \<noteq> Inl OutOfFuel) \<and>
   (\<forall>acc s. 2 * length s + 1 < n \<longrightarrow> scan_elements n hook acc s \<noteq> Inl OutOfFuel)"
proof (induction n)
  case 0
  show ?case by simp
next
  case (Suc n)
  then have IV: "\<And>s. 2 * length s < n \<Longrightarrow> scan_value n hook s \<noteq> Inl OutOfFuel"
    and IM: "\<And>acc s. 2 * length s < n \<Longrightarrow> scan_members n hook acc s \<noteq> Inl OutOfFuel"
    and IE: "\<And>acc s. 2 * length s + 1 < n \<Longrightarrow> scan_elements n hook acc s \<noteq> Inl OutOfFuel"
    by blast+
  have S: "scan_string t \<noteq> Inl OutOfFuel" for t by (rule scan_string_error) simp
  have A: "scan_atom t \<noteq> Inl OutOfFuel" for t using scan_atom_error by blast
  have V: "scan_value (Suc n) hook s \<noteq> Inl OutOfFuel" if l: "2 * length s < Suc n" for s
  proof (cases s)
    case Nil
    then show ?thesis by simp
  next
    case (Cons c cs)
    have R: "scan_members n hook [] (d # q) \<noteq> Inl OutOfFuel"
        "scan_elements n hook [] (d # q) \<noteq> Inl OutOfFuel" if "skip_ws cs = d # q" for d q
      using skip_ws_length [of cs] that l Cons by (auto intro!: IM IE)
    from Cons R S hook A show ?thesis
      by (auto simp: rbind_Inl_iff case_list_Inl_iff split: if_splits)
  qed
  have M: "scan_members (Suc n) hook acc s \<noteq> Inl OutOfFuel" if l: "2 * length s < Suc n" for acc s
  proof
    assume m: "scan_members (Suc n) hook acc s = Inl OutOfFuel"
    have "scan_key s \<noteq> Inl OutOfFuel" by (rule scan_key_error) simp
    with m obtain k r1 where p: "scan_key s = Inr (k, r1)" by (auto simp: rbind_Inl_iff)
    then have len: "length r1 < length s" by (rule scan_key_shorter)
    with l IV have "scan_value n hook r1 \<noteq> Inl OutOfFuel" by simp
    with m p hook obtain w r2 e r3 where
      q: "scan_value n hook r1 = Inr (w, r2)" "skip_ws r2 = e # r3"
      "scan_members n hook ((k, w) # acc) (skip_ws r3) = Inl OutOfFuel"
      by (auto simp: rbind_Inl_iff case_list_Inl_iff split: if_splits)
    have "length (skip_ws r3) < length s"
      using len scan_value_shorter [OF q(1)] skip_ws_Cons [OF q(2)] skip_ws_length [of r3] by simp
    with l IM q(3) show False by simp
  qed
  have E: "scan_elements (Suc n) hook acc s \<noteq> Inl OutOfFuel" if l: "2 * length s + 1 < Suc n" for acc s
  proof
    assume "scan_elements (Suc n) hook acc s = Inl OutOfFuel"
    with IV l obtain w r2 e r3 where
      q: "scan_value n hook s = Inr (w, r2)" "skip_ws r2 = e # r3"
      "scan_elements n hook (w # acc) (skip_ws r3) = Inl OutOfFuel"
      by (auto simp: rbind_Inl_iff case_list_Inl_iff split: if_splits)
    have "length (skip_ws r3) < length s"
      using scan_value_shorter [OF q(1)] skip_ws_Cons [OF q(2)] skip_ws_length [of r3] by simp
    with l IE q(3) show False by simp
  qed
  from V M E show ?case by blast
qed

lemma json_loads_fuel:
  assumes "\<And>ps. hook ps \<noteq> Inl OutOfFuel"
  shows "json_loads hook s \<noteq> Inl OutOfFuel"
proof -
  have "2 * length (skip_ws s) < 2 * length s + 2" using skip_ws_length [of s] by simp
  then have "scan_value (2 * length s + 2) hook (skip_ws s) \<noteq> Inl OutOfFuel"
    using scan_fuel_all [of hook "2 * length s + 2"] assms by blast
  then show ?thesis by (auto simp: json_loads_def rbind_Inl_iff)
qed

section \<open>Round trip\<close>

definition escape_out :: "char \<Rightarrow> string" where
  "escape_out c =
     (if c = CHR 0x22 then [CHR 0x5C, CHR 0x22] else if c = CHR 0x5C then [CHR 0x5C, CHR 0x5C]
      else if c = CHR 0x08 then [CHR 0x5C, CHR ''b''] else if c = CHR 0x0C then [CHR 0x5C, CHR ''f'']
      else if c = CHR 0x0A then [CHR 0x5C, CHR ''n''] else if c = CHR 0x0D then [CHR 0x5C, CHR ''r'']
      else if c = CHR 0x09 then [CHR 0x5C, CHR ''t'']
      else if ord c < 32 then
        [CHR 0x5C, CHR ''u'', CHR ''0'', CHR ''0'',
         ''0123456789abcdef'' ! (ord c div 16), ''0123456789abcdef'' ! (ord c mod 16)]
      else [c])"

definition json_string :: "string \<Rightarrow> string" where
  "json_string s = CHR 0x22 # concat (map escape_out s) @ [CHR 0x22]"

fun join_comma :: "string list \<Rightarrow> string" where
  "join_comma [] = []"
| "join_comma [x] = x"
| "join_comma (x # y # r) = x @ CHR '','' # join_comma (y # r)"

text \<open>
  \<^verbatim>\<open>json.dumps(v, separators=(",", ":"), ensure_ascii=False)\<close> for values without floats
  (the text of a float is the shortest decimal that rounds to it, which is not modelled).
\<close>

fun json_compact :: "pyval \<Rightarrow> string" where
  "json_compact PNone = ''null''"
| "json_compact (PBool b) = (if b then ''true'' else ''false'')"
| "json_compact (PInt i) = show_int i"
| "json_compact (PFloat f) = []"
| "json_compact (PStr s) = json_string s"
| "json_compact (PList vs) = CHR ''['' # join_comma (map json_compact vs) @ '']''"
| "json_compact (PDict d) =
     CHR ''{'' # join_comma (map (\<lambda>(k, v). json_string k @ CHR '':'' # json_compact v) d) @ ''}''"

fun plain_json :: "pyval \<Rightarrow> bool" where
  "plain_json (PFloat f) = False"
| "plain_json (PList vs) = list_all plain_json vs"
| "plain_json (PDict d) = (distinct (map fst d) \<and> list_all (\<lambda>(k, v). plain_json v) d)"
| "plain_json (PInt i) = True"
| "plain_json (PStr s) = True"
| "plain_json PNone = True"
| "plain_json (PBool b) = True"

lemma control_escape:
  "ord c < 32 \<Longrightarrow> hex4 (CHR ''0'' # CHR ''0'' # ''0123456789abcdef'' ! (ord c div 16)
      # ''0123456789abcdef'' ! (ord c mod 16) # r) = Some (ord c)"
proof -
  assume "ord c < 32"
  moreover have "hex_val (''0123456789abcdef'' ! n) = Some n" if "n < 16" for n
  proof -
    have "\<forall>k\<in>set [0..<16]. hex_val (''0123456789abcdef'' ! k) = Some k" by code_simp
    with that show ?thesis by simp
  qed
  moreover have "hex_val (CHR ''0'') = Some 0" by (simp add: hex_val_def)
  ultimately show ?thesis by simp
qed

lemma scan_string_escape_out:
  "scan_string (escape_out c @ r) = prepend [c] (scan_string r)"
proof (cases "ord c < 32")
  case True
  then have "utf8_of (ord c) = [c]" by (simp add: utf8_of_def)
  with True control_escape [OF True, of r] show ?thesis
    by (auto simp: escape_out_def escape_char_def)
next
  case False
  then show ?thesis by (auto simp: escape_out_def escape_char_def)
qed

lemma scan_string_json_string:
  "scan_string (concat (map escape_out s) @ CHR 0x22 # r) = Inr (s, r)"
  by (induction s) (simp_all add: scan_string_escape_out prepend_def)

definition delimited :: "string \<Rightarrow> bool" where
  "delimited r \<longleftrightarrow> (case r of [] \<Rightarrow> True | c # _ \<Rightarrow> c \<in> {CHR '','', CHR '']'', CHR ''}''})"

lemma delimited_simps [simp]:
  "delimited []" "delimited (CHR '','' # r)" "delimited (CHR '']'' # r)" "delimited (CHR ''}'' # r)"
  by (simp_all add: delimited_def)

lemma delimited_no_digit: "delimited r \<Longrightarrow> digits_of (ds @ r) = digits_of ds"
  by (induction ds) (auto simp: delimited_def digits_of_def split: list.splits)

lemma delimited_no_frac: "delimited r \<Longrightarrow> frac_part r = [] \<and> exp_part r = None"
  by (auto simp: delimited_def frac_part_def exp_part_def split: list.splits)

lemma digits_of_show: "digits_of (show_nat n) = show_nat n"
  using show_nat_digits [of n] by (simp add: digits_of_def takeWhile_eq_all_conv list_all_iff)

lemma show_nat_head:
  "\<exists>c cs. show_nat n = c # cs \<and> is_digit c \<and> (c = CHR ''0'' \<longrightarrow> n = 0 \<and> cs = [])"
proof (induction n rule: show_nat.induct)
  case (1 n)
  show ?case
  proof (cases "n < 10")
    case True
    have "\<forall>k\<in>set [0..<10]. ''0123456789'' ! k = CHR ''0'' \<longrightarrow> k = 0" by code_simp
    with True show ?thesis
      by (subst show_nat.simps) (auto simp del: is_digit.simps)
  next
    case False
    with "1.IH" obtain c cs where
      c: "show_nat (n div 10) = c # cs" "is_digit c" "c = CHR ''0'' \<longrightarrow> n div 10 = 0 \<and> cs = []"
      by blast
    with False show ?thesis by (subst show_nat.simps) (auto simp: div_eq_0_iff simp del: is_digit.simps)
  qed
qed

lemma scan_number_nat:
  assumes "delimited r"
  shows "scan_number (show_nat n @ r) = Some (PInt (int n), r)"
    and "scan_number (CHR ''-'' # show_nat n @ r) = Some (PInt (- int n), r)"
proof -
  obtain c cs where c: "show_nat n = c # cs" "is_digit c" "c = CHR ''0'' \<longrightarrow> n = 0 \<and> cs = []"
    using show_nat_head by blast
  have d: "digits_of (c # cs @ r) = c # cs"
    using delimited_no_digit [OF assms, of "show_nat n"] digits_of_show [of n] c(1) by simp
  have v: "nat_of_digits (c # cs) = n" using nat_of_digits_show [of n] c(1) by simp
  from c(2) have "c \<noteq> CHR ''-''" by auto
  with c d v delimited_no_frac [OF assms] show
    "scan_number (show_nat n @ r) = Some (PInt (int n), r)"
    "scan_number (CHR ''-'' # show_nat n @ r) = Some (PInt (- int n), r)"
    by (auto simp: scan_number_def Let_def)
qed

text \<open>Fuel that the scanner needs for a printed value.\<close>

fun fuel_need :: "pyval \<Rightarrow> nat" where
  "fuel_need (PList vs) = 2 + sum_list (map (\<lambda>v. Suc (fuel_need v)) vs)"
| "fuel_need (PDict d) = 2 + sum_list (map (\<lambda>(k, v). Suc (fuel_need v)) d)"
| "fuel_need v = 1"

lemma json_compact_head:
  "plain_json v \<Longrightarrow> \<exists>c cs. json_compact v = c # cs \<and> \<not> is_json_space c \<and> c \<noteq> CHR '']'' \<and> c \<noteq> CHR ''}''"
  using show_nat_head [of "nat \<bar>case v of PInt i \<Rightarrow> i | _ \<Rightarrow> 0\<bar>"]
  by (cases v) (auto simp: json_string_def show_int_def abs_if split: if_splits)

lemma skip_ws_noop: "\<not> is_json_space c \<Longrightarrow> skip_ws (c # cs) = c # cs"
  by (simp add: skip_ws_def)

lemma delimited_skip_ws: "delimited r \<Longrightarrow> skip_ws r = r"
  by (auto simp: delimited_def skip_ws_def split: list.splits)

lemma skip_ws_compact: "plain_json v \<Longrightarrow> skip_ws (json_compact v @ r) = json_compact v @ r"
  using json_compact_head [of v] by (auto simp: skip_ws_def)

lemma join_comma_Cons: "join_comma (x # xs) = x @ (if xs = [] then [] else CHR '','' # join_comma xs)"
  by (cases xs) simp_all

lemma join_comma_length: "length (join_comma xs) + 1 \<ge> sum_list (map length xs) + length xs"
  by (induction xs rule: join_comma.induct) auto

lemma fuel_need_bound: "plain_json v \<Longrightarrow> fuel_need v \<le> 2 * length (json_compact v)"
proof (induction v rule: plain_json.induct)
  case (2 vs)
  have "(\<Sum>v\<leftarrow>vs. Suc (fuel_need v)) \<le> (\<Sum>v\<leftarrow>vs. Suc (2 * length (json_compact v)))"
    using 2 by (intro sum_list_mono) (auto simp: list_all_iff)
  also have "\<dots> = 2 * sum_list (map length (map json_compact vs)) + length vs"
    by (induction vs) auto
  finally show ?case using join_comma_length [of "map json_compact vs"] by (auto simp: comp_def)
next
  case (3 d)
  let ?f = "\<lambda>(k, v). json_string k @ CHR '':'' # json_compact v"
  have "(\<Sum>p\<leftarrow>d. case p of (k, v) \<Rightarrow> Suc (fuel_need v)) \<le> (\<Sum>p\<leftarrow>d. 2 * length (?f p))"
    using 3 by (intro sum_list_mono) (force simp: list_all_iff)
  also have "\<dots> = 2 * sum_list (map length (map ?f d))"
    by (induction d) auto
  finally show ?case using join_comma_length [of "map ?f d"] by (auto simp: comp_def)
qed (auto simp: json_string_def show_int_def Suc_le_eq)

lemma scan_atom_show_int:
  assumes "delimited r"
  shows "scan_atom (show_int i @ r) = Inr (PInt i, r)"
proof -
  have num: "scan_number (show_int i @ r) = Some (PInt i, r)"
    using scan_number_nat [OF assms] by (auto simp: show_int_def)
  obtain c cs where "show_nat (nat \<bar>i\<bar>) = c # cs" "is_digit c" using show_nat_head by blast
  then have "\<exists>c cs. show_int i = c # cs \<and> (is_digit c \<or> c = CHR ''-'')"
    by (auto simp: show_int_def abs_if split: if_splits)
  then show ?thesis using num by (auto simp: scan_atom_def starts_with_def)
qed

lemma scan_atom_null: "scan_atom (''null'' @ r) = Inr (PNone, r)"
  by (simp add: scan_atom_def starts_with_def)

lemma scan_atom_bool:
  "scan_atom ((if b then ''true'' else ''false'') @ r) = Inr (PBool b, r)"
  by (simp add: scan_atom_def starts_with_def)

text \<open>Elements and members, given the round trip of the values they hold.\<close>

lemma scan_elements_compact:
  assumes "\<And>v m r. v \<in> set vs \<Longrightarrow> fuel_need v \<le> m \<Longrightarrow> delimited r \<Longrightarrow>
             scan_value m hook (json_compact v @ r) = Inr (v, r)"
    and "list_all plain_json vs" and "vs \<noteq> []"
    and "1 + sum_list (map (\<lambda>v. Suc (fuel_need v)) vs) \<le> n"
  shows "scan_elements n hook acc (join_comma (map json_compact vs) @ CHR '']'' # r)
           = Inr (PList (rev acc @ vs), r)"
  using assms
proof (induction vs arbitrary: n acc)
  case Nil
  then show ?case by simp
next
  case (Cons v vs)
  then obtain m where n: "n = Suc m" "fuel_need v \<le> m" by (cases n) auto
  show ?case
  proof (cases "vs = []")
    case True
    with n Cons.prems(1) [of v m "CHR '']'' # r"] show ?thesis
      by (simp add: delimited_skip_ws)
  next
    case False
    then obtain w ws where vs: "vs = w # ws" by (cases vs) auto
    have "skip_ws (join_comma (map json_compact vs) @ q) = join_comma (map json_compact vs) @ q" for q
      using Cons.prems(2) vs by (simp add: join_comma_Cons skip_ws_compact)
    moreover have "scan_elements m hook (v # acc) (join_comma (map json_compact vs) @ CHR '']'' # r)
        = Inr (PList (rev (v # acc) @ vs), r)"
      by (rule Cons.IH) (use Cons.prems n False in auto)
    ultimately show ?thesis
      using n Cons.prems(1) [of v m "CHR '','' # join_comma (map json_compact vs) @ CHR '']'' # r"] False
      by (simp add: join_comma_Cons delimited_skip_ws)
  qed
qed

lemma scan_key_json_string:
  "plain_json v \<Longrightarrow> scan_key (json_string k @ CHR '':'' # json_compact v @ r) = Inr (k, json_compact v @ r)"
  by (simp add: scan_key_def json_string_def scan_string_json_string skip_ws_noop skip_ws_compact)

lemma scan_members_compact:
  assumes "\<And>k v m r. (k, v) \<in> set d \<Longrightarrow> fuel_need v \<le> m \<Longrightarrow> delimited r \<Longrightarrow>
             scan_value m hook (json_compact v @ r) = Inr (v, r)"
    and "list_all (\<lambda>(k, v). plain_json v) d" and "d \<noteq> []"
    and "1 + sum_list (map (\<lambda>(k, v). Suc (fuel_need v)) d) \<le> n"
    and "hook (rev acc @ d) = Inr (rev acc @ d)"
  shows "scan_members n hook acc
           (join_comma (map (\<lambda>(k, v). json_string k @ CHR '':'' # json_compact v) d) @ CHR ''}'' # r)
           = Inr (PDict (rev acc @ d), r)"
  using assms
proof (induction d arbitrary: n acc)
  case Nil
  then show ?case by simp
next
  case (Cons p d)
  obtain k v where p: "p = (k, v)" by (cases p)
  let ?f = "\<lambda>(k, v). json_string k @ CHR '':'' # json_compact v"
  from Cons.prems(4) p obtain m where n: "n = Suc m" "fuel_need v \<le> m" by (cases n) auto
  from Cons.prems(2) p have pv: "plain_json v" by simp
  show ?case
  proof (cases "d = []")
    case True
    with n p pv Cons.prems(1) [of k v m "CHR ''}'' # r"] Cons.prems(5) show ?thesis
      by (simp add: scan_key_json_string delimited_skip_ws)
  next
    case False
    then obtain w ws where d: "d = w # ws" by (cases d) auto
    have sk: "skip_ws (join_comma (map ?f d) @ q) = join_comma (map ?f d) @ q" for q
      using d by (cases w) (simp add: join_comma_Cons json_string_def skip_ws_noop)
    have rec: "scan_members m hook ((k, v) # acc) (join_comma (map ?f d) @ CHR ''}'' # r)
        = Inr (PDict (rev ((k, v) # acc) @ d), r)"
      by (rule Cons.IH) (use Cons.prems n False p in auto)
    show ?thesis
      using n p pv sk rec False Cons.prems(1) [of k v m "CHR '','' # join_comma (map ?f d) @ CHR ''}'' # r"]
      by (simp add: join_comma_Cons scan_key_json_string delimited_skip_ws)
  qed
qed

lemma scan_value_compact:
  assumes hook: "\<And>ps. distinct (map fst ps) \<Longrightarrow> hook ps = Inr ps"
  shows "plain_json v \<Longrightarrow> fuel_need v \<le> n \<Longrightarrow> delimited r \<Longrightarrow>
           scan_value n hook (json_compact v @ r) = Inr (v, r)"
proof (induction v arbitrary: n r rule: plain_json.induct)
  case (2 vs)
  then obtain m where n: "n = Suc m" by (cases n) auto
  show ?case
  proof (cases "vs = []")
    case True
    with n show ?thesis by (simp add: skip_ws_noop)
  next
    case False
    then obtain w ws where "vs = w # ws" by (cases vs) auto
    with 2 obtain c cs where c: "join_comma (map json_compact vs) @ CHR '']'' # r = c # cs"
        "\<not> is_json_space c" "c \<noteq> CHR '']''"
      using json_compact_head [of w] by (auto simp: join_comma_Cons)
    have "scan_elements m hook [] (join_comma (map json_compact vs) @ CHR '']'' # r)
        = Inr (PList (rev [] @ vs), r)"
      by (rule scan_elements_compact) (use 2 n False in \<open>auto simp: list_all_iff\<close>)
    with n c show ?thesis by (simp add: skip_ws_noop del: is_json_space.simps)
  qed
next
  case (3 d)
  let ?f = "\<lambda>(k, v). json_string k @ CHR '':'' # json_compact v"
  from 3 obtain m where n: "n = Suc m" by (cases n) auto
  show ?case
  proof (cases "d = []")
    case True
    with n hook [of "[]"] show ?thesis by (simp add: skip_ws_noop)
  next
    case False
    then obtain k v ws where "d = (k, v) # ws" by (cases d) auto
    then obtain cs where c: "join_comma (map ?f d) @ CHR ''}'' # r = CHR 0x22 # cs"
      by (simp add: join_comma_Cons json_string_def)
    have "scan_members m hook [] (join_comma (map ?f d) @ CHR ''}'' # r) = Inr (PDict (rev [] @ d), r)"
      by (rule scan_members_compact) (use 3 n False hook in \<open>auto simp: list_all_iff\<close>)
    with n c show ?thesis by (simp add: skip_ws_noop)
  qed
next
  case (4 i)
  obtain c cs where "show_nat (nat \<bar>i\<bar>) = c # cs" "is_digit c" using show_nat_head by blast
  then have "\<exists>c cs. show_int i = c # cs \<and> (is_digit c \<or> c = CHR ''-'')"
    by (auto simp: show_int_def abs_if split: if_splits)
  with 4 scan_atom_show_int [of r i] show ?case by (cases n) auto
next
  case (5 s)
  then show ?case by (cases n) (auto simp: json_string_def scan_string_json_string)
next
  case 6
  then show ?case by (cases n) (simp_all add: scan_atom_null [simplified])
next
  case (7 b)
  then show ?case by (cases n) (simp_all add: scan_atom_bool [where b = True, simplified] scan_atom_bool [where b = False, simplified])
qed simp

text \<open>The loader inverts the compact printer on float-free values.\<close>

lemma json_loads_compact:
  assumes "\<And>ps. distinct (map fst ps) \<Longrightarrow> hook ps = Inr ps" and "plain_json v"
  shows "json_loads hook (json_compact v) = Inr v"
proof -
  obtain c cs where c: "json_compact v = c # cs" "\<not> is_json_space c"
    using json_compact_head [OF assms(2)] by blast
  have "scan_value (2 * length (json_compact v) + 2) hook (json_compact v @ []) = Inr (v, [])"
    using assms fuel_need_bound [OF assms(2)] by (intro scan_value_compact) auto
  moreover have "\<not> starts_with (json_compact v) [CHR 0xEF, CHR 0xBB, CHR 0xBF]"
    using show_nat_head [of "nat \<bar>case v of PInt i \<Rightarrow> i | _ \<Rightarrow> 0\<bar>"] assms(2)
    by (cases v) (auto simp: json_string_def show_int_def abs_if starts_with_def split: if_splits)
  ultimately show ?thesis
    using skip_ws_compact [OF assms(2), of "[]"] by (simp add: json_loads_def skip_ws_def)
qed

text \<open>Printed values stay on one line: control characters in strings are escaped.\<close>

definition printable :: "string \<Rightarrow> bool" where
  "printable s = list_all (\<lambda>c. 32 \<le> ord c) s"

lemma printable_simps [simp]:
  "printable []" "printable (c # s) \<longleftrightarrow> 32 \<le> ord c \<and> printable s"
  "printable (s @ t) \<longleftrightarrow> printable s \<and> printable t"
  by (simp_all add: printable_def)

lemma printable_no_break: "printable s \<Longrightarrow> CHR 0x0A \<notin> set s \<and> CHR 0x0D \<notin> set s"
  by (auto simp: printable_def list_all_iff)

lemma printable_hex_digit: "n < 16 \<Longrightarrow> 32 \<le> ord (''0123456789abcdef'' ! n)"
proof -
  have "\<forall>k\<in>set [0..<16]. 32 \<le> ord (''0123456789abcdef'' ! k)" by code_simp
  then show "n < 16 \<Longrightarrow> ?thesis" by simp
qed

lemma printable_json_string: "printable (json_string s)"
proof -
  have "printable (escape_out c)" for c
    by (auto simp: escape_out_def printable_hex_digit)
  then have "printable (concat (map escape_out s))" by (induction s) simp_all
  then show ?thesis by (simp add: json_string_def)
qed

lemma printable_show_nat: "printable (show_nat n)"
  using show_nat_digits [of n] by (auto simp: printable_def list_all_iff)

lemma printable_join: "\<forall>x\<in>set xs. printable x \<Longrightarrow> printable (join_comma xs)"
  by (induction xs rule: join_comma.induct) auto

lemma json_compact_printable: "printable (json_compact v)"
proof (induction v rule: json_compact.induct)
  case (6 vs)
  then have "printable (join_comma (map json_compact vs))" by (intro printable_join) auto
  then show ?case by simp
next
  case (7 d)
  then have "printable (join_comma (map (\<lambda>(k, v). json_string k @ CHR '':'' # json_compact v) d))"
    by (intro printable_join) (auto simp: printable_json_string)
  then show ?case by simp
qed (auto simp: printable_json_string printable_show_nat show_int_def)

end
