(* ===== verification/Strict_Json.thy ===== *)
theory Strict_Json
  imports Py_Json
begin

text \<open>
  The strict JSON loaders of the two-guest and the two-node runners and the record
  extractors built on them: \<^verbatim>\<open>_reject_duplicate_pairs\<close>, \<^verbatim>\<open>_strict_json_object\<close>,
  \<^verbatim>\<open>parse_guest_records\<close> (scripts/cxl_bi_app.py), \<^verbatim>\<open>strict_json_loads\<close> and
  \<^verbatim>\<open>parse_prefixed_records\<close> (scripts/legofs_type3_2node.py). Console text comes in as a
  string, records go out as dictionaries. The lemmas show that what the strict loaders
  accept has no duplicate key at any depth, that they invert the compact printer, and
  which records the extractors return.
\<close>

section \<open>Duplicate keys\<close>

definition reject_step :: "pydict \<Rightarrow> string \<times> pyval \<Rightarrow> pydict res" where
  "reject_step result p =
     (if fst p \<in> fst ` set result then Inl (ValueError (''duplicate JSON key: '' @ fst p))
      else Inr (aset (fst p) (snd p) result))"

definition reject_duplicate_pairs :: "pydict \<Rightarrow> pydict res" where
  "reject_duplicate_pairs pairs = rfold reject_step [] pairs"

definition strict_json_object :: "string \<Rightarrow> string \<Rightarrow> pydict res" where
  "strict_json_object text description =
     (case json_loads reject_duplicate_pairs text of
        Inl e \<Rightarrow> if e = JSONDecodeError then Inl (ValueError (''invalid '' @ description)) else Inl e
      | Inr (PDict value) \<Rightarrow> Inr value
      | Inr _ \<Rightarrow> Inl (ValueError (description @ '' must be a JSON object'')))"

definition strict_json_loads :: "string \<Rightarrow> pydict res" where
  "strict_json_loads text =
     (case json_loads reject_duplicate_pairs text of
        Inl e \<Rightarrow> if e = JSONDecodeError then Inl (ValueError ''invalid JSON evidence'') else Inl e
      | Inr (PDict value) \<Rightarrow> Inr value
      | Inr _ \<Rightarrow> Inl (ValueError ''JSON evidence must be an object''))"

section \<open>Records in console text\<close>

definition RECORD_PREFIX :: string where
  "RECORD_PREFIX = ''CXLBI_JSON ''"

definition TRACE_SCHEMA_VERSION :: int where
  "TRACE_SCHEMA_VERSION = 1"

text \<open>
  A line yields no record, one record, or an exception; an iteration of the loop over the
  lines appends what the line yields.
\<close>

definition guest_line_records :: "string \<Rightarrow> pydict list res" where
  "guest_line_records line =
     (case find_sub RECORD_PREFIX line of
        None \<Rightarrow> Inr []
      | Some marker \<Rightarrow>
          rbind (strict_json_object (strip (drop (marker + length RECORD_PREFIX) line))
                   ''guest JSON record'') (\<lambda>record.
          if \<not> py_eq (dget record ''schema_version'') (PInt TRACE_SCHEMA_VERSION)
          then Inl (ValueError ''unsupported guest record schema'')
          else if \<not> is_str (dget record ''event'') \<or> \<not> truthy (dget record ''event'')
          then Inl (ValueError ''guest record event must be a nonempty string'')
          else Inr [record]))"

definition extract_lines :: "(string \<Rightarrow> 'r list res) \<Rightarrow> string list \<Rightarrow> 'r list res" where
  "extract_lines line_records lines =
     rfold (\<lambda>records line. rbind (line_records line) (\<lambda>rs. Inr (records @ rs))) [] lines"

definition parse_guest_records :: "string \<Rightarrow> pydict list res" where
  "parse_guest_records text = extract_lines guest_line_records (splitlines text)"

definition prefixed_line_records :: "string \<Rightarrow> string \<Rightarrow> string \<Rightarrow> pydict list res" where
  "prefixed_line_records prefix schema raw_line =
     (let marker = prefix @ '' ''; line = strip raw_line
      in if \<not> starts_with line marker then Inr []
         else rbind (strict_json_loads (drop (length marker) line)) (\<lambda>record.
              if \<not> py_eq (dget record ''schema_version'') (PStr schema)
              then Inl (ValueError (''unsupported '' @ prefix @ '' schema''))
              else Inr [record]))"

definition parse_prefixed_records :: "string \<Rightarrow> string \<Rightarrow> string \<Rightarrow> pydict list res" where
  "parse_prefixed_records output prefix schema =
     extract_lines (prefixed_line_records prefix schema) (splitlines output)"

section \<open>Accepted documents have no duplicate keys\<close>

lemma aset_fresh: "k \<notin> fst ` set d \<Longrightarrow> aset k v d = d @ [(k, v)]"
  by (induction k v d rule: aset.induct) auto

lemma reject_loop_Inr:
  "distinct (map fst acc) \<Longrightarrow>
     rfold reject_step acc ps = Inr d \<longleftrightarrow> distinct (map fst (acc @ ps)) \<and> d = acc @ ps"
proof (induction ps arbitrary: acc)
  case Nil
  then show ?case by auto
next
  case (Cons p ps)
  show ?case
  proof (cases "fst p \<in> fst ` set acc")
    case True
    then show ?thesis by (auto simp: reject_step_def)
  next
    case False
    with Cons.prems have "distinct (map fst (acc @ [p]))" by auto
    from Cons.IH [OF this] False show ?thesis by (simp add: reject_step_def aset_fresh)
  qed
qed

lemma reject_duplicate_pairs_Inr:
  "reject_duplicate_pairs ps = Inr d \<longleftrightarrow> distinct (map fst ps) \<and> d = ps"
  by (simp add: reject_duplicate_pairs_def reject_loop_Inr)

lemma reject_loop_Inl: "rfold reject_step acc ps = Inl e \<Longrightarrow> \<exists>k. e = ValueError (''duplicate JSON key: '' @ k)"
  by (induction ps arbitrary: acc)
     (auto simp: rbind_Inl_iff reject_step_def split: if_splits)

lemma reject_duplicate_pairs_no_fuel: "reject_duplicate_pairs ps \<noteq> Inl OutOfFuel"
  unfolding reject_duplicate_pairs_def by (auto dest: reject_loop_Inl)

text \<open>No dictionary inside the value repeats a key.\<close>

fun unique_keys :: "pyval \<Rightarrow> bool" where
  "unique_keys (PList vs) = list_all unique_keys vs"
| "unique_keys (PDict d) = (distinct (map fst d) \<and> list_all (\<lambda>(k, v). unique_keys v) d)"
| "unique_keys v = True"

lemma scan_atom_unique: "scan_atom s = Inr (v, r) \<Longrightarrow> unique_keys v"
  by (auto simp: scan_atom_def scan_number_def Let_def
      split: if_splits option.splits list.splits prod.splits)

lemma scan_unique_all:
  "(\<forall>s v r. scan_value n reject_duplicate_pairs s = Inr (v, r) \<longrightarrow> unique_keys v) \<and>
   (\<forall>acc s v r. list_all (\<lambda>(k, v). unique_keys v) acc \<longrightarrow>
      scan_members n reject_duplicate_pairs acc s = Inr (v, r) \<longrightarrow> unique_keys v) \<and>
   (\<forall>acc s v r. list_all unique_keys acc \<longrightarrow>
      scan_elements n reject_duplicate_pairs acc s = Inr (v, r) \<longrightarrow> unique_keys v)"
proof (induction n)
  case 0
  show ?case by simp
next
  case (Suc n)
  let ?h = reject_duplicate_pairs
  from Suc have IV: "\<And>s v r. scan_value n ?h s = Inr (v, r) \<Longrightarrow> unique_keys v"
    and IM: "\<And>acc s v r. list_all (\<lambda>(k, v). unique_keys v) acc \<Longrightarrow>
               scan_members n ?h acc s = Inr (v, r) \<Longrightarrow> unique_keys v"
    and IE: "\<And>acc s v r. list_all unique_keys acc \<Longrightarrow>
               scan_elements n ?h acc s = Inr (v, r) \<Longrightarrow> unique_keys v"
    by blast+
  have V: "unique_keys v" if "scan_value (Suc n) ?h s = Inr (v, r)" for s v r
    using that IM [of "[]"] IE [of "[]"]
    by (auto simp: rbind_Inr_iff case_list_Inr_iff reject_duplicate_pairs_Inr
        split: if_splits dest: scan_atom_unique)
  have M: "unique_keys v" if acc: "list_all (\<lambda>(k, v). unique_keys v) acc"
      and m: "scan_members (Suc n) ?h acc s = Inr (v, r)" for acc s v r
  proof -
    from m obtain k r1 w r2 e r3 where k: "scan_key s = Inr (k, r1)"
      and p: "scan_value n ?h r1 = Inr (w, r2)" and r2: "skip_ws r2 = e # r3"
      and e: "(distinct (map fst (rev ((k, w) # acc))) \<and> v = PDict (rev ((k, w) # acc)))
        \<or> scan_members n ?h ((k, w) # acc) (skip_ws r3) = Inr (v, r)"
      by (auto simp: rbind_Inr_iff case_list_Inr_iff reject_duplicate_pairs_Inr
          split: if_splits simp del: rev.simps)
    have "list_all (\<lambda>(k, v). unique_keys v) ((k, w) # acc)" using acc IV [OF p] by simp
    with e IM show ?thesis by (fastforce simp: list_all_iff)
  qed
  have E: "unique_keys v" if acc: "list_all unique_keys acc"
      and m: "scan_elements (Suc n) ?h acc s = Inr (v, r)" for acc s v r
  proof -
    from m obtain w r2 e r3 where p: "scan_value n ?h s = Inr (w, r2)" and r2: "skip_ws r2 = e # r3"
      and e: "v = PList (rev (w # acc)) \<or> scan_elements n ?h (w # acc) (skip_ws r3) = Inr (v, r)"
      by (auto simp: rbind_Inr_iff case_list_Inr_iff split: if_splits)
    have "list_all unique_keys (w # acc)" using acc IV [OF p] by simp
    with e IE show ?thesis by (fastforce simp: list_all_iff)
  qed
  from V M E show ?case by blast
qed

lemmas scan_value_unique = scan_unique_all [THEN conjunct1, rule_format]

lemma json_loads_unique: "json_loads reject_duplicate_pairs s = Inr v \<Longrightarrow> unique_keys v"
  by (auto simp: json_loads_def rbind_Inr_iff split: if_splits simp del: scan_value.simps
      dest: scan_value_unique)

section \<open>What the loaders return\<close>

lemma strict_json_object_Inr:
  "strict_json_object t desc = Inr d \<longleftrightarrow> json_loads reject_duplicate_pairs t = Inr (PDict d)"
  by (auto simp: strict_json_object_def split: sum.splits pyval.splits if_splits)

lemma strict_json_loads_Inr:
  "strict_json_loads t = Inr d \<longleftrightarrow> json_loads reject_duplicate_pairs t = Inr (PDict d)"
  by (auto simp: strict_json_loads_def split: sum.splits pyval.splits if_splits)

text \<open>Every failure of the strict loader is a \<^verbatim>\<open>ValueError\<close> of its own.\<close>

lemma scan_errors_all:
  assumes hook: "\<And>ps e. hook ps = Inl e \<Longrightarrow> P e" and "P JSONDecodeError" and "P OutOfFuel"
  shows
  "(\<forall>s e. scan_value n hook s = Inl e \<longrightarrow> P e) \<and>
   (\<forall>acc s e. scan_members n hook acc s = Inl e \<longrightarrow> P e) \<and>
   (\<forall>acc s e. scan_elements n hook acc s = Inl e \<longrightarrow> P e)"
proof (induction n)
  case 0
  show ?case using assms by simp
next
  case (Suc n)
  have S: "P e" if "scan_string s = Inl e" for s e
    using that scan_string_error [of e s] assms(2) by blast
  have K: "P e" if "scan_key s = Inl e" for s e
    using that scan_key_error [of e s] assms(2) by blast
  have A: "P e" if "scan_atom s = Inl e" for s e
    using scan_atom_error [OF that] assms(2) by simp
  have V: "P e" if "scan_value (Suc n) hook s = Inl e" for s e
    using that S A Suc hook assms(2)
    by (auto simp: rbind_Inl_iff case_list_Inl_iff split: if_splits)
  have M: "P e" if "scan_members (Suc n) hook acc s = Inl e" for acc s e
    using that K Suc hook assms(2)
    by (auto simp: rbind_Inl_iff case_list_Inl_iff split: if_splits)
  have E: "P e" if "scan_elements (Suc n) hook acc s = Inl e" for acc s e
    using that Suc assms(2) by (auto simp: rbind_Inl_iff case_list_Inl_iff split: if_splits)
  from V M E show ?case by blast
qed

lemma json_loads_strict_error:
  "json_loads reject_duplicate_pairs t = Inl e \<Longrightarrow>
     e = JSONDecodeError \<or> (\<exists>k. e = ValueError (''duplicate JSON key: '' @ k))"
proof -
  let ?P = "\<lambda>e. e = JSONDecodeError \<or> e = OutOfFuel \<or> (\<exists>k. e = ValueError (''duplicate JSON key: '' @ k))"
  assume l: "json_loads reject_duplicate_pairs t = Inl e"
  have "?P x" if "scan_value m reject_duplicate_pairs s = Inl x" for m s x
    using scan_errors_all [of reject_duplicate_pairs ?P m] that reject_loop_Inl
    unfolding reject_duplicate_pairs_def by blast
  with l have "?P e"
    by (auto simp: json_loads_def rbind_Inl_iff split: if_splits simp del: scan_value.simps)
  moreover have "e \<noteq> OutOfFuel"
    using l json_loads_fuel [of reject_duplicate_pairs t] reject_duplicate_pairs_no_fuel by auto
  ultimately show ?thesis by blast
qed

lemma strict_json_object_error:
  "strict_json_object t desc = Inl e \<Longrightarrow> \<exists>m. e = ValueError m"
  by (auto simp: strict_json_object_def split: sum.splits pyval.splits if_splits
      dest: json_loads_strict_error)

lemma strict_json_loads_error: "strict_json_loads t = Inl e \<Longrightarrow> \<exists>m. e = ValueError m"
  by (auto simp: strict_json_loads_def split: sum.splits pyval.splits if_splits
      dest: json_loads_strict_error)

lemma strict_json_object_compact:
  "plain_json (PDict d) \<Longrightarrow> strict_json_object (json_compact (PDict d)) desc = Inr d"
  unfolding strict_json_object_Inr
  by (rule json_loads_compact) (simp_all add: reject_duplicate_pairs_Inr)

lemma strict_json_loads_compact:
  "plain_json (PDict d) \<Longrightarrow> strict_json_loads (json_compact (PDict d)) = Inr d"
  unfolding strict_json_loads_Inr
  by (rule json_loads_compact) (simp_all add: reject_duplicate_pairs_Inr)

section \<open>Extraction from noisy text\<close>

lemma extract_loop:
  "rfold (\<lambda>records line. rbind (line_records line) (\<lambda>rs. Inr (records @ rs))) acc lines =
     rbind (rmap line_records lines) (\<lambda>rss. Inr (acc @ concat rss))"
  by (induction lines arbitrary: acc) (simp_all add: rbind_assoc rbind_def split: sum.splits)

lemma extract_lines_Inr:
  "extract_lines line_records lines = Inr rs \<longleftrightarrow>
     (\<exists>rss. list_all2 (\<lambda>line rs. line_records line = Inr rs) lines rss \<and> rs = concat rss)"
  by (auto simp: extract_lines_def extract_loop rbind_Inr_iff rmap_Inr_iff)

text \<open>
  The contract of an extractor: what a printed record line looks like (\<open>emit\<close>), which
  records may be printed (\<open>ok\<close>), and which lines are noise. The provider promises that a
  printed line yields the record and a noise line yields nothing; the client lemma is that
  a transcript of both is read back exactly.
\<close>

locale line_extractor =
  fixes line_records :: "string \<Rightarrow> pydict list res"
    and emit :: "pydict \<Rightarrow> string" and ok :: "pydict \<Rightarrow> bool" and noise :: "string \<Rightarrow> bool"
  assumes emit_records: "ok r \<Longrightarrow> line_records (emit r) = Inr [r]"
    and noise_records: "noise l \<Longrightarrow> line_records l = Inr []"
    and emit_ascii: "ok r \<Longrightarrow> ascii_line (emit r)"
    and noise_ascii: "noise l \<Longrightarrow> ascii_line l"
begin

text \<open>A transcript: noise lines (\<open>Inl\<close>) and printed records (\<open>Inr\<close>).\<close>

lemma transcript_lines:
  assumes "\<forall>x\<in>set items. case x of Inl l \<Rightarrow> noise l | Inr r \<Rightarrow> ok r"
  shows "splitlines (concat (map (\<lambda>x. (case x of Inl l \<Rightarrow> l | Inr r \<Rightarrow> emit r) @ [CHR 0x0A]) items)) =
           map (\<lambda>x. case x of Inl l \<Rightarrow> l | Inr r \<Rightarrow> emit r) items"
proof -
  have "list_all ascii_line (map (\<lambda>x. case x of Inl l \<Rightarrow> l | Inr r \<Rightarrow> emit r) items)"
    using assms noise_ascii emit_ascii by (induction items) (auto split: sum.splits)
  from splitlines_ascii [OF this] show ?thesis by (simp add: comp_def)
qed

lemma transcript_records:
  assumes "\<forall>x\<in>set items. case x of Inl l \<Rightarrow> noise l | Inr r \<Rightarrow> ok r"
  shows "extract_lines line_records
           (splitlines (concat (map (\<lambda>x. (case x of Inl l \<Rightarrow> l | Inr r \<Rightarrow> emit r) @ [CHR 0x0A]) items))) =
         Inr (concat (map (\<lambda>x. case x of Inl l \<Rightarrow> [] | Inr r \<Rightarrow> [r]) items))"
proof -
  have "list_all2 (\<lambda>line rs. line_records line = Inr rs)
     (map (\<lambda>x. case x of Inl l \<Rightarrow> l | Inr r \<Rightarrow> emit r) items)
     (map (\<lambda>x. case x of Inl l \<Rightarrow> [] | Inr r \<Rightarrow> [r]) items)"
    using assms by (induction items) (auto simp: emit_records noise_records split: sum.splits)
  then show ?thesis unfolding transcript_lines [OF assms] extract_lines_Inr by blast
qed

end

lemma json_compact_dict_ends:
  "hd (json_compact (PDict d)) = CHR ''{''" "last (json_compact (PDict d)) = CHR ''}''"
  "json_compact (PDict d) \<noteq> []"
  by simp_all

definition guest_record_ok :: "pydict \<Rightarrow> bool" where
  "guest_record_ok r \<longleftrightarrow>
     plain_json (PDict r) \<and> ascii_line (json_compact (PDict r)) \<and> py_eq (dget r ''schema_version'') (PInt 1)
     \<and> (\<exists>e. dget r ''event'' = PStr e \<and> e \<noteq> [])"

interpretation guest_lines: line_extractor guest_line_records
  "\<lambda>r. pre @ RECORD_PREFIX @ json_compact (PDict r)"
  "\<lambda>r. guest_record_ok r \<and> ascii_line pre \<and> \<not> contains RECORD_PREFIX pre"
  "\<lambda>l. ascii_line l \<and> \<not> contains RECORD_PREFIX l"
  for pre
proof
  fix r l
  have p: "RECORD_PREFIX = ''CXLBI_JSON'' @ '' ''" "CHR '' '' \<notin> set ''CXLBI_JSON''" "ascii_line RECORD_PREFIX"
    by (simp_all add: RECORD_PREFIX_def ascii_char_def)
  show "guest_line_records (pre @ RECORD_PREFIX @ json_compact (PDict r)) = Inr [r]"
    if "guest_record_ok r \<and> ascii_line pre \<and> \<not> contains RECORD_PREFIX pre"
  proof -
    have "find_sub RECORD_PREFIX (pre @ RECORD_PREFIX @ json_compact (PDict r)) = Some (length pre)"
      by (rule find_sub_after [OF _ p(1,2)]) (use that in simp)
    moreover have "strip (json_compact (PDict r)) = json_compact (PDict r)"
      using that json_compact_dict_ends [of r]
      by (intro strip_ascii) (auto simp: guest_record_ok_def simp del: json_compact.simps)
    ultimately show ?thesis using that
      by (auto simp: guest_line_records_def guest_record_ok_def strict_json_object_compact
          TRACE_SCHEMA_VERSION_def simp del: json_compact.simps plain_json.simps py_eq_int)
  qed
  show "guest_line_records l = Inr []" if "ascii_line l \<and> \<not> contains RECORD_PREFIX l"
    using that by (auto simp: guest_line_records_def contains_def)
  show "ascii_line (pre @ RECORD_PREFIX @ json_compact (PDict r))"
    if "guest_record_ok r \<and> ascii_line pre \<and> \<not> contains RECORD_PREFIX pre"
    using that p(3) by (simp add: guest_record_ok_def del: json_compact.simps)
qed simp

definition prefixed_record_ok :: "string \<Rightarrow> pydict \<Rightarrow> bool" where
  "prefixed_record_ok schema r \<longleftrightarrow>
     plain_json (PDict r) \<and> ascii_line (json_compact (PDict r)) \<and> dget r ''schema_version'' = PStr schema"

interpretation prefixed_lines: line_extractor "prefixed_line_records prefix schema"
  "\<lambda>r. prefix @ '' '' @ json_compact (PDict r)"
  "\<lambda>r. prefixed_record_ok schema r \<and> ascii_line prefix \<and> prefix \<noteq> [] \<and> hd prefix \<noteq> CHR '' ''"
  "\<lambda>l. ascii_line l \<and> \<not> starts_with (strip l) (prefix @ '' '')"
  for prefix schema
proof
  fix r l
  assume a: "prefixed_record_ok schema r \<and> ascii_line prefix \<and> prefix \<noteq> [] \<and> hd prefix \<noteq> CHR '' ''"
  then show asc: "ascii_line (prefix @ '' '' @ json_compact (PDict r))"
    by (simp add: prefixed_record_ok_def ascii_char_def del: json_compact.simps)
  have "strip (prefix @ '' '' @ json_compact (PDict r)) = prefix @ '' '' @ json_compact (PDict r)"
    using a asc json_compact_dict_ends [of r] by (intro strip_ascii) (auto simp del: json_compact.simps)
  then show "prefixed_line_records prefix schema (prefix @ '' '' @ json_compact (PDict r)) = Inr [r]"
    using a starts_with_append [of "prefix @ '' ''" "json_compact (PDict r)"]
    by (auto simp: prefixed_line_records_def Let_def prefixed_record_ok_def strict_json_loads_compact
        simp del: json_compact.simps plain_json.simps)
qed (auto simp: prefixed_line_records_def)


definition sample_record :: pydict where
  "sample_record = [(''schema_version'', PInt 1), (''event'', PStr ''mapped'')]"

lemma sample_record_ok: "guest_record_ok sample_record"
  by (simp add: guest_record_ok_def sample_record_def json_string_def escape_out_def show_int_def
      ascii_char_def py_simps)


text \<open>
  The same for the prefixed records of the two-node runner: lines that start with the
  marker yield the records, all other lines are ignored.
\<close>

theorem prefixed_records_roundtrip:
  assumes "ascii_line prefix \<and> prefix \<noteq> [] \<and> hd prefix \<noteq> CHR '' ''"
    and "\<forall>x\<in>set items. case x of Inl l \<Rightarrow> ascii_line l \<and> \<not> starts_with (strip l) (prefix @ '' '')
                                | Inr r \<Rightarrow> prefixed_record_ok schema r"
  shows "parse_prefixed_records
           (concat (map (\<lambda>x. (case x of Inl l \<Rightarrow> l | Inr r \<Rightarrow> prefix @ '' '' @ json_compact (PDict r)) @ [CHR 0x0A]) items))
           prefix schema =
         Inr (concat (map (\<lambda>x. case x of Inl l \<Rightarrow> [] | Inr r \<Rightarrow> [r]) items))"
  unfolding parse_prefixed_records_def
  by (rule prefixed_lines.transcript_records) (use assms in \<open>auto split: sum.splits\<close>)

theorem prefixed_records_roundtrip_witness:
  "parse_prefixed_records
     (concat (map (\<lambda>x. (case x of Inl l \<Rightarrow> l | Inr r \<Rightarrow> ''NODE_JSON'' @ '' '' @ json_compact (PDict r)) @ [CHR 0x0A])
        [Inl ''boot'', Inr [(''schema_version'', PStr ''v1'')]]))
     ''NODE_JSON'' ''v1'' =
   Inr (concat (map (\<lambda>x. case x of Inl l \<Rightarrow> [] | Inr r \<Rightarrow> [r]) [Inl ''boot'', Inr [(''schema_version'', PStr ''v1'')]]))"
  by (rule prefixed_records_roundtrip)
     (simp_all add: prefixed_record_ok_def json_string_def escape_out_def ascii_char_def starts_with_def strip_ascii)

end
