(* ===== verification/Stamped_Lines.thy ===== *)
theory Stamped_Lines
  imports Strict_Json
begin

text \<open>
  The contract of the three JSON-lines readers of the runners (coherence trace of the
  two-guest and of the two-node experiment, console event sidecar): every line is one
  strict JSON object in UTF-8 with an integer time stamp, stamps never decrease, and the
  objects are collected in order. The locale proves once that what such a loop collects is
  ordered and that printed records are read back.
\<close>

definition stamp_of :: "string \<Rightarrow> pydict \<Rightarrow> int" where
  "stamp_of field record = (case dget record field of PInt i \<Rightarrow> i | _ \<Rightarrow> 0)"

lemma stamp_of_eq [simp]: "dget record field = PInt t \<Longrightarrow> stamp_of field record = t"
  by (simp add: stamp_of_def)

text \<open>The line is the strict JSON text of the object.\<close>

definition line_object :: "string \<Rightarrow> pydict \<Rightarrow> bool" where
  "line_object line r \<longleftrightarrow> utf8_valid line \<and> json_loads reject_duplicate_pairs line = Inr (PDict r)"

lemma line_object_unique: "line_object line r \<Longrightarrow> unique_keys (PDict r)"
  unfolding line_object_def by (blast dest: json_loads_unique)

lemma line_object_compact:
  "plain_json (PDict r) \<Longrightarrow> utf8_valid (json_compact (PDict r)) \<Longrightarrow> line_object (json_compact (PDict r)) r"
  unfolding line_object_def
  by (intro conjI json_loads_compact) (simp_all add: reject_duplicate_pairs_Inr)

text \<open>What the collected records look like.\<close>

definition stamped :: "(pydict \<Rightarrow> bool) \<Rightarrow> string \<Rightarrow> pydict \<Rightarrow> bool" where
  "stamped accept field r \<longleftrightarrow> accept r \<and> unique_keys (PDict r) \<and> (\<exists>t. dget r field = PInt t)"

text \<open>Records that survive printing and reading.\<close>

definition printable_record :: "(pydict \<Rightarrow> bool) \<Rightarrow> string \<Rightarrow> pydict \<Rightarrow> bool" where
  "printable_record accept field r \<longleftrightarrow>
     plain_json (PDict r) \<and> utf8_valid (json_compact (PDict r)) \<and> accept r \<and> (\<exists>t. dget r field = PInt t)"

definition jsonl :: "pydict list \<Rightarrow> string" where
  "jsonl records = concat (map (\<lambda>l. l @ [CHR 0x0A]) (map (\<lambda>r. json_compact (PDict r)) records))"

lemma jsonl_lines: "bytes_splitlines (jsonl records) = map (\<lambda>r. json_compact (PDict r)) records"
  unfolding jsonl_def
  by (rule bytes_splitlines_lines)
     (auto simp: printable_no_break json_compact_printable simp del: json_compact.simps)

lemma jsonl_ends: "jsonl records \<noteq> [] \<Longrightarrow> last (jsonl records) = CHR 0x0A"
  by (induction records rule: rev_induct) (simp_all add: jsonl_def)

lemma sorted_le_last: "sorted xs \<Longrightarrow> x \<in> set xs \<Longrightarrow> x \<le> last xs"
  by (induction xs) auto

text \<open>The loop invariant: ordered so far, and the remembered stamp is the last one.\<close>

definition stamped_inv :: "(pydict \<Rightarrow> bool) \<Rightarrow> string \<Rightarrow> int option \<times> pydict list \<Rightarrow> bool" where
  "stamped_inv accept field v \<longleftrightarrow> list_all (stamped accept field) (snd v) \<and> sorted (map (stamp_of field) (snd v))
     \<and> (case fst v of None \<Rightarrow> snd v = [] | Some p \<Rightarrow> snd v \<noteq> [] \<and> stamp_of field (last (snd v)) = p)"

locale stamped_reader =
  fixes step :: "'s \<Rightarrow> string \<Rightarrow> 's res"
    and view :: "'s \<Rightarrow> int option \<times> pydict list"
    and field :: string and accept :: "pydict \<Rightarrow> bool"
  assumes step_view:
    "(\<exists>s'. step s line = Inr s' \<and> view s' = v) \<longleftrightarrow>
       (\<exists>r t. line_object line r \<and> accept r \<and> dget r field = PInt t
          \<and> (\<forall>p. fst (view s) = Some p \<longrightarrow> p \<le> t) \<and> v = (Some t, snd (view s) @ [r]))"
begin

lemma step_inv:
  assumes "step s line = Inr s'" "stamped_inv accept field (view s)"
  shows "stamped_inv accept field (view s')"
proof -
  from assms(1) step_view [of s line "view s'"] obtain r t where
    r: "line_object line r" "accept r" "dget r field = PInt t" "view s' = (Some t, snd (view s) @ [r])"
    and le: "\<And>p. fst (view s) = Some p \<Longrightarrow> p \<le> t" by blast
  have "x \<le> t" if "x \<in> set (map (stamp_of field) (snd (view s)))" for x
  proof -
    from that assms(2) obtain p where p: "fst (view s) = Some p" "stamp_of field (last (snd (view s))) = p"
        "snd (view s) \<noteq> []"
      by (auto simp: stamped_inv_def split: option.splits)
    from assms(2) have "x \<le> last (map (stamp_of field) (snd (view s)))"
      using that by (intro sorted_le_last) (auto simp: stamped_inv_def)
    with p le [OF p(1)] show ?thesis by (simp add: last_map)
  qed
  with assms(2) r show ?thesis
    by (auto simp: stamped_inv_def stamped_def sorted_append line_object_unique simp del: unique_keys.simps)
qed

lemma loop_inv: "rfold step s lines = Inr s' \<Longrightarrow> stamped_inv accept field (view s) \<Longrightarrow> stamped_inv accept field (view s')"
  by (rule rfold_invariant [where P = "\<lambda>s. stamped_inv accept field (view s)"]) (auto intro: step_inv)

lemma loop_records:
  "rfold step s lines = Inr s' \<Longrightarrow> \<exists>rs. snd (view s') = snd (view s) @ rs \<and> list_all2 line_object lines rs"
proof (induction lines arbitrary: s)
  case (Cons line lines)
  then obtain s1 where s1: "step s line = Inr s1" "rfold step s1 lines = Inr s'" by (auto simp: rbind_Inr_iff)
  from s1(1) step_view [of s line "view s1"] obtain r where
    "line_object line r" "snd (view s1) = snd (view s) @ [r]" by auto
  with Cons.IH [OF s1(2)] show ?case by fastforce
qed simp

lemma loop_jsonl:
  assumes "list_all (printable_record accept field) rs" "sorted (map (stamp_of field) rs)"
    "\<forall>p. fst (view s) = Some p \<longrightarrow> (\<forall>r\<in>set rs. p \<le> stamp_of field r)"
  shows "\<exists>s'. rfold step s (map (\<lambda>r. json_compact (PDict r)) rs) = Inr s' \<and> snd (view s') = snd (view s) @ rs"
  using assms
proof (induction rs arbitrary: s)
  case (Cons r rs)
  from Cons.prems obtain t where t: "accept r" "dget r field = PInt t"
    "line_object (json_compact (PDict r)) r"
    by (auto simp: printable_record_def intro: line_object_compact simp del: json_compact.simps plain_json.simps)
  with Cons.prems(3) step_view [of s "json_compact (PDict r)" "(Some t, snd (view s) @ [r])"]
  obtain s1 where s1: "step s (json_compact (PDict r)) = Inr s1" "view s1 = (Some t, snd (view s) @ [r])"
    by fastforce
  with Cons.prems t have "\<exists>s'. rfold step s1 (map (\<lambda>r. json_compact (PDict r)) rs) = Inr s'
      \<and> snd (view s') = snd (view s1) @ rs"
    by (intro Cons.IH) (auto simp del: json_compact.simps)
  with s1 show ?case by (auto simp del: json_compact.simps)
qed simp

end

end
