(* ===== verification/Bi_Trace.thy ===== *)
theory Bi_Trace
  imports Stamped_Lines "HOL-Library.List_Lexorder" "HOL-Library.Char_ord"
begin

unbundle bit_operations_syntax

text \<open>
  The coherence-trace analysis of scripts/cxl_bi_app.py: reading the JSON-lines trace
  that the CXLMemSim server writes (\<^verbatim>\<open>_read_trace\<close>), recognising one complete dirty
  back-invalidation path request, snoop, acknowledgement, completion
  (\<^verbatim>\<open>_valid_dirty_path\<close>), collecting all such paths for a set of device addresses
  (\<^verbatim>\<open>analyze_trace\<close>) and picking a hand-off between two hosts
  (\<^verbatim>\<open>require_dirty_handoff\<close>). The file content is the argument \<open>raw\<close>; evidence
  dictionaries are dictionaries here too.
\<close>

section \<open>Integer fields\<close>

definition required_int :: "pydict \<Rightarrow> string \<Rightarrow> int res" where
  "required_int record name =
     (let value = dget record name
      in if is_bool value \<or> \<not> is_int value
         then Inl (ValueError (''trace field '' @ name @ '' must be an integer''))
         else case value of PInt i \<Rightarrow> Inr i | _ \<Rightarrow> Inl TypeError)"

interpretation trace_int: int_field_reader required_int
  "\<lambda>name. ''trace field '' @ name @ '' must be an integer''"
  by unfold_locales (simp add: required_int_def Let_def split: pyval.splits)

section \<open>Reading the trace\<close>

text \<open>The loop state: record number, previous time stamp, records read so far.\<close>

definition read_trace_line ::
  "nat \<times> int option \<times> pydict list \<Rightarrow> string \<Rightarrow> (nat \<times> int option \<times> pydict list) res" where
  "read_trace_line st raw_line =
     (case st of (number, previous_ns, records) \<Rightarrow>
        rbind (case utf8_decode raw_line of
                 Inl _ \<Rightarrow> Inl (ValueError (''invalid UTF-8 in trace record '' @ show_nat number))
               | Inr line \<Rightarrow> Inr line) (\<lambda>line.
        rbind (strict_json_object line (''coherence trace record '' @ show_nat number)) (\<lambda>record.
        if \<not> py_eq (dget record ''schema_version'') (PInt TRACE_SCHEMA_VERSION)
        then Inl (ValueError (''unsupported trace schema in record '' @ show_nat number))
        else rbind (required_int record ''monotonic_ns'') (\<lambda>monotonic_ns.
        if (case previous_ns of None \<Rightarrow> False | Some p \<Rightarrow> monotonic_ns < p)
        then Inl (ValueError ''coherence trace timestamps went backwards'')
        else Inr (Suc number, Some monotonic_ns, records @ [record])))))"

definition read_trace :: "string \<Rightarrow> pydict list res" where
  "read_trace raw =
     (if raw \<noteq> [] \<and> last raw \<noteq> CHR 0x0A
      then Inl (ValueError ''truncated final coherence trace record'')
      else rbind (rfold read_trace_line (1, None, []) (bytes_splitlines raw))
             (\<lambda>(_, _, records). Inr records))"

section \<open>One dirty path\<close>

definition int_is :: "pydict \<Rightarrow> string \<Rightarrow> int \<Rightarrow> bool res" where
  "int_is record name j = rbind (required_int record name) (\<lambda>i. Inr (i = j))"

definition int_le :: "pydict \<Rightarrow> pydict \<Rightarrow> string \<Rightarrow> bool res" where
  "int_le a b name =
     rbind (required_int a name) (\<lambda>x. rbind (required_int b name) (\<lambda>y. Inr (x \<le> y)))"

abbreviation field_is :: "pydict \<Rightarrow> string \<Rightarrow> string \<Rightarrow> bool" where
  "field_is record name s \<equiv> py_eq (dget record name) (PStr s)"

definition valid_dirty_path :: "pydict \<Rightarrow> pydict \<Rightarrow> pydict \<Rightarrow> pydict \<Rightarrow> bool res" where
  "valid_dirty_path request snoop ack completion =
     except_value_error (
       rbind (required_int snoop ''line_address'') (\<lambda>line.
       rbind (required_int snoop ''snoop_id'') (\<lambda>snoop_id.
       rbind (required_int snoop ''session_id'') (\<lambda>session.
       rbind (required_int snoop ''epoch'') (\<lambda>epoch.
       rconj [
         Inr (field_is request ''event'' ''request''),
         in_set (dget request ''opcode'') [''GETS'', ''GETM'', ''UPGRADE''],
         int_is request ''line_address'' line,
         int_le request snoop ''monotonic_ns'',
         Inr (field_is snoop ''event'' ''snoop_send''),
         Inr (field_is snoop ''opcode'' ''SNP_DATA_INV''),
         Inr (field_is snoop ''status'' ''OK''),
         Inr (field_is ack ''event'' ''snoop_ack''),
         Inr (field_is ack ''opcode'' ''SNOOP_ACK''),
         int_is ack ''snoop_id'' snoop_id,
         int_is ack ''line_address'' line,
         int_is ack ''session_id'' session,
         int_is ack ''epoch'' epoch,
         Inr (field_is ack ''status'' ''OK''),
         Inr (field_is ack ''ack_strength'' ''MODEL''),
         Inr (dget ack ''dirty_data'' = PBool True),
         int_is ack ''payload_len'' 64,
         Inr (field_is completion ''event'' ''dirty_completion''),
         Inr (field_is completion ''opcode'' ''SNOOP_ACK''),
         int_is completion ''snoop_id'' snoop_id,
         int_is completion ''line_address'' line,
         int_is completion ''session_id'' session,
         int_is completion ''epoch'' epoch,
         Inr (field_is completion ''status'' ''OK''),
         Inr (field_is completion ''ack_strength'' ''MODEL''),
         Inr (dget completion ''dirty_data'' = PBool True),
         int_is completion ''payload_len'' 64,
         int_le snoop ack ''monotonic_ns'',
         int_le ack completion ''monotonic_ns'']))))) False"

section \<open>All dirty paths of a trace\<close>

definition bad_dpa :: "pyval \<Rightarrow> bool" where
  "bad_dpa value = (is_bool value \<or> \<not> is_int value \<or> (case value of PInt i \<Rightarrow> i < 0 | _ \<Rightarrow> False))"

definition dpa_line :: "pyval \<Rightarrow> int" where
  "dpa_line value = (case value of PInt i \<Rightarrow> i AND NOT 63 | _ \<Rightarrow> 0)"

definition is_line_request :: "int \<Rightarrow> pydict \<Rightarrow> bool res" where
  "is_line_request line record =
     rconj [Inr (field_is record ''event'' ''request''),
            in_set (dget record ''opcode'') [''GETS'', ''GETM'', ''UPGRADE''],
            Inr (py_eq (dget record ''line_address'') (PInt line))]"

definition has_snoop_id :: "string \<Rightarrow> int \<Rightarrow> pydict \<Rightarrow> bool" where
  "has_snoop_id event snoop_id record =
     (field_is record ''event'' event \<and> py_eq (dget record ''snoop_id'') (PInt snoop_id))"

text \<open>The dictionary appended for a path that checked out.\<close>

definition dirty_path_entry :: "pydict \<Rightarrow> pydict \<Rightarrow> pydict \<Rightarrow> pydict \<Rightarrow> int \<Rightarrow> int \<Rightarrow> pydict res" where
  "dirty_path_entry request snoop ack completion line snoop_id =
     rbind (required_int request ''request_id'') (\<lambda>request_id.
     rbind (dindex request ''opcode'') (\<lambda>request_opcode.
     rbind (required_int request ''src_host'') (\<lambda>requester_host.
     rbind (required_int snoop ''dst_host'') (\<lambda>owner_host.
     rbind (required_int snoop ''session_id'') (\<lambda>session_id.
     rbind (required_int snoop ''epoch'') (\<lambda>epoch.
     rbind (required_int ack ''payload_len'') (\<lambda>payload_len.
     rbind (required_int request ''monotonic_ns'') (\<lambda>request_ns.
     rbind (required_int snoop ''monotonic_ns'') (\<lambda>snoop_ns.
     rbind (required_int ack ''monotonic_ns'') (\<lambda>ack_ns.
     rbind (required_int completion ''monotonic_ns'') (\<lambda>completion_ns.
     Inr [(''line_address'', PInt line),
          (''request_id'', PInt request_id),
          (''request_opcode'', request_opcode),
          (''requester_host'', PInt requester_host),
          (''owner_host'', PInt owner_host),
          (''snoop_id'', PInt snoop_id),
          (''session_id'', PInt session_id),
          (''epoch'', PInt epoch),
          (''payload_len'', PInt payload_len),
          (''request_ns'', PInt request_ns),
          (''snoop_ns'', PInt snoop_ns),
          (''ack_ns'', PInt ack_ns),
          (''completion_ns'', PInt completion_ns)])))))))))))"

text \<open>
  The body of the loop over \<^verbatim>\<open>enumerate(records)\<close>. The state is the list of paths found
  and the list of lines that have one.
\<close>

definition analyze_step ::
  "pydict list \<Rightarrow> int list \<Rightarrow> pydict list \<times> int list \<Rightarrow> nat \<Rightarrow> (pydict list \<times> int list) res" where
  "analyze_step records target_lines st snoop_index =
     (let snoop = records ! snoop_index; skip = Inr st
      in if \<not> field_is snoop ''event'' ''snoop_send'' \<or> \<not> field_is snoop ''opcode'' ''SNP_DATA_INV''
         then skip
         else case (required_int snoop ''line_address'', required_int snoop ''snoop_id'') of
           (Inr line, Inr snoop_id) \<Rightarrow>
             if line \<notin> set target_lines then skip
             else
               rbind (rfilter (is_line_request line) (take (Suc snoop_index) records)) (\<lambda>requests.
               let acks = filter (has_snoop_id ''snoop_ack'' snoop_id) (drop (Suc snoop_index) records);
                   completions =
                     filter (has_snoop_id ''dirty_completion'' snoop_id) (drop (Suc snoop_index) records)
               in if requests = [] \<or> acks = [] \<or> completions = [] then skip
                  else
                    let request = last requests; ack = hd acks; completion = hd completions
                    in rbind (valid_dirty_path request snoop ack completion) (\<lambda>valid.
                       if \<not> valid then skip
                       else rbind (dirty_path_entry request snoop ack completion line snoop_id) (\<lambda>entry.
                            Inr (fst st @ [entry], List.insert line (snd st)))))
         | _ \<Rightarrow> skip)"

text \<open>\<^verbatim>\<open>Counter\<close> over the string events, sorted by key.\<close>

definition event_counts :: "pydict list \<Rightarrow> pydict" where
  "event_counts records =
     (let events = [e. record \<leftarrow> records, e \<leftarrow> (case dget record ''event'' of PStr s \<Rightarrow> [s] | _ \<Rightarrow> [])]
      in map (\<lambda>e. (e, PInt (int (count_list events e)))) (sort (remdups events)))"

definition analyze_records :: "pydict list \<Rightarrow> int list \<Rightarrow> pydict res" where
  "analyze_records records target_lines =
     rbind (rfold (analyze_step records target_lines) ([], []) [0..<length records])
       (\<lambda>(dirty_paths, completed_lines).
        Inr [(''complete'', PBool (dirty_paths \<noteq> [])),
             (''target_lines'', PList (map (\<lambda>v. PStr (py_hex v)) target_lines)),
             (''missing_target_lines'',
                PList (map (\<lambda>v. PStr (py_hex v)) (filter (\<lambda>v. v \<notin> set completed_lines) target_lines))),
             (''event_counts'', PDict (event_counts records)),
             (''dirty_paths'', PList (map PDict dirty_paths))])"

definition analyze_trace :: "string \<Rightarrow> pyval list \<Rightarrow> pydict res" where
  "analyze_trace raw target_dpas =
     (if target_dpas = [] then Inl (ValueError ''at least one target DPA is required'')
      else if list_ex bad_dpa target_dpas
      then Inl (ValueError ''target DPAs must be nonnegative integers'')
      else let target_lines = sort (remdups (map dpa_line target_dpas))
           in rbind (read_trace raw) (\<lambda>records. analyze_records records target_lines))"

definition require_dirty_handoff :: "pydict \<Rightarrow> int \<Rightarrow> int \<Rightarrow> pydict res" where
  "require_dirty_handoff trace_evidence owner_host requester_host =
     (case dget trace_evidence ''dirty_paths'' of
        PList paths \<Rightarrow>
          (let matches = [path. PDict path \<leftarrow> paths,
                 py_eq (dget path ''owner_host'') (PInt owner_host),
                 py_eq (dget path ''requester_host'') (PInt requester_host)]
           in case matches of
                [] \<Rightarrow> Inl (ValueError (''dirty hand-off '' @ show_int owner_host @ ''->''
                                      @ show_int requester_host @ '' is absent''))
              | path # _ \<Rightarrow> Inr path)
      | _ \<Rightarrow> Inl (ValueError ''trace evidence lacks dirty paths''))"

section \<open>Reading: time stamps never decrease\<close>

lemma rfold_upto_Suc: "rfold f s [0..<Suc n] = rbind (rfold f s [0..<n]) (\<lambda>t. f t n)"
  by (simp add: rfold_append rbind_def split: sum.splits)

abbreviation stamp :: "pydict \<Rightarrow> int" where
  "stamp \<equiv> stamp_of ''monotonic_ns''"

definition schema_1 :: "pydict \<Rightarrow> bool" where
  "schema_1 record = py_eq (dget record ''schema_version'') (PInt 1)"

text \<open>What a record of an accepted trace looks like.\<close>

abbreviation trace_record :: "pydict \<Rightarrow> bool" where
  "trace_record \<equiv> stamped schema_1 ''monotonic_ns''"

lemma read_trace_line_Inr:
  "read_trace_line (number, previous, records) line = Inr s \<longleftrightarrow>
     (\<exists>r t. line_object line r \<and> schema_1 r \<and> dget r ''monotonic_ns'' = PInt t
        \<and> (\<forall>p. previous = Some p \<longrightarrow> p \<le> t) \<and> s = (Suc number, Some t, records @ [r]))"
proof -
  have "read_trace_line (number, previous, records) line = Inr s \<longleftrightarrow>
     (\<exists>r t. utf8_valid line \<and> strict_json_object line (''coherence trace record '' @ show_nat number) = Inr r \<and> schema_1 r
        \<and> required_int r ''monotonic_ns'' = Inr t \<and> (\<forall>p. previous = Some p \<longrightarrow> p \<le> t) \<and> s = (Suc number, Some t, records @ [r]))"
    by (cases previous; cases "utf8_valid line")
       (auto simp: read_trace_line_def utf8_decode_def schema_1_def TRACE_SCHEMA_VERSION_def rbind_Inr_iff not_less
          simp del: py_eq_int split: if_splits)
  then show ?thesis
    unfolding line_object_def strict_json_object_Inr trace_int.read_Inr_iff by blast
qed

interpretation trace_reader: stamped_reader read_trace_line "\<lambda>(number, previous, records). (previous, records)"
  "''monotonic_ns''" schema_1
  by unfold_locales (force simp: read_trace_line_Inr)

lemma read_trace_Inr:
  assumes "read_trace raw = Inr records"
  shows "list_all trace_record records" and "sorted (map stamp records)"
proof -
  from assms obtain n p where
    "rfold read_trace_line (1, None, []) (bytes_splitlines raw) = Inr (n, p, records)"
    by (auto simp: read_trace_def rbind_Inr_iff split: if_splits)
  from trace_reader.loop_inv [OF this] show "list_all trace_record records" "sorted (map stamp records)"
    by (simp_all add: stamped_inv_def)
qed

section \<open>The declarative meaning of a dirty path\<close>

definition agree :: "pydict list \<Rightarrow> string \<Rightarrow> pyval \<Rightarrow> bool" where
  "agree records name v \<longleftrightarrow> (\<forall>r\<in>set records. dget r name = v)"

definition dirty_chain :: "pydict \<Rightarrow> pydict \<Rightarrow> pydict \<Rightarrow> pydict \<Rightarrow> bool" where
  "dirty_chain request snoop ack completion \<longleftrightarrow>
     dget request ''event'' = PStr ''request''
     \<and> dget request ''opcode'' \<in> {PStr ''GETS'', PStr ''GETM'', PStr ''UPGRADE''}
     \<and> dget snoop ''event'' = PStr ''snoop_send'' \<and> dget snoop ''opcode'' = PStr ''SNP_DATA_INV''
     \<and> dget ack ''event'' = PStr ''snoop_ack'' \<and> dget ack ''opcode'' = PStr ''SNOOP_ACK''
     \<and> dget completion ''event'' = PStr ''dirty_completion''
     \<and> dget completion ''opcode'' = PStr ''SNOOP_ACK''
     \<and> agree [snoop, ack, completion] ''status'' (PStr ''OK'')
     \<and> agree [ack, completion] ''ack_strength'' (PStr ''MODEL'')
     \<and> agree [ack, completion] ''dirty_data'' (PBool True)
     \<and> agree [ack, completion] ''payload_len'' (PInt 64)
     \<and> (\<exists>line. agree [request, snoop, ack, completion] ''line_address'' (PInt line))
     \<and> (\<exists>sid. agree [snoop, ack, completion] ''snoop_id'' (PInt sid))
     \<and> (\<exists>session. agree [snoop, ack, completion] ''session_id'' (PInt session))
     \<and> (\<exists>epoch. agree [snoop, ack, completion] ''epoch'' (PInt epoch))
     \<and> (\<exists>t. map (\<lambda>r. dget r ''monotonic_ns'') [request, snoop, ack, completion] = map PInt t
          \<and> sorted t)"

lemma int_is_True [simp]: "int_is r n j = Inr True \<longleftrightarrow> dget r n = PInt j"
  by (auto simp: int_is_def rbind_Inr_iff trace_int.read_Inr_iff)

lemma int_le_True [simp]:
  "int_le a b n = Inr True \<longleftrightarrow> (\<exists>x y. dget a n = PInt x \<and> dget b n = PInt y \<and> x \<le> y)"
  by (auto simp: int_le_def rbind_Inr_iff trace_int.read_Inr_iff)

lemma except_value_error_True: "except_value_error m False = Inr True \<longleftrightarrow> m = Inr True"
  by (cases m) (auto simp: except_value_error_def)

lemma stamps_iff:
  "(\<exists>t. map (\<lambda>r. dget r n) [a, b, c, d] = map PInt t \<and> sorted t) \<longleftrightarrow>
     (\<exists>x y. dget a n = PInt x \<and> dget b n = PInt y \<and> x \<le> y) \<and>
     (\<exists>x y. dget b n = PInt x \<and> dget c n = PInt y \<and> x \<le> y) \<and>
     (\<exists>x y. dget c n = PInt x \<and> dget d n = PInt y \<and> x \<le> y)"
  by (auto simp: Cons_eq_map_conv)

lemma valid_dirty_path_iff:
  "valid_dirty_path request snoop ack completion = Inr True \<longleftrightarrow> dirty_chain request snoop ack completion"
  unfolding valid_dirty_path_def except_value_error_True rbind_Inr_iff trace_int.read_Inr_iff
    dirty_chain_def stamps_iff agree_def
  by (auto simp del: rconj.simps)

section \<open>What one iteration reports\<close>

abbreviation acks_after :: "pydict list \<Rightarrow> nat \<Rightarrow> int \<Rightarrow> pydict list" where
  "acks_after records j sid \<equiv> filter (has_snoop_id ''snoop_ack'' sid) (drop (Suc j) records)"

abbreviation completions_after :: "pydict list \<Rightarrow> nat \<Rightarrow> int \<Rightarrow> pydict list" where
  "completions_after records j sid \<equiv>
     filter (has_snoop_id ''dirty_completion'' sid) (drop (Suc j) records)"

text \<open>The iteration at index \<open>j\<close> reports \<open>entry\<close> for the line \<open>line\<close>.\<close>

definition reports :: "pydict list \<Rightarrow> int list \<Rightarrow> nat \<Rightarrow> pydict \<Rightarrow> int \<Rightarrow> bool" where
  "reports records target_lines j entry line \<longleftrightarrow>
     (\<exists>sid requests ack completion acks completions.
        field_is (records ! j) ''event'' ''snoop_send''
        \<and> field_is (records ! j) ''opcode'' ''SNP_DATA_INV''
        \<and> required_int (records ! j) ''line_address'' = Inr line
        \<and> required_int (records ! j) ''snoop_id'' = Inr sid
        \<and> line \<in> set target_lines
        \<and> rfilter (is_line_request line) (take (Suc j) records) = Inr requests \<and> requests \<noteq> []
        \<and> acks_after records j sid = ack # acks
        \<and> completions_after records j sid = completion # completions
        \<and> valid_dirty_path (last requests) (records ! j) ack completion = Inr True
        \<and> dirty_path_entry (last requests) (records ! j) ack completion line sid = Inr entry)"

lemma reports_step:
  "reports records T j entry line \<Longrightarrow>
     analyze_step records T st j = Inr (fst st @ [entry], List.insert line (snd st))"
  by (auto simp: reports_def analyze_step_def Let_def)

lemma analyze_step_cases:
  assumes "analyze_step records T st j = Inr st'"
  shows "st' = st \<or> (\<exists>entry line. reports records T j entry line
           \<and> st' = (fst st @ [entry], List.insert line (snd st)))"
proof (cases "st' = st")
  case False
  with assms obtain line sid requests entry where
    p: "field_is (records ! j) ''event'' ''snoop_send''" "field_is (records ! j) ''opcode'' ''SNP_DATA_INV''"
      "required_int (records ! j) ''line_address'' = Inr line" "required_int (records ! j) ''snoop_id'' = Inr sid"
      "line \<in> set T" "rfilter (is_line_request line) (take (Suc j) records) = Inr requests" "requests \<noteq> []"
    and a: "acks_after records j sid \<noteq> []"
    and c: "completions_after records j sid \<noteq> []"
    and v: "valid_dirty_path (last requests) (records ! j) (hd (acks_after records j sid))
        (hd (completions_after records j sid)) = Inr True"
    and e: "dirty_path_entry (last requests) (records ! j) (hd (acks_after records j sid))
        (hd (completions_after records j sid)) line sid = Inr entry"
    and st': "st' = (fst st @ [entry], List.insert line (snd st))"
    by (auto simp: analyze_step_def Let_def rbind_Inr_iff simp del: py_eq_str split: if_splits sum.splits)
  from a c have "acks_after records j sid = hd (acks_after records j sid) # tl (acks_after records j sid)"
    "completions_after records j sid
       = hd (completions_after records j sid) # tl (completions_after records j sid)" by simp_all
  with p v e have "reports records T j entry line" unfolding reports_def by blast
  with st' show ?thesis by blast
qed simp

text \<open>The loop as a whole: exactly the reports, and exactly their lines.\<close>

lemma analyze_loop:
  assumes "rfold (analyze_step records T) ([], []) [0..<n] = Inr (paths, lines)"
  shows "set paths = {entry. \<exists>j<n. \<exists>line. reports records T j entry line}"
    and "set lines = {line. \<exists>j<n. \<exists>entry. reports records T j entry line}"
proof -
  have "set paths = {entry. \<exists>j<n. \<exists>line. reports records T j entry line} \<and>
        set lines = {line. \<exists>j<n. \<exists>entry. reports records T j entry line}"
    using assms
  proof (induction n arbitrary: paths lines)
    case 0
    then show ?case by simp
  next
    case (Suc n)
    from Suc.prems obtain st where st: "rfold (analyze_step records T) ([], []) [0..<n] = Inr st"
      and step: "analyze_step records T st n = Inr (paths, lines)"
      unfolding rfold_upto_Suc by (auto simp: rbind_Inr_iff)
    obtain ps ls where [simp]: "st = (ps, ls)" by (cases st)
    from Suc.IH [of ps ls] st have IH:
      "set ps = {entry. \<exists>j<n. \<exists>line. reports records T j entry line}"
      "set ls = {line. \<exists>j<n. \<exists>entry. reports records T j entry line}" by simp_all
    show ?case
    proof (cases "\<exists>entry line. reports records T n entry line")
      case True
      then obtain entry line where r: "reports records T n entry line" by blast
      with step have pl: "paths = ps @ [entry]" "lines = List.insert line ls"
        using reports_step [OF r, of st] by simp_all
      have uniq: "entry' = entry \<and> line' = line" if "reports records T n entry' line'" for entry' line'
        using reports_step [OF r, of "([], [])"] reports_step [OF that, of "([], [])"] by simp
      have "(\<exists>j<Suc n. \<exists>l. reports records T j e l) \<longleftrightarrow> e = entry \<or> (\<exists>j<n. \<exists>l. reports records T j e l)"
        "(\<exists>j<Suc n. \<exists>e. reports records T j e l) \<longleftrightarrow> l = line \<or> (\<exists>j<n. \<exists>e. reports records T j e l)"
        for e l using r uniq by (metis less_Suc_eq)+
      with pl IH show ?thesis by auto
    next
      case False
      with analyze_step_cases [OF step] have "paths = ps" "lines = ls" by auto
      with IH False show ?thesis by (auto simp: less_Suc_eq)
    qed
  qed
  then show "set paths = {entry. \<exists>j<n. \<exists>line. reports records T j entry line}"
    "set lines = {line. \<exists>j<n. \<exists>entry. reports records T j entry line}" by blast+
qed

lemma dirty_path_entry_fields:
  assumes "dirty_path_entry request snoop ack completion line sid = Inr entry"
  shows "dget entry ''line_address'' = PInt line" "dget entry ''snoop_id'' = PInt sid"
    "dget entry ''requester_host'' = dget request ''src_host''"
    "dget entry ''owner_host'' = dget snoop ''dst_host''"
    "dget entry ''request_ns'' = dget request ''monotonic_ns''"
    "dget entry ''snoop_ns'' = dget snoop ''monotonic_ns''"
    "dget entry ''ack_ns'' = dget ack ''monotonic_ns''"
    "dget entry ''completion_ns'' = dget completion ''monotonic_ns''"
  using assms by (auto simp: dirty_path_entry_def rbind_Inr_iff trace_int.read_Inr_iff)

lemma dirty_path_entry_hosts:
  assumes "dirty_path_entry request snoop ack completion line sid = Inr entry"
  shows "\<exists>x y. dget entry ''owner_host'' = PInt x \<and> dget entry ''requester_host'' = PInt y"
  using assms by (auto simp: dirty_path_entry_def rbind_Inr_iff)

lemma reports_hosts:
  "reports records T j entry line \<Longrightarrow>
     \<exists>x y. dget entry ''owner_host'' = PInt x \<and> dget entry ''requester_host'' = PInt y"
  unfolding reports_def using dirty_path_entry_hosts by blast

lemma filter_drop_index:
  assumes "filter P (drop n xs) = y # ys"
  obtains k where "n \<le> k" "k < length xs" "xs ! k = y" "P (xs ! k)"
    "\<And>k'. n \<le> k' \<Longrightarrow> k' < k \<Longrightarrow> \<not> P (xs ! k')"
proof -
  from assms obtain us vs where d: "drop n xs = us @ y # vs" "\<forall>u\<in>set us. \<not> P u" "P y"
    by (metis filter_eq_Cons_iff)
  have len: "n + length us < length xs" using arg_cong [OF d(1), of length] by simp
  have nth: "xs ! (n + i) = (us @ y # vs) ! i" if "i \<le> length us" for i
    using that len by (metis d(1) nth_drop add_leD1 less_imp_le)
  have "xs ! (n + length us) = y" using nth [of "length us"] by simp
  moreover have "\<not> P (xs ! k')" if "n \<le> k'" "k' < n + length us" for k'
    using nth [of "k' - n"] that d(2) by (auto simp: nth_append)
  ultimately show thesis using that [of "n + length us"] len d(3) by simp
qed

lemma last_rfilter_index:
  assumes "rfilter P (take n xs) = Inr ys" "ys \<noteq> []" "n \<le> length xs"
  obtains i where "i < n" "xs ! i = last ys" "P (xs ! i) = Inr True"
proof -
  from assms(1) have ys: "ys = filter (\<lambda>x. P x = Inr True) (take n xs)" by (rule rfilter_Inr)
  from assms(2) have "last ys \<in> set ys" by simp
  then have "last ys \<in> set (take n xs)" "P (last ys) = Inr True" unfolding ys by auto
  then obtain i where "i < n" "xs ! i = last ys"
    using assms(3) by (auto simp: in_set_conv_nth)
  with \<open>P (last ys) = Inr True\<close> that show thesis by simp
qed

text \<open>A report rests on four records of the trace, in this order.\<close>

lemma reports_chain:
  assumes "reports records T j entry line" and "j < length records"
  obtains i k l where "i < j" "j < k" "j < l" "k < length records" "l < length records"
    "dirty_chain (records ! i) (records ! j) (records ! k) (records ! l)"
    "dget (records ! j) ''line_address'' = PInt line" "line \<in> set T"
    "dget entry ''line_address'' = PInt line"
    "dget entry ''snoop_id'' = dget (records ! j) ''snoop_id''"
    "dget entry ''requester_host'' = dget (records ! i) ''src_host''"
    "dget entry ''owner_host'' = dget (records ! j) ''dst_host''"
proof -
  from assms(1) obtain sid requests ack completion acks completions where
    line: "required_int (records ! j) ''line_address'' = Inr line" "line \<in> set T"
    and sid: "required_int (records ! j) ''snoop_id'' = Inr sid"
    and rq: "rfilter (is_line_request line) (take (Suc j) records) = Inr requests" "requests \<noteq> []"
    and a: "acks_after records j sid = ack # acks"
    and c: "completions_after records j sid = completion # completions"
    and v: "valid_dirty_path (last requests) (records ! j) ack completion = Inr True"
    and e: "dirty_path_entry (last requests) (records ! j) ack completion line sid = Inr entry"
    unfolding reports_def by blast
  obtain i where i: "i < Suc j" "records ! i = last requests"
    using last_rfilter_index [OF rq] assms(2) by (metis Suc_leI)
  obtain k where k: "Suc j \<le> k" "k < length records" "records ! k = ack"
    using filter_drop_index [OF a] by blast
  obtain l where l: "Suc j \<le> l" "l < length records" "records ! l = completion"
    using filter_drop_index [OF c] by blast
  from v have ch: "dirty_chain (records ! i) (records ! j) (records ! k) (records ! l)"
    by (simp add: valid_dirty_path_iff i(2) k(3) l(3))
  then have "i \<noteq> j" by (auto simp: dirty_chain_def)
  with i(1) have ij: "i < j" by simp
  have ln: "dget (records ! j) ''line_address'' = PInt line" "dget (records ! j) ''snoop_id'' = PInt sid"
    using line(1) sid by (simp_all only: trace_int.read_Inr_iff)
  note d = dirty_path_entry_fields [OF e]
  from that [OF ij _ _ k(2) l(2) ch ln(1) line(2) d(1)] k(1) l(1) d(2-4) ln(2) i(2)
  show thesis by simp
qed

section \<open>Writing and reading a trace\<close>

lemma read_trace_jsonl:
  assumes "list_all (printable_record schema_1 ''monotonic_ns'') records" and "sorted (map stamp records)"
  shows "read_trace (jsonl records) = Inr records"
proof -
  obtain s' where "rfold read_trace_line (1, None, []) (map (\<lambda>r. json_compact (PDict r)) records) = Inr s'"
    "snd (snd s') = records"
    using trace_reader.loop_jsonl [of records "(1, None, [])"] assms
    by (auto split: prod.splits simp del: json_compact.simps)
  then show ?thesis
    by (cases s') (auto simp: read_trace_def jsonl_lines simp del: json_compact.simps dest: jsonl_ends)
qed

text \<open>A trace with one complete dirty path, for the witnesses.\<close>

definition sample_trace :: "pydict list" where
  "sample_trace =
     [[(''schema_version'', PInt 1), (''event'', PStr ''request''), (''opcode'', PStr ''GETM''),
       (''line_address'', PInt 4096), (''request_id'', PInt 7), (''src_host'', PInt 0),
       (''monotonic_ns'', PInt 10)],
      [(''schema_version'', PInt 1), (''event'', PStr ''snoop_send''), (''opcode'', PStr ''SNP_DATA_INV''),
       (''status'', PStr ''OK''), (''line_address'', PInt 4096), (''snoop_id'', PInt 3), (''session_id'', PInt 5),
       (''epoch'', PInt 1), (''dst_host'', PInt 1), (''monotonic_ns'', PInt 11)],
      [(''schema_version'', PInt 1), (''event'', PStr ''snoop_ack''), (''opcode'', PStr ''SNOOP_ACK''),
       (''status'', PStr ''OK''), (''line_address'', PInt 4096), (''snoop_id'', PInt 3), (''session_id'', PInt 5),
       (''epoch'', PInt 1), (''ack_strength'', PStr ''MODEL''), (''dirty_data'', PBool True),
       (''payload_len'', PInt 64), (''monotonic_ns'', PInt 12)],
      [(''schema_version'', PInt 1), (''event'', PStr ''dirty_completion''), (''opcode'', PStr ''SNOOP_ACK''),
       (''status'', PStr ''OK''), (''line_address'', PInt 4096), (''snoop_id'', PInt 3), (''session_id'', PInt 5),
       (''epoch'', PInt 1), (''ack_strength'', PStr ''MODEL''), (''dirty_data'', PBool True),
       (''payload_len'', PInt 64), (''monotonic_ns'', PInt 13)]]"

definition sample_path :: pydict where
  "sample_path =
     [(''line_address'', PInt 4096), (''request_id'', PInt 7), (''request_opcode'', PStr ''GETM''),
      (''requester_host'', PInt 0), (''owner_host'', PInt 1), (''snoop_id'', PInt 3),
      (''session_id'', PInt 5), (''epoch'', PInt 1), (''payload_len'', PInt 64),
      (''request_ns'', PInt 10), (''snoop_ns'', PInt 11), (''ack_ns'', PInt 12), (''completion_ns'', PInt 13)]"

definition sample_evidence :: pydict where
  "sample_evidence =
     [(''complete'', PBool True), (''target_lines'', PList [PStr ''0x1000'', PStr ''0x2000'']),
      (''missing_target_lines'', PList [PStr ''0x2000'']),
      (''event_counts'', PDict [(''dirty_completion'', PInt 1), (''request'', PInt 1),
         (''snoop_ack'', PInt 1), (''snoop_send'', PInt 1)]),
      (''dirty_paths'', PList [PDict sample_path])]"

lemma sample_trace_ok:
  "list_all (printable_record schema_1 ''monotonic_ns'') sample_trace"
  by (simp add: sample_trace_def printable_record_def schema_1_def json_string_def escape_out_def show_int_def py_simps)

lemma sample_trace_sorted: "sorted (map stamp sample_trace)"
  by (simp add: sample_trace_def stamp_of_def)

lemma sample_trace_read: "read_trace (jsonl sample_trace) = Inr sample_trace"
  by (rule read_trace_jsonl [OF sample_trace_ok sample_trace_sorted])

lemma sample_trace_analyze:
  "analyze_trace (jsonl sample_trace) [PInt 4100, PInt 8200] = Inr sample_evidence"
proof -
  have "sort (remdups (map dpa_line [PInt 4100, PInt 8200])) = [4096, 8192]" by code_simp
  moreover have "\<not> list_ex bad_dpa [PInt 4100, PInt 8200]" by code_simp
  moreover have "analyze_records sample_trace [4096, 8192] = Inr sample_evidence"
    by (simp add: analyze_records_def analyze_step_def sample_trace_def sample_evidence_def sample_path_def
        event_counts_def valid_dirty_path_def dirty_path_entry_def required_int_def int_is_def int_le_def
        is_line_request_def has_snoop_id_def dindex_def py_hex_def py_simps)
  ultimately show ?thesis by (simp add: analyze_trace_def sample_trace_read)
qed

text \<open>
  (C35) Round trip of the trace file: records that are free of floats, carry schema
  version 1 and non-decreasing time stamps, printed one per line in the compact form,
  are read back by the trace reader exactly as they were.
\<close>

theorem read_trace_roundtrip:
  assumes "list_all (printable_record schema_1 ''monotonic_ns'') records"
    and "sorted (map stamp records)"
  shows "read_trace (jsonl records) = Inr records"
  using assms by (rule read_trace_jsonl)

theorem read_trace_roundtrip_witness: "read_trace (jsonl sample_trace) = Inr sample_trace"
  by (rule read_trace_roundtrip [OF sample_trace_ok sample_trace_sorted])

text \<open>
  The trace reader only returns traces whose records all carry schema version 1, an
  integer time stamp and no repeated key, in order of non-decreasing time stamps.
\<close>

theorem read_trace_ordered:
  assumes "read_trace raw = Inr records"
  shows "list_all trace_record records \<and> sorted (map stamp records)"
  using read_trace_Inr [OF assms] by simp

theorem read_trace_ordered_witness:
  "list_all trace_record sample_trace \<and> sorted (map stamp sample_trace)"
  by (rule read_trace_ordered [OF sample_trace_read])

section \<open>Soundness and completeness of the analysis\<close>

lemma analyze_trace_Inr:
  assumes "analyze_trace raw target_dpas = Inr ev"
  obtains records paths lines where "read_trace raw = Inr records"
    "rfold (analyze_step records (sort (remdups (map dpa_line target_dpas)))) ([], [])
       [0..<length records] = Inr (paths, lines)"
    "dget ev ''dirty_paths'' = PList (map PDict paths)"
    "dget ev ''complete'' = PBool (paths \<noteq> [])"
    "dget ev ''missing_target_lines'' = PList (map (\<lambda>v. PStr (py_hex v))
       (filter (\<lambda>v. v \<notin> set lines) (sort (remdups (map dpa_line target_dpas)))))"
  using assms
  by (auto simp: analyze_trace_def analyze_records_def Let_def rbind_Inr_iff split: if_splits)

lemma analyze_trace_chain:
  assumes "analyze_trace raw target_dpas = Inr ev"
    and "dget ev ''dirty_paths'' = PList paths" and "PDict p \<in> set paths"
  shows "\<exists>records i j k l v. read_trace raw = Inr records
     \<and> i < j \<and> j < k \<and> j < l \<and> k < length records \<and> l < length records
     \<and> dirty_chain (records ! i) (records ! j) (records ! k) (records ! l)
     \<and> v \<in> set target_dpas \<and> dget p ''line_address'' = PInt (dpa_line v)
     \<and> dget (records ! j) ''line_address'' = dget p ''line_address''
     \<and> dget p ''requester_host'' = dget (records ! i) ''src_host''
     \<and> dget p ''owner_host'' = dget (records ! j) ''dst_host''"
proof -
  let ?T = "sort (remdups (map dpa_line target_dpas))"
  from assms(1) obtain records ps lines where r: "read_trace raw = Inr records"
    and f: "rfold (analyze_step records ?T) ([], []) [0..<length records] = Inr (ps, lines)"
    and d: "dget ev ''dirty_paths'' = PList (map PDict ps)" by (rule analyze_trace_Inr)
  from d assms(2,3) have "p \<in> set ps" by auto
  then obtain j line where j: "j < length records" "reports records ?T j p line"
    using analyze_loop(1) [OF f] by blast
  from j(2,1) show ?thesis
  proof (rule reports_chain)
    fix i k l
    assume *: "line \<in> set ?T" "dget p ''line_address'' = PInt line"
      "i < j" "j < k" "j < l" "k < length records" "l < length records"
      "dirty_chain (records ! i) (records ! j) (records ! k) (records ! l)"
      "dget (records ! j) ''line_address'' = PInt line"
      "dget p ''requester_host'' = dget (records ! i) ''src_host''"
      "dget p ''owner_host'' = dget (records ! j) ''dst_host''"
    then obtain v where "v \<in> set target_dpas" "dpa_line v = line" by auto
    with r * show ?thesis by (intro exI [of _ records] exI [of _ i] exI [of _ j] exI [of _ k] exI [of _ l] exI [of _ v]) simp
  qed
qed

text \<open>
  (C4) Soundness of the dirty-path evidence: every path that the analysis reports comes
  from four records of the trace, in this order: a \<^verbatim>\<open>GETS\<close>/\<^verbatim>\<open>GETM\<close>/\<^verbatim>\<open>UPGRADE\<close> request, a
  later \<^verbatim>\<open>SNP_DATA_INV\<close> snoop, and after that snoop a model acknowledgement and a dirty
  completion, all for the cache line of one of the requested addresses, with equal snoop,
  session and epoch numbers, dirty 64-byte data and ordered time stamps; the owner and
  requester hosts in the path are those of the snoop and the request.
\<close>

theorem analyze_trace_sound:
  assumes "analyze_trace raw target_dpas = Inr ev"
    and "dget ev ''dirty_paths'' = PList paths" and "PDict p \<in> set paths"
  shows "\<exists>records i j k l v. read_trace raw = Inr records
     \<and> i < j \<and> j < k \<and> j < l \<and> k < length records \<and> l < length records
     \<and> dirty_chain (records ! i) (records ! j) (records ! k) (records ! l)
     \<and> v \<in> set target_dpas \<and> dget p ''line_address'' = PInt (dpa_line v)
     \<and> dget (records ! j) ''line_address'' = dget p ''line_address''
     \<and> dget p ''requester_host'' = dget (records ! i) ''src_host''
     \<and> dget p ''owner_host'' = dget (records ! j) ''dst_host''"
  using assms by (rule analyze_trace_chain)

theorem analyze_trace_sound_witness:
  "\<exists>records i j k l v. read_trace (jsonl sample_trace) = Inr records
     \<and> i < j \<and> j < k \<and> j < l \<and> k < length records \<and> l < length records
     \<and> dirty_chain (records ! i) (records ! j) (records ! k) (records ! l)
     \<and> v \<in> set [PInt 4100, PInt 8200] \<and> dget sample_path ''line_address'' = PInt (dpa_line v)
     \<and> dget (records ! j) ''line_address'' = dget sample_path ''line_address''
     \<and> dget sample_path ''requester_host'' = dget (records ! i) ''src_host''
     \<and> dget sample_path ''owner_host'' = dget (records ! j) ''dst_host''"
  by (rule analyze_trace_sound [OF sample_trace_analyze, of "[PDict sample_path]"])
     (simp_all add: sample_evidence_def)

lemma filter_take_last:
  assumes "i < n" "n \<le> length xs" "P (xs ! i)" "\<And>k. i < k \<Longrightarrow> k < n \<Longrightarrow> \<not> P (xs ! k)"
  shows "filter P (take n xs) \<noteq> [] \<and> last (filter P (take n xs)) = xs ! i"
proof -
  have "take n xs = take i (take n xs) @ xs ! i # drop (Suc i) (take n xs)"
    using id_take_nth_drop [of i "take n xs"] assms(1,2) by simp
  moreover have "filter P (drop (Suc i) (take n xs)) = []"
    using assms(1,2,4) by (auto simp: filter_empty_conv in_set_conv_nth)
  ultimately have "filter P (take n xs) = filter P (take i (take n xs)) @ [xs ! i]"
    using assms(3) by (metis filter.simps(2) filter_append)
  then show ?thesis by simp
qed

lemma filter_drop_first:
  assumes "n \<le> k" "k < length xs" "P (xs ! k)" "\<And>m. n \<le> m \<Longrightarrow> m < k \<Longrightarrow> \<not> P (xs ! m)"
  shows "\<exists>ys. filter P (drop n xs) = xs ! k # ys"
proof -
  have "drop n xs = take (k - n) (drop n xs) @ xs ! k # drop (Suc k) xs"
    using assms(1,2) by (metis Cons_nth_drop_Suc append_take_drop_id drop_drop le_add_diff_inverse2)
  moreover have "filter P (take (k - n) (drop n xs)) = []"
    using assms(1,2,4) by (auto simp: filter_empty_conv in_set_conv_nth)
  ultimately show ?thesis using assms(3) by (metis append_Nil filter.simps(2) filter_append)
qed

lemma rfilter_total:
  "\<forall>x\<in>set xs. \<exists>b. p x = Inr b \<Longrightarrow> rfilter p xs = Inr (filter (\<lambda>x. p x = Inr True) xs)"
  by (induction xs) auto

lemma is_line_request_total:
  "hashable (dget r ''opcode'') \<Longrightarrow> \<exists>b. is_line_request line r = Inr b"
  by (auto simp: is_line_request_def in_set_def)

text \<open>
  A chain that the analysis cannot confuse with another one: no other request for the
  line between the request and the snoop, no other acknowledgement or completion with
  the snoop number before the chain's own.
\<close>

definition isolated_chain :: "pydict list \<Rightarrow> int \<Rightarrow> int \<Rightarrow> nat \<Rightarrow> nat \<Rightarrow> nat \<Rightarrow> nat \<Rightarrow> bool" where
  "isolated_chain records line sid i j k l \<longleftrightarrow>
     i < j \<and> j < k \<and> j < l \<and> k < length records \<and> l < length records
     \<and> dirty_chain (records ! i) (records ! j) (records ! k) (records ! l)
     \<and> dget (records ! j) ''line_address'' = PInt line \<and> dget (records ! j) ''snoop_id'' = PInt sid
     \<and> (\<forall>m\<in>set [Suc i..<Suc j]. is_line_request line (records ! m) \<noteq> Inr True)
     \<and> (\<forall>m\<in>set [Suc j..<k]. \<not> has_snoop_id ''snoop_ack'' sid (records ! m))
     \<and> (\<forall>m\<in>set [Suc j..<l]. \<not> has_snoop_id ''dirty_completion'' sid (records ! m))
     \<and> (\<forall>m\<in>set [0..<Suc j]. hashable (dget (records ! m) ''opcode''))"

lemma rfold_upto_step:
  assumes "rfold f s [0..<n] = Inr t" "j < n"
  shows "\<exists>u u'. f u j = Inr u'"
  using assms
proof (induction n arbitrary: t)
  case (Suc n)
  then obtain u where "rfold f s [0..<n] = Inr u" "f u n = Inr t"
    unfolding rfold_upto_Suc by (auto simp: rbind_Inr_iff)
  with Suc show ?case by (cases "j = n") (auto simp: less_Suc_eq)
qed simp

lemma isolated_chain_parts:
  assumes "isolated_chain records line sid i j k l"
  shows "\<exists>reqs. rfilter (is_line_request line) (take (Suc j) records) = Inr reqs
           \<and> reqs \<noteq> [] \<and> last reqs = records ! i" (is ?R)
    and "\<exists>acks. acks_after records j sid = records ! k # acks" (is ?A)
    and "\<exists>cs. completions_after records j sid = records ! l # cs" (is ?C)
proof -
  note ic = assms [unfolded isolated_chain_def]
  then have chain: "dirty_chain (records ! i) (records ! j) (records ! k) (records ! l)" by blast
  note ch = chain [unfolded dirty_chain_def agree_def, simplified]
  let ?q = "\<lambda>x. is_line_request line x = Inr True"
  have "\<exists>b. is_line_request line x = Inr b" if x: "x \<in> set (take (Suc j) records)" for x
  proof -
    from x obtain m where "m < Suc j" "x = records ! m" by (auto simp: in_set_conv_nth)
    moreover have "\<forall>m\<in>set [0..<Suc j]. hashable (dget (records ! m) ''opcode'')" using ic by blast
    ultimately have "hashable (dget x ''opcode'')" by (simp del: upt_Suc)
    then show ?thesis by (rule is_line_request_total)
  qed
  then have "rfilter (is_line_request line) (take (Suc j) records) = Inr (filter ?q (take (Suc j) records))"
    by (intro rfilter_total) blast
  moreover have "filter ?q (take (Suc j) records) \<noteq> [] \<and> last (filter ?q (take (Suc j) records)) = records ! i"
  proof (rule filter_take_last)
    show "?q (records ! i)" using ch ic by (auto simp: is_line_request_def)
    have "\<forall>m\<in>set [Suc i..<Suc j]. \<not> ?q (records ! m)" using ic by blast
    then show "\<not> ?q (records ! m)" if "i < m" "m < Suc j" for m
      using that by (simp add: Suc_le_eq del: upt_Suc)
  qed (use ic in linarith)+
  ultimately show ?R by blast
  have h: "has_snoop_id ''snoop_ack'' sid (records ! k)" "has_snoop_id ''dirty_completion'' sid (records ! l)"
    using ch ic by (auto simp: has_snoop_id_def)
  have n: "\<forall>m\<in>set [Suc j..<k]. \<not> has_snoop_id ''snoop_ack'' sid (records ! m)"
    "\<forall>m\<in>set [Suc j..<l]. \<not> has_snoop_id ''dirty_completion'' sid (records ! m)"
    "Suc j \<le> k" "Suc j \<le> l" "k < length records" "l < length records"
    using ic by (simp_all only: Suc_le_eq) blast+
  show ?A using n(3,5) h(1) by (rule filter_drop_first) (use n(1) in simp)
  show ?C using n(4,6) h(2) by (rule filter_drop_first) (use n(2) in simp)
qed

lemma isolated_chain_reports:
  assumes "isolated_chain records line sid i j k l" and "line \<in> set T"
    and "analyze_step records T st j = Inr st'"
  shows "\<exists>entry. reports records T j entry line \<and> dget entry ''snoop_id'' = PInt sid
           \<and> dget entry ''line_address'' = PInt line
           \<and> dget entry ''owner_host'' = dget (records ! j) ''dst_host''"
proof -
  note ic = assms(1) [unfolded isolated_chain_def]
  obtain reqs acks cs where
    rq: "rfilter (is_line_request line) (take (Suc j) records) = Inr reqs" "reqs \<noteq> []" "last reqs = records ! i"
    and ack: "acks_after records j sid = records ! k # acks"
    and comp: "completions_after records j sid = records ! l # cs"
    using isolated_chain_parts [OF assms(1)] by blast
  have valid: "valid_dirty_path (last reqs) (records ! j) (records ! k) (records ! l) = Inr True"
    using ic by (simp add: valid_dirty_path_iff rq(3))
  have li: "required_int (records ! j) ''line_address'' = Inr line"
    "required_int (records ! j) ''snoop_id'' = Inr sid"
    using ic by (simp_all only: trace_int.read_Inr_iff)
  have sn: "field_is (records ! j) ''event'' ''snoop_send''" "field_is (records ! j) ''opcode'' ''SNP_DATA_INV''"
    using ic by (simp_all add: dirty_chain_def)
  obtain entry where e: "dirty_path_entry (last reqs) (records ! j) (records ! k) (records ! l) line sid = Inr entry"
    using assms(2,3) sn li rq ack comp valid
    by (auto simp: analyze_step_def Let_def rbind_Inr_iff)
  with sn li rq ack comp valid assms(2) have "reports records T j entry line"
    unfolding reports_def by blast
  then show ?thesis using dirty_path_entry_fields(1,2,4) [OF e] by blast
qed

text \<open>
  (C20) Completeness of the dirty-path evidence: if the trace holds an isolated chain for
  the line of a requested address, a successful analysis is complete, lists a path with
  this line, this snoop number and this owner, and does not list the line as missing.
\<close>

theorem analyze_trace_complete:
  assumes "analyze_trace raw target_dpas = Inr ev" and "read_trace raw = Inr records"
    and "v \<in> set target_dpas" and "isolated_chain records (dpa_line v) sid i j k l"
  shows "dget ev ''complete'' = PBool True \<and>
     (\<exists>paths p. dget ev ''dirty_paths'' = PList paths \<and> PDict p \<in> set paths
        \<and> dget p ''line_address'' = PInt (dpa_line v) \<and> dget p ''snoop_id'' = PInt sid
        \<and> dget p ''owner_host'' = dget (records ! j) ''dst_host'')"
proof -
  let ?T = "sort (remdups (map dpa_line target_dpas))"
  from assms(1) obtain records' ps lines where r: "read_trace raw = Inr records'"
    and f': "rfold (analyze_step records' ?T) ([], []) [0..<length records'] = Inr (ps, lines)"
    and d: "dget ev ''dirty_paths'' = PList (map PDict ps)" "dget ev ''complete'' = PBool (ps \<noteq> [])"
    by (rule analyze_trace_Inr)
  with assms(2) have f: "rfold (analyze_step records ?T) ([], []) [0..<length records] = Inr (ps, lines)"
    by simp
  have j: "j < length records" using assms(4) by (simp add: isolated_chain_def)
  obtain st st' where step: "analyze_step records ?T st j = Inr st'"
    using rfold_upto_step [OF f j] by blast
  have "dpa_line v \<in> set ?T" using assms(3) by simp
  from isolated_chain_reports [OF assms(4) this step] obtain entry where e: "reports records ?T j entry (dpa_line v)" "dget entry ''snoop_id'' = PInt sid"
      "dget entry ''line_address'' = PInt (dpa_line v)"
      "dget entry ''owner_host'' = dget (records ! j) ''dst_host''"
    by blast
  then have "entry \<in> set ps" using analyze_loop(1) [OF f] j by blast
  with d e show ?thesis by (auto intro!: exI [of _ entry])
qed

theorem analyze_trace_complete_witness:
  "dget sample_evidence ''complete'' = PBool True \<and>
     (\<exists>paths p. dget sample_evidence ''dirty_paths'' = PList paths \<and> PDict p \<in> set paths
        \<and> dget p ''line_address'' = PInt (dpa_line (PInt 4100)) \<and> dget p ''snoop_id'' = PInt 3
        \<and> dget p ''owner_host'' = dget (sample_trace ! 1) ''dst_host'')"
proof (rule analyze_trace_complete [OF sample_trace_analyze sample_trace_read])
  show "PInt 4100 \<in> set [PInt 4100, PInt 8200]" by simp
  have "dirty_chain (sample_trace ! 0) (sample_trace ! 1) (sample_trace ! 2) (sample_trace ! 3)"
    unfolding valid_dirty_path_iff [symmetric] by code_simp
  moreover have "dpa_line (PInt 4100) = 4096" by code_simp
  ultimately show "isolated_chain sample_trace (dpa_line (PInt 4100)) 3 0 1 2 3"
    by (simp add: isolated_chain_def sample_trace_def is_line_request_def has_snoop_id_def numeral_nat)
qed

text \<open>
  The list of missing lines is exact: it holds the (hexadecimal) target lines, in
  order, for which no dirty path was reported.
\<close>

theorem analyze_trace_missing_lines:
  assumes "analyze_trace raw target_dpas = Inr ev" and "dget ev ''dirty_paths'' = PList paths"
  shows "dget ev ''missing_target_lines'' =
     PList (map (\<lambda>v. PStr (py_hex v))
       (filter (\<lambda>v. \<not> (\<exists>p. PDict p \<in> set paths \<and> dget p ''line_address'' = PInt v))
          (sort (remdups (map dpa_line target_dpas)))))"
proof -
  let ?T = "sort (remdups (map dpa_line target_dpas))"
  from assms(1) obtain records ps lines where
    f: "rfold (analyze_step records ?T) ([], []) [0..<length records] = Inr (ps, lines)"
    and d: "dget ev ''dirty_paths'' = PList (map PDict ps)"
    and m: "dget ev ''missing_target_lines'' =
      PList (map (\<lambda>v. PStr (py_hex v)) (filter (\<lambda>v. v \<notin> set lines) ?T))"
    by (rule analyze_trace_Inr)
  have "v \<in> set lines \<longleftrightarrow> (\<exists>p. PDict p \<in> set paths \<and> dget p ''line_address'' = PInt v)" for v
  proof -
    have la: "dget e ''line_address'' = PInt l" if "j < length records" "reports records ?T j e l" for j e l
      using that(2,1) by (rule reports_chain) blast
    have "v \<in> set lines \<longleftrightarrow> (\<exists>p\<in>set ps. dget p ''line_address'' = PInt v)"
    proof
      assume "v \<in> set lines"
      then obtain j e where "j < length records" "reports records ?T j e v"
        using analyze_loop(2) [OF f] by blast
      then show "\<exists>p\<in>set ps. dget p ''line_address'' = PInt v"
        using la analyze_loop(1) [OF f] by blast
    next
      assume "\<exists>p\<in>set ps. dget p ''line_address'' = PInt v"
      then obtain j e l where "j < length records" "reports records ?T j e l"
        and v: "dget e ''line_address'' = PInt v"
        using analyze_loop(1) [OF f] by blast
      moreover from this have "l = v" using la by fastforce
      ultimately show "v \<in> set lines" using analyze_loop(2) [OF f] by blast
    qed
    with d assms(2) show ?thesis by auto
  qed
  with m show ?thesis by simp
qed

theorem analyze_trace_missing_lines_witness:
  "dget sample_evidence ''missing_target_lines'' =
     PList (map (\<lambda>v. PStr (py_hex v))
       (filter (\<lambda>v. \<not> (\<exists>p. PDict p \<in> set [PDict sample_path] \<and> dget p ''line_address'' = PInt v))
          (sort (remdups (map dpa_line [PInt 4100, PInt 8200])))))"
  by (rule analyze_trace_missing_lines [OF sample_trace_analyze]) (simp add: sample_evidence_def)

lemma require_dirty_handoff_Inr:
  assumes "require_dirty_handoff ev owner requester = Inr p"
  obtains paths where "dget ev ''dirty_paths'' = PList paths" "PDict p \<in> set paths"
    "py_eq (dget p ''owner_host'') (PInt owner)" "py_eq (dget p ''requester_host'') (PInt requester)"
proof -
  let ?m = "\<lambda>paths. [path. PDict path \<leftarrow> paths, py_eq (dget path ''owner_host'') (PInt owner),
               py_eq (dget path ''requester_host'') (PInt requester)]"
  from assms obtain paths rest where d: "dget ev ''dirty_paths'' = PList paths"
    and m: "?m paths = p # rest"
    by (auto simp: require_dirty_handoff_def Let_def simp del: py_eq_int split: pyval.splits list.splits)
  have "p \<in> set (?m paths)" unfolding m by simp
  then have "PDict p \<in> set paths \<and> py_eq (dget p ''owner_host'') (PInt owner)
      \<and> py_eq (dget p ''requester_host'') (PInt requester)"
    by (auto simp del: py_eq_int split: pyval.splits if_splits)
  with d that show thesis by blast
qed

text \<open>
  The hand-off evidence: when the analysis of a trace succeeds and the selection of a
  hand-off from one host to another returns a path, the trace contains a dirty chain
  whose snoop is directed at the owner and whose request comes from the requester.
\<close>

theorem dirty_handoff_in_trace:
  assumes "analyze_trace raw target_dpas = Inr ev"
    and "require_dirty_handoff ev owner requester = Inr p"
  shows "\<exists>records i j k l. read_trace raw = Inr records
     \<and> i < j \<and> j < k \<and> j < l \<and> k < length records \<and> l < length records
     \<and> dirty_chain (records ! i) (records ! j) (records ! k) (records ! l)
     \<and> dget (records ! j) ''dst_host'' = PInt owner \<and> dget (records ! i) ''src_host'' = PInt requester"
proof -
  let ?T = "sort (remdups (map dpa_line target_dpas))"
  from assms(1) obtain records ps lines where r: "read_trace raw = Inr records"
    and f: "rfold (analyze_step records ?T) ([], []) [0..<length records] = Inr (ps, lines)"
    and d: "dget ev ''dirty_paths'' = PList (map PDict ps)" by (rule analyze_trace_Inr)
  from assms(2) obtain paths where "dget ev ''dirty_paths'' = PList paths" "PDict p \<in> set paths"
    and h: "py_eq (dget p ''owner_host'') (PInt owner)" "py_eq (dget p ''requester_host'') (PInt requester)"
    by (rule require_dirty_handoff_Inr)
  with d have "p \<in> set ps" by auto
  then obtain j line where j: "j < length records" "reports records ?T j p line"
    using analyze_loop(1) [OF f] by blast
  with h have hosts: "dget p ''owner_host'' = PInt owner" "dget p ''requester_host'' = PInt requester"
    using reports_hosts [OF j(2)] by auto
  from j(2,1) show ?thesis
  proof (rule reports_chain)
    fix i k l
    assume "i < j" "j < k" "j < l" "k < length records" "l < length records"
      "dirty_chain (records ! i) (records ! j) (records ! k) (records ! l)"
      "dget p ''requester_host'' = dget (records ! i) ''src_host''"
      "dget p ''owner_host'' = dget (records ! j) ''dst_host''"
    with r hosts show ?thesis by metis
  qed
qed

theorem dirty_handoff_in_trace_witness:
  "\<exists>records i j k l. read_trace (jsonl sample_trace) = Inr records
     \<and> i < j \<and> j < k \<and> j < l \<and> k < length records \<and> l < length records
     \<and> dirty_chain (records ! i) (records ! j) (records ! k) (records ! l)
     \<and> dget (records ! j) ''dst_host'' = PInt 1 \<and> dget (records ! i) ''src_host'' = PInt 0"
proof (rule dirty_handoff_in_trace [OF sample_trace_analyze])
  show "require_dirty_handoff sample_evidence 1 0 = Inr sample_path" by code_simp
qed

end
