(* ===== verification/Bi_Stats.thy ===== *)
theory Bi_Stats
  imports Py_Float "HOL-Library.Multiset"
begin

text \<open>
  The numeric helpers of scripts/cxl_bi_app.py: nearest-rank timing statistics
  (\<^verbatim>\<open>percentiles_ns\<close>) and the analytical latency and bandwidth envelope
  (\<^verbatim>\<open>analytical_envelope\<close>), both in binary64 arithmetic. The first is proved to return
  true percentiles although the code computes the rank with inexact floats.
\<close>

section \<open>Timing statistics\<close>

definition bad_sample :: "pyval \<Rightarrow> bool" where
  "bad_sample value =
     (is_bool value \<or> \<not> is_int value \<or> (case value of PInt i \<Rightarrow> i < 0 | _ \<Rightarrow> False))"

text \<open>
  \<^verbatim>\<open>sorted(samples)\<close> raises when two samples have no order. Numbers, and strings, have
  one among themselves; samples that are lists are outside the annotated type. The order
  only matters once every sample is known to be an integer.
\<close>

definition sortable :: "pyval list \<Rightarrow> bool" where
  "sortable samples =
     (length samples \<le> 1 \<or> list_all (\<lambda>v. num_of v \<noteq> None) samples \<or> list_all is_str samples)"

definition int_val :: "pyval \<Rightarrow> int" where
  "int_val value = (case value of PInt i \<Rightarrow> i | PBool b \<Rightarrow> (if b then 1 else 0) | _ \<Rightarrow> 0)"

definition nearest_rank :: "int list \<Rightarrow> pyfloat \<Rightarrow> int res" where
  "nearest_rank ordered percent =
     rbind (int_float (of_nat (length ordered))) (\<lambda>n.
     rbind (float_ceil (fmul percent n)) (\<lambda>c.
     let index = nat (max 0 (c - 1))
     in if index < length ordered then Inr (ordered ! index) else Inl IndexError))"

definition percentiles_ns :: "pyval list \<Rightarrow> pydict res" where
  "percentiles_ns samples =
     (if \<not> sortable samples then Inl TypeError
      else if samples = []
      then Inl (ValueError ''cannot calculate percentiles for an empty sample set'')
      else if list_ex bad_sample samples
      then Inl (ValueError ''timing samples must be nonnegative integers'')
      else
        let ordered = sort (map int_val samples); count = length ordered
        in rbind (int_truediv (sum_list ordered) (int count)) (\<lambda>mean.
           rbind (nearest_rank ordered (fl (50 / 100))) (\<lambda>p50.
           rbind (nearest_rank ordered (fl (95 / 100))) (\<lambda>p95.
           rbind (nearest_rank ordered (fl (99 / 100))) (\<lambda>p99.
           Inr [(''count'', PInt (int count)),
                (''min_ns'', PInt (ordered ! 0)),
                (''mean_ns'', PFloat mean),
                (''p50_ns'', PInt p50),
                (''p95_ns'', PInt p95),
                (''p99_ns'', PInt p99),
                (''max_ns'', PInt (last ordered))])))))"

section \<open>The analytical envelope\<close>

definition analytical_envelope :: "pyfloat \<Rightarrow> pyfloat \<Rightarrow> pyfloat \<Rightarrow> pyfloat \<Rightarrow> pydict res" where
  "analytical_envelope link_gbps media_ns request_ns bi_ns =
     (if list_ex (\<lambda>value. \<not> is_finite value \<or> float_le value (Fin 0))
           [link_gbps, media_ns, request_ns, bi_ns]
      then Inl (ValueError ''analytical assumptions must be finite and positive'')
      else
        let dirty_ns = fadd (fadd request_ns bi_ns) media_ns;
            clean_ns = fadd request_ns bi_ns
        in rbind (fdiv link_gbps (Fin 8)) (\<lambda>ceiling.
           rbind (fdiv (Fin 64) dirty_ns) (\<lambda>serialized.
           Inr [(''classification'', PStr ''analytical_not_measured''),
                (''assumptions'', PDict
                   [(''link_payload_Gbps'', PFloat link_gbps),
                    (''media_latency_ns'', PFloat media_ns),
                    (''request_response_ns'', PFloat request_ns),
                    (''bi_snoop_ack_ns'', PFloat bi_ns)]),
                (''dirty_read_latency_ns'', PFloat dirty_ns),
                (''clean_transfer_latency_ns'', PFloat clean_ns),
                (''streaming_ceiling_GBps'', PFloat ceiling),
                (''serialized_dirty_64B_GBps'', PFloat serialized)])))"

section \<open>The rank is exact\<close>

text \<open>
  The code multiplies the binary64 number nearest to the percentage with the sample
  count and rounds the product. For fewer than \<open>2 ^ 32\<close> samples the ceiling of that
  product is the ceiling of the exact product.
\<close>

definition exact_rank :: "int \<Rightarrow> int \<Rightarrow> int" where
  "exact_rank p n = (p * n + 99) div 100"

lemma exact_rank_bounds: "p * n \<le> 100 * exact_rank p n" "100 * exact_rank p n \<le> p * n + 99"
  by (simp_all add: exact_rank_def)

lemma exact_rank_range:
  assumes "0 < p" "p \<le> 100" "0 < n"
  shows "0 < exact_rank p n" and "exact_rank p n \<le> n"
proof -
  have "p * n \<le> 100 * n" using assms by (intro mult_right_mono) auto
  moreover have "0 < p * n" using assms by simp
  ultimately show "0 < exact_rank p n" "exact_rank p n \<le> n" using exact_rank_bounds [of p n] by linarith+
qed

lemma rounded_rank:
  assumes p: "0 < p" "p \<le> 100" and n: "0 < n" "n < 2 ^ 32"
    and c: "0 < c" "c \<le> of_int p / 100" "of_int p / 100 - c \<le> 1 / 2 ^ 50"
  obtains y where "fl (c * of_int n) = Fin y" "\<lceil>y\<rceil> = exact_rank p n"
proof -
  let ?m = "exact_rank p n"
  have m: "0 < ?m" "?m < 2 ^ 32" using exact_rank_range [OF p n(1)] n(2) by linarith+
  have x: "0 \<le> c * of_int n" using c n by simp
  have "c * of_int n \<le> of_int p / 100 * of_int n" using c n by (intro mult_right_mono) auto
  moreover have "(of_int (p * n) :: rat) \<le> of_int (100 * ?m)"
    using exact_rank_bounds [of p n] by (simp only: of_int_le_iff)
  ultimately have up: "c * of_int n \<le> of_int ?m" by simp
  obtain y where y: "fl (c * of_int n) = Fin y" "y \<le> of_int ?m"
    by (rule fl_nonneg_finite [OF x up]) (use m in auto)
  have "(of_int p / 100 - c) * of_int n \<le> 1 / 2 ^ 50 * of_int n" using c n by (intro mult_right_mono) auto
  moreover have "(1 :: rat) / 2 ^ 50 * of_int n \<le> 1 / 2 ^ 18" using n by simp
  moreover have "(of_int (100 * ?m) :: rat) \<le> of_int (p * n + 99)"
    using exact_rank_bounds [of p n] by (simp only: of_int_le_iff)
  ultimately have low: "of_int ?m - 1 + 1 / 128 \<le> c * of_int n" by (simp add: field_simps)
  define k where "k = 128 * (?m - 1) + 1"
  have k: "of_int k * 2 powi (- 7) = (of_int ?m - 1 + 1 / 128 :: rat)" by (simp add: k_def)
  have kb: "0 < k" "k < 2 ^ 53" using m by (auto simp: k_def)
  have "fl_pos (of_int k * 2 powi (- 7)) = of_int k * 2 powi (- 7)" using kb by (intro fl_pos_dyadic) auto
  moreover have "(of_int k * 2 powi (- 7) :: rat) < 2 ^ 1024"
  proof -
    have "(of_int k :: rat) < of_int (2 ^ 53)" using kb by (simp only: of_int_less_iff)
    also have "\<dots> \<le> (2 :: rat) ^ 1024" by (simp add: power_increasing)
    finally show ?thesis using kb(1) by (simp add: power_int_minus field_simps)
  qed
  ultimately have "fl (of_int ?m - 1 + 1 / 128) = Fin (of_int ?m - 1 + 1 / 128)"
    using kb(1) unfolding k [symmetric] by (simp add: fl_def Let_def sgn_if)
  from fl_mono [OF _ low this y(1)] m have "of_int ?m - 1 + 1 / 128 \<le> y" by simp
  with y have "\<lceil>y\<rceil> = ?m" by (intro ceiling_unique) linarith+
  with y show ?thesis using that by blast
qed

lemma percent_literals:
  "fl (50 / 100) = Fin (1 / 2)"
  "fl (95 / 100) = Fin (4278419646001971 / 2 ^ 52)"
  "fl (99 / 100) = Fin (8917127262193582 / 2 ^ 53)"
  using fl_literal [of "- 1" "50 / 100" "2 ^ 52"] fl_literal [of "- 1" "95 / 100" 8556839292003942]
    fl_literal [of "- 1" "99 / 100" 8917127262193582]
  by (simp_all add: power_int_minus)

lemma literal_rank:
  assumes p: "p \<in> {50, 95, 99}" and n: "0 < n" "n < 2 ^ 32"
  obtains y where "fmul (fl (of_int p / 100)) (Fin (of_int n)) = Fin y" "\<lceil>y\<rceil> = exact_rank p n"
proof -
  define c :: rat where "c = (if p = 50 then 1 / 2 else if p = 95 then 4278419646001971 / 2 ^ 52
                              else 8917127262193582 / 2 ^ 53)"
  have "fl (of_int p / 100) = Fin c"
    using p percent_literals by (elim insertE) (simp_all only: c_def of_int_numeral if_True if_False, simp_all)
  moreover have "0 < c" "c \<le> of_int p / 100" "of_int p / 100 - c \<le> 1 / 2 ^ 50" "0 < p" "p \<le> 100"
    using p by (auto simp: c_def field_simps)
  ultimately show ?thesis using rounded_rank [of p n c] n that by (metis fmul.simps(1))
qed

lemma nearest_rank_exact:
  assumes "p \<in> {50, 95, 99}" "ordered \<noteq> []" "length ordered < 2 ^ 32"
  shows "nearest_rank ordered (fl (of_int p / 100)) =
           Inr (ordered ! nat (exact_rank p (int (length ordered)) - 1))"
proof -
  let ?n = "int (length ordered)"
  have n: "0 < ?n" "?n < 2 ^ 32" using assms(2,3) by auto
  then obtain y where y: "fmul (fl (of_int p / 100)) (Fin (of_int ?n)) = Fin y" "\<lceil>y\<rceil> = exact_rank p ?n"
    using literal_rank [OF assms(1) n] by blast
  have "fl (of_int ?n) = Fin (of_int ?n)" using n by (intro fl_of_int) auto
  then have "int_float (of_nat (length ordered)) = Inr (Fin (of_int ?n))" by (simp add: int_float_def)
  moreover have "0 < exact_rank p ?n \<and> exact_rank p ?n \<le> ?n"
    using exact_rank_range [of p ?n] n assms(1) by auto
  ultimately show ?thesis using y
    by (auto simp: nearest_rank_def Let_def max_def)
qed

section \<open>The reported values are percentiles\<close>

text \<open>
  The nearest-rank percentile: the least sample \<open>v\<close> such that at least \<open>p\<close> percent of
  the samples are at most \<open>v\<close>.
\<close>

definition is_percentile :: "int \<Rightarrow> int list \<Rightarrow> int \<Rightarrow> bool" where
  "is_percentile p xs v \<longleftrightarrow>
     v \<in> set xs \<and> p * int (length xs) \<le> 100 * int (length (filter (\<lambda>x. x \<le> v) xs))
     \<and> (\<forall>w\<in>set xs. w < v \<longrightarrow> 100 * int (length (filter (\<lambda>x. x \<le> w) xs)) < p * int (length xs))"

lemma count_le_sorted:
  assumes "sorted ys" "i < length ys"
  shows "Suc i \<le> length (filter (\<lambda>x. x \<le> ys ! i) ys)"
    and "w < ys ! i \<Longrightarrow> length (filter (\<lambda>x. x \<le> w) ys) \<le> i"
proof -
  have "{0..<Suc i} \<subseteq> {j. j < length ys \<and> ys ! j \<le> ys ! i}"
    using assms by (auto intro: sorted_nth_mono)
  from card_mono [OF _ this] show "Suc i \<le> length (filter (\<lambda>x. x \<le> ys ! i) ys)"
    by (simp add: length_filter_conv_card)
  assume w: "w < ys ! i"
  have "{j. j < length ys \<and> ys ! j \<le> w} \<subseteq> {0..<i}"
  proof
    fix j assume "j \<in> {j. j < length ys \<and> ys ! j \<le> w}"
    then show "j \<in> {0..<i}" using sorted_nth_mono [OF assms(1), of i j] w by (cases "i \<le> j") auto
  qed
  from card_mono [OF _ this] show "length (filter (\<lambda>x. x \<le> w) ys) \<le> i"
    by (simp add: length_filter_conv_card)
qed

lemma sort_Nil_iff: "sort xs = [] \<longleftrightarrow> xs = []"
  by (metis set_empty set_sort)

lemma length_filter_sort: "length (filter P (sort xs)) = length (filter P xs)"
  by (metis mset_filter mset_sort size_mset)

lemma rank_is_percentile:
  assumes "xs \<noteq> []" "0 < p" "p \<le> 100"
  shows "is_percentile p xs (sort xs ! nat (exact_rank p (int (length xs)) - 1))"
proof -
  let ?n = "int (length xs)" and ?r = "exact_rank p (int (length xs))"
  let ?i = "nat (?r - 1)"
  have n: "0 < ?n" using assms by simp
  have b: "p * ?n \<le> 100 * ?r" "100 * ?r \<le> p * ?n + 99" by (rule exact_rank_bounds)+
  have i: "?i < length (sort xs)" "int (Suc ?i) = ?r"
    using exact_rank_range [OF assms(2,3) n] by auto
  note c = count_le_sorted [OF sorted_sort i(1), unfolded length_filter_sort]
  have "sort xs ! ?i \<in> set xs" using i(1) nth_mem [of ?i "sort xs"] by simp
  moreover have "p * ?n \<le> 100 * int (length (filter (\<lambda>x. x \<le> sort xs ! ?i) xs))"
    using c(1) i(2) b(1) by linarith
  moreover have "100 * int (length (filter (\<lambda>x. x \<le> w) xs)) < p * ?n" if "w < sort xs ! ?i" for w
    using c(2) [OF that] i(2) b(2) by linarith
  ultimately show ?thesis unfolding is_percentile_def by blast
qed

lemma int_val_PInt [simp]: "int_val (PInt i) = i" "int_val \<circ> PInt = (\<lambda>i. i)"
  by (auto simp: int_val_def)

lemma mean_finite:
  assumes "xs \<noteq> []" "\<forall>x\<in>set xs. lo \<le> x \<and> x \<le> hi" "0 \<le> lo" "hi < 2 ^ 53"
  obtains m where "int_truediv (sum_list xs) (int (length xs)) = Inr (Fin m)"
    "of_int lo \<le> m" "m \<le> of_int hi"
proof -
  let ?n = "int (length xs)" and ?q = "of_int (sum_list xs) / of_int (int (length xs)) :: rat"
  have "\<forall>x\<in>set xs. lo \<le> x \<Longrightarrow> lo * int (length xs) \<le> sum_list xs"
    "\<forall>x\<in>set xs. x \<le> hi \<Longrightarrow> sum_list xs \<le> hi * int (length xs)"
    by (induction xs) (auto simp: algebra_simps)
  then have "lo * ?n \<le> sum_list xs" "sum_list xs \<le> hi * ?n" using assms(2) by blast+
  then have "(of_int (lo * ?n) :: rat) \<le> of_int (sum_list xs)" "(of_int (sum_list xs) :: rat) \<le> of_int (hi * ?n)"
    by (simp_all only: of_int_le_iff)
  then have q: "of_int lo \<le> ?q" "?q \<le> of_int hi" using assms(1) by (simp_all add: field_simps)
  then have q0: "0 \<le> ?q" using assms(3) by (meson of_int_0_le_iff order_trans)
  obtain m where m: "fl ?q = Fin m" "0 \<le> m" "m \<le> of_int hi"
    using fl_nonneg_finite [OF q0 q(2) assms(4)] by blast
  have "(of_int lo :: rat) \<le> of_int hi" using q by linarith
  then have "\<bar>lo\<bar> < 2 ^ 53" using assms(3,4) by simp
  then have "of_int lo \<le> m" using fl_mono [OF _ q(1) fl_of_int m(1)] assms(3) by simp
  with m assms(1) show ?thesis using that by (simp add: int_truediv_def int_float_def)
qed

lemma percentiles_ns_eval:
  assumes "xs \<noteq> []" "length xs < 2 ^ 32" "\<forall>x\<in>set xs. 0 \<le> x \<and> x < 2 ^ 53"
  obtains m where "of_int (Min (set xs)) \<le> m" "m \<le> of_int (Max (set xs))"
    "percentiles_ns (map PInt xs) =
       (let rank = \<lambda>p. sort xs ! nat (exact_rank p (int (length xs)) - 1)
        in Inr [(''count'', PInt (int (length xs))), (''min_ns'', PInt (sort xs ! 0)), (''mean_ns'', PFloat (Fin m)),
                (''p50_ns'', PInt (rank 50)), (''p95_ns'', PInt (rank 95)), (''p99_ns'', PInt (rank 99)),
                (''max_ns'', PInt (last (sort xs)))])"
proof -
  have "\<forall>x\<in>set (sort xs). Min (set xs) \<le> x \<and> x \<le> Max (set xs)" by simp
  moreover have "sort xs \<noteq> []" "0 \<le> Min (set xs)" "Max (set xs) < 2 ^ 53" using assms by (auto simp: sort_Nil_iff)
  ultimately obtain m where m: "int_truediv (sum_list (sort xs)) (int (length (sort xs))) = Inr (Fin m)"
    "of_int (Min (set xs)) \<le> m" "m \<le> of_int (Max (set xs))" using mean_finite by blast
  have ok: "sortable (map PInt xs)" "\<not> list_ex bad_sample (map PInt xs)"
    using assms(3) by (auto simp: sortable_def list_all_iff list_ex_iff bad_sample_def)
  have rank: "nearest_rank (sort xs) (fl (of_int p / 100)) =
      Inr (sort xs ! nat (exact_rank p (int (length xs)) - 1))" if "p \<in> {50, 95, 99}" for p
    using nearest_rank_exact [OF that, of "sort xs"] assms by (simp add: sort_Nil_iff)
  show ?thesis
    using that [OF m(2,3)] m(1) ok assms(1) rank [of 50] rank [of 95] rank [of 99]
    by (simp add: percentiles_ns_def Let_def)
qed

lemma sorted_ends:
  assumes "xs \<noteq> []"
  shows "sort xs ! 0 = Min (set xs)" "last (sort xs) = Max (set xs)"
proof -
  have ne: "sort xs \<noteq> []" using assms by (simp add: sort_Nil_iff)
  have "x \<in> set (sort xs) \<Longrightarrow> sort xs ! 0 \<le> x \<and> x \<le> last (sort xs)" for x
    using ne by (metis in_set_conv_nth last_conv_nth le0 diff_less length_greater_0_conv less_Suc_eq_le
        Suc_pred' sorted_nth_mono sorted_sort zero_less_one)
  moreover have "sort xs ! 0 \<in> set xs" "last (sort xs) \<in> set xs"
    using ne last_in_set [OF ne] by (metis length_greater_0_conv nth_mem set_sort, simp)
  ultimately show "sort xs ! 0 = Min (set xs)" "last (sort xs) = Max (set xs)"
    by (auto intro!: Min_eqI [symmetric] Max_eqI [symmetric])
qed

text \<open>
  (C37) Statistics of timing samples: for any nonempty list of fewer than \<open>2 ^ 32\<close> samples
  below \<open>2 ^ 53\<close> ns the code returns, with the number of samples, their minimum and
  maximum, a mean between these two, and the exact nearest-rank 50th, 95th and 99th
  percentiles, although the ranks are computed with the binary64 neighbours of 0.95 and
  0.99.
\<close>

theorem percentiles_ns_correct:
  assumes "xs \<noteq> []" "length xs < 2 ^ 32" "\<forall>x\<in>set xs. 0 \<le> x \<and> x < 2 ^ 53"
  shows "\<exists>d m. percentiles_ns (map PInt xs) = Inr d
     \<and> dget d ''count'' = PInt (int (length xs))
     \<and> dget d ''min_ns'' = PInt (Min (set xs)) \<and> dget d ''max_ns'' = PInt (Max (set xs))
     \<and> dget d ''mean_ns'' = PFloat (Fin m) \<and> of_int (Min (set xs)) \<le> m \<and> m \<le> of_int (Max (set xs))
     \<and> (\<exists>v. dget d ''p50_ns'' = PInt v \<and> is_percentile 50 xs v)
     \<and> (\<exists>v. dget d ''p95_ns'' = PInt v \<and> is_percentile 95 xs v)
     \<and> (\<exists>v. dget d ''p99_ns'' = PInt v \<and> is_percentile 99 xs v)"
proof -
  obtain m where "of_int (Min (set xs)) \<le> m" "m \<le> of_int (Max (set xs))"
    "percentiles_ns (map PInt xs) =
       (let rank = \<lambda>p. sort xs ! nat (exact_rank p (int (length xs)) - 1)
        in Inr [(''count'', PInt (int (length xs))), (''min_ns'', PInt (sort xs ! 0)), (''mean_ns'', PFloat (Fin m)),
                (''p50_ns'', PInt (rank 50)), (''p95_ns'', PInt (rank 95)), (''p99_ns'', PInt (rank 99)),
                (''max_ns'', PInt (last (sort xs)))])"
    using percentiles_ns_eval [OF assms] by blast
  then show ?thesis
    using rank_is_percentile [OF assms(1)] sorted_ends [OF assms(1)] by (simp add: Let_def)
qed

theorem percentiles_ns_correct_witness:
  "\<exists>d m. percentiles_ns (map PInt [50, 10, 40, 20, 30]) = Inr d
     \<and> dget d ''count'' = PInt (int (length [50, 10, 40, 20, 30 :: int]))
     \<and> dget d ''min_ns'' = PInt (Min (set [50, 10, 40, 20, 30])) \<and> dget d ''max_ns'' = PInt (Max (set [50, 10, 40, 20, 30]))
     \<and> dget d ''mean_ns'' = PFloat (Fin m) \<and> of_int (Min (set [50, 10, 40, 20, 30])) \<le> m
     \<and> m \<le> of_int (Max (set [50, 10, 40, 20, 30]))
     \<and> (\<exists>v. dget d ''p50_ns'' = PInt v \<and> is_percentile 50 [50, 10, 40, 20, 30] v)
     \<and> (\<exists>v. dget d ''p95_ns'' = PInt v \<and> is_percentile 95 [50, 10, 40, 20, 30] v)
     \<and> (\<exists>v. dget d ''p99_ns'' = PInt v \<and> is_percentile 99 [50, 10, 40, 20, 30] v)"
  by (rule percentiles_ns_correct) simp_all

text \<open>
  Domain of the statistics: a result is only returned for a nonempty list of
  nonnegative integers, none of them a boolean.
\<close>

theorem percentiles_ns_domain:
  assumes "percentiles_ns samples = Inr d"
  shows "samples \<noteq> [] \<and> (\<exists>xs. samples = map PInt xs \<and> (\<forall>x\<in>set xs. 0 \<le> x))"
proof -
  have ne: "samples \<noteq> []" and ok: "\<not> list_ex bad_sample samples"
    using assms by (auto simp: percentiles_ns_def split: if_splits)
  have "\<exists>i. v = PInt i \<and> 0 \<le> i" if "v \<in> set samples" for v
    using ok that by (cases v) (auto simp: list_ex_iff bad_sample_def)
  then have "samples = map PInt (map int_val samples) \<and> (\<forall>x\<in>set (map int_val samples). 0 \<le> x)"
    by (induction samples) (force simp: int_val_def)+
  with ne show ?thesis by blast
qed

theorem percentiles_ns_domain_witness:
  "[PInt 3] \<noteq> [] \<and> (\<exists>xs. [PInt 3] = map PInt xs \<and> (\<forall>x\<in>set xs. 0 \<le> x))"
proof (rule percentiles_ns_domain)
  show "percentiles_ns [PInt 3] = Inr [(''count'', PInt 1), (''min_ns'', PInt 3), (''mean_ns'', PFloat (Fin 3)),
      (''p50_ns'', PInt 3), (''p95_ns'', PInt 3), (''p99_ns'', PInt 3), (''max_ns'', PInt 3)]"
  proof -
    obtain m where m: "of_int (Min (set [3 :: int])) \<le> (m :: rat)" "m \<le> of_int (Max (set [3 :: int]))"
      "percentiles_ns (map PInt [3]) =
       (let rank = \<lambda>p. sort [3] ! nat (exact_rank p (int (length [3 :: int])) - 1)
        in Inr [(''count'', PInt (int (length [3 :: int]))), (''min_ns'', PInt (sort [3] ! 0)), (''mean_ns'', PFloat (Fin m)),
                (''p50_ns'', PInt (rank 50)), (''p95_ns'', PInt (rank 95)), (''p99_ns'', PInt (rank 99)),
                (''max_ns'', PInt (last (sort [3])))])"
      by (rule percentiles_ns_eval [of "[3]"]) auto
    then have "m = 3" by simp
    with m show ?thesis by (simp add: Let_def exact_rank_def)
  qed
qed

section \<open>The envelope\<close>

text \<open>A finite \<^verbatim>\<open>float\<close> is a value that rounding keeps.\<close>

definition is_double :: "pyfloat \<Rightarrow> bool" where
  "is_double v = (case v of Fin x \<Rightarrow> fl x = Fin x | _ \<Rightarrow> True)"

lemma fl_cases:
  assumes "0 < x"
  obtains (finite) y where "fl x = Fin y" "0 \<le> y" | (overflow) "fl x = PInf"
proof (cases "2 ^ 1024 \<le> fl_pos x")
  case True
  with assms have "fl x = PInf" unfolding fl_def Let_def by simp
  then show ?thesis by (rule overflow)
next
  case False
  with assms have "fl x = Fin (fl_pos x)" unfolding fl_def Let_def by (simp add: sgn_if)
  then show ?thesis using fl_pos_nonneg [OF assms] by (rule finite)
qed

text \<open>Adding a positive number never decreases a float.\<close>

lemma fadd_increases:
  assumes "is_double (Fin c)" "0 < c" "0 < m"
  shows "float_le (Fin c) (fadd (Fin c) (Fin m))"
proof -
  have "0 < c + m" using assms by simp
  then show ?thesis
  proof (cases rule: fl_cases)
    case (finite y)
    from assms(1) have "fl c = Fin c" by (simp add: is_double_def)
    from fl_mono [OF _ _ this finite(1)] assms(2,3) have "c \<le> y" by simp
    with finite show ?thesis by simp
  next
    case overflow
    then show ?thesis by simp
  qed
qed

lemma positive_finite:
  "\<not> (\<not> is_finite v \<or> float_le v (Fin 0)) \<longleftrightarrow> (\<exists>x. v = Fin x \<and> 0 < x)"
  by (cases v) auto

text \<open>The two latency sums of the envelope.\<close>

lemma envelope_sums:
  assumes "is_double (Fin r)" "0 < r" "0 < b" "0 < m"
  defines "c \<equiv> fadd (Fin r) (Fin b)"
  shows "float_le (Fin r) c" "float_le c (fadd c (Fin m))" "fadd c (Fin m) \<noteq> Fin 0"
proof -
  show r: "float_le (Fin r) c" unfolding c_def using assms by (intro fadd_increases) auto
  have "float_le c (fadd c (Fin m)) \<and> fadd c (Fin m) \<noteq> Fin 0"
  proof (cases c)
    case (Fin y)
    with r assms have y: "0 < y" "is_double (Fin y)" by (auto simp: c_def is_double_def intro: fl_idem)
    with fadd_increases [OF y(2,1) assms(4)] show ?thesis by (auto simp: Fin)
  next
    case NInf
    with r show ?thesis by simp
  next
    case NaN
    with r show ?thesis by simp
  qed simp
  then show "float_le c (fadd c (Fin m))" "fadd c (Fin m) \<noteq> Fin 0" by auto
qed

lemma fdiv_total: "v \<noteq> Fin 0 \<Longrightarrow> \<exists>q. fdiv (Fin 64) v = Inr q"
  by (cases v) auto

text \<open>
  The analytical envelope: for assumptions that are binary64 numbers the code
  returns, never with a division error, exactly when all four are finite and positive,
  and otherwise raises \<^verbatim>\<open>ValueError\<close>; in the returned envelope the dirty-read latency is at
  least the clean-transfer latency, which is at least the request latency.
\<close>

theorem analytical_envelope_total:
  assumes "is_double request_ns"
  shows "if \<forall>v\<in>{link_gbps, media_ns, request_ns, bi_ns}. is_finite v \<and> float_lt (Fin 0) v
     then \<exists>d clean dirty. analytical_envelope link_gbps media_ns request_ns bi_ns = Inr d
       \<and> dget d ''clean_transfer_latency_ns'' = PFloat clean
       \<and> dget d ''dirty_read_latency_ns'' = PFloat dirty
       \<and> float_le request_ns clean \<and> float_le clean dirty
     else analytical_envelope link_gbps media_ns request_ns bi_ns =
            Inl (ValueError ''analytical assumptions must be finite and positive'')"
proof (cases "\<forall>v\<in>{link_gbps, media_ns, request_ns, bi_ns}. is_finite v \<and> float_lt (Fin 0) v")
  case True
  then obtain l m r b where v: "link_gbps = Fin l" "media_ns = Fin m" "request_ns = Fin r" "bi_ns = Fin b"
    and pos: "0 < l" "0 < m" "0 < r" "0 < b"
    by (auto simp: float_lt_def elim!: is_finite.elims)
  note sums = envelope_sums [of r b m, OF _ pos(3,4,2)] assms [unfolded v]
  then obtain q where "fdiv (Fin 64) (fadd (fadd (Fin r) (Fin b)) (Fin m)) = Inr q"
    using fdiv_total by blast
  with sums True pos show ?thesis by (simp add: v analytical_envelope_def Let_def del: fadd.simps)
next
  case False
  then have "list_ex (\<lambda>value. \<not> is_finite value \<or> float_le value (Fin 0)) [link_gbps, media_ns, request_ns, bi_ns]"
    by (auto simp: float_lt_def elim!: is_finite.elims)
  with False show ?thesis by (simp only: analytical_envelope_def if_True if_False)
qed

theorem analytical_envelope_total_witness:
  "if \<forall>v\<in>{Fin 32, Fin 100, Fin 150, Fin 200}. is_finite v \<and> float_lt (Fin 0) v
     then \<exists>d clean dirty. analytical_envelope (Fin 32) (Fin 100) (Fin 150) (Fin 200) = Inr d
       \<and> dget d ''clean_transfer_latency_ns'' = PFloat clean
       \<and> dget d ''dirty_read_latency_ns'' = PFloat dirty
       \<and> float_le (Fin 150) clean \<and> float_le clean dirty
     else analytical_envelope (Fin 32) (Fin 100) (Fin 150) (Fin 200) =
            Inl (ValueError ''analytical assumptions must be finite and positive'')"
  by (rule analytical_envelope_total) (use fl_of_int [of 150] in \<open>simp add: is_double_def\<close>)

end
