(* ===== verification/Bi_Guest.thy ===== *)
theory Bi_Guest
  imports Strict_Json Py_Float
begin

text \<open>
  The application gates of scripts/cxl_bi_app.py: \<^verbatim>\<open>validate_guest_evidence\<close> checks the
  records that the reader and writer guests print (mapping geometry, litmus test,
  ping-pong, two streams per role, summary) and derives the reported rates;
  \<^verbatim>\<open>parse_server_stats\<close> accepts the final counters of the coherence server.
\<close>

section \<open>Field access\<close>

definition integer :: "pydict \<Rightarrow> string \<Rightarrow> string \<Rightarrow> int res" where
  "integer record name context =
     (let value = dget record name
      in if is_bool value \<or> \<not> is_int value
         then Inl (ValueError (context @ '' field '' @ name @ '' must be an integer''))
         else case value of PInt i \<Rightarrow> Inr i | _ \<Rightarrow> Inl TypeError)"

interpretation guest_int: int_field_reader "\<lambda>record name. integer record name ctx"
  "\<lambda>name. ctx @ '' field '' @ name @ '' must be an integer''"
  for ctx
  by unfold_locales (simp add: integer_def Let_def split: pyval.splits)

definition one_event :: "pydict list \<Rightarrow> string \<Rightarrow> string \<Rightarrow> pydict res" where
  "one_event records event role =
     (let selected = filter (\<lambda>record. py_eq (dget record ''event'') (PStr event)) records
      in if length selected \<noteq> 1
         then Inl (ValueError (''expected exactly one '' @ event @ '' record for '' @ role
                               @ '', got '' @ show_nat (length selected)))
         else if \<not> py_eq (dget (hd selected) ''role'') (PStr role)
         then Inl (ValueError (event @ '' record has the wrong role for '' @ role))
         else Inr (hd selected))"

text \<open>\<^verbatim>\<open>f(i) * x\<close> and \<^verbatim>\<open>x / i\<close> with an integer operand convert it first.\<close>

definition int_times :: "int \<Rightarrow> pyfloat \<Rightarrow> pyfloat res" where
  "int_times i x = rbind (int_float (of_int i)) (\<lambda>f. Inr (fmul f x))"

definition over_int :: "pyfloat \<Rightarrow> int \<Rightarrow> pyfloat res" where
  "over_int x i = rbind (int_float (of_int i)) (\<lambda>f. fdiv x f)"

definition elapsed_mibps :: "pydict \<Rightarrow> string \<Rightarrow> pyfloat res" where
  "elapsed_mibps record context =
     rbind (integer record ''bytes'' context) (\<lambda>byte_count.
     rbind (integer record ''elapsed_ns'' context) (\<lambda>elapsed_ns.
     if byte_count \<le> 0 \<or> elapsed_ns \<le> 0
     then Inl (ValueError (context @ '' bytes and elapsed_ns must be positive''))
     else rbind (int_times byte_count (Fin 1000000000)) (\<lambda>x.
          rbind (over_int x elapsed_ns) (\<lambda>y. fdiv y (fmul (Fin 1024) (Fin 1024))))))"

section \<open>The gates, in the order of the code\<close>

definition check_role :: "string \<Rightarrow> pydict list \<Rightarrow> unit res" where
  "check_role role records =
     (if list_ex (\<lambda>record. py_eq (dget record ''event'') (PStr ''fatal'')) records
      then Inl (ValueError (role @ '' emitted a fatal record''))
      else if records = [] then Inl (ValueError (role @ '' emitted no guest records''))
      else rforall (\<lambda>record.
             if \<not> py_eq (dget record ''schema_version'') (PInt TRACE_SCHEMA_VERSION)
             then Inl (ValueError (role @ '' emitted an unsupported record schema''))
             else if \<not> py_eq (dget record ''role'') (PStr role)
             then Inl (ValueError (role @ '' stream contains a foreign-role record''))
             else Inr ()) records)"

definition expect_int :: "pydict \<Rightarrow> string \<Rightarrow> string \<Rightarrow> int \<Rightarrow> string \<Rightarrow> unit res" where
  "expect_int record name context expected message =
     rbind (integer record name context) (\<lambda>i. rcheck (i \<noteq> expected) (ValueError message))"

definition expect_positive :: "pydict \<Rightarrow> string \<Rightarrow> string \<Rightarrow> string \<Rightarrow> unit res" where
  "expect_positive record name context message =
     rbind (integer record name context) (\<lambda>i. rcheck (i \<le> 0) (ValueError message))"

definition geometry_fields :: "string list" where
  "geometry_fields =
     [''dax_size'', ''dax_align'', ''mapping_offset'', ''mapping_bytes'', ''litmus_generation_offset'',
      ''payload_offset'', ''ping_request_offset'', ''ping_ack_offset'', ''stream_offset'']"

definition check_mapped :: "pydict \<Rightarrow> pydict \<Rightarrow> int res" where
  "check_mapped mapped_reader mapped_writer =
     rbind (expect_int mapped_reader ''endpoint_id'' ''reader mapped'' 0 ''reader endpoint ID must be 0'') (\<lambda>_.
     rbind (expect_int mapped_writer ''endpoint_id'' ''writer mapped'' 1 ''writer endpoint ID must be 1'') (\<lambda>_.
     rbind (rforall (\<lambda>name.
              rbind (integer mapped_reader name ''reader mapped'') (\<lambda>reader_value.
              rbind (integer mapped_writer name ''writer mapped'') (\<lambda>writer_value.
              rcheck (reader_value \<noteq> writer_value)
                (ValueError (''guest DAX geometry differs for '' @ name))))) geometry_fields) (\<lambda>_.
     rbind (integer mapped_reader ''payload_offset'' ''reader mapped'') (\<lambda>payload_offset.
     if payload_offset mod 64 \<noteq> 0
     then Inl (ValueError ''litmus payload offset is not cache-line aligned'')
     else Inr payload_offset))))"

definition check_litmus_role :: "string \<Rightarrow> pydict \<Rightarrow> unit res" where
  "check_litmus_role role record =
     rbind (expect_int record ''generation'' (role @ '' litmus'') 1 (role @ '' litmus has the wrong generation'')) (\<lambda>_.
     rbind (expect_int record ''errors'' (role @ '' litmus'') 0 (role @ '' litmus reported an application error'')) (\<lambda>_.
     expect_positive record ''elapsed_ns'' (role @ '' litmus'') (role @ '' litmus elapsed time must be positive'')))"

definition check_litmus :: "pydict \<Rightarrow> pydict \<Rightarrow> unit res" where
  "check_litmus litmus_reader litmus_writer =
     (if \<not> py_eq (dget litmus_reader ''operation'') (PStr ''observe'')
      then Inl (ValueError ''reader litmus operation is not observe'')
      else if \<not> py_eq (dget litmus_writer ''operation'') (PStr ''publish'')
      then Inl (ValueError ''writer litmus operation is not publish'')
      else rbind (check_litmus_role ''reader'' litmus_reader) (\<lambda>_.
           rbind (check_litmus_role ''writer'' litmus_writer) (\<lambda>_.
           rbind (integer litmus_reader ''payload_checksum'' ''reader litmus'') (\<lambda>r.
           rbind (integer litmus_writer ''payload_checksum'' ''writer litmus'') (\<lambda>w.
           rcheck (r \<noteq> w) (ValueError ''reader and writer payload checksum disagree''))))))"

definition check_ping_role :: "int \<Rightarrow> string \<Rightarrow> pydict \<Rightarrow> unit res" where
  "check_ping_role iterations role record =
     rbind (expect_int record ''iterations'' (role @ '' pingpong'') iterations
              (role @ '' pingpong iteration count differs'')) (\<lambda>_.
     rbind (expect_int record ''errors'' (role @ '' pingpong'') 0
              (role @ '' pingpong reported an application error'')) (\<lambda>_.
     expect_positive record ''elapsed_ns'' (role @ '' pingpong'')
       (role @ '' pingpong elapsed time must be positive'')))"

definition reader_ping_fields :: "string list" where
  "reader_ping_fields = [''min_ns'', ''mean_ns'', ''p50_ns'', ''p95_ns'', ''p99_ns'', ''max_ns'']"

text \<open>The values of the ordered fields; the loop before has found integers there.\<close>

definition ping_order :: "pydict \<Rightarrow> int list" where
  "ping_order record =
     map (\<lambda>name. case dget record name of PInt i \<Rightarrow> i | _ \<Rightarrow> 0)
       [''min_ns'', ''p50_ns'', ''p95_ns'', ''p99_ns'', ''max_ns'']"

fun chained_le :: "int list \<Rightarrow> bool" where
  "chained_le (a # b # r) = (a \<le> b \<and> chained_le (b # r))"
| "chained_le _ = True"

definition check_ping :: "int \<Rightarrow> pydict \<Rightarrow> pydict \<Rightarrow> unit res" where
  "check_ping iterations ping_reader ping_writer =
     rbind (check_ping_role iterations ''reader'' ping_reader) (\<lambda>_.
     rbind (check_ping_role iterations ''writer'' ping_writer) (\<lambda>_.
     rbind (rforall (\<lambda>name.
              rbind (integer ping_reader name ''reader pingpong'') (\<lambda>i.
              rcheck (i < 0) (ValueError (''reader pingpong '' @ name @ '' must be nonnegative'')))) reader_ping_fields) (\<lambda>_.
     rcheck (\<not> chained_le (ping_order ping_reader))
       (ValueError ''reader pingpong percentiles are not monotonic''))))"

text \<open>Streams are keyed by role, direction and operation.\<close>

type_synonym stream_key = "string \<times> int \<times> string"
type_synonym streams = "(stream_key \<times> pydict) list"

definition show_key :: "stream_key \<Rightarrow> string" where
  "show_key key =
     (case key of (role, direction, operation) \<Rightarrow>
        ''('' @ [CHR 0x27] @ role @ [CHR 0x27] @ '', '' @ show_int direction @ '', '' @ [CHR 0x27] @ operation
        @ [CHR 0x27] @ '')'')"

definition stream_key_of :: "string \<Rightarrow> pydict \<Rightarrow> stream_key res" where
  "stream_key_of role record =
     rbind (integer record ''direction'' (role @ '' stream'')) (\<lambda>direction.
     let operation = dget record ''operation''
     in rbind (if direction \<notin> {0, 1} then Inr True
               else rbind (in_set operation [''write'', ''read_verify'']) (\<lambda>b. Inr (\<not> b))) (\<lambda>invalid.
        if invalid then Inl (ValueError (role @ '' emitted an invalid stream record''))
        else Inr (role, direction, (case operation of PStr s \<Rightarrow> s | _ \<Rightarrow> []))))"

definition add_stream :: "int \<Rightarrow> string \<Rightarrow> streams \<Rightarrow> pydict \<Rightarrow> streams res" where
  "add_stream stream_bytes role streams record =
     rbind (stream_key_of role record) (\<lambda>key.
     if key \<in> set (map fst streams)
     then Inl (ValueError (''duplicate stream record: '' @ show_key key))
     else rbind (expect_int record ''bytes'' (role @ '' stream'') stream_bytes
                   (role @ '' stream byte count differs'')) (\<lambda>_.
          rbind (expect_int record ''errors'' (role @ '' stream'') 0
                   (role @ '' stream verification failed'')) (\<lambda>_.
          Inr (aset key record streams))))"

definition role_streams :: "int \<Rightarrow> streams \<Rightarrow> string \<times> pydict list \<Rightarrow> streams res" where
  "role_streams stream_bytes streams role_records =
     (case role_records of (role, records) \<Rightarrow>
        let selected = filter (\<lambda>record. py_eq (dget record ''event'') (PStr ''stream'')) records
        in if length selected \<noteq> 2
           then Inl (ValueError (''expected two stream records for '' @ role))
           else rfold (add_stream stream_bytes role) streams selected)"

definition expected_streams :: "stream_key list" where
  "expected_streams =
     [(''writer'', 0, ''write''), (''reader'', 0, ''read_verify''),
      (''reader'', 1, ''write''), (''writer'', 1, ''read_verify'')]"

definition collect_streams :: "int \<Rightarrow> pydict list \<Rightarrow> pydict list \<Rightarrow> streams res" where
  "collect_streams stream_bytes reader_records writer_records =
     rbind (rfold (role_streams stream_bytes) []
              [(''reader'', reader_records), (''writer'', writer_records)]) (\<lambda>streams.
     if set (map fst streams) \<noteq> set expected_streams
     then Inl (ValueError ''stream direction/role operations are incomplete'')
     else Inr streams)"

definition check_summary :: "int \<Rightarrow> int \<Rightarrow> string \<Rightarrow> pydict \<Rightarrow> unit res" where
  "check_summary iterations stream_bytes role summary =
     rbind (if \<not> py_eq (dget summary ''status'') (PStr ''pass'') then Inr True
            else rbind (integer summary ''errors'' (role @ '' summary'')) (\<lambda>i. Inr (i \<noteq> 0))) (\<lambda>bad.
     if bad then Inl (ValueError (role @ '' summary did not pass''))
     else rbind (expect_int summary ''iterations'' (role @ '' summary'') iterations
                   (role @ '' summary iteration count differs'')) (\<lambda>_.
          rbind (expect_int summary ''stream_bytes'' (role @ '' summary'') stream_bytes
                   (role @ '' summary stream byte count differs'')) (\<lambda>_.
          expect_int summary ''explicit_flush_calls'' (role @ '' summary'') 0
            (role @ '' reported an explicit flush''))))"

text \<open>\<^verbatim>\<open>streams[key]\<close>.\<close>

definition stream_of :: "streams \<Rightarrow> stream_key \<Rightarrow> pydict res" where
  "stream_of streams key = (case map_of streams key of None \<Rightarrow> Inl KeyError | Some r \<Rightarrow> Inr r)"

definition stream_rate :: "streams \<Rightarrow> stream_key \<Rightarrow> string \<Rightarrow> pyfloat res" where
  "stream_rate streams key context = rbind (stream_of streams key) (\<lambda>r. elapsed_mibps r context)"

definition measurements ::
  "int \<Rightarrow> int \<Rightarrow> pydict \<Rightarrow> pydict \<Rightarrow> pydict \<Rightarrow> streams \<Rightarrow> pydict res" where
  "measurements iterations stream_bytes litmus_reader litmus_writer ping_reader streams =
     rbind (integer ping_reader ''elapsed_ns'' ''reader pingpong'') (\<lambda>ping_elapsed.
     rbind (integer litmus_reader ''elapsed_ns'' ''reader litmus'') (\<lambda>reader_end_to_end_ns.
     rbind (integer litmus_writer ''elapsed_ns'' ''writer litmus'') (\<lambda>writer_publish_ns.
     rbind (rmap (\<lambda>name. rbind (dindex ping_reader name) (\<lambda>v. Inr (name, v))) reader_ping_fields) (\<lambda>ping_values.
     rbind (rbind (int_times iterations (Fin 1000000000)) (\<lambda>x. over_int x ping_elapsed)) (\<lambda>round_trips.
     rbind (rbind (int_times iterations (Fin 2)) (\<lambda>x. over_int (fmul x (Fin 1000000000)) ping_elapsed)) (\<lambda>transfers.
     rbind (stream_rate streams (''writer'', 0, ''write'') ''direction 0 write'') (\<lambda>d0w.
     rbind (stream_rate streams (''reader'', 0, ''read_verify'') ''direction 0 read verify'') (\<lambda>d0r.
     rbind (stream_rate streams (''reader'', 1, ''write'') ''direction 1 write'') (\<lambda>d1w.
     rbind (stream_rate streams (''writer'', 1, ''read_verify'') ''direction 1 read verify'') (\<lambda>d1r.
     Inr [(''classification'', PStr ''qemu_tcg_tcp_wallclock''),
          (''warning'', PStr (''Functional-model timing includes QEMU TCG, host scheduling, ''
             @ ''TCP, logging, and guest polling; it is not hardware CXL timing.'')),
          (''litmus'', PDict [(''reader_end_to_end_ns'', PInt reader_end_to_end_ns),
             (''writer_publish_ns'', PInt writer_publish_ns)]),
          (''pingpong'', PDict (ping_values @
             [(''iterations'', PInt iterations), (''elapsed_ns'', PInt ping_elapsed),
              (''round_trips_per_second'', PFloat round_trips),
              (''coherence_transfers_per_second'', PFloat transfers)])),
          (''stream'', PDict [(''direction_0_write_MiBps'', PFloat d0w),
             (''direction_0_read_verify_MiBps'', PFloat d0r), (''direction_1_write_MiBps'', PFloat d1w),
             (''direction_1_read_verify_MiBps'', PFloat d1r), (''bytes_per_direction'', PInt stream_bytes)])]))))))))))"

definition by_role :: "pydict \<Rightarrow> pydict \<Rightarrow> pyval" where
  "by_role r w = PDict [(''reader'', PDict r), (''writer'', PDict w)]"

definition validate_guest_evidence :: "pydict list \<Rightarrow> pydict list \<Rightarrow> int \<Rightarrow> int \<Rightarrow> pydict res" where
  "validate_guest_evidence reader_records writer_records iterations stream_bytes =
     rbind (check_role ''reader'' reader_records) (\<lambda>_.
     rbind (check_role ''writer'' writer_records) (\<lambda>_.
     rbind (one_event reader_records ''mapped'' ''reader'') (\<lambda>mapped_reader.
     rbind (one_event writer_records ''mapped'' ''writer'') (\<lambda>mapped_writer.
     rbind (check_mapped mapped_reader mapped_writer) (\<lambda>payload_offset.
     rbind (one_event reader_records ''litmus'' ''reader'') (\<lambda>litmus_reader.
     rbind (one_event writer_records ''litmus'' ''writer'') (\<lambda>litmus_writer.
     rbind (check_litmus litmus_reader litmus_writer) (\<lambda>_.
     rbind (one_event reader_records ''pingpong'' ''reader'') (\<lambda>ping_reader.
     rbind (one_event writer_records ''pingpong'' ''writer'') (\<lambda>ping_writer.
     rbind (check_ping iterations ping_reader ping_writer) (\<lambda>_.
     rbind (collect_streams stream_bytes reader_records writer_records) (\<lambda>streams.
     rbind (one_event reader_records ''summary'' ''reader'') (\<lambda>summary_reader.
     rbind (one_event writer_records ''summary'' ''writer'') (\<lambda>summary_writer.
     rbind (check_summary iterations stream_bytes ''reader'' summary_reader) (\<lambda>_.
     rbind (check_summary iterations stream_bytes ''writer'' summary_writer) (\<lambda>_.
     rbind (measurements iterations stream_bytes litmus_reader litmus_writer ping_reader streams) (\<lambda>ms.
     rbind (integer mapped_reader ''ping_ack_offset'' ''reader mapped'') (\<lambda>ping_ack_offset.
     rbind (integer mapped_reader ''stream_offset'' ''reader mapped'') (\<lambda>stream_offset.
     Inr [(''application_pass'', PBool True),
          (''application_errors'', PInt 0),
          (''payload_offset'', PInt payload_offset),
          (''ping_ack_offset'', PInt ping_ack_offset),
          (''stream_offset'', PInt stream_offset),
          (''mapped'', by_role mapped_reader mapped_writer),
          (''litmus'', by_role litmus_reader litmus_writer),
          (''summaries'', by_role summary_reader summary_writer),
          (''measurements'', PDict ms)])))))))))))))))))))"

section \<open>Server counters\<close>

definition STATS_MARKER :: string where
  "STATS_MARKER = ''COHERENCE_V2_STATS_JSON ''"

definition stats_line_records :: "string \<Rightarrow> pydict list res" where
  "stats_line_records line =
     (case find_sub STATS_MARKER line of
        None \<Rightarrow> Inr []
      | Some position \<Rightarrow>
          rbind (strict_json_object (strip (drop (position + length STATS_MARKER) line))
                   ''coherence server stats'') (\<lambda>record. Inr [record]))"

definition zero_counters :: "string list" where
  "zero_counters = [''timeouts'', ''protocol_errors'', ''delivery_failures'', ''server_copy_failures'',
                    ''active_bindings'']"

definition parse_server_stats :: "string \<Rightarrow> pydict res" where
  "parse_server_stats output =
     rbind (extract_lines stats_line_records (splitlines output)) (\<lambda>records.
     if length records \<noteq> 1
     then Inl (ValueError (''expected exactly one final coherence stats object, got ''
                           @ show_nat (length records)))
     else let stats = hd records
          in rbind (rforall (\<lambda>name. expect_int stats name ''server stats'' 0
                      (''coherence server counter is nonzero: '' @ name)) zero_counters)
               (\<lambda>_. Inr stats))"

section \<open>What the gates mean\<close>

text \<open>
  The declarative counterpart of the checks: which records of the two guests pass. Every
  predicate below is stated on the records alone, without the order of the checks.
\<close>

definition event_records :: "string \<Rightarrow> pydict list \<Rightarrow> pydict list" where
  "event_records event records = filter (\<lambda>r. dget r ''event'' = PStr event) records"

definition clean_role :: "string \<Rightarrow> pydict list \<Rightarrow> bool" where
  "clean_role role records \<longleftrightarrow>
     records \<noteq> [] \<and> event_records ''fatal'' records = []
     \<and> (\<forall>r\<in>set records. dget r ''role'' = PStr role \<and> py_eq (dget r ''schema_version'') (PInt 1))"

definition only_event :: "pydict list \<Rightarrow> string \<Rightarrow> string \<Rightarrow> pydict \<Rightarrow> bool" where
  "only_event records event role r \<longleftrightarrow> event_records event records = [r] \<and> dget r ''role'' = PStr role"

definition positive_field :: "pydict \<Rightarrow> string \<Rightarrow> bool" where
  "positive_field r name \<longleftrightarrow> (\<exists>i>0. dget r name = PInt i)"

definition mapped_ok :: "pydict \<Rightarrow> pydict \<Rightarrow> int \<Rightarrow> bool" where
  "mapped_ok r w offset \<longleftrightarrow>
     dget r ''endpoint_id'' = PInt 0 \<and> dget w ''endpoint_id'' = PInt 1
     \<and> (\<forall>name\<in>set geometry_fields. \<exists>i. dget r name = PInt i \<and> dget w name = PInt i)
     \<and> dget r ''payload_offset'' = PInt offset \<and> 64 dvd offset"

definition litmus_ok :: "pydict \<Rightarrow> pydict \<Rightarrow> bool" where
  "litmus_ok r w \<longleftrightarrow>
     dget r ''operation'' = PStr ''observe'' \<and> dget w ''operation'' = PStr ''publish''
     \<and> (\<forall>x\<in>{r, w}. dget x ''generation'' = PInt 1 \<and> dget x ''errors'' = PInt 0 \<and> positive_field x ''elapsed_ns'')
     \<and> (\<exists>i. dget r ''payload_checksum'' = PInt i \<and> dget w ''payload_checksum'' = PInt i)"

definition ping_ok :: "int \<Rightarrow> pydict \<Rightarrow> pydict \<Rightarrow> bool" where
  "ping_ok iterations r w \<longleftrightarrow>
     (\<forall>x\<in>{r, w}. dget x ''iterations'' = PInt iterations \<and> dget x ''errors'' = PInt 0 \<and> positive_field x ''elapsed_ns'')
     \<and> (\<forall>name\<in>set reader_ping_fields. \<exists>i\<ge>0. dget r name = PInt i) \<and> sorted (ping_order r)"

definition summary_ok :: "int \<Rightarrow> int \<Rightarrow> pydict \<Rightarrow> bool" where
  "summary_ok iterations stream_bytes r \<longleftrightarrow>
     dget r ''status'' = PStr ''pass'' \<and> dget r ''errors'' = PInt 0 \<and> dget r ''iterations'' = PInt iterations
     \<and> dget r ''stream_bytes'' = PInt stream_bytes \<and> dget r ''explicit_flush_calls'' = PInt 0"

definition stream_ok :: "int \<Rightarrow> string \<Rightarrow> int \<Rightarrow> pydict \<Rightarrow> bool" where
  "stream_ok stream_bytes operation direction r \<longleftrightarrow>
     dget r ''operation'' = PStr operation \<and> dget r ''direction'' = PInt direction
     \<and> dget r ''bytes'' = PInt stream_bytes \<and> dget r ''errors'' = PInt 0"

text \<open>A role reads and verifies in one direction and writes in the other, and does nothing else.\<close>

definition two_streams :: "int \<Rightarrow> pydict list \<Rightarrow> int \<Rightarrow> pydict \<Rightarrow> pydict \<Rightarrow> bool" where
  "two_streams stream_bytes records reads a b \<longleftrightarrow>
     event_records ''stream'' records \<in> {[a, b], [b, a]}
     \<and> stream_ok stream_bytes ''read_verify'' reads a \<and> stream_ok stream_bytes ''write'' (1 - reads) b"

definition guest_gates :: "pydict list \<Rightarrow> pydict list \<Rightarrow> int \<Rightarrow> int \<Rightarrow> bool" where
  "guest_gates R W iterations stream_bytes \<longleftrightarrow>
     clean_role ''reader'' R \<and> clean_role ''writer'' W \<and> 0 < stream_bytes
     \<and> (\<exists>r w offset. only_event R ''mapped'' ''reader'' r \<and> only_event W ''mapped'' ''writer'' w \<and> mapped_ok r w offset)
     \<and> (\<exists>r w. only_event R ''litmus'' ''reader'' r \<and> only_event W ''litmus'' ''writer'' w \<and> litmus_ok r w)
     \<and> (\<exists>r w. only_event R ''pingpong'' ''reader'' r \<and> only_event W ''pingpong'' ''writer'' w \<and> ping_ok iterations r w)
     \<and> (\<exists>a b c d. two_streams stream_bytes R 0 a b \<and> two_streams stream_bytes W 1 c d
          \<and> (\<forall>x\<in>{a, b, c, d}. positive_field x ''elapsed_ns''))
     \<and> (\<exists>r w. only_event R ''summary'' ''reader'' r \<and> only_event W ''summary'' ''writer'' w
          \<and> summary_ok iterations stream_bytes r \<and> summary_ok iterations stream_bytes w)"

section \<open>Each check decides its predicate\<close>

lemma expect_int_Inr [simp]: "expect_int r n c i m = Inr u \<longleftrightarrow> dget r n = PInt i"
  by (auto simp: expect_int_def rbind_Inr_iff guest_int.read_Inr_iff)

lemma expect_positive_Inr [simp]: "expect_positive r n c m = Inr u \<longleftrightarrow> positive_field r n"
  by (auto simp: expect_positive_def positive_field_def rbind_Inr_iff guest_int.read_Inr_iff)

lemma check_role_Inr: "check_role role records = Inr u \<longleftrightarrow> clean_role role records"
  by (auto simp: check_role_def clean_role_def event_records_def filter_empty_conv list_ex_iff
      TRACE_SCHEMA_VERSION_def simp del: py_eq_int)

lemma one_event_Inr: "one_event records event role = Inr r \<longleftrightarrow> only_event records event role r"
  by (cases "event_records event records" rule: remdups_adj.cases)
     (auto simp: one_event_def only_event_def Let_def event_records_def)

lemma check_mapped_Inr: "check_mapped r w = Inr offset \<longleftrightarrow> mapped_ok r w offset"
  by (auto simp: check_mapped_def mapped_ok_def rbind_Inr_iff guest_int.read_Inr_iff
      dvd_eq_mod_eq_0)

lemma check_litmus_Inr: "check_litmus r w = Inr u \<longleftrightarrow> litmus_ok r w"
  by (auto simp: check_litmus_def check_litmus_role_def litmus_ok_def rbind_Inr_iff guest_int.read_Inr_iff)

lemma chained_le_sorted: "chained_le xs \<longleftrightarrow> sorted xs"
  by (induction xs rule: chained_le.induct) (auto simp: sorted2 intro: order_trans)

lemma check_ping_Inr: "check_ping iterations r w = Inr u \<longleftrightarrow> ping_ok iterations r w"
  by (auto simp: check_ping_def check_ping_role_def ping_ok_def rbind_Inr_iff guest_int.read_Inr_iff
      chained_le_sorted not_less)

lemma check_summary_Inr: "check_summary iterations stream_bytes role r = Inr u \<longleftrightarrow> summary_ok iterations stream_bytes r"
  by (auto simp: check_summary_def summary_ok_def rbind_Inr_iff guest_int.read_Inr_iff split: if_splits)

lemmas gate_iffs = check_role_Inr one_event_Inr check_mapped_Inr check_litmus_Inr check_ping_Inr check_summary_Inr

definition operations :: "string set" where
  "operations = {''write'', ''read_verify''}"

lemma stream_key_of_Inr:
  "stream_key_of role r = Inr key \<longleftrightarrow>
     (\<exists>d op. dget r ''direction'' = PInt d \<and> dget r ''operation'' = PStr op \<and> d \<in> {0, 1} \<and> op \<in> operations
        \<and> key = (role, d, op))"
  unfolding operations_def
  by (cases "dget r ''direction''"; cases "dget r ''operation''")
     (auto simp: stream_key_of_def integer_def Let_def in_set_def in_tuple_def)

lemma add_stream_Inr:
  "add_stream stream_bytes role st r = Inr st' \<longleftrightarrow>
     (\<exists>d op. stream_ok stream_bytes op d r \<and> d \<in> {0, 1} \<and> op \<in> operations
        \<and> (role, d, op) \<notin> fst ` set st \<and> st' = st @ [((role, d, op), r)])"
proof -
  have "add_stream stream_bytes role st r = Inr st' \<longleftrightarrow>
     (\<exists>key. stream_key_of role r = Inr key \<and> key \<notin> fst ` set st \<and> dget r ''bytes'' = PInt stream_bytes
        \<and> dget r ''errors'' = PInt 0 \<and> st' = st @ [(key, r)])"
    by (auto simp: add_stream_def rbind_Inr_iff aset_fresh)
  then show ?thesis unfolding stream_key_of_Inr stream_ok_def by blast
qed

lemma role_streams_Inr:
  assumes "fst ` fst ` set st \<subseteq> - {role}"
  shows "role_streams stream_bytes st (role, records) = Inr st' \<longleftrightarrow>
     (\<exists>x y d op e oq. event_records ''stream'' records = [x, y] \<and> stream_ok stream_bytes op d x \<and> stream_ok stream_bytes oq e y
        \<and> d \<in> {0, 1} \<and> e \<in> {0, 1} \<and> op \<in> operations \<and> oq \<in> operations
        \<and> (d, op) \<noteq> (e, oq) \<and> st' = st @ [((role, d, op), x), ((role, e, oq), y)])"
proof -
  have fresh: "(role, d, op) \<notin> fst ` set st" for d op using assms by force
  have two: "length xs = 2 \<longleftrightarrow> (\<exists>x y. xs = [x, y])" for xs :: "pydict list"
    by (auto simp: numeral_2_eq_2 length_Suc_conv)
  show ?thesis
  proof (cases "\<exists>x y. event_records ''stream'' records = [x, y]")
    case True
    then obtain x y where "event_records ''stream'' records = [x, y]" by blast
    then show ?thesis
      by (auto simp: role_streams_def event_records_def Let_def rbind_Inr_iff add_stream_Inr fresh)
  next
    case False
    then show ?thesis by (auto simp: role_streams_def event_records_def Let_def two)
  qed
qed

lemma role_streams_eval:
  assumes "fst ` fst ` set st \<subseteq> - {role}" "event_records ''stream'' records = [x, y]"
    "stream_ok stream_bytes op d x" "stream_ok stream_bytes oq e y" "d \<in> {0, 1}" "e \<in> {0, 1}" "d \<noteq> e"
    "op \<in> operations" "oq \<in> operations"
  shows "role_streams stream_bytes st (role, records) = Inr (st @ [((role, d, op), x), ((role, e, oq), y)])"
  by (subst role_streams_Inr [OF assms(1)]) (use assms(2-) in blast)

text \<open>The four stream records by key.\<close>

definition stream_table :: "streams \<Rightarrow> pydict \<Rightarrow> pydict \<Rightarrow> pydict \<Rightarrow> pydict \<Rightarrow> bool" where
  "stream_table st a b c d \<longleftrightarrow>
     map_of st (''reader'', 0, ''read_verify'') = Some a \<and> map_of st (''reader'', 1, ''write'') = Some b
     \<and> map_of st (''writer'', 1, ''read_verify'') = Some c \<and> map_of st (''writer'', 0, ''write'') = Some d"

lemma collect_streams_sound:
  assumes "collect_streams stream_bytes R W = Inr st"
  obtains a b c d where "two_streams stream_bytes R 0 a b" "two_streams stream_bytes W 1 c d" "stream_table st a b c d"
proof -
  from assms obtain st1 where 1: "role_streams stream_bytes [] (''reader'', R) = Inr st1"
      "role_streams stream_bytes st1 (''writer'', W) = Inr st" and k: "set (map fst st) = set expected_streams"
    by (auto simp: collect_streams_def rbind_Inr_iff split: if_splits)
  from 1(1) obtain x y d op e oq where r: "event_records ''stream'' R = [x, y]" "stream_ok stream_bytes op d x"
      "stream_ok stream_bytes oq e y" "st1 = [((''reader'', d, op), x), ((''reader'', e, oq), y)]"
    by (subst (asm) role_streams_Inr) auto
  with 1(2) obtain x' y' d' op' e' oq' where w: "event_records ''stream'' W = [x', y']"
      "stream_ok stream_bytes op' d' x'" "stream_ok stream_bytes oq' e' y'"
      "st = [((''reader'', d, op), x), ((''reader'', e, oq), y), ((''writer'', d', op'), x'), ((''writer'', e', oq'), y')]"
    by (subst (asm) role_streams_Inr) auto
  from k have "(''reader'', 0, ''read_verify'') \<in> fst ` set st" "(''reader'', 1, ''write'') \<in> fst ` set st"
    "(''writer'', 1, ''read_verify'') \<in> fst ` set st" "(''writer'', 0, ''write'') \<in> fst ` set st"
    by (simp_all add: expected_streams_def)
  then have "(0, ''read_verify'') \<in> {(d, op), (e, oq)}" "(1, ''write'') \<in> {(d, op), (e, oq)}"
    "(1, ''read_verify'') \<in> {(d', op'), (e', oq')}" "(0, ''write'') \<in> {(d', op'), (e', oq')}"
    unfolding w(4) by simp_all
  then have "(d, op, e, oq) = (0, ''read_verify'', 1, ''write'') \<or> (d, op, e, oq) = (1, ''write'', 0, ''read_verify'')"
    "(d', op', e', oq') = (1, ''read_verify'', 0, ''write'') \<or> (d', op', e', oq') = (0, ''write'', 1, ''read_verify'')"
    by auto
  then show ?thesis
  proof (elim disjE, goal_cases)
    case 1
    with r w show ?thesis by (intro that [of x y x' y']) (simp_all add: two_streams_def stream_table_def)
  next
    case 2
    with r w show ?thesis by (intro that [of x y y' x']) (simp_all add: two_streams_def stream_table_def)
  next
    case 3
    with r w show ?thesis by (intro that [of y x x' y']) (simp_all add: two_streams_def stream_table_def)
  next
    case 4
    with r w show ?thesis by (intro that [of y x y' x']) (simp_all add: two_streams_def stream_table_def)
  qed
qed

lemma role_streams_two:
  assumes "fst ` fst ` set st \<subseteq> - {role}" "two_streams stream_bytes records reads a b" "reads \<in> {0, 1}"
  obtains ps where "role_streams stream_bytes st (role, records) = Inr (st @ ps)"
    "ps = [((role, reads, ''read_verify''), a), ((role, 1 - reads, ''write''), b)] \<or>
     ps = [((role, 1 - reads, ''write''), b), ((role, reads, ''read_verify''), a)]"
proof -
  from assms(2) have ok: "stream_ok stream_bytes ''read_verify'' reads a" "stream_ok stream_bytes ''write'' (1 - reads) b"
    and l: "event_records ''stream'' records = [a, b] \<or> event_records ''stream'' records = [b, a]"
    by (simp_all add: two_streams_def)
  from assms(3) have d: "reads \<in> {0, 1}" "1 - reads \<in> {0, 1}" "reads \<noteq> 1 - reads" "1 - reads \<noteq> reads" by auto
  have op: "''read_verify'' \<in> operations" "''write'' \<in> operations" by (simp_all add: operations_def)
  from l show ?thesis
  proof
    assume "event_records ''stream'' records = [a, b]"
    from role_streams_eval [OF assms(1) this ok d(1-3) op] show ?thesis by (rule that) simp
  next
    assume "event_records ''stream'' records = [b, a]"
    from role_streams_eval [OF assms(1) this ok(2,1) d(2,1,4) op(2,1)] show ?thesis by (rule that) simp
  qed
qed

lemma collect_streams_complete:
  assumes "two_streams stream_bytes R 0 a b" "two_streams stream_bytes W 1 c d"
  shows "\<exists>st. collect_streams stream_bytes R W = Inr st \<and> stream_table st a b c d"
proof -
  obtain ps where 1: "role_streams stream_bytes [] (''reader'', R) = Inr ps"
    "ps = [((''reader'', 0, ''read_verify''), a), ((''reader'', 1, ''write''), b)] \<or>
     ps = [((''reader'', 1, ''write''), b), ((''reader'', 0, ''read_verify''), a)]"
    using role_streams_two [of "[]" "''reader''", OF _ assms(1)] by auto
  then have "fst ` fst ` set ps \<subseteq> - {''writer''}" by auto
  then obtain qs where 2: "role_streams stream_bytes ps (''writer'', W) = Inr (ps @ qs)"
    "qs = [((''writer'', 1, ''read_verify''), c), ((''writer'', 0, ''write''), d)] \<or>
     qs = [((''writer'', 0, ''write''), d), ((''writer'', 1, ''read_verify''), c)]"
    using role_streams_two [of ps "''writer''", OF _ assms(2)] by auto
  from 1(2) 2(2) have t: "stream_table (ps @ qs) a b c d"
    by (elim disjE) (simp_all add: stream_table_def)
  from 1(2) 2(2) have "set (map fst (ps @ qs)) = set expected_streams"
    by (elim disjE) (simp_all add: expected_streams_def insert_commute)
  with 1(1) 2(1) t show ?thesis by (auto simp: collect_streams_def)
qed

section \<open>Rates\<close>

lemma int_float_64:
  assumes "\<bar>i\<bar> < 2 ^ 63"
  shows "\<exists>q. int_float (of_int i) = Inr (Fin q) \<and> (0 < i \<longrightarrow> 0 < q)"
proof (cases "i = 0")
  case True
  then show ?thesis by (simp add: int_float_def fl_def)
next
  case False
  let ?y = "fl_pos (of_int \<bar>i\<bar>)"
  have pos: "0 < (of_int \<bar>i\<bar> :: rat)" using False by simp
  have "(of_int \<bar>i\<bar> :: rat) \<le> of_int (2 ^ 63)" using assms by (simp only: of_int_le_iff less_imp_le)
  then have "?y \<le> 2 powi 63" using pos by (intro fl_pos_le_powi) simp_all
  also have "\<dots> < 2 ^ 1024" by (simp add: power_strict_increasing)
  finally have lt: "?y < 2 ^ 1024" .
  have "fl_pos 1 \<le> ?y" using False by (intro fl_pos_mono) auto
  then have "1 \<le> ?y" using fl_pos_of_int [of 1] by simp
  with False lt show ?thesis
    by (cases "0 < i") (simp_all add: int_float_def fl_def Let_def)
qed

definition field_64 :: "pydict \<Rightarrow> bool" where
  "field_64 r \<longleftrightarrow> (\<forall>i. dget r ''elapsed_ns'' = PInt i \<longrightarrow> i < 2 ^ 63)"

lemma over_int_64:
  assumes "0 < i" "i < 2 ^ 63"
  shows "\<exists>y. over_int x i = Inr y"
proof -
  obtain q where "int_float (of_int i) = Inr (Fin q)" "0 < q" using int_float_64 [of i] assms by auto
  with assms show ?thesis by (simp add: over_int_def)
qed

lemma int_times_64: "\<bar>i\<bar> < 2 ^ 63 \<Longrightarrow> \<exists>y. int_times i x = Inr y"
  by (drule int_float_64) (auto simp: int_times_def)

lemma elapsed_mibps_Inr:
  assumes "elapsed_mibps r c = Inr f"
  shows "positive_field r ''bytes''" "positive_field r ''elapsed_ns''"
  using assms by (auto simp: elapsed_mibps_def positive_field_def rbind_Inr_iff guest_int.read_Inr_iff split: if_splits)

lemma fdiv_MiB: "\<exists>y. fdiv x (fmul (Fin 1024) (Fin 1024)) = Inr y"
  using fl_of_int [of 1048576] by simp

lemma elapsed_mibps_total:
  assumes "dget r ''bytes'' = PInt n" "0 < n" "n < 2 ^ 63" "positive_field r ''elapsed_ns''" "field_64 r"
  shows "\<exists>f. elapsed_mibps r c = Inr f"
proof -
  from assms obtain e where e: "dget r ''elapsed_ns'' = PInt e" "0 < e" "e < 2 ^ 63"
    by (auto simp: positive_field_def field_64_def)
  obtain x where x: "int_times n (Fin 1000000000) = Inr x" using int_times_64 assms(2,3) by force
  obtain y where "over_int x e = Inr y" using over_int_64 e by blast
  with x e assms(1,2) fdiv_MiB [of y] show ?thesis
    by (simp add: elapsed_mibps_def integer_def del: fmul.simps fdiv.simps)
qed

lemma measurements_Inr:
  assumes "measurements iterations stream_bytes lr lw pr st = Inr ms" "stream_table st a b c d" "x \<in> {a, b, c, d}"
  shows "positive_field x ''elapsed_ns'' \<and> positive_field x ''bytes''"
  using assms
  by (auto simp: measurements_def rbind_Inr_iff stream_rate_def stream_of_def stream_table_def
      dest: elapsed_mibps_Inr)

lemma measurements_total:
  assumes st: "stream_table st a b c d"
    and s: "\<forall>x\<in>{a, b, c, d}. dget x ''bytes'' = PInt stream_bytes \<and> positive_field x ''elapsed_ns'' \<and> field_64 x"
      "0 < stream_bytes" "stream_bytes < 2 ^ 63"
    and p: "ping_ok iterations pr pw" "field_64 pr" "\<bar>iterations\<bar> < 2 ^ 63" and l: "litmus_ok lr lw"
  shows "\<exists>ms. measurements iterations stream_bytes lr lw pr st = Inr ms"
proof -
  from p obtain e where e: "dget pr ''elapsed_ns'' = PInt e" "0 < e" "e < 2 ^ 63"
    by (auto simp: ping_ok_def positive_field_def field_64_def)
  have r: "\<exists>f. elapsed_mibps x ctx = Inr f" if "x \<in> {a, b, c, d}" for x ctx
  proof (rule elapsed_mibps_total)
    show "dget x ''bytes'' = PInt stream_bytes" "positive_field x ''elapsed_ns''" "field_64 x"
      using s(1) that by blast+
  qed (use s in auto)
  obtain f1 where f1: "elapsed_mibps d ''direction 0 write'' = Inr f1" using r [of d] by auto
  obtain f2 where f2: "elapsed_mibps a ''direction 0 read verify'' = Inr f2" using r [of a] by auto
  obtain f3 where f3: "elapsed_mibps b ''direction 1 write'' = Inr f3" using r [of b] by auto
  obtain f4 where f4: "elapsed_mibps c ''direction 1 read verify'' = Inr f4" using r [of c] by auto
  obtain x y where xy: "int_times iterations (Fin 1000000000) = Inr x" "int_times iterations (Fin 2) = Inr y"
    using int_times_64 [OF p(3)] by blast
  obtain u v where uv: "over_int x e = Inr u" "over_int (fmul y (Fin 1000000000)) e = Inr v"
    using over_int_64 [OF e(2,3)] by blast
  have "dindex pr n = Inr (dget pr n)" if "n \<in> set reader_ping_fields" for n
  proof -
    from p(1) that obtain i where "dget pr n = PInt i" by (auto simp: ping_ok_def)
    then show ?thesis by (simp add: dindex_def dget_def split: option.splits)
  qed
  then have "list_all2 (\<lambda>n z. rbind (dindex pr n) (\<lambda>v. Inr (n, v)) = Inr z) reader_ping_fields
      (map (\<lambda>n. (n, dget pr n)) reader_ping_fields)"
    by (auto simp: list_all2_map2 intro: list.rel_refl_strong)
  then have "rmap (\<lambda>n. rbind (dindex pr n) (\<lambda>v. Inr (n, v))) reader_ping_fields =
      Inr (map (\<lambda>n. (n, dget pr n)) reader_ping_fields)" by (simp only: rmap_Inr_iff)
  then show ?thesis using f1 f2 f3 f4 xy uv e st l
    by (auto simp: measurements_def integer_def litmus_ok_def positive_field_def stream_rate_def stream_of_def
        stream_table_def simp del: fmul.simps)
qed

section \<open>The application gate\<close>

lemma event_records_subset: "set (event_records e rs) \<subseteq> set rs"
  by (auto simp: event_records_def)

lemma only_event_member: "only_event rs e role r \<Longrightarrow> r \<in> set rs"
  using event_records_subset [of e rs] by (simp add: only_event_def)

lemma two_streams_member:
  assumes "two_streams n rs reads a b" "x \<in> {a, b}"
  shows "x \<in> set rs" and "dget x ''bytes'' = PInt n"
proof -
  from assms(1) have "set (event_records ''stream'' rs) = {a, b}" by (auto simp: two_streams_def)
  with assms(2) event_records_subset show "x \<in> set rs" by blast
  from assms show "dget x ''bytes'' = PInt n" by (auto simp: two_streams_def stream_ok_def)
qed

lemma validate_guest_evidence_Inr:
  assumes "validate_guest_evidence R W iterations stream_bytes = Inr ev"
  obtains mr mw offset lr lw pr pw st sr sw ms where "clean_role ''reader'' R" "clean_role ''writer'' W"
    "only_event R ''mapped'' ''reader'' mr" "only_event W ''mapped'' ''writer'' mw" "mapped_ok mr mw offset"
    "only_event R ''litmus'' ''reader'' lr" "only_event W ''litmus'' ''writer'' lw" "litmus_ok lr lw"
    "only_event R ''pingpong'' ''reader'' pr" "only_event W ''pingpong'' ''writer'' pw" "ping_ok iterations pr pw"
    "collect_streams stream_bytes R W = Inr st"
    "only_event R ''summary'' ''reader'' sr" "only_event W ''summary'' ''writer'' sw"
    "summary_ok iterations stream_bytes sr" "summary_ok iterations stream_bytes sw"
    "measurements iterations stream_bytes lr lw pr st = Inr ms"
    "dget ev ''application_pass'' = PBool True" "dget ev ''payload_offset'' = PInt offset"
    "dget ev ''measurements'' = PDict ms" "dget ev ''mapped'' = by_role mr mw"
  using assms unfolding validate_guest_evidence_def rbind_Inr_iff gate_iffs
  by (elim exE conjE) (rule that, assumption+, auto)

lemma guest_evidence_gates:
  assumes "validate_guest_evidence R W iterations stream_bytes = Inr ev"
  shows "guest_gates R W iterations stream_bytes \<and> dget ev ''application_pass'' = PBool True
     \<and> (\<exists>r. only_event R ''mapped'' ''reader'' r \<and> dget ev ''payload_offset'' = dget r ''payload_offset''
          \<and> (\<exists>w. dget ev ''mapped'' = by_role r w) \<and> (\<exists>i. dget r ''mapping_offset'' = PInt i) \<and> (\<exists>i. dget r ''payload_offset'' = PInt i))"
  using assms
proof (rule validate_guest_evidence_Inr)
  fix mr mw offset lr lw pr pw st sr sw ms
  assume a: "clean_role ''reader'' R" "clean_role ''writer'' W"
    "only_event R ''mapped'' ''reader'' mr" "only_event W ''mapped'' ''writer'' mw" "mapped_ok mr mw offset"
    "only_event R ''litmus'' ''reader'' lr" "only_event W ''litmus'' ''writer'' lw" "litmus_ok lr lw"
    "only_event R ''pingpong'' ''reader'' pr" "only_event W ''pingpong'' ''writer'' pw" "ping_ok iterations pr pw"
    and st: "collect_streams stream_bytes R W = Inr st"
    and sums: "only_event R ''summary'' ''reader'' sr" "only_event W ''summary'' ''writer'' sw"
    "summary_ok iterations stream_bytes sr" "summary_ok iterations stream_bytes sw"
    and ms: "measurements iterations stream_bytes lr lw pr st = Inr ms"
    and ev: "dget ev ''application_pass'' = PBool True" "dget ev ''payload_offset'' = PInt offset"
      "dget ev ''mapped'' = by_role mr mw"
  from st obtain w x y z where s: "two_streams stream_bytes R 0 w x" "two_streams stream_bytes W 1 y z"
    and t: "stream_table st w x y z" by (rule collect_streams_sound)
  note m = measurements_Inr [OF ms t]
  have "positive_field w ''bytes''" using m by blast
  with s(1) have "0 < stream_bytes" by (auto simp: two_streams_def stream_ok_def positive_field_def)
  moreover have "\<forall>v\<in>{w, x, y, z}. positive_field v ''elapsed_ns''" using m by blast
  ultimately have "guest_gates R W iterations stream_bytes"
    unfolding guest_gates_def using a s sums by blast
  moreover have "dget mr ''payload_offset'' = PInt offset" "\<exists>i. dget mr ''mapping_offset'' = PInt i"
    using a(5) by (auto simp: mapped_ok_def geometry_fields_def)
  ultimately show ?thesis using a(3) ev by auto
qed

text \<open>
  (C12) Soundness of the application gate: evidence is returned only when the records of
  the two guests pass every gate. Each guest has records of its own role and schema only
  and no fatal one; there is exactly one mapping, litmus, ping-pong and summary record
  per role; both guests map the same geometry with a line-aligned payload; the litmus
  checksums agree; no error counter and no explicit flush counter is nonzero; the
  percentiles of the reader are ordered; and the four streams are exactly one write and
  one verified read per direction, with the requested size and a positive duration.
\<close>

theorem guest_evidence_sound:
  assumes "validate_guest_evidence R W iterations stream_bytes = Inr ev"
  shows "guest_gates R W iterations stream_bytes \<and> dget ev ''application_pass'' = PBool True
     \<and> (\<exists>r. only_event R ''mapped'' ''reader'' r \<and> dget ev ''payload_offset'' = dget r ''payload_offset'')"
  using guest_evidence_gates [OF assms] by blast

lemma guest_evidence_total:
  assumes "guest_gates R W iterations stream_bytes" and "\<forall>r\<in>set R \<union> set W. field_64 r"
    and "\<bar>iterations\<bar> < 2 ^ 63" and "stream_bytes < 2 ^ 63"
  shows "\<exists>ev. validate_guest_evidence R W iterations stream_bytes = Inr ev"
proof -
  from assms(1) obtain mr mw offset lr lw pr pw a b c d sr sw where
    g: "check_role ''reader'' R = Inr ()" "check_role ''writer'' W = Inr ()"
    "one_event R ''mapped'' ''reader'' = Inr mr" "one_event W ''mapped'' ''writer'' = Inr mw"
    "check_mapped mr mw = Inr offset"
    "one_event R ''litmus'' ''reader'' = Inr lr" "one_event W ''litmus'' ''writer'' = Inr lw"
    "check_litmus lr lw = Inr ()"
    "one_event R ''pingpong'' ''reader'' = Inr pr" "one_event W ''pingpong'' ''writer'' = Inr pw"
    "check_ping iterations pr pw = Inr ()"
    "one_event R ''summary'' ''reader'' = Inr sr" "one_event W ''summary'' ''writer'' = Inr sw"
    "check_summary iterations stream_bytes ''reader'' sr = Inr ()"
    "check_summary iterations stream_bytes ''writer'' sw = Inr ()"
    and s: "two_streams stream_bytes R 0 a b" "two_streams stream_bytes W 1 c d"
      "\<forall>x\<in>{a, b, c, d}. positive_field x ''elapsed_ns''" "0 < stream_bytes"
    unfolding guest_gates_def gate_iffs by blast
  from collect_streams_complete [OF s(1,2)] obtain st where
    st: "collect_streams stream_bytes R W = Inr st" "stream_table st a b c d" by blast
  have f: "field_64 pr" using g(9) assms(2) only_event_member [of R _ _ pr] unfolding gate_iffs by blast
  have "x \<in> set R \<union> set W \<and> dget x ''bytes'' = PInt stream_bytes" if "x \<in> {a, b, c, d}" for x
    using that two_streams_member [OF s(1)] two_streams_member [OF s(2)] by blast
  with s(3) assms(2) have "\<forall>x\<in>{a, b, c, d}. dget x ''bytes'' = PInt stream_bytes \<and> positive_field x ''elapsed_ns'' \<and> field_64 x"
    by blast
  then obtain ms where ms: "measurements iterations stream_bytes lr lw pr st = Inr ms"
    using measurements_total [OF st(2) _ s(4) assms(4) _ f assms(3)] g(8,11) unfolding gate_iffs by blast
  have m: "mapped_ok mr mw offset" using g(5) by (simp only: gate_iffs)
  then obtain i j where "integer mr ''ping_ack_offset'' ''reader mapped'' = Inr i"
    "integer mr ''stream_offset'' ''reader mapped'' = Inr j"
    unfolding guest_int.read_Inr_iff by (force simp: mapped_ok_def geometry_fields_def)
  with g st(1) ms show ?thesis by (simp add: validate_guest_evidence_def)
qed

text \<open>
  (C13) Completeness of the application gate: records that pass every gate are accepted,
  provided the iteration count, the stream size and the durations fit in signed 64-bit
  integers (so that the conversions to floating point cannot overflow).
\<close>

theorem guest_evidence_complete:
  assumes "guest_gates R W iterations stream_bytes" and "\<forall>r\<in>set R \<union> set W. field_64 r"
    and "\<bar>iterations\<bar> < 2 ^ 63" and "stream_bytes < 2 ^ 63"
  shows "\<exists>ev. validate_guest_evidence R W iterations stream_bytes = Inr ev"
  using assms by (rule guest_evidence_total)

text \<open>Records of one accepted run.\<close>

definition sample_common :: "string \<Rightarrow> string \<Rightarrow> pydict" where
  "sample_common role event =
     [(''schema_version'', PInt 1), (''role'', PStr role), (''event'', PStr event), (''errors'', PInt 0),
      (''elapsed_ns'', PInt 1000), (''iterations'', PInt 2), (''stream_bytes'', PInt 4096), (''bytes'', PInt 4096)]"

definition sample_stream :: "string \<Rightarrow> string \<Rightarrow> int \<Rightarrow> pydict" where
  "sample_stream role operation direction =
     sample_common role ''stream'' @ [(''operation'', PStr operation), (''direction'', PInt direction)]"

definition sample_guest :: "string \<Rightarrow> int \<Rightarrow> string \<Rightarrow> int \<Rightarrow> pydict list" where
  "sample_guest role endpoint operation reads =
     [sample_common role ''mapped'' @ (''endpoint_id'', PInt endpoint) # map (\<lambda>n. (n, PInt 4096)) geometry_fields,
      sample_common role ''litmus'' @
        [(''operation'', PStr operation), (''generation'', PInt 1), (''payload_checksum'', PInt 99)],
      sample_common role ''pingpong'' @ map (\<lambda>n. (n, PInt 500)) reader_ping_fields,
      sample_stream role ''write'' (1 - reads), sample_stream role ''read_verify'' reads,
      sample_common role ''summary'' @ [(''status'', PStr ''pass''), (''explicit_flush_calls'', PInt 0)]]"

definition sample_reader :: "pydict list" where
  "sample_reader = sample_guest ''reader'' 0 ''observe'' 0"

definition sample_writer :: "pydict list" where
  "sample_writer = sample_guest ''writer'' 1 ''publish'' 1"

lemmas sample_defs = sample_reader_def sample_writer_def sample_guest_def sample_stream_def sample_common_def
  geometry_fields_def reader_ping_fields_def

lemma sample_events:
  "event_records e (sample_guest role endpoint operation reads) =
     (if e = ''mapped'' then [sample_guest role endpoint operation reads ! 0]
      else if e = ''litmus'' then [sample_guest role endpoint operation reads ! 1]
      else if e = ''pingpong'' then [sample_guest role endpoint operation reads ! 2]
      else if e = ''stream'' then [sample_guest role endpoint operation reads ! 3, sample_guest role endpoint operation reads ! 4]
      else if e = ''summary'' then [sample_guest role endpoint operation reads ! 5] else [])"
  by (auto simp: event_records_def sample_defs)

lemma sample_clean: "clean_role role (sample_guest role endpoint operation reads)"
  unfolding clean_role_def sample_events by (simp add: sample_defs)

lemma sample_gates: "guest_gates sample_reader sample_writer 2 4096"
proof -
  let ?r = "\<lambda>i. sample_reader ! i" and ?w = "\<lambda>i. sample_writer ! i"
  note e = sample_events only_event_def two_streams_def
  have "only_event sample_reader ''mapped'' ''reader'' (?r 0) \<and> only_event sample_writer ''mapped'' ''writer'' (?w 0)
      \<and> mapped_ok (?r 0) (?w 0) 4096"
    unfolding sample_reader_def sample_writer_def e by (simp add: sample_defs mapped_ok_def)
  moreover have "only_event sample_reader ''litmus'' ''reader'' (?r 1) \<and> only_event sample_writer ''litmus'' ''writer'' (?w 1)
      \<and> litmus_ok (?r 1) (?w 1)"
    unfolding sample_reader_def sample_writer_def e by (simp add: sample_defs litmus_ok_def positive_field_def)
  moreover have "only_event sample_reader ''pingpong'' ''reader'' (?r 2) \<and> only_event sample_writer ''pingpong'' ''writer'' (?w 2)
      \<and> ping_ok 2 (?r 2) (?w 2)"
    unfolding sample_reader_def sample_writer_def e by (simp add: sample_defs ping_ok_def positive_field_def ping_order_def)
  moreover have "two_streams 4096 sample_reader 0 (?r 4) (?r 3) \<and> two_streams 4096 sample_writer 1 (?w 4) (?w 3)
      \<and> (\<forall>x\<in>{?r 4, ?r 3, ?w 4, ?w 3}. positive_field x ''elapsed_ns'')"
    unfolding sample_reader_def sample_writer_def e by (simp add: sample_defs stream_ok_def positive_field_def)
  moreover have "only_event sample_reader ''summary'' ''reader'' (?r 5) \<and> only_event sample_writer ''summary'' ''writer'' (?w 5)
      \<and> summary_ok 2 4096 (?r 5) \<and> summary_ok 2 4096 (?w 5)"
    unfolding sample_reader_def sample_writer_def e by (simp add: sample_defs summary_ok_def)
  moreover have "clean_role ''reader'' sample_reader" "clean_role ''writer'' sample_writer"
    unfolding sample_reader_def sample_writer_def by (rule sample_clean)+
  ultimately show ?thesis unfolding guest_gates_def by (intro conjI; (simp; fail | blast))
qed

lemma sample_64: "\<forall>r\<in>set sample_reader \<union> set sample_writer. field_64 r"
  by (simp add: sample_defs field_64_def)

theorem guest_evidence_complete_witness:
  "\<exists>ev. validate_guest_evidence sample_reader sample_writer 2 4096 = Inr ev"
  by (rule guest_evidence_complete [OF sample_gates sample_64]) simp_all

theorem guest_evidence_sound_witness:
  "\<exists>ev. guest_gates sample_reader sample_writer 2 4096 \<and> dget ev ''application_pass'' = PBool True
     \<and> (\<exists>r. only_event sample_reader ''mapped'' ''reader'' r \<and> dget ev ''payload_offset'' = dget r ''payload_offset'')"
proof -
  from guest_evidence_total [OF sample_gates sample_64] obtain ev
    where "validate_guest_evidence sample_reader sample_writer 2 4096 = Inr ev" by auto
  then show ?thesis by (intro exI [of _ ev]) (rule guest_evidence_sound)
qed

section \<open>Server counters are all zero\<close>

lemma stats_line_records_Inr:
  "stats_line_records line = Inr rs \<longleftrightarrow>
     (if contains STATS_MARKER line
      then \<exists>r. rs = [r] \<and> strict_json_object (strip (drop (the (find_sub STATS_MARKER line) + length STATS_MARKER) line))
                 ''coherence server stats'' = Inr r
      else rs = [])"
  by (auto simp: stats_line_records_def contains_def rbind_Inr_iff split: option.splits)

interpretation stats_lines: line_extractor stats_line_records "\<lambda>r. pre @ STATS_MARKER @ json_compact (PDict r)"
  "\<lambda>r. plain_json (PDict r) \<and> ascii_line (json_compact (PDict r)) \<and> ascii_line pre \<and> \<not> contains STATS_MARKER pre"
  "\<lambda>l. ascii_line l \<and> \<not> contains STATS_MARKER l"
  for pre
proof
  fix r l
  have p: "STATS_MARKER = ''COHERENCE_V2_STATS_JSON'' @ '' ''" "CHR '' '' \<notin> set ''COHERENCE_V2_STATS_JSON''"
    "ascii_line STATS_MARKER" by (simp_all add: STATS_MARKER_def ascii_char_def)
  assume a: "plain_json (PDict r) \<and> ascii_line (json_compact (PDict r)) \<and> ascii_line pre \<and> \<not> contains STATS_MARKER pre"
  then show "ascii_line (pre @ STATS_MARKER @ json_compact (PDict r))" using p(3) by (simp del: json_compact.simps)
  have "find_sub STATS_MARKER (pre @ STATS_MARKER @ json_compact (PDict r)) = Some (length pre)"
    by (rule find_sub_after [OF _ p(1,2)]) (use a in simp)
  moreover have "strip (json_compact (PDict r)) = json_compact (PDict r)"
    using a json_compact_dict_ends [of r] by (intro strip_ascii) (auto simp del: json_compact.simps)
  ultimately show "stats_line_records (pre @ STATS_MARKER @ json_compact (PDict r)) = Inr [r]" using a
    by (simp add: stats_line_records_def strict_json_object_compact del: json_compact.simps plain_json.simps)
qed (auto simp: stats_line_records_def contains_def)

lemma parse_server_stats_Inr:
  "parse_server_stats output = Inr stats \<longleftrightarrow>
     extract_lines stats_line_records (splitlines output) = Inr [stats]
     \<and> (\<forall>name\<in>set zero_counters. dget stats name = PInt 0)"
  by (auto simp: parse_server_stats_def rbind_Inr_iff Let_def length_Suc_conv split: if_splits)

text \<open>
  The final counters of the coherence server are accepted exactly when the log holds
  one statistics record, among lines that do not mention the marker, and its time-out,
  protocol-error, delivery-failure, copy-failure and active-binding counters are all the
  integer zero.
\<close>

theorem server_stats_accepted_iff:
  assumes "plain_json (PDict stats) \<and> ascii_line (json_compact (PDict stats))"
    and "ascii_line pre \<and> \<not> contains STATS_MARKER pre"
    and "list_all (\<lambda>l. ascii_line l \<and> \<not> contains STATS_MARKER l) (before @ after)"
  shows "parse_server_stats (concat (map (\<lambda>l. l @ [CHR 0x0A])
           (before @ [pre @ STATS_MARKER @ json_compact (PDict stats)] @ after))) = Inr stats
         \<longleftrightarrow> (\<forall>name\<in>set zero_counters. dget stats name = PInt 0)"
proof -
  let ?items = "map Inl before @ [Inr stats] @ map Inl after :: (string + pydict) list"
  have "extract_lines stats_line_records
      (splitlines (concat (map (\<lambda>x. (case x of Inl l \<Rightarrow> l | Inr r \<Rightarrow> pre @ STATS_MARKER @ json_compact (PDict r)) @ [CHR 0x0A]) ?items)))
    = Inr (concat (map (\<lambda>x. case x of Inl l \<Rightarrow> [] | Inr r \<Rightarrow> [r]) ?items))"
    by (rule stats_lines.transcript_records) (use assms in \<open>auto simp: list_all_iff simp del: json_compact.simps plain_json.simps\<close>)
  moreover have "concat (map (\<lambda>x. [] :: pydict list) ls) = []" for ls :: "string list" by (induction ls) simp_all
  ultimately show ?thesis by (simp add: parse_server_stats_Inr comp_def del: json_compact.simps)
qed

definition sample_stats :: pydict where
  "sample_stats = map (\<lambda>n. (n, PInt 0)) zero_counters"

theorem server_stats_accepted_iff_witness:
  "parse_server_stats (concat (map (\<lambda>l. l @ [CHR 0x0A])
     ([''listening''] @ [[] @ STATS_MARKER @ json_compact (PDict sample_stats)] @ [''bye'']))) = Inr sample_stats
   \<longleftrightarrow> (\<forall>name\<in>set zero_counters. dget sample_stats name = PInt 0)"
  by (rule server_stats_accepted_iff)
     (simp_all add: sample_stats_def zero_counters_def STATS_MARKER_def json_string_def escape_out_def show_int_def
        ascii_char_def contains_rec starts_with_def py_simps)

end
