(* ===== verification/Launch.thy ===== *)
theory Launch
  imports Py_Text Py_Float
begin

text \<open>
  What the runners pass to QEMU and to the CXLMemSim server: the run configuration, the
  files of a run (\<^verbatim>\<open>RuntimePaths\<close>), command lines, boot arguments and the child
  environment, for scripts/cxl_bi_app.py and scripts/legofs_type3_2node.py. Paths are
  strings in the normal form \<^verbatim>\<open>pathlib\<close> prints; \<^verbatim>\<open>Path.resolve\<close>, which follows symbolic
  links, is the parameter \<open>resolve\<close>; \<^verbatim>\<open>os.environ\<close> is an association list.
\<close>

type_synonym path = string
type_synonym environ = "(string \<times> string) list"

section \<open>Paths\<close>

definition is_absolute :: "path \<Rightarrow> bool" where
  "is_absolute p = starts_with p ''/''"

definition path_join :: "path \<Rightarrow> path \<Rightarrow> path" where
  "path_join a b = (if is_absolute b then b else if a = ''/'' then a @ b else a @ ''/'' @ b)"

text \<open>\<^verbatim>\<open>a / b / c\<close> with relative components.\<close>

definition path_joins :: "path \<Rightarrow> path list \<Rightarrow> path" where
  "path_joins a bs = foldl path_join a bs"

definition path_parent :: "path \<Rightarrow> path" where
  "path_parent p =
     (let r = dropWhile (\<lambda>c. c \<noteq> CHR ''/'') (rev p)
      in if r = [] then ''.'' else if tl r = [] then ''/'' else rev (tl r))"

definition path_name :: "path \<Rightarrow> string" where
  "path_name p = rev (takeWhile (\<lambda>c. c \<noteq> CHR ''/'') (rev p))"

text \<open>\<^verbatim>\<open>os.environ.get(name)\<close> where the empty string counts as unset.\<close>

definition env_value :: "environ \<Rightarrow> string \<Rightarrow> string option" where
  "env_value env name = (case map_of env name of Some v \<Rightarrow> if v = [] then None else Some v | None \<Rightarrow> None)"

section \<open>Two-guest experiment: configuration and files\<close>

record run_config =
  iterations :: int
  stream_bytes :: int
  timeout_seconds :: int
  link_gbps :: pyfloat
  media_ns :: pyfloat
  request_ns :: pyfloat
  bi_ns :: pyfloat
  guest_memory :: string

definition default_run_config :: run_config where
  "default_run_config =
     \<lparr>iterations = 256, stream_bytes = 1024 * 1024, timeout_seconds = 300, link_gbps = Fin 32,
      media_ns = Fin 100, request_ns = Fin 150, bi_ns = Fin 200, guest_memory = ''1G''\<rparr>"

record bi_paths =
  bi_root :: path
  bi_output :: path
  bi_legacy_output :: path
  bi_legacy_build :: path
  bi_images :: path
  bi_results :: path
  bi_run_dir :: path
  bi_qemu :: path
  bi_cxlmemsim_server :: path
  bi_opensbi :: path
  bi_u_boot :: path
  bi_linux :: path
  bi_manifest :: path
  bi_topology :: path
  bi_coherence_trace :: path
  bi_server_log :: path
  bi_server_ssd :: path
  bi_result :: path

definition configured_path :: "environ \<Rightarrow> string \<Rightarrow> path \<Rightarrow> path res" where
  "configured_path env name fallback =
     (case env_value env name of
        None \<Rightarrow> Inr fallback
      | Some p \<Rightarrow> if \<not> is_absolute p then Inl (ValueError (name @ '' must be an absolute path'')) else Inr p)"

definition bi_runtime_paths :: "(path \<Rightarrow> path) \<Rightarrow> environ \<Rightarrow> path \<Rightarrow> path \<Rightarrow> bi_paths res" where
  "bi_runtime_paths resolve env root0 run_dir0 =
     (let root = resolve root0
      in rbind (configured_path env ''CXL_BI_APP_OUT'' (path_joins root [''out'', ''cxl-bi-app''])) (\<lambda>output0.
         let output = resolve output0
         in rbind (configured_path env ''LEGOFS_TYPE3_OUT'' (path_joins root [''out'', ''legofs-type3''])) (\<lambda>legacy0.
            let legacy_output = resolve legacy0;
                legacy_build = path_join legacy_output ''build'';
                images = path_join output ''images'';
                results = path_join output ''results'';
                run_dir = resolve run_dir0
            in Inr \<lparr>bi_root = root, bi_output = output, bi_legacy_output = legacy_output,
                    bi_legacy_build = legacy_build, bi_images = images, bi_results = results, bi_run_dir = run_dir,
                    bi_qemu = path_joins legacy_build [''qemu'', ''qemu-system-riscv64''],
                    bi_cxlmemsim_server = path_joins legacy_build [''cxlmemsim'', ''cxlmemsim_server''],
                    bi_opensbi = path_joins legacy_build
                      [''opensbi'', ''platform'', ''generic'', ''firmware'', ''fw_dynamic.bin''],
                    bi_u_boot = path_joins legacy_build [''u-boot'', ''u-boot.bin''],
                    bi_linux = path_join images ''Image'',
                    bi_manifest = path_join results ''build-manifest.json'',
                    bi_topology = path_joins root
                      [''components'', ''cxlmemsim'', ''qemu_integration'', ''topology_simple.txt''],
                    bi_coherence_trace = path_join run_dir ''coherence.jsonl'',
                    bi_server_log = path_join run_dir ''cxlmemsim.log'',
                    bi_server_ssd = path_join run_dir ''cxlmemsim-authority.raw'',
                    bi_result = path_join run_dir ''result.json''\<rparr>)))"

text \<open>
  \<^verbatim>\<open>RuntimePaths.create\<close>: the time stamp, the process id and whether the directory exists
  already come from outside; creating it fails if it does.
\<close>

definition bi_create ::
  "(path \<Rightarrow> path) \<Rightarrow> environ \<Rightarrow> string \<Rightarrow> int \<Rightarrow> (path \<Rightarrow> bool) \<Rightarrow> path \<Rightarrow> bi_paths res" where
  "bi_create resolve env timestamp pid exists root0 =
     (let root = resolve root0;
          output = (case env_value env ''CXL_BI_APP_OUT'' of
                      Some p \<Rightarrow> p | None \<Rightarrow> path_joins root [''out'', ''cxl-bi-app''])
      in if \<not> is_absolute output then Inl (ValueError ''CXL_BI_APP_OUT must be an absolute path'')
         else let run_dir = path_joins output [''runs'', timestamp @ ''-'' @ show_int pid]
              in if exists run_dir then Inl (FileExistsError run_dir)
                 else bi_runtime_paths resolve env root run_dir)"

definition node_file :: "path \<Rightarrow> int \<Rightarrow> string \<Rightarrow> path" where
  "node_file run_dir node suffix = path_join run_dir (''node'' @ show_int node @ suffix)"

definition endpoint_memory :: "bi_paths \<Rightarrow> int \<Rightarrow> path" where
  "endpoint_memory paths node = node_file (bi_run_dir paths) node ''-cxl-pmem.raw''"

definition lsa :: "bi_paths \<Rightarrow> int \<Rightarrow> path" where
  "lsa paths node = node_file (bi_run_dir paths) node ''-lsa.raw''"

definition console_log :: "bi_paths \<Rightarrow> int \<Rightarrow> path" where
  "console_log paths node = node_file (bi_run_dir paths) node ''-serial.log''"

definition event_log :: "bi_paths \<Rightarrow> int \<Rightarrow> path" where
  "event_log paths node = node_file (bi_run_dir paths) node ''-host-events.jsonl''"

section \<open>Two-guest experiment: command lines\<close>

definition bad_port :: "int \<Rightarrow> bool" where
  "bad_port port = (\<not> (0 < port \<and> port \<le> 65535))"

definition on_off :: "bool \<Rightarrow> string" where
  "on_off b = (if b then ''on'' else ''off'')"

definition type3_device :: "string \<Rightarrow> string \<Rightarrow> int \<Rightarrow> int \<Rightarrow> string" where
  "type3_device memdev prefix coherence_port node =
     ''cxl-type3,bus=rp-t3-'' @ prefix @ '',persistent-memdev='' @ memdev @ prefix @
     '',lsa=t3lsa-'' @ prefix @ '',id=t3-'' @ prefix @ '',coherence-v2=on,'' @
     ''x-256b-flit=on,hdm-db=on,'' @
     ''cxlmemsim-addr=127.0.0.1,cxlmemsim-port='' @ show_int coherence_port @
     '',coherence-v2-host-id='' @ show_int node @ '',coherence-v2-cache-capacity=8388608,'' @
     ''coherence-v2-cache-ways=4,coherence-v2-timeout-ms=5000,'' @
     ''coherence-v2-write-through=off,'' @
     ''coherence-v2-read-exclusive='' @ on_off (node = 0)"

definition bi_build_qemu_command :: "bi_paths \<Rightarrow> run_config \<Rightarrow> int \<Rightarrow> int \<Rightarrow> bool \<Rightarrow> string list res" where
  "bi_build_qemu_command paths config node coherence_port bi_enabled =
     (if node \<notin> {0, 1} then Inl (ValueError ''node must be 0 or 1'')
      else if bad_port coherence_port then Inl (ValueError ''coherence port must be in 1..65535'')
      else
        let prefix = ''node'' @ show_int node;
            restrictions = (if bi_enabled then ''0x29'' else ''0x09'')
        in Inr
        [bi_qemu paths, ''-name'', ''cxl-bi-'' @ prefix, ''-M'', ''sifive_u'', ''-cpu'',
         ''rv64,h=false,sstc=false,svadu=false,zicboz=false,'' @ ''zicbom=true,cbom_blocksize=64'',
         ''-machine'', ''cxl=on'', ''-machine'',
         ''cxl-fmw.0.targets.0=cxl-'' @ prefix @ '',cxl-fmw.0.size=4G,'' @ ''cxl-fmw.0.restrictions='' @ restrictions,
         ''-smp'', ''5'', ''-m'', guest_memory config, ''-display'', ''none'', ''-serial'', ''stdio'',
         ''-monitor'', ''none'', ''-no-reboot'', ''-bios'', bi_opensbi paths, ''-kernel'', bi_u_boot paths,
         ''-device'', ''loader,file='' @ bi_linux paths @ '',addr=0x90000000,force-raw=on'',
         ''-object'', ''memory-backend-file,id=t3pmem-'' @ prefix @ '','' @ ''mem-path='' @ endpoint_memory paths node
           @ '',size=256M,share=on,pmem=on'',
         ''-object'', ''memory-backend-file,id=t3lsa-'' @ prefix @ '','' @ ''mem-path='' @ lsa paths node
           @ '',size=2M,share=on'',
         ''-device'', ''pxb-cxl,bus=pcie.0,bus_nr=64,id=cxl-'' @ prefix @ '',hdm_for_passthrough=on'',
         ''-device'', ''cxl-rp,bus=cxl-'' @ prefix @ '',port=0,id=rp-t3-'' @ prefix @ '',chassis=0,slot=0,''
           @ ''x-256b-flit=on'',
         ''-device'', type3_device ''t3pmem-'' prefix coherence_port node])"

definition build_bootargs :: "string \<Rightarrow> run_config \<Rightarrow> string res" where
  "build_bootargs role config =
     (if role \<notin> {''reader'', ''writer''} then Inl (ValueError ''role must be reader or writer'')
      else Inr (''earlycon=sbi console=hvc0 loglevel=6 panic=-1 '' @ ''cxl_core.pmem_as_dax=1 '' @
                ''cxlbi.role='' @ role @ '' cxlbi.iterations='' @ show_int (iterations config) @ '' '' @
                ''cxlbi.stream_bytes='' @ show_int (stream_bytes config) @ '' '' @
                ''cxlbi.timeout_ms='' @ show_int (timeout_seconds config * 1000)))"

definition server_arguments :: "path \<Rightarrow> int \<Rightarrow> path \<Rightarrow> path \<Rightarrow> path \<Rightarrow> string list" where
  "server_arguments server coherence_port topology trace ssd =
     [server, ''--comm-mode=tcp'', ''--port='' @ show_int coherence_port, ''--capacity=256'',
      ''--default_latency=100'', ''--topology='' @ topology, ''--coherence-v2=true'',
      ''--coherence-v2-snoop-timeout-ms=5000'', ''--coherence-v2-trace='' @ trace,
      ''--backing-mode=ssd-stream'', ''--ssd-backing-file='' @ ssd, ''--ssd-page-size=4096'',
      ''--ssd-io-chunk-size=65536'', ''--ssd-cache-mb=16'', ''--ssd-read-ahead-pages=16'',
      ''--ssd-io-uring=false'', ''--ssd-odirect=false'']"

definition bi_build_server_command :: "bi_paths \<Rightarrow> int \<Rightarrow> string list res" where
  "bi_build_server_command paths coherence_port =
     (if bad_port coherence_port then Inl (ValueError ''coherence port must be in 1..65535'')
      else Inr (server_arguments (bi_cxlmemsim_server paths) coherence_port (bi_topology paths)
                  (bi_coherence_trace paths) (bi_server_ssd paths)))"

definition LEGACY_TRANSPORT_ENV :: "string list" where
  "LEGACY_TRANSPORT_ENV = [''CXL_TRANSPORT_MODE'', ''CXL_PGAS_SHM'', ''CXL_MEMSIM_SERVER'']"

definition pop_all :: "string list \<Rightarrow> environ \<Rightarrow> environ" where
  "pop_all names environment = filter (\<lambda>(k, v). k \<notin> set names) environment"

definition prepend_path :: "path \<Rightarrow> environ \<Rightarrow> environ" where
  "prepend_path dir environment =
     (let old_path = (case map_of environment ''PATH'' of Some v \<Rightarrow> v | None \<Rightarrow> [])
      in aset ''PATH'' (dir @ (if old_path = [] then [] else '':'' @ old_path)) environment)"

definition bi_qemu_environment :: "environ \<Rightarrow> bi_paths \<Rightarrow> environ" where
  "bi_qemu_environment env paths =
     prepend_path (path_parent (bi_qemu paths)) (pop_all LEGACY_TRANSPORT_ENV env)"

section \<open>Two- and three-node experiment: files and command lines\<close>

record type3_paths =
  t3_root :: path
  t3_output :: path
  t3_build :: path
  t3_images :: path
  t3_results :: path
  t3_run_dir :: path
  t3_qemu :: path
  t3_opensbi :: path
  t3_u_boot :: path
  t3_linux :: path
  t3_legofs_disk :: path
  t3_cxlmemsim_server :: path
  t3_manifest :: path
  t3_topology :: path
  t3_coherence_trace :: path
  t3_server_log :: path
  t3_server_ssd :: path
  t3_result :: path

definition t3_runtime_paths :: "(path \<Rightarrow> path) \<Rightarrow> environ \<Rightarrow> path \<Rightarrow> path \<Rightarrow> type3_paths res" where
  "t3_runtime_paths resolve env root0 run_dir0 =
     (let root = resolve root0
      in rbind (configured_path env ''LEGOFS_TYPE3_OUT'' (path_joins root [''out'', ''legofs-type3''])) (\<lambda>output0.
         let output = resolve output0;
             build = path_join output ''build'';
             images = path_join output ''images'';
             results = path_join output ''results'';
             run_dir = resolve run_dir0
         in Inr \<lparr>t3_root = root, t3_output = output, t3_build = build, t3_images = images, t3_results = results,
                 t3_run_dir = run_dir,
                 t3_qemu = path_joins build [''qemu'', ''qemu-system-riscv64''],
                 t3_opensbi = path_join build ''opensbi/platform/generic/firmware/fw_dynamic.bin'',
                 t3_u_boot = path_join build ''u-boot/u-boot.bin'',
                 t3_linux = path_join build ''linux/arch/riscv/boot/Image'',
                 t3_legofs_disk = path_join images ''legofs-type3.ext2'',
                 t3_cxlmemsim_server = path_join build ''cxlmemsim/cxlmemsim_server'',
                 t3_manifest = path_join results ''build-manifest.json'',
                 t3_topology = path_join root ''components/cxlmemsim/qemu_integration/topology_simple.txt'',
                 t3_coherence_trace = path_join run_dir ''coherence.jsonl'',
                 t3_server_log = path_join run_dir ''cxlmemsim.log'',
                 t3_server_ssd = path_join run_dir ''cxlmemsim-cxl-ssd.raw'',
                 t3_result = path_join run_dir ''result.json''\<rparr>))"

definition t3_create ::
  "(path \<Rightarrow> path) \<Rightarrow> environ \<Rightarrow> string \<Rightarrow> int \<Rightarrow> (path \<Rightarrow> bool) \<Rightarrow> string \<Rightarrow> path \<Rightarrow> type3_paths res" where
  "t3_create resolve env timestamp pid exists runs root0 =
     (let root = resolve root0;
          output = (case env_value env ''LEGOFS_TYPE3_OUT'' of
                      Some p \<Rightarrow> p | None \<Rightarrow> path_join root ''out/legofs-type3'')
      in if \<not> is_absolute output then Inl (ValueError ''LEGOFS_TYPE3_OUT must be an absolute path'')
         else let run_dir = path_joins output [runs, timestamp @ ''-'' @ show_int pid]
              in if exists run_dir then Inl (FileExistsError run_dir)
                 else t3_runtime_paths resolve env root run_dir)"

definition t3_cxl_ssd_path :: "type3_paths \<Rightarrow> int \<Rightarrow> path" where
  "t3_cxl_ssd_path paths node = node_file (t3_run_dir paths) node ''-cxl-ssd.raw''"

definition t3_lsa_path :: "type3_paths \<Rightarrow> int \<Rightarrow> path" where
  "t3_lsa_path paths node = node_file (t3_run_dir paths) node ''-lsa.raw''"

definition t3_console_log :: "type3_paths \<Rightarrow> int \<Rightarrow> path" where
  "t3_console_log paths node = node_file (t3_run_dir paths) node ''.log''"

definition t3_event_log :: "type3_paths \<Rightarrow> int \<Rightarrow> path" where
  "t3_event_log paths node = node_file (t3_run_dir paths) node ''-events.jsonl''"

definition t3_build_qemu_command :: "type3_paths \<Rightarrow> int \<Rightarrow> int \<Rightarrow> int \<Rightarrow> string \<Rightarrow> string list res" where
  "t3_build_qemu_command paths node coherence_port legofs_port guest_mem =
     (if node \<notin> {0, 1, 2} then Inl (ValueError ''node must be 0, 1, or 2'')
      else
        let prefix = ''node'' @ show_int node;
            netdev = ''user,id=net-'' @ prefix @
              (if node = 0 then '',hostfwd=tcp:127.0.0.1:'' @ show_int legofs_port @ ''-:3345'' else [])
        in Inr (
        [''qemu-system-riscv64'', ''-M'', ''sifive_u'', ''-cpu'',
         ''rv64,h=false,sstc=false,svadu=false,zicboz=false,'' @ ''zicbom=true,cbom_blocksize=64'',
         ''-machine'', ''cxl=on'', ''-machine'',
         ''cxl-fmw.0.targets.0=cxl-node'' @ show_int node @ '',cxl-fmw.0.size=4G,'' @ ''cxl-fmw.0.restrictions=0x29'',
         ''-smp'', ''5'', ''-m'', guest_mem, ''-display'', ''none'', ''-serial'', ''stdio'',
         ''-monitor'', ''none'', ''-no-reboot'', ''-bios'', t3_opensbi paths, ''-kernel'', t3_u_boot paths,
         ''-device'', ''loader,file='' @ t3_linux paths @ '',addr=0x90000000,force-raw=on'',
         ''-object'', ''memory-backend-file,id=t3ssd-'' @ prefix @ '','' @ ''mem-path='' @ t3_cxl_ssd_path paths node
           @ '',size=256M,share=on,pmem=on'',
         ''-object'', ''memory-backend-file,id=t3lsa-'' @ prefix @ '','' @ ''mem-path='' @ t3_lsa_path paths node
           @ '',size=2M,share=on'',
         ''-device'', ''pxb-cxl,bus=pcie.0,bus_nr=64,id=cxl-'' @ prefix @ '',hdm_for_passthrough=on'',
         ''-device'', ''cxl-rp,bus=cxl-'' @ prefix @ '',port=0,id=rp-t3-'' @ prefix @ '',chassis=0,slot=0,''
           @ ''x-256b-flit=on'',
         ''-device'', type3_device ''t3ssd-'' prefix coherence_port node,
         ''-drive'', ''file='' @ t3_legofs_disk paths @ '',if=none,format=raw,readonly=on,id=payload-'' @ prefix,
         ''-device'', ''virtio-blk-pci,drive=payload-'' @ prefix @ '',bus=pcie.0,id=payload-dev-'' @ prefix,
         ''-netdev''] @
        [netdev, ''-device'', ''virtio-net-pci,netdev=net-'' @ prefix @ '',bus=pcie.0,id=nic-'' @ prefix]))"

definition t3_build_server_command :: "type3_paths \<Rightarrow> int \<Rightarrow> string list" where
  "t3_build_server_command paths coherence_port =
     server_arguments (t3_cxlmemsim_server paths) coherence_port (t3_topology paths)
       (t3_coherence_trace paths) (t3_server_ssd paths)"

definition t3_qemu_environment :: "environ \<Rightarrow> environ option \<Rightarrow> type3_paths \<Rightarrow> environ" where
  "t3_qemu_environment env base paths =
     prepend_path (path_parent (t3_qemu paths))
       (pop_all LEGACY_TRANSPORT_ENV (case base of None \<Rightarrow> env | Some b \<Rightarrow> b))"

section \<open>Numbers inside command lines can be read back\<close>

lemma show_nat_no_sep: "c \<in> set (show_nat n) \<Longrightarrow> is_digit c"
  using show_nat_digits [of n] by (simp only: list_all_iff)

lemma show_nat_char: "\<not> is_digit c \<Longrightarrow> c \<notin> set (show_nat n)"
  using show_nat_no_sep by blast

lemma show_int_chars: "c \<in> set (show_int i) \<Longrightarrow> is_digit c \<or> c = CHR ''-''"
  by (auto simp: show_int_def dest: show_nat_no_sep split: if_splits simp del: is_digit.simps)

lemma show_int_inj: "show_int i = show_int j \<Longrightarrow> i = j"
proof -
  assume e: "show_int i = show_int j"
  have "CHR ''-'' \<notin> set (show_nat n)" for n by (rule show_nat_char) simp
  then have "show_nat n \<noteq> CHR ''-'' # show_nat m" "CHR ''-'' # show_nat m \<noteq> show_nat n" for m n
    by (metis list.set_intros(1))+
  with e show ?thesis by (auto simp: show_int_def split: if_splits dest: show_nat_inj)
qed

text \<open>A number up to a separator determines the number and the rest.\<close>

lemma show_int_sep:
  assumes "show_int i @ c # r = show_int j @ c # s" "\<not> is_digit c" "c \<noteq> CHR ''-''"
  shows "i = j \<and> r = s"
proof -
  have t: "takeWhile (\<lambda>x. x \<noteq> c) (show_int n @ c # z) = show_int n" for n z
    using show_int_chars [of c n] assms(2,3) by (simp add: takeWhile_append del: is_digit.simps)
      (metis takeWhile_eq_all_conv)
  have "show_int i = show_int j" using assms(1) t by metis
  with assms(1) show ?thesis using show_int_inj by auto
qed

section \<open>Command lines determine what they were built from\<close>

lemma type3_device_port:
  assumes "type3_device memdev prefix p node = type3_device memdev prefix q node"
  shows "p = q"
proof -
  from assms have "show_int p @ CHR '','' # r = show_int q @ CHR '','' # r"
    if "r = ''coherence-v2-host-id='' @ show_int node @ '',coherence-v2-cache-capacity=8388608,'' @
       ''coherence-v2-cache-ways=4,coherence-v2-timeout-ms=5000,'' @ ''coherence-v2-write-through=off,'' @
       ''coherence-v2-read-exclusive='' @ on_off (node = 0)" for r
    using that unfolding type3_device_def by simp
  then show ?thesis using show_int_inj by auto
qed

lemma bi_command_Inr:
  assumes "bi_build_qemu_command paths config node port bi = Inr c"
  shows "node \<in> {0, 1}" "0 < port" "port \<le> 65535" "length c = 38" "c ! 2 = ''cxl-bi-node'' @ show_int node"
    "c ! 10 = ''cxl-fmw.0.targets.0=cxl-node'' @ show_int node @ '',cxl-fmw.0.size=4G,cxl-fmw.0.restrictions=''
       @ (if bi then ''0x29'' else ''0x09'')"
    "c ! 37 = type3_device ''t3pmem-'' (''node'' @ show_int node) port node"
  using assms by (auto simp: bi_build_qemu_command_def bad_port_def Let_def split: if_splits)

text \<open>
  Command lines of the two-guest experiment are unambiguous: they are built exactly
  for node 0 or 1 and a port in 1..65535, and two builds that give the same command line
  were made for the same node, the same coherence port and the same back-invalidation
  setting.
\<close>

theorem bi_qemu_command_injective:
  "((\<exists>c. bi_build_qemu_command paths config node port bi = Inr c) \<longleftrightarrow> node \<in> {0, 1} \<and> port \<in> {1..65535})
   \<and> (bi_build_qemu_command paths config node port bi = Inr c
      \<longrightarrow> bi_build_qemu_command paths config node' port' bi' = Inr c
      \<longrightarrow> node = node' \<and> port = port' \<and> bi = bi')"
proof (intro conjI impI)
  show "(\<exists>c. bi_build_qemu_command paths config node port bi = Inr c) \<longleftrightarrow> node \<in> {0, 1} \<and> port \<in> {1..65535}"
    by (auto simp: bi_build_qemu_command_def bad_port_def Let_def)
  assume 1: "bi_build_qemu_command paths config node port bi = Inr c"
    and 2: "bi_build_qemu_command paths config node' port' bi' = Inr c"
  note a = bi_command_Inr [OF 1] and b = bi_command_Inr [OF 2]
  from a(5) b(5) show n: "node = node'" using show_int_inj by simp
  from a(7) b(7) show "port = port'" unfolding n by (metis type3_device_port)
  from a(6) b(6) show "bi = bi'" unfolding n by (auto split: if_splits)
qed

theorem bi_qemu_command_injective_witness:
  "\<exists>paths. (\<exists>c. bi_build_qemu_command paths default_run_config 1 4000 True = Inr c) \<and>
     (\<exists>c. bi_build_qemu_command paths default_run_config 1 4000 True = Inr c \<and>
        (bi_build_qemu_command paths default_run_config 0 4000 True = Inr c \<longrightarrow> (1 :: int) = 0))"
proof -
  fix paths :: bi_paths
  have e: "\<exists>c. bi_build_qemu_command paths default_run_config 1 4000 True = Inr c"
    using bi_qemu_command_injective [of paths default_run_config 1 4000 True] by simp
  then obtain c where "bi_build_qemu_command paths default_run_config 1 4000 True = Inr c" by blast
  with e show ?thesis
    using bi_qemu_command_injective [of paths default_run_config 1 4000 True c 0 4000 True] by blast
qed

lemma path_join_inj:
  "path_join d a = path_join d b \<Longrightarrow> \<not> is_absolute a \<Longrightarrow> \<not> is_absolute b \<Longrightarrow> a = b"
  by (auto simp: path_join_def split: if_splits)

lemma distinct_joined:
  assumes "distinct names" "list_all (\<lambda>n. \<not> is_absolute n) names"
  shows "distinct (map (path_join d) names)"
  using assms by (auto simp: distinct_map inj_on_def list_all_iff dest: path_join_inj)

text \<open>
  The files of one run do not collide: for every run directory the backing file,
  label storage, console log and event log of both nodes, the coherence trace, the server
  log, the server backing file and the result are twelve different paths.
\<close>

theorem bi_run_files_distinct:
  assumes "bi_runtime_paths resolve env root0 run_dir = Inr paths"
  shows "distinct [endpoint_memory paths 0, endpoint_memory paths 1, lsa paths 0, lsa paths 1,
     console_log paths 0, console_log paths 1, event_log paths 0, event_log paths 1,
     bi_coherence_trace paths, bi_server_log paths, bi_server_ssd paths, bi_result paths]"
proof -
  have "distinct (map (path_join (resolve run_dir))
    [''node0-cxl-pmem.raw'', ''node1-cxl-pmem.raw'', ''node0-lsa.raw'', ''node1-lsa.raw'', ''node0-serial.log'',
     ''node1-serial.log'', ''node0-host-events.jsonl'', ''node1-host-events.jsonl'', ''coherence.jsonl'',
     ''cxlmemsim.log'', ''cxlmemsim-authority.raw'', ''result.json''])"
    by (rule distinct_joined) (simp_all add: is_absolute_def starts_with_def)
  moreover have "bi_run_dir paths = resolve run_dir" "bi_coherence_trace paths = path_join (resolve run_dir) ''coherence.jsonl''"
    "bi_server_log paths = path_join (resolve run_dir) ''cxlmemsim.log''"
    "bi_server_ssd paths = path_join (resolve run_dir) ''cxlmemsim-authority.raw''"
    "bi_result paths = path_join (resolve run_dir) ''result.json''"
    using assms by (auto simp: bi_runtime_paths_def Let_def rbind_Inr_iff)
  ultimately show ?thesis
    by (simp only: endpoint_memory_def lsa_def console_log_def event_log_def node_file_def show_int_def
        list.map) (simp add: py_simps)
qed

theorem bi_run_files_distinct_witness:
  "\<exists>paths. distinct [endpoint_memory paths 0, endpoint_memory paths 1, lsa paths 0, lsa paths 1,
     console_log paths 0, console_log paths 1, event_log paths 0, event_log paths 1,
     bi_coherence_trace paths, bi_server_log paths, bi_server_ssd paths, bi_result paths]"
proof -
  have "\<exists>paths. bi_runtime_paths (\<lambda>p. p) [] ''/work'' ''/work/run'' = Inr paths"
    by (simp add: bi_runtime_paths_def configured_path_def env_value_def Let_def)
  then show ?thesis using bi_run_files_distinct [of "\<lambda>p. p" "[]" "''/work''" "''/work/run''"] by blast
qed

section \<open>The child environment\<close>

lemma pop_all_lookup: "map_of (pop_all names env) k = (if k \<in> set names then None else map_of env k)"
  by (induction env) (auto simp: pop_all_def)

text \<open>
  Child environment: the legacy transport variables are gone, the search path starts
  with the directory of the built QEMU and continues with the old one, and every other
  variable keeps its value. The same for both runners.
\<close>

theorem qemu_environment_lookup:
  "map_of (bi_qemu_environment env paths) k =
     (if k = ''PATH'' then Some (path_parent (bi_qemu paths) @
        (case env_value env ''PATH'' of None \<Rightarrow> [] | Some old \<Rightarrow> '':'' @ old))
      else if k \<in> set LEGACY_TRANSPORT_ENV then None else map_of env k)
   \<and> t3_qemu_environment env (Some base) t3 = t3_qemu_environment base None t3
   \<and> map_of (t3_qemu_environment env None t3) k =
     (if k = ''PATH'' then Some (path_parent (t3_qemu t3) @
        (case env_value env ''PATH'' of None \<Rightarrow> [] | Some old \<Rightarrow> '':'' @ old))
      else if k \<in> set LEGACY_TRANSPORT_ENV then None else map_of env k)"
  by (auto simp: bi_qemu_environment_def t3_qemu_environment_def prepend_path_def pop_all_lookup env_value_def Let_def
      LEGACY_TRANSPORT_ENV_def split: option.splits)

end
