(* ===== verification/Type3_Trace.thy ===== *)
theory Type3_Trace
  imports Stamped_Lines
begin

text \<open>
  The file readers of scripts/legofs_type3_2node.py: the coherence trace from a byte
  offset on (\<^verbatim>\<open>read_coherence_trace\<close>) and the console event sidecar
  (\<^verbatim>\<open>read_event_sidecar\<close>), with their integer field reader (\<^verbatim>\<open>_required_integer\<close>). File
  contents are arguments. Both readers implement the contract of ordered JSON lines.
\<close>

definition required_integer :: "pydict \<Rightarrow> string \<Rightarrow> int res" where
  "required_integer record name =
     (let value = dget record name
      in if is_bool value \<or> \<not> is_int value
         then Inl (ValueError (''evidence field '' @ name @ '' must be an integer''))
         else case value of PInt i \<Rightarrow> Inr i | _ \<Rightarrow> Inl TypeError)"

interpretation evidence_int: int_field_reader required_integer
  "\<lambda>name. ''evidence field '' @ name @ '' must be an integer''"
  by unfold_locales (simp add: required_integer_def Let_def split: pyval.splits)

section \<open>Coherence trace\<close>

definition coherence_line ::
  "nat \<times> int option \<times> pydict list \<Rightarrow> string \<Rightarrow> (nat \<times> int option \<times> pydict list) res" where
  "coherence_line st raw_line =
     (case st of (number, previous, records) \<Rightarrow>
        rbind (case utf8_decode raw_line of
                 Inl _ \<Rightarrow> Inl (ValueError (''invalid UTF-8 in coherence record '' @ show_nat number))
               | Inr line \<Rightarrow> Inr line) (\<lambda>line.
        rbind (strict_json_loads line) (\<lambda>record.
        if \<not> py_eq (dget record ''schema_version'') (PInt 1)
        then Inl (ValueError ''unsupported coherence trace schema'')
        else rbind (required_integer record ''monotonic_ns'') (\<lambda>now.
        if (case previous of None \<Rightarrow> False | Some p \<Rightarrow> now < p)
        then Inl (ValueError ''coherence timestamps went backwards'')
        else Inr (Suc number, Some now, records @ [record])))))"

definition read_coherence_trace :: "string \<Rightarrow> nat \<Rightarrow> pydict list res" where
  "read_coherence_trace content start_offset =
     (let raw = drop start_offset content
      in if raw \<noteq> [] \<and> last raw \<noteq> CHR 0x0A
         then Inl (ValueError ''truncated final coherence JSONL record'')
         else rbind (rfold coherence_line (1, None, []) (bytes_splitlines raw))
                (\<lambda>(_, _, records). Inr records))"

section \<open>Console event sidecar\<close>

definition sidecar_line :: "int option \<times> pydict list \<Rightarrow> string \<Rightarrow> (int option \<times> pydict list) res" where
  "sidecar_line st raw_line =
     (case st of (previous, records) \<Rightarrow>
        rbind (utf8_decode raw_line) (\<lambda>line.
        rbind (strict_json_loads line) (\<lambda>record.
        rbind (required_integer record ''host_capture_ns'') (\<lambda>capture.
        if (case previous of None \<Rightarrow> False | Some p \<Rightarrow> capture < p)
        then Inl (ValueError ''console capture timestamps went backwards'')
        else if \<not> is_str (dget record ''line'')
        then Inl (ValueError ''console event line must be text'')
        else Inr (Some capture, records @ [record])))))"

definition read_event_sidecar :: "string \<Rightarrow> pydict list res" where
  "read_event_sidecar raw =
     (if raw \<noteq> [] \<and> last raw \<noteq> CHR 0x0A
      then Inl (ValueError ''truncated console event sidecar'')
      else rbind (rfold sidecar_line (None, []) (bytes_splitlines raw)) (\<lambda>(_, records). Inr records))"

section \<open>Both readers implement the contract\<close>

definition version_1 :: "pydict \<Rightarrow> bool" where
  "version_1 record = py_eq (dget record ''schema_version'') (PInt 1)"

definition text_line :: "pydict \<Rightarrow> bool" where
  "text_line record \<longleftrightarrow> (\<exists>s. dget record ''line'' = PStr s)"

lemma coherence_line_Inr:
  "coherence_line (number, previous, records) line = Inr s \<longleftrightarrow>
     (\<exists>r t. line_object line r \<and> version_1 r \<and> dget r ''monotonic_ns'' = PInt t
        \<and> (\<forall>p. previous = Some p \<longrightarrow> p \<le> t) \<and> s = (Suc number, Some t, records @ [r]))"
proof -
  have "coherence_line (number, previous, records) line = Inr s \<longleftrightarrow>
     (\<exists>r t. utf8_valid line \<and> strict_json_loads line = Inr r \<and> version_1 r
        \<and> required_integer r ''monotonic_ns'' = Inr t \<and> (\<forall>p. previous = Some p \<longrightarrow> p \<le> t) \<and> s = (Suc number, Some t, records @ [r]))"
    by (cases previous; cases "utf8_valid line")
       (auto simp: coherence_line_def utf8_decode_def version_1_def rbind_Inr_iff not_less
          simp del: py_eq_int split: if_splits)
  then show ?thesis
    unfolding line_object_def strict_json_loads_Inr evidence_int.read_Inr_iff by blast
qed

interpretation coherence_reader: stamped_reader coherence_line "\<lambda>(number, previous, records). (previous, records)"
  "''monotonic_ns''" version_1
  by unfold_locales (force simp: coherence_line_Inr)

lemma sidecar_line_Inr:
  "sidecar_line (previous, records) line = Inr s \<longleftrightarrow>
     (\<exists>r t. line_object line r \<and> text_line r \<and> dget r ''host_capture_ns'' = PInt t
        \<and> (\<forall>p. previous = Some p \<longrightarrow> p \<le> t) \<and> s = (Some t, records @ [r]))"
proof -
  have "sidecar_line (previous, records) line = Inr s \<longleftrightarrow>
     (\<exists>r t. utf8_valid line \<and> strict_json_loads line = Inr r \<and> text_line r
        \<and> required_integer r ''host_capture_ns'' = Inr t \<and> (\<forall>p. previous = Some p \<longrightarrow> p \<le> t) \<and> s = (Some t, records @ [r]))"
    by (cases previous; cases "utf8_valid line")
       (auto simp: sidecar_line_def utf8_decode_def text_line_def rbind_Inr_iff not_less is_tests_iff split: if_splits)
  then show ?thesis
    unfolding line_object_def strict_json_loads_Inr evidence_int.read_Inr_iff by blast
qed

interpretation sidecar_reader: stamped_reader sidecar_line "\<lambda>(previous, records). (previous, records)"
  "''host_capture_ns''" text_line
  by unfold_locales (force simp: sidecar_line_Inr)

lemma read_coherence_trace_Inr:
  assumes "read_coherence_trace content offset = Inr records"
  shows "list_all (stamped version_1 ''monotonic_ns'') records" and "sorted (map (stamp_of ''monotonic_ns'') records)"
    and "list_all2 line_object (bytes_splitlines (drop offset content)) records"
proof -
  from assms obtain n p where
    l: "rfold coherence_line (1, None, []) (bytes_splitlines (drop offset content)) = Inr (n, p, records)"
    by (auto simp: read_coherence_trace_def Let_def rbind_Inr_iff split: if_splits)
  from coherence_reader.loop_inv [OF l]
  show "list_all (stamped version_1 ''monotonic_ns'') records" "sorted (map (stamp_of ''monotonic_ns'') records)"
    by (simp_all add: stamped_inv_def)
  from coherence_reader.loop_records [OF l]
  show "list_all2 line_object (bytes_splitlines (drop offset content)) records" by simp
qed

lemma read_event_sidecar_Inr:
  assumes "read_event_sidecar raw = Inr records"
  shows "list_all (stamped text_line ''host_capture_ns'') records" "sorted (map (stamp_of ''host_capture_ns'') records)"
proof -
  from assms obtain p where l: "rfold sidecar_line (None, []) (bytes_splitlines raw) = Inr (p, records)"
    by (auto simp: read_event_sidecar_def rbind_Inr_iff split: if_splits)
  from sidecar_reader.loop_inv [OF l]
  show "list_all (stamped text_line ''host_capture_ns'') records" "sorted (map (stamp_of ''host_capture_ns'') records)"
    by (simp_all add: stamped_inv_def)
qed

lemma read_coherence_trace_jsonl:
  assumes "list_all (printable_record version_1 ''monotonic_ns'') records"
    and "sorted (map (stamp_of ''monotonic_ns'') records)" and "offset = length prefix"
  shows "read_coherence_trace (prefix @ jsonl records) offset = Inr records"
proof -
  obtain s' where "rfold coherence_line (1, None, []) (map (\<lambda>r. json_compact (PDict r)) records) = Inr s'"
    "snd (snd s') = records"
    using coherence_reader.loop_jsonl [of records "(1, None, [])"] assms
    by (auto split: prod.splits simp del: json_compact.simps)
  moreover have "drop offset (prefix @ jsonl records) = jsonl records" using assms(3) by simp
  ultimately show ?thesis
    unfolding read_coherence_trace_def Let_def
    by (cases s') (auto simp: jsonl_lines simp del: json_compact.simps drop_append dest: jsonl_ends)
qed

lemma read_event_sidecar_jsonl:
  assumes "list_all (printable_record text_line ''host_capture_ns'') records"
    and "sorted (map (stamp_of ''host_capture_ns'') records)"
  shows "read_event_sidecar (jsonl records) = Inr records"
proof -
  obtain s' where "rfold sidecar_line (None, []) (map (\<lambda>r. json_compact (PDict r)) records) = Inr s'"
    "snd s' = records"
    using sidecar_reader.loop_jsonl [of records "(None, [])"] assms
    by (auto split: prod.splits simp del: json_compact.simps)
  then show ?thesis
    by (cases s') (auto simp: read_event_sidecar_def jsonl_lines simp del: json_compact.simps dest: jsonl_ends)
qed

text \<open>
  Reading the coherence trace from the offset where the benchmark started returns
  exactly the records written after that point, whatever was written before, and reading
  the sidecar returns exactly the captured lines, provided the records are printable and
  their time stamps do not decrease.
\<close>

theorem type3_readers_roundtrip:
  "(list_all (printable_record version_1 ''monotonic_ns'') records
      \<longrightarrow> sorted (map (stamp_of ''monotonic_ns'') records)
      \<longrightarrow> read_coherence_trace (prefix @ jsonl records) (length prefix) = Inr records)
   \<and> (list_all (printable_record text_line ''host_capture_ns'') events
      \<longrightarrow> sorted (map (stamp_of ''host_capture_ns'') events)
      \<longrightarrow> read_event_sidecar (jsonl events) = Inr events)"
  by (simp add: read_coherence_trace_jsonl read_event_sidecar_jsonl)

theorem type3_readers_roundtrip_witness:
  "read_coherence_trace (''...'' @ jsonl [[(''schema_version'', PInt 1), (''monotonic_ns'', PInt 5)]]) (length ''...'') =
     Inr [[(''schema_version'', PInt 1), (''monotonic_ns'', PInt 5)]]
   \<and> read_event_sidecar (jsonl [[(''line'', PStr ''ok''), (''host_capture_ns'', PInt 7)]]) =
     Inr [[(''line'', PStr ''ok''), (''host_capture_ns'', PInt 7)]]"
  using type3_readers_roundtrip [of "[[(''schema_version'', PInt 1), (''monotonic_ns'', PInt 5)]]" "''...''"
      "[[(''line'', PStr ''ok''), (''host_capture_ns'', PInt 7)]]"]
  by (simp add: printable_record_def version_1_def text_line_def json_string_def escape_out_def show_int_def py_simps)

text \<open>
  Accepted traces and sidecars are ordered: every record has no repeated key, an
  integer time stamp, the schema version (trace) or a text line (sidecar), and the stamps
  never decrease. Trace records are exactly the JSON objects of the lines after the offset.
\<close>

theorem type3_readers_ordered:
  "(read_coherence_trace content offset = Inr records \<longrightarrow>
      list_all (stamped version_1 ''monotonic_ns'') records \<and> sorted (map (stamp_of ''monotonic_ns'') records)
      \<and> list_all2 line_object (bytes_splitlines (drop offset content)) records)
   \<and> (read_event_sidecar raw = Inr events \<longrightarrow>
      list_all (stamped text_line ''host_capture_ns'') events \<and> sorted (map (stamp_of ''host_capture_ns'') events))"
  using read_coherence_trace_Inr read_event_sidecar_Inr by blast

theorem type3_readers_ordered_witness:
  "\<exists>content raw. list_all (stamped version_1 ''monotonic_ns'') [[(''schema_version'', PInt 1), (''monotonic_ns'', PInt 5)]]
   \<and> list_all2 line_object (bytes_splitlines (drop 0 content)) [[(''schema_version'', PInt 1), (''monotonic_ns'', PInt 5)]]
   \<and> read_coherence_trace content 0 = Inr [[(''schema_version'', PInt 1), (''monotonic_ns'', PInt 5)]]
   \<and> (read_event_sidecar raw = Inr [] \<and> sorted (map (stamp_of ''host_capture_ns'') []))"
proof -
  let ?rs = "[[(''schema_version'', PInt 1), (''monotonic_ns'', PInt 5)]]"
  have r: "read_coherence_trace ([] @ jsonl ?rs) 0 = Inr ?rs"
    by (rule read_coherence_trace_jsonl)
       (simp_all add: printable_record_def version_1_def json_string_def escape_out_def show_int_def py_simps)
  have e: "read_event_sidecar [] = Inr []"
    by (simp add: read_event_sidecar_def bytes_splitlines_def)
  from r e type3_readers_ordered [of "[] @ jsonl ?rs" 0 ?rs "[]" "[]"] show ?thesis by blast
qed

end
