(* ===== verification/Registrations.thy ===== *)
theory Registrations
  imports Bi_Trace Type3_Trace "HOL-Library.Multiset"
begin

text \<open>
  The three validators of coherence-host registrations: \<^verbatim>\<open>_validate_registrations\<close>
  (scripts/cxl_bi_app.py), \<^verbatim>\<open>validate_registrations\<close> (scripts/legofs_type3_2node.py) and
  \<^verbatim>\<open>validate_three_registrations\<close> (scripts/legofs_type3_3node.py). Their loops share one
  contract, stated as a locale; each validator is proved to accept exactly one
  registration per expected host with distinct sessions. They differ in which session
  numbers count as valid.
\<close>

type_synonym reg_state = "(int \<times> pydict) list \<times> int list"

definition is_registration :: "pydict \<Rightarrow> bool" where
  "is_registration record =
     (py_eq (dget record ''event'') (PStr ''registration'') \<and> py_eq (dget record ''status'') (PStr ''OK''))"

definition host_records :: "(int \<times> pydict) list \<Rightarrow> int list \<Rightarrow> pydict list" where
  "host_records by_host hosts = map (\<lambda>h. the (map_of by_host h)) hosts"

section \<open>Two guests\<close>

definition bi_register :: "reg_state \<Rightarrow> pydict \<Rightarrow> reg_state res" where
  "bi_register st record =
     (case st of (by_host, sessions) \<Rightarrow>
        rbind (required_int record ''src_host'') (\<lambda>host.
        rbind (required_int record ''session_id'') (\<lambda>session.
        if host \<notin> {0, 1} \<or> host \<in> fst ` set by_host \<or> session \<le> 0 \<or> session \<in> set sessions
        then Inl (ValueError ''coherence registrations have invalid host/session identity'')
        else Inr (aset host record by_host, session # sessions))))"

definition bi_validate_registrations :: "pydict list \<Rightarrow> pydict list res" where
  "bi_validate_registrations records =
     (let registrations = filter is_registration records
      in if length registrations \<noteq> 2
         then Inl (ValueError (''expected two successful coherence registrations, got ''
                               @ show_nat (length registrations)))
         else rbind (rfold bi_register ([], []) registrations) (\<lambda>(by_host, _).
              if set (map fst by_host) \<noteq> {0, 1}
              then Inl (ValueError ''coherence registrations must contain host IDs 0 and 1'')
              else Inr (host_records by_host [0, 1])))"

section \<open>Two nodes\<close>

definition t3_register :: "reg_state \<Rightarrow> pydict \<Rightarrow> reg_state res" where
  "t3_register st record =
     (case st of (by_host, sessions) \<Rightarrow>
        rbind (required_integer record ''src_host'') (\<lambda>host.
        rbind (required_integer record ''session_id'') (\<lambda>session.
        if host \<in> fst ` set by_host
        then Inl (ValueError (''duplicate coherence host ID: '' @ show_int host))
        else if host \<notin> {0, 1} \<or> session = 0 \<or> session \<in> set sessions
        then Inl (ValueError ''coherence registrations have invalid host/session identity'')
        else Inr (aset host record by_host, session # sessions))))"

definition t3_validate_registrations :: "pydict list \<Rightarrow> pydict list res" where
  "t3_validate_registrations records =
     (let registrations = filter is_registration records
      in if length registrations \<noteq> 2
         then Inl (ValueError (''expected exactly two successful host registrations, got ''
                               @ show_nat (length registrations)))
         else rbind (rfold t3_register ([], []) registrations) (\<lambda>(by_host, _).
              if set (map fst by_host) \<noteq> {0, 1}
              then Inl (ValueError ''coherence registrations must contain host IDs 0 and 1'')
              else Inr (host_records by_host [0, 1])))"

section \<open>Three nodes\<close>

definition t3_register_three :: "reg_state \<Rightarrow> pydict \<Rightarrow> reg_state res" where
  "t3_register_three st record =
     (case st of (by_host, sessions) \<Rightarrow>
        rbind (required_integer record ''src_host'') (\<lambda>host.
        rbind (required_integer record ''session_id'') (\<lambda>session.
        if host \<in> fst ` set by_host
        then Inl (ValueError (''duplicate coherence host ID: '' @ show_int host))
        else if host \<notin> {0, 1, 2} \<or> session \<le> 0 \<or> session \<in> set sessions
        then Inl (ValueError ''coherence registrations have invalid host/session identity'')
        else Inr (aset host record by_host, session # sessions))))"

definition validate_three_registrations :: "pydict list \<Rightarrow> pydict list res" where
  "validate_three_registrations records =
     (let registrations = filter is_registration records
      in if length registrations \<noteq> 3
         then Inl (ValueError (''expected exactly three successful host registrations, got ''
                               @ show_nat (length registrations)))
         else rbind (rfold t3_register_three ([], []) registrations) (\<lambda>(by_host, _).
              if set (map fst by_host) \<noteq> {0, 1, 2}
              then Inl (ValueError ''coherence registrations must contain host IDs 0, 1, and 2'')
              else Inr (host_records by_host [0, 1, 2])))"

section \<open>The contract of the loop\<close>

definition host_of :: "pydict \<Rightarrow> int" where
  "host_of r = (case dget r ''src_host'' of PInt i \<Rightarrow> i | _ \<Rightarrow> 0)"

definition session_of :: "pydict \<Rightarrow> int" where
  "session_of r = (case dget r ''session_id'' of PInt i \<Rightarrow> i | _ \<Rightarrow> 0)"

lemma reg_field_simps [simp]:
  "dget r ''src_host'' = PInt h \<Longrightarrow> host_of r = h" "dget r ''session_id'' = PInt s \<Longrightarrow> session_of r = s"
  by (simp_all add: host_of_def session_of_def)

text \<open>Integer host and session, the host expected and the session valid.\<close>

definition reg_ok :: "int list \<Rightarrow> (int \<Rightarrow> bool) \<Rightarrow> pydict \<Rightarrow> bool" where
  "reg_ok hosts valid r \<longleftrightarrow>
     (\<exists>h s. dget r ''src_host'' = PInt h \<and> dget r ''session_id'' = PInt s \<and> h \<in> set hosts \<and> valid s)"

text \<open>
  What a validator promises: the result lists one registration per expected host, in the
  order of the hosts; together they are all the successful registrations of the trace.
\<close>

definition registered :: "int list \<Rightarrow> (int \<Rightarrow> bool) \<Rightarrow> pydict list \<Rightarrow> pydict list \<Rightarrow> bool" where
  "registered hosts valid records out \<longleftrightarrow>
     mset out = mset (filter is_registration records) \<and> list_all (reg_ok hosts valid) out
     \<and> map host_of out = hosts \<and> distinct (map session_of out)"

locale registration_loop =
  fixes step :: "reg_state \<Rightarrow> pydict \<Rightarrow> reg_state res"
    and hosts :: "int list" and valid :: "int \<Rightarrow> bool"
  assumes step_Inr: "step (by_host, sessions) r = Inr st \<longleftrightarrow>
      reg_ok hosts valid r \<and> host_of r \<notin> fst ` set by_host \<and> session_of r \<notin> set sessions
      \<and> st = (by_host @ [(host_of r, r)], session_of r # sessions)"
    and hosts_distinct: "distinct hosts"
begin

lemma loop_Inr:
  assumes "distinct (map fst by_host)" "distinct sessions"
  shows "rfold step (by_host, sessions) regs = Inr st \<longleftrightarrow>
     list_all (reg_ok hosts valid) regs \<and> distinct (map fst by_host @ map host_of regs)
     \<and> distinct (sessions @ map session_of regs)
     \<and> st = (by_host @ map (\<lambda>r. (host_of r, r)) regs, rev (map session_of regs) @ sessions)"
  using assms
proof (induction regs arbitrary: by_host sessions)
  case Nil
  then show ?case by auto
next
  case (Cons r regs)
  show ?case
  proof (cases "reg_ok hosts valid r \<and> host_of r \<notin> fst ` set by_host \<and> session_of r \<notin> set sessions")
    case True
    then have "rfold step (by_host, sessions) (r # regs) =
        rfold step (by_host @ [(host_of r, r)], session_of r # sessions) regs"
      using step_Inr [of by_host sessions r "(by_host @ [(host_of r, r)], session_of r # sessions)"] by simp
    moreover have "distinct (map fst (by_host @ [(host_of r, r)]))" "distinct (session_of r # sessions)"
      using Cons.prems True by auto
    ultimately show ?thesis using True Cons.IH by auto
  next
    case False
    then have "step (by_host, sessions) r \<noteq> Inr s" for s using step_Inr by auto
    then have "rfold step (by_host, sessions) (r # regs) \<noteq> Inr st" by (auto simp: rbind_Inr_iff)
    moreover from False have "\<not> (list_all (reg_ok hosts valid) (r # regs) \<and> distinct (map fst by_host @ map host_of (r # regs))
        \<and> distinct (sessions @ map session_of (r # regs)))" by auto
    ultimately show ?thesis by blast
  qed
qed

lemma loop_from_empty:
  "rfold step ([], []) regs = Inr st \<longleftrightarrow>
     list_all (reg_ok hosts valid) regs \<and> distinct (map host_of regs) \<and> distinct (map session_of regs)
     \<and> st = (map (\<lambda>r. (host_of r, r)) regs, rev (map session_of regs))"
  using loop_Inr [of "[]" "[]" regs st] by auto

text \<open>With as many registrations as hosts, every host is there: the last check never fails.\<close>

lemma all_hosts:
  assumes "list_all (reg_ok hosts valid) regs" "distinct (map host_of regs)" "length regs = length hosts"
  shows "host_of ` set regs = set hosts"
proof -
  have "host_of ` set regs \<subseteq> set hosts" using assms(1) by (auto simp: list_all_iff reg_ok_def host_of_def)
  moreover have "card (host_of ` set regs) = card (set hosts)"
    using assms(2,3) hosts_distinct by (metis distinct_card length_map set_map)
  ultimately show ?thesis by (simp add: card_subset_eq)
qed

lemma host_records_inverse:
  assumes "distinct (map host_of regs)" "set out \<subseteq> set regs"
  shows "host_records (map (\<lambda>r. (host_of r, r)) regs) (map host_of out) = out"
proof -
  have "the (map_of (map (\<lambda>r. (host_of r, r)) regs) (host_of r)) = r" if "r \<in> set regs" for r
    using assms(1) that by (subst map_of_is_SomeI) (auto simp: comp_def)
  with assms(2) show ?thesis by (auto simp: host_records_def intro!: map_idI)
qed

lemma ordered_result:
  assumes "distinct (map host_of regs)" "host_of ` set regs = set hosts"
  defines "out \<equiv> host_records (map (\<lambda>r. (host_of r, r)) regs) hosts"
  shows "mset out = mset regs" and "map host_of out = hosts"
proof -
  have "mset hosts = mset (map host_of regs)"
    using assms(1,2) hosts_distinct by (metis mset_set_set set_map)
  then have "mset out = mset (host_records (map (\<lambda>r. (host_of r, r)) regs) (map host_of regs))"
    unfolding out_def host_records_def mset_map by simp
  then show "mset out = mset regs" using host_records_inverse [OF assms(1) order_refl] by simp
  have "host_of (the (map_of (map (\<lambda>r. (host_of r, r)) regs) h)) = h" if h: "h \<in> set hosts" for h
  proof -
    from h assms(2) obtain r where r: "r \<in> set regs" "h = host_of r" by blast
    then have "map_of (map (\<lambda>r. (host_of r, r)) regs) h = Some r"
      using assms(1) by (intro map_of_is_SomeI) (auto simp: comp_def)
    with r show ?thesis by simp
  qed
  then show "map host_of out = hosts" by (auto simp: out_def host_records_def intro: map_idI)
qed

text \<open>The whole validator accepts exactly the promised results.\<close>

lemma validator_Inr:
  assumes n: "n = length hosts" and H: "H = set hosts"
  shows "(let registrations = filter is_registration records
    in if length registrations \<noteq> n then Inl (e1 registrations)
       else rbind (rfold step ([], []) registrations) (\<lambda>(by_host, _).
            if set (map fst by_host) \<noteq> H then Inl e2 else Inr (host_records by_host hosts))) = Inr out
   \<longleftrightarrow> registered hosts valid records out" (is "?validate = Inr out \<longleftrightarrow> _")
proof
  let ?regs = "filter is_registration records" and ?pairs = "map (\<lambda>r. (host_of r, r))"
  assume "?validate = Inr out"
  then have l: "length ?regs = length hosts" and c: "list_all (reg_ok hosts valid) ?regs"
    "distinct (map host_of ?regs)" "distinct (map session_of ?regs)" and o: "out = host_records (?pairs ?regs) hosts"
    by (auto simp: n H Let_def rbind_Inr_iff loop_from_empty split: if_splits)
  from ordered_result [OF c(2) all_hosts [OF c(1,2) l]] o have m: "mset out = mset ?regs" "map host_of out = hosts"
    by auto
  from m(1) have "set out = set ?regs" "mset (map session_of out) = mset (map session_of ?regs)"
    by (metis set_mset_mset, simp)
  with c m show "registered hosts valid records out"
    unfolding registered_def list_all_iff by (metis mset_eq_imp_distinct_iff)
next
  let ?regs = "filter is_registration records" and ?pairs = "map (\<lambda>r. (host_of r, r))"
  assume r: "registered hosts valid records out"
  then have m: "mset out = mset ?regs" and c: "list_all (reg_ok hosts valid) out" "map host_of out = hosts"
    "distinct (map session_of out)" by (auto simp: registered_def)
  from m have s: "set out = set ?regs" "mset (map session_of out) = mset (map session_of ?regs)"
    "mset (map host_of out) = mset (map host_of ?regs)" by (metis set_mset_mset, simp_all)
  have d: "list_all (reg_ok hosts valid) ?regs" "distinct (map host_of ?regs)" "distinct (map session_of ?regs)"
    using c s hosts_distinct unfolding list_all_iff by (metis mset_eq_imp_distinct_iff)+
  have l: "length ?regs = length hosts" using m c(2) by (metis length_map size_mset)
  have "host_records (?pairs ?regs) hosts = out"
    using host_records_inverse [OF d(2), of out] s(1) unfolding c(2) by blast
  then show "?validate = Inr out"
    using l all_hosts [OF d(1,2) l] loop_from_empty [of ?regs "(?pairs ?regs, rev (map session_of ?regs))"] d
    by (simp add: n H image_image)
qed

end

section \<open>The three validators\<close>

interpretation bi_reg: registration_loop bi_register "[0, 1]" "\<lambda>s. 0 < s"
proof
  show "bi_register (by_host, sessions) r = Inr st \<longleftrightarrow> reg_ok [0, 1] (\<lambda>s. 0 < s) r \<and> host_of r \<notin> fst ` set by_host
      \<and> session_of r \<notin> set sessions \<and> st = (by_host @ [(host_of r, r)], session_of r # sessions)" for by_host sessions r st
    by (cases "dget r ''src_host''"; cases "dget r ''session_id''")
       (simp_all add: bi_register_def required_int_def reg_ok_def aset_fresh not_le; blast)+
qed simp

interpretation t3_reg: registration_loop t3_register "[0, 1]" "\<lambda>s. s \<noteq> 0"
proof
  show "t3_register (by_host, sessions) r = Inr st \<longleftrightarrow> reg_ok [0, 1] (\<lambda>s. s \<noteq> 0) r \<and> host_of r \<notin> fst ` set by_host
      \<and> session_of r \<notin> set sessions \<and> st = (by_host @ [(host_of r, r)], session_of r # sessions)" for by_host sessions r st
    by (cases "dget r ''src_host''"; cases "dget r ''session_id''")
       (simp_all add: t3_register_def required_integer_def reg_ok_def aset_fresh not_le; blast)+
qed simp

interpretation three_reg: registration_loop t3_register_three "[0, 1, 2]" "\<lambda>s. 0 < s"
proof
  show "t3_register_three (by_host, sessions) r = Inr st \<longleftrightarrow> reg_ok [0, 1, 2] (\<lambda>s. 0 < s) r \<and> host_of r \<notin> fst ` set by_host
      \<and> session_of r \<notin> set sessions \<and> st = (by_host @ [(host_of r, r)], session_of r # sessions)" for by_host sessions r st
    by (cases "dget r ''src_host''"; cases "dget r ''session_id''")
       (simp_all add: t3_register_three_def required_integer_def reg_ok_def aset_fresh not_le; blast)+
qed simp

text \<open>
  Host registrations of the two-guest experiment are accepted exactly when the
  successful registrations of the trace are one of host 0 and one of host 1 with distinct
  positive sessions; the result lists them in host order.
\<close>

theorem bi_registrations_iff:
  "bi_validate_registrations records = Inr out \<longleftrightarrow> registered [0, 1] (\<lambda>s. 0 < s) records out"
  unfolding bi_validate_registrations_def by (rule bi_reg.validator_Inr) simp_all

text \<open>
  The two-node validator accepts exactly one registration per host with distinct
  nonzero sessions; unlike the other two it does not reject negative session numbers.
\<close>

theorem t3_registrations_iff:
  "t3_validate_registrations records = Inr out \<longleftrightarrow> registered [0, 1] (\<lambda>s. s \<noteq> 0) records out"
  unfolding t3_validate_registrations_def by (rule t3_reg.validator_Inr) simp_all

text \<open>
  The three-node validator accepts exactly one registration of each of the hosts 0, 1
  and 2 with distinct positive sessions.
\<close>

theorem three_registrations_iff:
  "validate_three_registrations records = Inr out \<longleftrightarrow> registered [0, 1, 2] (\<lambda>s. 0 < s) records out"
  unfolding validate_three_registrations_def by (rule three_reg.validator_Inr) simp_all

end
