(* ===== verification/Type3_Evidence.thy ===== *)
theory Type3_Evidence
  imports Registrations
begin

text \<open>
  The evidence checks of scripts/legofs_type3_2node.py: correlating dirty
  back-invalidations with direct mappings and lifecycle operations, the benchmark line
  and its checksum, the lifecycle inspections, the order of host captures, the final
  server counters, and \<^verbatim>\<open>validate_runtime_evidence\<close> which combines them. File contents and
  console text are arguments.
\<close>

section \<open>Overlap of two intervals\<close>

definition overlap_ns :: "int \<times> int \<Rightarrow> int \<times> int \<Rightarrow> int res" where
  "overlap_ns first second =
     (let overlap = min (snd first) (snd second) - max (fst first) (fst second)
      in if overlap \<le> 0 then Inl (ValueError ''the two QEMU lifetimes did not overlap'') else Inr overlap)"

section \<open>Dirty back-invalidations\<close>

record correlation =
  op_id :: int
  mapping_offset :: int
  mapping_length :: int
  direct_unmap :: pydict
  lifecycle_begin :: pydict
  snoop :: pydict
  ack :: pydict
  completion :: pydict
  lifecycle_success :: pydict

type_synonym index = "(int \<times> pydict) list"

text \<open>\<^verbatim>\<open>{_required_integer(record, key): record for record in records if wanted(record)}\<close>.\<close>

definition index_by :: "string \<Rightarrow> (pydict \<Rightarrow> bool) \<Rightarrow> pydict list \<Rightarrow> index res" where
  "index_by key wanted records =
     rfold (\<lambda>table record. rbind (required_integer record key) (\<lambda>i. Inr (aset i record table)))
       [] (filter wanted records)"

abbreviation event_is :: "pydict \<Rightarrow> string \<Rightarrow> bool" where
  "event_is record e \<equiv> py_eq (dget record ''event'') (PStr e)"

definition direct_write :: "pydict \<Rightarrow> bool" where
  "direct_write record =
     (in_tuple (dget record ''event'') [''drop'', ''unmap''] \<and> in_tuple (dget record ''access'') [''write'', ''read_write'']
      \<and> py_eq (dget record ''rc'') (PInt 0))"

definition differs :: "pydict \<Rightarrow> string \<Rightarrow> int \<Rightarrow> bool res" where
  "differs record name v = rbind (required_integer record name) (\<lambda>i. Inr (i \<noteq> v))"

definition differ :: "pydict \<Rightarrow> pydict \<Rightarrow> string \<Rightarrow> bool res" where
  "differ a b name = rbind (required_integer a name) (\<lambda>x. rbind (required_integer b name) (\<lambda>y. Inr (x \<noteq> y)))"

definition later :: "pydict \<Rightarrow> pydict \<Rightarrow> bool res" where
  "later a b = rbind (required_integer a ''monotonic_ns'') (\<lambda>x.
     rbind (required_integer b ''monotonic_ns'') (\<lambda>y. Inr (x > y)))"

text \<open>The rejection chain for a snoop with its acknowledgement and completion.\<close>

definition snoop_mismatch :: "pydict \<Rightarrow> pydict \<Rightarrow> pydict \<Rightarrow> int \<Rightarrow> bool res" where
  "snoop_mismatch sn ak co line =
     rdisj [
       Inr (\<not> py_eq (dget ak ''ack_strength'') (PStr ''MODEL'')),
       Inr (\<not> py_eq (dget ak ''status'') (PStr ''OK'')),
       Inr (dget ak ''dirty_data'' \<noteq> PBool True),
       differs ak ''payload_len'' 64,
       Inr (\<not> py_eq (dget ak ''opcode'') (PStr ''SNOOP_ACK'')),
       differs ak ''src_host'' 1,
       differs ak ''dst_host'' 0xFFFF,
       Inr (\<not> py_eq (dget co ''opcode'') (PStr ''SNOOP_ACK'')),
       Inr (\<not> py_eq (dget co ''ack_strength'') (PStr ''MODEL'')),
       Inr (\<not> py_eq (dget co ''status'') (PStr ''OK'')),
       Inr (dget co ''dirty_data'' \<noteq> PBool True),
       differs co ''payload_len'' 64,
       differs co ''src_host'' 1,
       differs co ''dst_host'' 0xFFFF,
       differs ak ''line_address'' line,
       differs co ''line_address'' line,
       differ ak sn ''session_id'',
       differ co sn ''session_id'',
       differ ak sn ''epoch'',
       differ co sn ''epoch'',
       later sn ak,
       later ak co]"

definition range_mismatch :: "pydict \<Rightarrow> pydict \<Rightarrow> int \<Rightarrow> int \<Rightarrow> int \<Rightarrow> bool res" where
  "range_mismatch su direct line start len =
     rdisj [differs su ''mapping_offset'' start, differs su ''mapping_length'' len,
            differs direct ''offset'' start, differs direct ''length'' len,
            Inr (\<not> (start \<le> line \<and> line + 64 \<le> start + len))]"

text \<open>The inner loop: one direct mapping against one dirty line.\<close>

definition match_operation ::
  "index \<Rightarrow> index \<Rightarrow> pydict \<Rightarrow> pydict \<Rightarrow> pydict \<Rightarrow> int \<Rightarrow> correlation list \<Rightarrow> int \<times> pydict \<Rightarrow> correlation list res" where
  "match_operation begin_by_op success_by_op sn ak co line matches entry =
     (case entry of (op, direct) \<Rightarrow>
        case (map_of begin_by_op op, map_of success_by_op op) of
          (Some bg, Some su) \<Rightarrow>
            if bg = [] \<or> su = [] then Inr matches
            else rbind (required_integer bg ''mapping_offset'') (\<lambda>start.
                 rbind (required_integer bg ''mapping_length'') (\<lambda>len.
                 rbind (range_mismatch su direct line start len) (\<lambda>mismatch.
                 if mismatch then Inr matches
                 else Inr (matches @ [\<lparr>op_id = op, mapping_offset = start, mapping_length = len, direct_unmap = direct,
                        lifecycle_begin = bg, snoop = sn, ack = ak, completion = co, lifecycle_success = su\<rparr>]))))
        | _ \<Rightarrow> Inr matches)"

definition correlate_snoop ::
  "index \<Rightarrow> index \<Rightarrow> index \<Rightarrow> index \<Rightarrow> index \<Rightarrow> correlation list \<Rightarrow> pydict \<Rightarrow> correlation list res" where
  "correlate_snoop direct_by_op begin_by_op success_by_op acks completions matches sn =
     (if \<not> event_is sn ''snoop_send'' \<or> \<not> py_eq (dget sn ''opcode'') (PStr ''SNP_DATA_INV'') then Inr matches
      else rbind (required_integer sn ''snoop_id'') (\<lambda>snoop_id.
           rbind (required_integer sn ''line_address'') (\<lambda>line.
           rbind (differs sn ''dst_host'' 1) (\<lambda>other_host.
           if other_host then Inr matches
           else case (map_of acks snoop_id, map_of completions snoop_id) of
             (Some ak, Some co) \<Rightarrow>
               if ak = [] \<or> co = [] then Inr matches
               else rbind (snoop_mismatch sn ak co line) (\<lambda>mismatch.
                    if mismatch then Inr matches
                    else rfold (match_operation begin_by_op success_by_op sn ak co line) matches direct_by_op)
           | _ \<Rightarrow> Inr matches))))"

definition correlate_dirty_backinvalidations ::
  "pydict list \<Rightarrow> pydict list \<Rightarrow> pydict list \<Rightarrow> correlation list res" where
  "correlate_dirty_backinvalidations direct_records lifecycle_records coherence_records =
     rbind (index_by ''op_id'' direct_write direct_records) (\<lambda>direct_by_op.
     rbind (index_by ''op_id'' (\<lambda>r. event_is r ''store_direct_begin'') lifecycle_records) (\<lambda>begin_by_op.
     rbind (index_by ''op_id'' (\<lambda>r. event_is r ''store_direct_success'') lifecycle_records) (\<lambda>success_by_op.
     rbind (index_by ''snoop_id'' (\<lambda>r. event_is r ''snoop_ack'') coherence_records) (\<lambda>acks.
     rbind (index_by ''snoop_id'' (\<lambda>r. event_is r ''dirty_completion'') coherence_records) (\<lambda>completions.
     rbind (rfold (correlate_snoop direct_by_op begin_by_op success_by_op acks completions) [] coherence_records) (\<lambda>matches.
     if matches = [] then Inl (ValueError ''no address-correlated dirty SNP_DATA_INV MODEL completion'')
     else Inr matches))))))"

section \<open>Benchmark checksum\<close>

definition block_sum :: "int \<Rightarrow> int" where
  "block_sum len = sum_list (map (\<lambda>index. index mod 251) [0..len - 1])"

text \<open>The \<^verbatim>\<open>while\<close> loop; \<open>None\<close> stands for a loop that does not end.\<close>

partial_function (option) checksum_loop :: "int \<Rightarrow> int \<Rightarrow> int \<Rightarrow> int \<Rightarrow> int option" where
  "checksum_loop file_size block_size acc offset =
     (if offset < file_size
      then let len = min block_size (file_size - offset)
           in checksum_loop file_size block_size (acc + block_sum len) (offset + len)
      else Some acc)"

definition expected_benchmark_checksum :: "int \<Rightarrow> int \<Rightarrow> int \<Rightarrow> int option" where
  "expected_benchmark_checksum file_size block_size iterations =
     map_option (\<lambda>acc. acc * iterations) (checksum_loop file_size block_size 0 0)"

section \<open>Scalar fields of the benchmark line\<close>

definition word_char :: "char \<Rightarrow> bool" where
  "word_char c = (48 \<le> ord c \<and> ord c \<le> 57 \<or> 65 \<le> ord c \<and> ord c \<le> 90 \<or> ord c = 95 \<or> 97 \<le> ord c \<and> ord c \<le> 122)"

fun nonspace :: "string \<Rightarrow> string" where
  "nonspace [] = []"
| "nonspace (c # cs) = (if white_len (c # cs) = 0 then c # nonspace cs else [])"

text \<open>
  \<^verbatim>\<open>re.findall(r"([a-zA-Z0-9_]+)=([^\s]+)", line)\<close>: a run of word characters that is not
  followed by an equals sign and a value contains no match, so the search resumes behind it.
\<close>

function find_fields :: "string \<Rightarrow> (string \<times> string) list" where
  "find_fields [] = []"
| "find_fields (c # cs) =
     (if word_char c
      then let name = takeWhile word_char (c # cs); rest = dropWhile word_char cs
           in case rest of
                d # after \<Rightarrow>
                  if d = CHR ''='' \<and> nonspace after \<noteq> []
                  then (name, nonspace after) # find_fields (drop (length (nonspace after)) after)
                  else find_fields rest
              | [] \<Rightarrow> []
      else find_fields cs)"
  by pat_completeness auto
termination
proof (relation "measure length")
  fix c :: char and cs name rest d after
  assume "rest = dropWhile word_char cs" "rest = d # after"
  then have "Suc (length after) \<le> length cs" by (metis length_Cons length_dropWhile_le)
  then show "(drop (length (nonspace after)) after, c # cs) \<in> measure length" "(rest, c # cs) \<in> measure length"
    using \<open>rest = d # after\<close> by auto
qed auto

definition parse_scalar_fields :: "string \<Rightarrow> (string \<times> string) list res" where
  "parse_scalar_fields line =
     rfold (\<lambda>fields (name, value).
        if name \<in> set (map fst fields) then Inl (ValueError (''duplicate scalar field: '' @ name))
        else Inr (aset name value fields)) [] (find_fields line)"

text \<open>
  \<^verbatim>\<open>int(text, 10)\<close>: an optional sign and ASCII digits, with single underscores between
  digits allowed. (Python also accepts the decimal digits of other scripts.)
\<close>

fun digit_groups :: "bool \<Rightarrow> string \<Rightarrow> bool" where
  "digit_groups after_digit [] = after_digit"
| "digit_groups after_digit (c # cs) =
     (if is_digit c then digit_groups True cs else c = CHR ''_'' \<and> after_digit \<and> digit_groups False cs)"

definition py_int :: "string \<Rightarrow> int option" where
  "py_int text =
     (let negative = (case text of c # _ \<Rightarrow> c = CHR ''-'' | [] \<Rightarrow> False);
          digits = (case text of c # cs \<Rightarrow> if c = CHR ''-'' \<or> c = CHR ''+'' then cs else text | [] \<Rightarrow> []);
          value = int (nat_of_digits (filter is_digit digits))
      in if digit_groups False digits then Some (if negative then - value else value) else None)"

section \<open>Benchmark output and lifecycle inspections\<close>

definition integer_names :: "string list" where
  "integer_names = [''file_size'', ''block_size'', ''iterations'', ''written_bytes'', ''read_bytes'', ''checksum'']"

definition benchmark_fields :: "(string \<times> string) list \<Rightarrow> (string \<times> int) list res" where
  "benchmark_fields raw =
     rmap (\<lambda>name. case map_of raw name of
              None \<Rightarrow> Inl (ValueError ''badfs benchmark integer fields are invalid'')
            | Some text \<Rightarrow>
                (case py_int text of
                   None \<Rightarrow> Inl (ValueError ''badfs benchmark integer fields are invalid'')
                 | Some i \<Rightarrow> Inr (name, i))) integer_names"

definition bench_lines :: "string \<Rightarrow> string list" where
  "bench_lines output = filter (\<lambda>line. starts_with line ''badfs_bench '') (splitlines output)"

definition check_benchmark :: "int \<Rightarrow> string \<Rightarrow> (string \<times> int) list res" where
  "check_benchmark benchmark_bytes output =
     (if length (bench_lines output) \<noteq> 1
      then Inl (ValueError (''expected exactly one badfs benchmark line, got ''
                            @ show_nat (length (bench_lines output))))
      else rbind (parse_scalar_fields (hd (bench_lines output))) (\<lambda>raw.
           rbind (benchmark_fields raw) (\<lambda>benchmark.
           let value = (\<lambda>name. the (map_of benchmark name));
               expected_block_size = min benchmark_bytes (1024 * 1024)
           in if value ''file_size'' \<noteq> benchmark_bytes \<or> value ''block_size'' \<noteq> expected_block_size
                 \<or> value ''iterations'' \<noteq> 1 \<or> value ''written_bytes'' \<noteq> benchmark_bytes
                 \<or> value ''read_bytes'' \<noteq> benchmark_bytes
                 \<or> Some (value ''checksum'') \<noteq> expected_benchmark_checksum benchmark_bytes expected_block_size 1
              then Inl (ValueError ''badfs benchmark bytes or checksum mismatch'')
              else Inr benchmark)))"

definition zero_fabric :: "string list" where
  "zero_fabric =
     [''staged_read_ops'', ''staged_read_bytes'', ''staged_write_ops'', ''staged_write_bytes'',
      ''blob_read_ops'', ''blob_read_bytes'', ''blob_write_ops'', ''blob_write_bytes'',
      ''legacy_read_file_block_ops'', ''legacy_write_file_block_ops'',
      ''legacy_read_fabric_block_ops'', ''legacy_write_fabric_block_ops'',
      ''stale_ref_rejections'', ''epoch_rejections'', ''checksum_failures'', ''lease_rejections'',
      ''quarantine_events'', ''active_leases'', ''quarantined_slots'']"

definition zero_audit :: "string list" where
  "zero_audit = [''pending_operations'', ''quarantined_extents'', ''active_read_leases'']"

definition direct_names :: "string list" where
  "direct_names = [''trusted_direct_read_ops'', ''trusted_direct_read_bytes'', ''trusted_direct_write_ops'',
                   ''trusted_direct_write_bytes'']"

definition require_value :: "pydict \<Rightarrow> string \<Rightarrow> int \<Rightarrow> string \<Rightarrow> unit res" where
  "require_value record name v message =
     rbind (required_integer record name) (\<lambda>i. rcheck (i \<noteq> v) (ValueError message))"

definition extents_published :: "pyval \<Rightarrow> int \<Rightarrow> bool" where
  "extents_published states published_ranges =
     (case states of
        PDict d \<Rightarrow> int (length d) = published_ranges \<and> list_all (\<lambda>(k, state). py_eq state (PStr ''published'')) d
      | _ \<Rightarrow> False)"

definition check_audit :: "int \<Rightarrow> pydict \<Rightarrow> unit res" where
  "check_audit benchmark_bytes audit =
     rbind (rforall (\<lambda>name. require_value audit name 0 (''badfs lifecycle audit is not clean: '' @ name)) zero_audit) (\<lambda>_.
     rbind (require_value audit ''direct_mapped_extents'' 0
              ''badfs lifecycle audit retained a userspace direct mapping'') (\<lambda>_.
     rbind (required_integer audit ''published_ranges'') (\<lambda>published_ranges.
     rbind (rcheck (published_ranges \<le> 0) (ValueError ''badfs lifecycle audit has no published range'')) (\<lambda>_.
     rbind (require_value audit ''backend_live_extents'' published_ranges
              ''badfs published ranges and live extents disagree'') (\<lambda>_.
     rbind (rcheck (\<not> extents_published (dget audit ''extent_states'') published_ranges)
              (ValueError ''badfs lifecycle extent states are not fully published'')) (\<lambda>_.
     rbind (require_value audit ''payload_checksum_bytes'' 0 ''badfs direct path performed a payload checksum scan'') (\<lambda>_.
     rbind (require_value audit ''payload_checksum_scans'' 0 ''badfs direct path performed a payload checksum scan'') (\<lambda>_.
     rbind (require_value audit ''payload_persist_bytes'' benchmark_bytes
              ''badfs persisted payload byte count is incorrect'') (\<lambda>_.
     require_value audit ''coherent_acquire_bytes'' benchmark_bytes
       ''badfs coherent ownership byte count is incorrect'')))))))))"

definition check_inspection :: "int \<Rightarrow> (string \<times> int) list \<Rightarrow> pydict \<Rightarrow> (string \<times> int) list res" where
  "check_inspection benchmark_bytes direct_totals inspection =
     (case (dget inspection ''fabric'', dget inspection ''audit'') of
        (PDict fabric, PDict audit) \<Rightarrow>
          rbind (rforall (\<lambda>name. require_value fabric name 0 (''badfs fallback counter is nonzero: '' @ name)) zero_fabric) (\<lambda>_.
          rbind (check_audit benchmark_bytes audit) (\<lambda>_.
          rmap (\<lambda>(name, sofar). rbind (required_integer fabric name) (\<lambda>i. Inr (name, sofar + i))) direct_totals))
      | _ \<Rightarrow> Inl (ValueError ''badfs lifecycle inspection lacks fabric/audit objects''))"

record legofs_evidence =
  le_benchmark :: "(string \<times> int) list"
  le_direct_totals :: "(string \<times> int) list"
  le_inspections :: "pydict list"

definition validate_legofs_output :: "string \<Rightarrow> int \<Rightarrow> legofs_evidence res" where
  "validate_legofs_output output benchmark_bytes =
     rbind (check_benchmark benchmark_bytes output) (\<lambda>benchmark.
     rbind (parse_prefixed_records output ''badfs_lifecycle_inspection'' ''badfs.lifecycle.inspection.v1'') (\<lambda>inspections.
     if inspections = [] then Inl (ValueError ''missing badfs lifecycle inspection'')
     else rbind (rfold (check_inspection benchmark_bytes) (map (\<lambda>name. (name, 0)) direct_names) inspections) (\<lambda>totals.
          let value = (\<lambda>name. the (map_of totals name))
          in if value ''trusted_direct_read_ops'' \<le> 0 \<or> value ''trusted_direct_write_ops'' \<le> 0
                \<or> value ''trusted_direct_read_bytes'' \<noteq> benchmark_bytes
                \<or> value ''trusted_direct_write_bytes'' \<noteq> benchmark_bytes
             then Inl (ValueError ''badfs strict direct read/write counters are incorrect'')
             else Inr \<lparr>le_benchmark = benchmark, le_direct_totals = totals, le_inspections = inspections\<rparr>)))"

section \<open>Order of host captures\<close>

text \<open>\<^verbatim>\<open>line.split(" ", 1)[1]\<close> of a line that has a space.\<close>

definition after_space :: "string \<Rightarrow> string" where
  "after_space line = tl (dropWhile (\<lambda>c. c \<noteq> CHR '' '') line)"

definition event_text :: "pydict \<Rightarrow> string" where
  "event_text event = (case dget event ''line'' of PStr s \<Rightarrow> s | _ \<Rightarrow> [])"

definition capture_time :: "string \<Rightarrow> int \<Rightarrow> string list \<Rightarrow> int list \<Rightarrow> pydict \<Rightarrow> int list res" where
  "capture_time marker op wanted found event =
     (let line = event_text event
      in if \<not> starts_with line marker then Inr found
         else rbind (strict_json_loads (after_space line)) (\<lambda>record.
              if py_eq (dget record ''op_id'') (PInt op) \<and> in_tuple (dget record ''event'') wanted
              then Inr (found @ [stamp_of ''host_capture_ns'' event]) else Inr found))"

record host_order =
  ho_op_id :: int
  ho_direct_unmap_capture_ns :: int
  ho_snoop_send_ns :: int
  ho_snoop_ack_ns :: int
  ho_dirty_completion_ns :: int
  ho_store_success_capture_ns :: int

fun order_captures :: "pydict list \<Rightarrow> pydict list \<Rightarrow> correlation list \<Rightarrow> host_order res" where
  "order_captures node0 node1 [] =
     Inl (ValueError (''host capture does not order direct unmap < snoop < ACK < ''
                      @ ''dirty completion < store_direct_success''))"
| "order_captures node0 node1 (c # cs) =
     rbind (rfold (capture_time ''BADFS_DIRECT_MAP_TRACE_JSON '' (op_id c) [''drop'', ''unmap'']) [] node1) (\<lambda>direct_times.
     rbind (rfold (capture_time ''BADFS_LIFECYCLE_TRACE_JSON '' (op_id c) [''store_direct_success'']) [] node0) (\<lambda>success_times.
     rbind (required_integer (snoop c) ''monotonic_ns'') (\<lambda>snoop_ns.
     rbind (required_integer (ack c) ''monotonic_ns'') (\<lambda>ack_ns.
     rbind (required_integer (completion c) ''monotonic_ns'') (\<lambda>completion_ns.
     case [(d, s). d \<leftarrow> direct_times, s \<leftarrow> success_times,
            d < snoop_ns \<and> snoop_ns \<le> ack_ns \<and> ack_ns \<le> completion_ns \<and> completion_ns < s] of
       (d, s) # _ \<Rightarrow> Inr \<lparr>ho_op_id = op_id c, ho_direct_unmap_capture_ns = d, ho_snoop_send_ns = snoop_ns,
                          ho_snoop_ack_ns = ack_ns, ho_dirty_completion_ns = completion_ns,
                          ho_store_success_capture_ns = s\<rparr>
     | [] \<Rightarrow> order_captures node0 node1 cs)))))"

definition validate_host_capture_order :: "string \<Rightarrow> string \<Rightarrow> correlation list \<Rightarrow> host_order res" where
  "validate_host_capture_order events0 events1 correlations =
     rbind (read_event_sidecar events0) (\<lambda>node0.
     rbind (read_event_sidecar events1) (\<lambda>node1. order_captures node0 node1 correlations))"

section \<open>Final counters and the combined check\<close>

definition t3_stats_line :: "string \<Rightarrow> pydict list res" where
  "t3_stats_line line =
     (let marker = ''COHERENCE_V2_STATS_JSON ''
      in if starts_with (strip line) marker
         then rbind (strict_json_loads (drop (length marker) (strip line))) (\<lambda>record. Inr [record])
         else Inr [])"

definition t3_zero_counters :: "string list" where
  "t3_zero_counters = [''timeouts'', ''protocol_errors'', ''delivery_failures'', ''server_copy_failures'',
                       ''active_bindings'']"

definition t3_parse_server_stats :: "string \<Rightarrow> pydict res" where
  "t3_parse_server_stats output =
     rbind (extract_lines t3_stats_line (splitlines output)) (\<lambda>records.
     if length records \<noteq> 1
     then Inl (ValueError (''expected one final coherence stats object, got '' @ show_nat (length records)))
     else rbind (rforall (\<lambda>name. require_value (hd records) name 0
                   (''coherence final error counter is nonzero: '' @ name)) t3_zero_counters) (\<lambda>_. Inr (hd records)))"

definition error_events :: "string list" where
  "error_events = [''timeout'', ''protocol_error'', ''delivery_failure'', ''server_copy_failure'']"

definition count_records :: "(pydict \<Rightarrow> bool) \<Rightarrow> pydict list \<Rightarrow> int" where
  "count_records p records = int (length (filter p records))"

record runtime_evidence =
  re_registrations :: "pydict list"
  re_snp_data_inv :: int
  re_model_acks :: int
  re_dirty_data_completions :: int
  re_legofs :: legofs_evidence
  re_correlations :: "correlation list"
  re_host_capture_order :: host_order
  re_coherence_final_stats :: pydict

definition validate_runtime_evidence ::
  "string \<Rightarrow> string \<Rightarrow> string \<Rightarrow> string \<Rightarrow> string \<Rightarrow> string \<Rightarrow> nat \<Rightarrow> int \<Rightarrow> runtime_evidence res" where
  "validate_runtime_evidence trace events0 events1 server_log node0_output node1_output offset benchmark_bytes =
     rbind (read_coherence_trace trace 0) (\<lambda>all_coherence.
     rbind (t3_validate_registrations all_coherence) (\<lambda>registrations.
     rbind (read_coherence_trace trace offset) (\<lambda>benchmark_coherence.
     rbind (rforall (\<lambda>event. rcheck (in_tuple (dget event ''event'') error_events)
              (ValueError (''benchmark coherence error event: '' @
                 (case dget event ''event'' of PStr s \<Rightarrow> s | _ \<Rightarrow> [])))) benchmark_coherence) (\<lambda>_.
     rbind (parse_prefixed_records node1_output ''BADFS_DIRECT_MAP_TRACE_JSON'' ''badfs.direct-map-trace.v1'') (\<lambda>direct.
     rbind (parse_prefixed_records node0_output ''BADFS_LIFECYCLE_TRACE_JSON'' ''badfs.lifecycle.v1'') (\<lambda>lifecycle.
     rbind (correlate_dirty_backinvalidations direct lifecycle benchmark_coherence) (\<lambda>correlations.
     rbind (validate_host_capture_order events0 events1 correlations) (\<lambda>host_order.
     rbind (validate_legofs_output node1_output benchmark_bytes) (\<lambda>legofs.
     rbind (t3_parse_server_stats server_log) (\<lambda>server_stats.
     Inr \<lparr>re_registrations = registrations,
          re_snp_data_inv = count_records (\<lambda>e. event_is e ''snoop_send''
             \<and> py_eq (dget e ''opcode'') (PStr ''SNP_DATA_INV'')) benchmark_coherence,
          re_model_acks = count_records (\<lambda>e. event_is e ''snoop_ack''
             \<and> py_eq (dget e ''ack_strength'') (PStr ''MODEL'')) benchmark_coherence,
          re_dirty_data_completions = count_records (\<lambda>e. event_is e ''dirty_completion'') benchmark_coherence,
          re_legofs = legofs, re_correlations = correlations, re_host_capture_order = host_order,
          re_coherence_final_stats = server_stats\<rparr>))))))))))"

section \<open>Interval overlap\<close>

lemma overlap_iff:
  "overlap_ns (a, b) (c, d) = Inr n \<longleftrightarrow> n = int (card ({a..<b} \<inter> {c..<d})) \<and> 0 < n"
proof -
  have "{a..<b} \<inter> {c..<d} = {max a c..<min b d}" by auto
  then have "int (card ({a..<b} \<inter> {c..<d})) = max 0 (min b d - max a c)"
    by (auto simp: max_def min_def)
  moreover define k where "k = min b d - max a c"
  ultimately have "int (card ({a..<b} \<inter> {c..<d})) = max 0 k" by simp
  then show ?thesis unfolding overlap_ns_def Let_def prod.sel k_def [symmetric] by auto
qed

section \<open>Checksum: the loop ends and has a closed form\<close>

text \<open>The reference: every byte position contributes its offset in its block modulo 251.\<close>

definition position_sum :: "int \<Rightarrow> int \<Rightarrow> int \<Rightarrow> int" where
  "position_sum block_size a b = (\<Sum>k\<in>{a..<b}. (k mod block_size) mod 251)"

lemma block_sum_alt: "block_sum len = (\<Sum>k\<in>{0..<len}. k mod 251)"
proof -
  have "sum_list (map f [i..j]) = (\<Sum>k\<in>{i..j}. f k)" for f :: "int \<Rightarrow> int" and i j
    by (simp add: sum_list_distinct_conv_sum_set)
  moreover have "{0..len - 1} = {0..<len}" by auto
  ultimately show ?thesis by (simp add: block_sum_def)
qed

lemma position_sum_block:
  assumes "0 < block_size" "len \<le> block_size" "block_size dvd offset"
  shows "position_sum block_size offset (offset + len) = block_sum len"
proof -
  have "position_sum block_size offset (offset + len) = (\<Sum>k\<in>{0..<len}. ((k + offset) mod block_size) mod 251)"
    unfolding position_sum_def
    by (rule sum.reindex_bij_witness [of _ "\<lambda>k. k + offset" "\<lambda>k. k - offset"]) auto
  also have "\<dots> = (\<Sum>k\<in>{0..<len}. k mod 251)"
  proof (rule sum.cong [OF refl])
    fix k assume "k \<in> {0..<len}"
    moreover have "(k + offset) mod block_size = k mod block_size"
      using assms(3) by (metis add.right_neutral dvd_imp_mod_0 mod_add_right_eq)
    ultimately show "(k + offset) mod block_size mod 251 = k mod 251" using assms(2) by simp
  qed
  finally show ?thesis by (simp add: block_sum_alt)
qed

lemma position_sum_split:
  "a \<le> b \<Longrightarrow> b \<le> c \<Longrightarrow> position_sum n a c = position_sum n a b + position_sum n b c"
  unfolding position_sum_def by (subst sum.union_disjoint [symmetric]) (auto simp: ivl_disj_un)

lemma checksum_loop_total:
  assumes "0 < block_size" "block_size dvd offset \<or> file_size \<le> offset"
  shows "checksum_loop file_size block_size acc offset = Some (acc + position_sum block_size offset file_size)"
  using assms
proof (induction "nat (file_size - offset)" arbitrary: acc offset rule: less_induct)
  case less
  show ?case
  proof (cases "offset < file_size")
    case False
    then show ?thesis by (subst checksum_loop.simps) (simp add: position_sum_def)
  next
    case True
    let ?len = "min block_size (file_size - offset)"
    have len: "0 < ?len" "?len \<le> block_size" "offset + ?len \<le> file_size" using True less.prems by auto
    have d: "block_size dvd offset" using less.prems True by auto
    have "block_size dvd offset + ?len \<or> file_size \<le> offset + ?len" using d by (auto simp: min_def)
    then have "checksum_loop file_size block_size (acc + block_sum ?len) (offset + ?len) =
        Some (acc + block_sum ?len + position_sum block_size (offset + ?len) file_size)"
      using less.hyps [of "offset + ?len" "acc + block_sum ?len"] less.prems(1) len by simp
    moreover have "position_sum block_size offset file_size =
        block_sum ?len + position_sum block_size (offset + ?len) file_size"
      using position_sum_split [of offset "offset + ?len" file_size block_size] len
        position_sum_block [OF less.prems(1) len(2) d] by simp
    ultimately show ?thesis using True by (subst checksum_loop.simps) (simp add: Let_def)
  qed
qed

lemma checksum_loop_diverges:
  assumes "block_size \<le> 0" "offset < file_size"
  shows "checksum_loop file_size block_size acc offset = None"
proof -
  have "\<not> (block_size \<le> 0 \<and> offset < file_size)" if "checksum_loop file_size block_size acc offset = Some y" for y
  proof (rule checksum_loop.raw_induct [where P = "\<lambda>f b a pos r. \<not> (b \<le> 0 \<and> pos < f)", OF _ that])
    fix loop :: "int \<Rightarrow> int \<Rightarrow> int \<Rightarrow> int \<Rightarrow> int option" and f b a pos r
    assume ih: "\<And>f b a pos r. loop f b a pos = Some r \<Longrightarrow> \<not> (b \<le> 0 \<and> pos < f)"
      and step: "(if pos < f then let len = min b (f - pos) in loop f b (a + block_sum len) (pos + len) else Some a) = Some r"
    show "\<not> (b \<le> 0 \<and> pos < f)"
    proof
      assume neg: "b \<le> 0 \<and> pos < f"
      with step have "loop f b (a + block_sum (min b (f - pos))) (pos + min b (f - pos)) = Some r" by (simp add: Let_def)
      from ih [OF this] neg show False by auto
    qed
  qed
  with assms show ?thesis by (cases "checksum_loop file_size block_size acc offset") auto
qed

text \<open>
  (C33) The expected benchmark checksum is total for a positive block size: it is the sum
  over all byte positions of the offset inside the block modulo 251, times the number of
  iterations. With a block size that is not positive the loop ends only for an empty file.
\<close>

theorem expected_checksum_closed_form:
  "expected_benchmark_checksum file_size block_size iterations =
     (if 0 < block_size \<or> file_size \<le> 0
      then Some (position_sum block_size 0 file_size * iterations) else None)"
proof (cases "file_size \<le> 0")
  case True
  then have "checksum_loop file_size block_size 0 0 = Some 0" by (subst checksum_loop.simps) simp
  with True show ?thesis by (simp add: expected_benchmark_checksum_def position_sum_def)
next
  case False
  then show ?thesis
    using checksum_loop_total [of block_size 0 file_size 0] checksum_loop_diverges [of block_size 0 file_size 0]
    by (cases "0 < block_size") (simp_all add: expected_benchmark_checksum_def)
qed

section \<open>Correlations: what they mean\<close>

definition dirty_snoop :: "pydict \<Rightarrow> pydict \<Rightarrow> pydict \<Rightarrow> int \<Rightarrow> bool" where
  "dirty_snoop sn ak co line \<longleftrightarrow>
     dget sn ''event'' = PStr ''snoop_send'' \<and> dget sn ''opcode'' = PStr ''SNP_DATA_INV'' \<and> dget sn ''dst_host'' = PInt 1
     \<and> dget ak ''event'' = PStr ''snoop_ack'' \<and> dget co ''event'' = PStr ''dirty_completion''
     \<and> agree [ak, co] ''opcode'' (PStr ''SNOOP_ACK'') \<and> agree [ak, co] ''ack_strength'' (PStr ''MODEL'')
     \<and> agree [ak, co] ''status'' (PStr ''OK'') \<and> agree [ak, co] ''dirty_data'' (PBool True)
     \<and> agree [ak, co] ''payload_len'' (PInt 64) \<and> agree [ak, co] ''src_host'' (PInt 1)
     \<and> agree [ak, co] ''dst_host'' (PInt 0xFFFF) \<and> agree [sn, ak, co] ''line_address'' (PInt line)
     \<and> (\<exists>i. agree [sn, ak, co] ''snoop_id'' (PInt i)) \<and> (\<exists>i. agree [sn, ak, co] ''session_id'' (PInt i))
     \<and> (\<exists>i. agree [sn, ak, co] ''epoch'' (PInt i))
     \<and> (\<exists>t. map (\<lambda>r. dget r ''monotonic_ns'') [sn, ak, co] = map PInt t \<and> sorted t)"

definition mapped_operation :: "correlation \<Rightarrow> bool" where
  "mapped_operation m \<longleftrightarrow>
     direct_write (direct_unmap m) \<and> dget (lifecycle_begin m) ''event'' = PStr ''store_direct_begin''
     \<and> dget (lifecycle_success m) ''event'' = PStr ''store_direct_success''
     \<and> agree [direct_unmap m, lifecycle_begin m, lifecycle_success m] ''op_id'' (PInt (op_id m))
     \<and> agree [lifecycle_begin m, lifecycle_success m] ''mapping_offset'' (PInt (mapping_offset m))
     \<and> agree [lifecycle_begin m, lifecycle_success m] ''mapping_length'' (PInt (mapping_length m))
     \<and> dget (direct_unmap m) ''offset'' = PInt (mapping_offset m)
     \<and> dget (direct_unmap m) ''length'' = PInt (mapping_length m)"

text \<open>The dirty line lies inside the mapping of the operation.\<close>

definition correlated :: "pydict list \<Rightarrow> pydict list \<Rightarrow> pydict list \<Rightarrow> correlation \<Rightarrow> bool" where
  "correlated direct lifecycle coherence m \<longleftrightarrow>
     direct_unmap m \<in> set direct \<and> {lifecycle_begin m, lifecycle_success m} \<subseteq> set lifecycle
     \<and> {snoop m, ack m, completion m} \<subseteq> set coherence \<and> mapped_operation m
     \<and> (\<exists>line. dirty_snoop (snoop m) (ack m) (completion m) line
          \<and> mapping_offset m \<le> line \<and> line + 64 \<le> mapping_offset m + mapping_length m)"

lemma differs_False [simp]: "differs r n v = Inr False \<longleftrightarrow> dget r n = PInt v"
  by (auto simp: differs_def rbind_Inr_iff evidence_int.read_Inr_iff)

lemma differ_False [simp]: "differ a b n = Inr False \<longleftrightarrow> (\<exists>i. dget a n = PInt i \<and> dget b n = PInt i)"
  by (auto simp: differ_def rbind_Inr_iff evidence_int.read_Inr_iff)

lemma later_False [simp]:
  "later a b = Inr False \<longleftrightarrow> (\<exists>x y. dget a ''monotonic_ns'' = PInt x \<and> dget b ''monotonic_ns'' = PInt y \<and> x \<le> y)"
  by (auto simp: later_def rbind_Inr_iff evidence_int.read_Inr_iff not_less)

lemma sorted_stamps3:
  "(\<exists>t. map (\<lambda>r. dget r n) [a, b, c] = map PInt t \<and> sorted t) \<longleftrightarrow>
     (\<exists>x y z. dget a n = PInt x \<and> dget b n = PInt y \<and> dget c n = PInt z \<and> x \<le> y \<and> y \<le> z)"
proof
  assume "\<exists>t. map (\<lambda>r. dget r n) [a, b, c] = map PInt t \<and> sorted t"
  then obtain t where "map (\<lambda>r. dget r n) [a, b, c] = map PInt t" "sorted t" by blast
  then show "\<exists>x y z. dget a n = PInt x \<and> dget b n = PInt y \<and> dget c n = PInt z \<and> x \<le> y \<and> y \<le> z"
    by (auto simp: Cons_eq_map_conv)
next
  assume "\<exists>x y z. dget a n = PInt x \<and> dget b n = PInt y \<and> dget c n = PInt z \<and> x \<le> y \<and> y \<le> z"
  then obtain x y z where "dget a n = PInt x \<and> dget b n = PInt y \<and> dget c n = PInt z \<and> x \<le> y \<and> y \<le> z" by blast
  then show "\<exists>t. map (\<lambda>r. dget r n) [a, b, c] = map PInt t \<and> sorted t" by (intro exI [of _ "[x, y, z]"]) auto
qed

lemma snoop_match_iff:
  assumes "event_is sn ''snoop_send''" "py_eq (dget sn ''opcode'') (PStr ''SNP_DATA_INV'')"
    "event_is ak ''snoop_ack''" "event_is co ''dirty_completion''"
  shows "snoop_mismatch sn ak co line = Inr False \<and> dget sn ''dst_host'' = PInt 1 \<and> dget sn ''line_address'' = PInt line
     \<and> (\<exists>i. agree [sn, ak, co] ''snoop_id'' (PInt i))
     \<longleftrightarrow> dirty_snoop sn ak co line"
  using assms unfolding dirty_snoop_def snoop_mismatch_def sorted_stamps3 agree_def
  by (auto simp del: rdisj.simps)

section \<open>Tables by key\<close>

lemma set_aset: "set (aset k v d) \<subseteq> insert (k, v) (set d)"
  by (induction k v d rule: aset.induct) auto

lemma index_by_member:
  assumes "index_by key wanted records = Inr table" "(i, r) \<in> set table"
  shows "r \<in> set records \<and> wanted r \<and> dget r key = PInt i"
proof -
  let ?P = "\<lambda>t. \<forall>(i, r)\<in>set t. r \<in> set records \<and> wanted r \<and> dget r key = PInt i"
  have "?P table"
  proof (rule rfold_invariant [OF assms(1) [unfolded index_by_def], where P = ?P])
    fix t x t'
    assume "x \<in> set (filter wanted records)" "?P t"
      "rbind (required_integer x key) (\<lambda>i. Inr (aset i x t)) = Inr t'"
    then show "?P t'" using set_aset by (fastforce simp: rbind_Inr_iff evidence_int.read_Inr_iff)
  qed simp
  with assms(2) show ?thesis by blast
qed

text \<open>A record that is the only one with its key is found under it.\<close>

lemma index_loop_lookup:
  assumes "rfold (\<lambda>t x. rbind (required_integer x key) (\<lambda>i. Inr (aset i x t))) t xs = Inr table"
    "\<forall>x\<in>set xs. dget x key = PInt i \<longrightarrow> x = r" "r \<in> set xs \<and> dget r key = PInt i \<or> map_of t i = Some r"
  shows "map_of table i = Some r"
  using assms
proof (induction xs arbitrary: t)
  case (Cons x xs)
  from Cons.prems(1) obtain j where j: "dget x key = PInt j"
    "rfold (\<lambda>t x. rbind (required_integer x key) (\<lambda>i. Inr (aset i x t))) (aset j x t) xs = Inr table"
    by (auto simp: rbind_Inr_iff evidence_int.read_Inr_iff)
  then show ?case using Cons.IH [OF j(2)] Cons.prems(2,3) by (cases "j = i") auto
qed simp

lemma index_by_lookup:
  assumes "index_by key wanted records = Inr table" "r \<in> set records" "wanted r" "dget r key = PInt i"
    "\<forall>x\<in>set records. wanted x \<longrightarrow> dget x key = PInt i \<longrightarrow> x = r"
  shows "map_of table i = Some r"
proof (rule index_loop_lookup [OF assms(1) [unfolded index_by_def]])
  show "\<forall>x\<in>set (filter wanted records). dget x key = PInt i \<longrightarrow> x = r" using assms(5) unfolding set_filter by blast
  show "r \<in> set (filter wanted records) \<and> dget r key = PInt i \<or> map_of [] i = Some r" using assms(2-4) by simp
qed

section \<open>Soundness\<close>

lemma match_operation_step:
  assumes "match_operation bs ss sn ak co line ms (oid, direct) = Inr ms'"
  obtains "ms' = ms"
    | start len bg su where "map_of bs oid = Some bg" "map_of ss oid = Some su"
      "agree [bg, su] ''mapping_offset'' (PInt start)" "agree [bg, su] ''mapping_length'' (PInt len)"
      "dget direct ''offset'' = PInt start" "dget direct ''length'' = PInt len"
      "start \<le> line" "line + 64 \<le> start + len"
      "ms' = ms @ [\<lparr>op_id = oid, mapping_offset = start, mapping_length = len, direct_unmap = direct,
         lifecycle_begin = bg, snoop = sn, ack = ak, completion = co, lifecycle_success = su\<rparr>]"
proof (cases "map_of bs oid = None \<or> map_of ss oid = None")
  case True
  with assms show ?thesis by (intro that(1)) (auto simp: match_operation_def split: option.splits)
next
  case False
  then obtain bg su where l: "map_of bs oid = Some bg" "map_of ss oid = Some su" by auto
  show ?thesis
  proof (cases "ms' = ms")
    case True
    then show ?thesis by (rule that(1))
  next
    case False
    with assms l have "\<exists>start len. dget bg ''mapping_offset'' = PInt start \<and> dget bg ''mapping_length'' = PInt len
        \<and> range_mismatch su direct line start len = Inr False
        \<and> ms' = ms @ [\<lparr>op_id = oid, mapping_offset = start, mapping_length = len, direct_unmap = direct,
            lifecycle_begin = bg, snoop = sn, ack = ak, completion = co, lifecycle_success = su\<rparr>]"
      by (auto simp: match_operation_def rbind_Inr_iff evidence_int.read_Inr_iff split: if_splits)
    then obtain start len where r: "dget bg ''mapping_offset'' = PInt start" "dget bg ''mapping_length'' = PInt len"
      and m: "range_mismatch su direct line start len = Inr False"
      and e: "ms' = ms @ [\<lparr>op_id = oid, mapping_offset = start, mapping_length = len, direct_unmap = direct,
         lifecycle_begin = bg, snoop = sn, ack = ak, completion = co, lifecycle_success = su\<rparr>]" by blast
    from m have "dget su ''mapping_offset'' = PInt start" "dget su ''mapping_length'' = PInt len"
      "dget direct ''offset'' = PInt start" "dget direct ''length'' = PInt len" "start \<le> line" "line + 64 \<le> start + len"
      unfolding range_mismatch_def by (simp_all del: rdisj.simps)
    with l r e show ?thesis by (intro that(2)) (simp_all add: agree_def)
  qed
qed

text \<open>An iteration over a snoop either changes nothing or matches all operations against its line.\<close>

lemma correlate_snoop_step:
  assumes "correlate_snoop ds bs ss as cs ms sn = Inr ms'"
  obtains "ms' = ms"
    | sid ak co line where "event_is sn ''snoop_send''" "py_eq (dget sn ''opcode'') (PStr ''SNP_DATA_INV'')"
      "dget sn ''snoop_id'' = PInt sid" "dget sn ''line_address'' = PInt line" "dget sn ''dst_host'' = PInt 1"
      "map_of as sid = Some ak" "map_of cs sid = Some co" "snoop_mismatch sn ak co line = Inr False"
      "rfold (match_operation bs ss sn ak co line) ms ds = Inr ms'"
proof (cases "ms' = ms")
  case True
  then show ?thesis by (rule that(1))
next
  case False
  with assms show ?thesis
    by (auto simp: correlate_snoop_def rbind_Inr_iff evidence_int.read_Inr_iff intro: that(2)
        split: option.splits if_splits)
qed

lemma match_loop_inv:
  assumes "rfold (match_operation bs ss sn ak co line) ms es = Inr ms'" "\<forall>m\<in>set ms. P m"
    and "\<And>oid direct start len bg su. (oid, direct) \<in> set es \<Longrightarrow> map_of bs oid = Some bg \<Longrightarrow> map_of ss oid = Some su \<Longrightarrow>
      agree [bg, su] ''mapping_offset'' (PInt start) \<Longrightarrow> agree [bg, su] ''mapping_length'' (PInt len) \<Longrightarrow>
      dget direct ''offset'' = PInt start \<Longrightarrow> dget direct ''length'' = PInt len \<Longrightarrow> start \<le> line \<Longrightarrow> line + 64 \<le> start + len \<Longrightarrow>
      P \<lparr>op_id = oid, mapping_offset = start, mapping_length = len, direct_unmap = direct,
         lifecycle_begin = bg, snoop = sn, ack = ak, completion = co, lifecycle_success = su\<rparr>"
  shows "\<forall>m\<in>set ms'. P m"
proof (rule rfold_invariant [OF assms(1), where P = "\<lambda>ms. \<forall>m\<in>set ms. P m"])
  fix u x u'
  assume x: "x \<in> set es" "\<forall>m\<in>set u. P m" and step: "match_operation bs ss sn ak co line u x = Inr u'"
  obtain oid direct where [simp]: "x = (oid, direct)" by (cases x)
  show "\<forall>m\<in>set u'. P m"
    using step [simplified] by (cases rule: match_operation_step) (use x assms(3) in auto)
qed (use assms(2) in simp)

lemma correlate_Inr:
  assumes "correlate_dirty_backinvalidations direct lifecycle coherence = Inr ms"
  obtains ds bs ss as cs where "index_by ''op_id'' direct_write direct = Inr ds"
    "index_by ''op_id'' (\<lambda>r. event_is r ''store_direct_begin'') lifecycle = Inr bs"
    "index_by ''op_id'' (\<lambda>r. event_is r ''store_direct_success'') lifecycle = Inr ss"
    "index_by ''snoop_id'' (\<lambda>r. event_is r ''snoop_ack'') coherence = Inr as"
    "index_by ''snoop_id'' (\<lambda>r. event_is r ''dirty_completion'') coherence = Inr cs"
    "rfold (correlate_snoop ds bs ss as cs) [] coherence = Inr ms" "ms \<noteq> []"
  using assms by (auto simp: correlate_dirty_backinvalidations_def rbind_Inr_iff intro: that split: if_splits)

lemma correlate_sound:
  assumes "correlate_dirty_backinvalidations direct lifecycle coherence = Inr ms"
  shows "ms \<noteq> [] \<and> (\<forall>m\<in>set ms. correlated direct lifecycle coherence m)"
  using assms
proof (rule correlate_Inr)
  fix ds bs ss as cs
  assume t: "index_by ''op_id'' direct_write direct = Inr ds"
    "index_by ''op_id'' (\<lambda>r. event_is r ''store_direct_begin'') lifecycle = Inr bs"
    "index_by ''op_id'' (\<lambda>r. event_is r ''store_direct_success'') lifecycle = Inr ss"
    "index_by ''snoop_id'' (\<lambda>r. event_is r ''snoop_ack'') coherence = Inr as"
    "index_by ''snoop_id'' (\<lambda>r. event_is r ''dirty_completion'') coherence = Inr cs"
    and loop: "rfold (correlate_snoop ds bs ss as cs) [] coherence = Inr ms" "ms \<noteq> []"
  let ?C = "correlated direct lifecycle coherence"
  have "\<forall>m\<in>set ms. ?C m"
  proof (rule rfold_invariant [OF loop(1), where P = "\<lambda>ms. \<forall>m\<in>set ms. ?C m"])
    fix u sn u'
    assume sn: "sn \<in> set coherence" "\<forall>m\<in>set u. ?C m" and step: "correlate_snoop ds bs ss as cs u sn = Inr u'"
    from step show "\<forall>m\<in>set u'. ?C m"
    proof (cases rule: correlate_snoop_step)
      case 1
      with sn show ?thesis by simp
    next
      case (2 sid ak co line)
      note a = index_by_member [OF t(4) map_of_SomeD [OF 2(6)]] and c = index_by_member [OF t(5) map_of_SomeD [OF 2(7)]]
      have "\<exists>i. agree [sn, ak, co] ''snoop_id'' (PInt i)" using 2(3) a c by (auto simp: agree_def)
      then have "dirty_snoop sn ak co line" using snoop_match_iff [of sn ak co line] 2 a c by blast
      with sn(1) a c show ?thesis
        by (intro match_loop_inv [OF 2(9) sn(2)])
           (force simp: correlated_def mapped_operation_def agree_def
             dest: index_by_member [OF t(1)] index_by_member [OF t(2) map_of_SomeD] index_by_member [OF t(3) map_of_SomeD])
    qed
  qed simp
  with loop(2) show ?thesis by blast
qed

end
