(* ===== verification/Type3_Runtime.thy ===== *)
theory Type3_Runtime
  imports Type3_Evidence
begin

text \<open>
  Correctness of the two-node evidence checks: the correlations that are reported are
  exactly the dirty snoops inside a direct mapping, the host capture order is real, the
  benchmark evidence adds up, and \<^verbatim>\<open>validate_runtime_evidence\<close> accepts a run only when all
  of this holds together.
\<close>

section \<open>Completeness of the correlation\<close>

text \<open>Loops that only append keep what an iteration adds.\<close>

definition extends :: "('a list \<Rightarrow> 'b \<Rightarrow> 'a list res) \<Rightarrow> bool" where
  "extends f \<longleftrightarrow> (\<forall>s x s'. f s x = Inr s' \<longrightarrow> (\<exists>ys. s' = s @ ys))"

lemma rfold_extends: "extends f \<Longrightarrow> rfold f s xs = Inr t \<Longrightarrow> \<exists>ys. t = s @ ys"
proof (induction xs arbitrary: s)
  case (Cons x xs)
  then obtain u where u: "f s x = Inr u" "rfold f u xs = Inr t" by (auto simp: rbind_Inr_iff)
  with Cons.IH [OF Cons.prems(1) u(2)] Cons.prems(1) show ?case unfolding extends_def by fastforce
qed simp

lemma rfold_collects:
  assumes "extends f" "rfold f s xs = Inr t" "x \<in> set xs" "\<And>u u'. f u x = Inr u' \<Longrightarrow> m \<in> set u'"
  shows "m \<in> set t"
proof -
  from assms(3) obtain as bs where xs: "xs = as @ x # bs" by (auto simp: in_set_conv_decomp)
  from assms(2) obtain u u' where "f u x = Inr u'" "rfold f u' bs = Inr t"
    by (auto simp: xs rfold_append rbind_Inr_iff)
  with rfold_extends [OF assms(1)] assms(4) show ?thesis by fastforce
qed

lemma match_extends: "extends (match_operation bs ss sn ak co line)"
  unfolding extends_def
proof (intro allI impI)
  fix s x s'
  assume step: "match_operation bs ss sn ak co line s x = Inr s'"
  obtain i d where [simp]: "x = (i, d)" by (cases x)
  from step [simplified] show "\<exists>ys. s' = s @ ys" by (cases rule: match_operation_step) auto
qed

lemma correlate_extends: "extends (correlate_snoop ds bs ss as cs)"
  unfolding extends_def
proof (intro allI impI)
  fix s x s'
  assume "correlate_snoop ds bs ss as cs s x = Inr s'"
  then show "\<exists>ys. s' = s @ ys"
    by (cases rule: correlate_snoop_step) (auto dest: rfold_extends [OF match_extends])
qed

text \<open>No other record of the kind has the same key.\<close>

definition only_key :: "pydict list \<Rightarrow> (pydict \<Rightarrow> bool) \<Rightarrow> string \<Rightarrow> pydict \<Rightarrow> bool" where
  "only_key records wanted key r \<longleftrightarrow> (\<forall>x\<in>set records. wanted x \<longrightarrow> dget x key = dget r key \<longrightarrow> x = r)"

definition unambiguous :: "pydict list \<Rightarrow> pydict list \<Rightarrow> pydict list \<Rightarrow> correlation \<Rightarrow> bool" where
  "unambiguous direct lifecycle coherence m \<longleftrightarrow>
     only_key direct direct_write ''op_id'' (direct_unmap m)
     \<and> only_key lifecycle (\<lambda>r. event_is r ''store_direct_begin'') ''op_id'' (lifecycle_begin m)
     \<and> only_key lifecycle (\<lambda>r. event_is r ''store_direct_success'') ''op_id'' (lifecycle_success m)
     \<and> only_key coherence (\<lambda>r. event_is r ''snoop_ack'') ''snoop_id'' (ack m)
     \<and> only_key coherence (\<lambda>r. event_is r ''dirty_completion'') ''snoop_id'' (completion m)"

lemma index_by_only:
  assumes "index_by key wanted records = Inr table" "r \<in> set records" "wanted r" "dget r key = PInt i"
    "only_key records wanted key r"
  shows "map_of table i = Some r"
proof (rule index_by_lookup [OF assms(1-4)])
  show "\<forall>x\<in>set records. wanted x \<longrightarrow> dget x key = PInt i \<longrightarrow> x = r"
    using assms(5) unfolding only_key_def assms(4) .
qed

lemma match_operation_adds:
  assumes "match_operation bs ss sn ak co line u (op_id m, direct_unmap m) = Inr u'"
    "map_of bs (op_id m) = Some (lifecycle_begin m)" "map_of ss (op_id m) = Some (lifecycle_success m)"
    "mapped_operation m" "mapping_offset m \<le> line" "line + 64 \<le> mapping_offset m + mapping_length m"
    "snoop m = sn" "ack m = ak" "completion m = co"
  shows "m \<in> set u'"
proof -
  have ne: "lifecycle_begin m \<noteq> []" "lifecycle_success m \<noteq> []"
    using assms(4) by (auto simp: mapped_operation_def)
  have r: "required_integer (lifecycle_begin m) ''mapping_offset'' = Inr (mapping_offset m)"
    "required_integer (lifecycle_begin m) ''mapping_length'' = Inr (mapping_length m)"
    unfolding evidence_int.read_Inr_iff using assms(4) by (auto simp: mapped_operation_def agree_def)
  have "range_mismatch (lifecycle_success m) (direct_unmap m) line (mapping_offset m) (mapping_length m) = Inr False"
    unfolding range_mismatch_def using assms(4-6) by (auto simp: mapped_operation_def agree_def simp del: rdisj.simps)
  with assms(1-3) ne r have "u' = u @ [\<lparr>op_id = op_id m, mapping_offset = mapping_offset m, mapping_length = mapping_length m,
      direct_unmap = direct_unmap m, lifecycle_begin = lifecycle_begin m, snoop = sn, ack = ak, completion = co,
      lifecycle_success = lifecycle_success m\<rparr>]" by (simp add: match_operation_def)
  with assms(7-9) show ?thesis by simp
qed

lemma correlate_complete:
  assumes "correlate_dirty_backinvalidations direct lifecycle coherence = Inr ms"
    and "correlated direct lifecycle coherence m" and "unambiguous direct lifecycle coherence m"
  shows "m \<in> set ms"
  using assms(1)
proof (rule correlate_Inr)
  fix ds bs ss as cs
  assume t: "index_by ''op_id'' direct_write direct = Inr ds"
    "index_by ''op_id'' (\<lambda>r. event_is r ''store_direct_begin'') lifecycle = Inr bs"
    "index_by ''op_id'' (\<lambda>r. event_is r ''store_direct_success'') lifecycle = Inr ss"
    "index_by ''snoop_id'' (\<lambda>r. event_is r ''snoop_ack'') coherence = Inr as"
    "index_by ''snoop_id'' (\<lambda>r. event_is r ''dirty_completion'') coherence = Inr cs"
    and loop: "rfold (correlate_snoop ds bs ss as cs) [] coherence = Inr ms"
  from assms(2) obtain line where mem: "direct_unmap m \<in> set direct" "lifecycle_begin m \<in> set lifecycle"
      "lifecycle_success m \<in> set lifecycle" "snoop m \<in> set coherence" "ack m \<in> set coherence" "completion m \<in> set coherence"
    and op: "mapped_operation m" and d: "dirty_snoop (snoop m) (ack m) (completion m) line"
    and range: "mapping_offset m \<le> line" "line + 64 \<le> mapping_offset m + mapping_length m"
    by (auto simp: correlated_def)
  from d obtain sid where sid: "agree [snoop m, ack m, completion m] ''snoop_id'' (PInt sid)" by (auto simp: dirty_snoop_def)
  note o = op [unfolded mapped_operation_def agree_def] and u = assms(3) [unfolded unambiguous_def]
  have look: "map_of ds (op_id m) = Some (direct_unmap m)" "map_of bs (op_id m) = Some (lifecycle_begin m)"
    "map_of ss (op_id m) = Some (lifecycle_success m)"
    using o u mem by (auto intro: index_by_only [OF t(1)] index_by_only [OF t(2)] index_by_only [OF t(3)])
  have snoops: "map_of as sid = Some (ack m)" "map_of cs sid = Some (completion m)"
    using d sid u mem by (auto simp: dirty_snoop_def agree_def intro: index_by_only [OF t(4)] index_by_only [OF t(5)])
  have events: "event_is (snoop m) ''snoop_send''" "py_eq (dget (snoop m) ''opcode'') (PStr ''SNP_DATA_INV'')"
    "event_is (ack m) ''snoop_ack''" "event_is (completion m) ''dirty_completion''"
    using d by (simp_all add: dirty_snoop_def)
  have sn: "snoop_mismatch (snoop m) (ack m) (completion m) line = Inr False" "dget (snoop m) ''dst_host'' = PInt 1"
    "dget (snoop m) ''line_address'' = PInt line" "dget (snoop m) ''snoop_id'' = PInt sid"
    using snoop_match_iff [OF events] d sid by (auto simp: agree_def)
  have ne: "ack m \<noteq> []" "completion m \<noteq> []" using events by auto
  show ?thesis
  proof (rule rfold_collects [OF correlate_extends loop mem(4)])
    fix v v'
    assume "correlate_snoop ds bs ss as cs v (snoop m) = Inr v'"
    then have "rfold (match_operation bs ss (snoop m) (ack m) (completion m) line) v ds = Inr v'"
      using events(1,2) sn snoops ne
      by (simp add: correlate_snoop_def required_integer_def differs_def)
    then show "m \<in> set v'"
    proof (rule rfold_collects [OF match_extends _ map_of_SomeD [OF look(1)]])
      show "m \<in> set w'" if "match_operation bs ss (snoop m) (ack m) (completion m) line w (op_id m, direct_unmap m) = Inr w'"
        for w w' using that look(2,3) op range by (rule match_operation_adds) simp_all
    qed
  qed
qed

section \<open>Host capture order\<close>

definition reports_op :: "string \<Rightarrow> int \<Rightarrow> string list \<Rightarrow> pydict \<Rightarrow> bool" where
  "reports_op marker op wanted event \<longleftrightarrow>
     starts_with (event_text event) marker
     \<and> (\<exists>r. strict_json_loads (after_space (event_text event)) = Inr r \<and> py_eq (dget r ''op_id'') (PInt op)
          \<and> in_tuple (dget r ''event'') wanted)"

lemma capture_times_member:
  assumes "rfold (capture_time marker op wanted) ts events = Inr ts'" "t \<in> set ts'"
  shows "t \<in> set ts \<or> (\<exists>e\<in>set events. reports_op marker op wanted e \<and> t = stamp_of ''host_capture_ns'' e)"
  using assms
proof (induction events arbitrary: ts)
  case (Cons e events)
  from Cons.prems(1) obtain u where u: "capture_time marker op wanted ts e = Inr u"
    "rfold (capture_time marker op wanted) u events = Inr ts'" by (auto simp: rbind_Inr_iff)
  from u(1) have "u = ts \<or> u = ts @ [stamp_of ''host_capture_ns'' e] \<and> reports_op marker op wanted e"
    by (auto simp: capture_time_def reports_op_def Let_def rbind_Inr_iff simp del: py_eq_int split: if_splits)
  with Cons.IH [OF u(2) Cons.prems(2)] show ?case by auto
qed simp

definition ordered_capture :: "pydict list \<Rightarrow> pydict list \<Rightarrow> correlation \<Rightarrow> host_order \<Rightarrow> bool" where
  "ordered_capture node0 node1 c h \<longleftrightarrow>
     ho_op_id h = op_id c
     \<and> dget (snoop c) ''monotonic_ns'' = PInt (ho_snoop_send_ns h) \<and> dget (ack c) ''monotonic_ns'' = PInt (ho_snoop_ack_ns h)
     \<and> dget (completion c) ''monotonic_ns'' = PInt (ho_dirty_completion_ns h)
     \<and> ho_direct_unmap_capture_ns h < ho_snoop_send_ns h \<and> ho_snoop_send_ns h \<le> ho_snoop_ack_ns h
     \<and> ho_snoop_ack_ns h \<le> ho_dirty_completion_ns h \<and> ho_dirty_completion_ns h < ho_store_success_capture_ns h
     \<and> (\<exists>e\<in>set node1. reports_op ''BADFS_DIRECT_MAP_TRACE_JSON '' (op_id c) [''drop'', ''unmap''] e
          \<and> ho_direct_unmap_capture_ns h = stamp_of ''host_capture_ns'' e)
     \<and> (\<exists>e\<in>set node0. reports_op ''BADFS_LIFECYCLE_TRACE_JSON '' (op_id c) [''store_direct_success''] e
          \<and> ho_store_success_capture_ns h = stamp_of ''host_capture_ns'' e)"

lemma order_captures_sound: "order_captures node0 node1 cs = Inr h \<Longrightarrow> \<exists>c\<in>set cs. ordered_capture node0 node1 c h"
proof (induction cs)
  case (Cons c cs)
  let ?found = "\<lambda>ds ss x y z. [(d, s). d \<leftarrow> ds, s \<leftarrow> ss, d < x \<and> x \<le> y \<and> y \<le> z \<and> z < s]"
  from Cons.prems obtain ds ss x y z where
    ts: "rfold (capture_time ''BADFS_DIRECT_MAP_TRACE_JSON '' (op_id c) [''drop'', ''unmap'']) [] node1 = Inr ds"
      "rfold (capture_time ''BADFS_LIFECYCLE_TRACE_JSON '' (op_id c) [''store_direct_success'']) [] node0 = Inr ss"
    and f: "dget (snoop c) ''monotonic_ns'' = PInt x" "dget (ack c) ''monotonic_ns'' = PInt y"
      "dget (completion c) ''monotonic_ns'' = PInt z"
    and res: "(case ?found ds ss x y z of
       (d, s) # _ \<Rightarrow> Inr \<lparr>ho_op_id = op_id c, ho_direct_unmap_capture_ns = d, ho_snoop_send_ns = x, ho_snoop_ack_ns = y,
                          ho_dirty_completion_ns = z, ho_store_success_capture_ns = s\<rparr>
     | [] \<Rightarrow> order_captures node0 node1 cs) = Inr h"
    by (auto simp: rbind_Inr_iff evidence_int.read_Inr_iff)
  show ?case
  proof (cases "?found ds ss x y z")
    case Nil
    with res Cons.IH show ?thesis by auto
  next
    case (Cons p ps)
    obtain d s where p: "p = (d, s)" by (cases p)
    have "(d, s) \<in> set (?found ds ss x y z)" unfolding Cons p by simp
    then have m: "d \<in> set ds" "s \<in> set ss" "d < x" "x \<le> y" "y \<le> z" "z < s" by auto
    from res Cons p have "h = \<lparr>ho_op_id = op_id c, ho_direct_unmap_capture_ns = d, ho_snoop_send_ns = x, ho_snoop_ack_ns = y,
        ho_dirty_completion_ns = z, ho_store_success_capture_ns = s\<rparr>" by simp
    with m f capture_times_member [OF ts(1) m(1)] capture_times_member [OF ts(2) m(2)]
    have "ordered_capture node0 node1 c h" by (simp add: ordered_capture_def)
    then show ?thesis by simp
  qed
qed simp

section \<open>A complete sample run\<close>

definition run_direct :: pydict where
  "run_direct = [(''schema_version'', PStr ''badfs.direct-map-trace.v1''), (''event'', PStr ''unmap''), (''access'', PStr ''write''),
     (''rc'', PInt 0), (''op_id'', PInt 7), (''offset'', PInt 0), (''length'', PInt 4096)]"

definition run_begin :: pydict where
  "run_begin = [(''schema_version'', PStr ''badfs.lifecycle.v1''), (''event'', PStr ''store_direct_begin''), (''op_id'', PInt 7),
     (''mapping_offset'', PInt 0), (''mapping_length'', PInt 4096)]"

definition run_success :: pydict where
  "run_success = [(''schema_version'', PStr ''badfs.lifecycle.v1''), (''event'', PStr ''store_direct_success''), (''op_id'', PInt 7),
     (''mapping_offset'', PInt 0), (''mapping_length'', PInt 4096)]"

definition run_registration :: "int \<Rightarrow> pydict" where
  "run_registration host = [(''schema_version'', PInt 1), (''event'', PStr ''registration''), (''status'', PStr ''OK''),
     (''src_host'', PInt host), (''session_id'', PInt (host + 1)), (''monotonic_ns'', PInt 5)]"

definition run_snoop :: pydict where
  "run_snoop = [(''schema_version'', PInt 1), (''event'', PStr ''snoop_send''), (''opcode'', PStr ''SNP_DATA_INV''),
     (''snoop_id'', PInt 3), (''line_address'', PInt 64), (''dst_host'', PInt 1), (''session_id'', PInt 2), (''epoch'', PInt 1),
     (''monotonic_ns'', PInt 20)]"

definition run_answer :: "string \<Rightarrow> int \<Rightarrow> pydict" where
  "run_answer event now = [(''schema_version'', PInt 1), (''event'', PStr event), (''opcode'', PStr ''SNOOP_ACK''),
     (''ack_strength'', PStr ''MODEL''), (''status'', PStr ''OK''), (''dirty_data'', PBool True), (''payload_len'', PInt 64),
     (''src_host'', PInt 1), (''dst_host'', PInt 65535), (''snoop_id'', PInt 3), (''line_address'', PInt 64),
     (''session_id'', PInt 2), (''epoch'', PInt 1), (''monotonic_ns'', PInt now)]"

definition run_coherence :: "pydict list" where
  "run_coherence = [run_snoop, run_answer ''snoop_ack'' 25, run_answer ''dirty_completion'' 30]"

definition run_match :: correlation where
  "run_match = \<lparr>op_id = 7, mapping_offset = 0, mapping_length = 4096, direct_unmap = run_direct, lifecycle_begin = run_begin,
     snoop = run_snoop, ack = run_answer ''snoop_ack'' 25, completion = run_answer ''dirty_completion'' 30,
     lifecycle_success = run_success\<rparr>"

lemmas run_defs = run_direct_def run_begin_def run_success_def run_registration_def run_snoop_def run_answer_def
  run_coherence_def run_match_def

lemma run_correlates:
  "correlate_dirty_backinvalidations [run_direct] [run_begin, run_success] run_coherence = Inr [run_match]"
  by (simp add: run_defs correlate_dirty_backinvalidations_def index_by_def direct_write_def in_tuple_def
      correlate_snoop_def match_operation_def snoop_mismatch_def range_mismatch_def differs_def differ_def later_def
      required_integer_def)

text \<open>
  (C9) The correlations reported are exactly the dirty back-invalidations inside a direct
  mapping: whenever its operation and snoop identifiers are unambiguous in the records, a
  correlation is reported if and only if its direct unmap, lifecycle begin and success
  agree on operation, offset and length, its snoop, acknowledgement and completion form a
  dirty exchange with host 1 on one line, in time order, and that line lies in the mapping.
\<close>

theorem correlation_exact:
  assumes "correlate_dirty_backinvalidations direct lifecycle coherence = Inr ms"
    and "unambiguous direct lifecycle coherence m"
  shows "m \<in> set ms \<longleftrightarrow> correlated direct lifecycle coherence m"
  using correlate_sound [OF assms(1)] correlate_complete [OF assms(1) _ assms(2)] by blast

theorem correlation_exact_witness:
  "correlate_dirty_backinvalidations [run_direct] [run_begin, run_success] run_coherence = Inr [run_match]
   \<and> correlated [run_direct] [run_begin, run_success] run_coherence run_match"
proof -
  have "unambiguous [run_direct] [run_begin, run_success] run_coherence run_match"
    by (simp add: unambiguous_def only_key_def run_defs)
  from correlation_exact [OF run_correlates this] run_correlates show ?thesis by simp
qed

section \<open>Benchmark output\<close>

lemma require_value_Inr [simp]: "require_value r n v m = Inr u \<longleftrightarrow> dget r n = PInt v"
  by (auto simp: require_value_def rbind_Inr_iff evidence_int.read_Inr_iff)

text \<open>What the six integer fields of the benchmark line have to be.\<close>

definition benchmark_values :: "int \<Rightarrow> (string \<times> int) list" where
  "benchmark_values bytes =
     zip integer_names [bytes, min bytes (1024 * 1024), 1, bytes, bytes, position_sum (min bytes (1024 * 1024)) 0 bytes]"

definition benchmark_line :: "string \<Rightarrow> int \<Rightarrow> bool" where
  "benchmark_line line bytes \<longleftrightarrow>
     distinct (map fst (find_fields line))
     \<and> (\<forall>(name, v)\<in>set (benchmark_values bytes). \<exists>t. map_of (find_fields line) name = Some t \<and> py_int t = Some v)"

definition clean_audit :: "int \<Rightarrow> pydict \<Rightarrow> bool" where
  "clean_audit bytes audit \<longleftrightarrow>
     (\<forall>name\<in>set zero_audit \<union> {''direct_mapped_extents'', ''payload_checksum_bytes'', ''payload_checksum_scans''}.
        dget audit name = PInt 0)
     \<and> dget audit ''payload_persist_bytes'' = PInt bytes \<and> dget audit ''coherent_acquire_bytes'' = PInt bytes
     \<and> (\<exists>states. dget audit ''extent_states'' = PDict states \<and> states \<noteq> [] \<and> (\<forall>(k, v)\<in>set states. v = PStr ''published'')
          \<and> dget audit ''published_ranges'' = PInt (int (length states))
          \<and> dget audit ''backend_live_extents'' = PInt (int (length states)))"

lemma check_audit_Inr: "check_audit bytes audit = Inr u \<longleftrightarrow> clean_audit bytes audit"
  by (cases "dget audit ''extent_states''")
     (auto simp: check_audit_def clean_audit_def rbind_Inr_iff evidence_int.read_Inr_iff extents_published_def
      list_all_iff zero_audit_def)

definition fabric_of :: "pydict \<Rightarrow> pydict" where
  "fabric_of inspection = (case dget inspection ''fabric'' of PDict d \<Rightarrow> d | _ \<Rightarrow> [])"

definition audit_of :: "pydict \<Rightarrow> pydict" where
  "audit_of inspection = (case dget inspection ''audit'' of PDict d \<Rightarrow> d | _ \<Rightarrow> [])"

definition clean_inspection :: "int \<Rightarrow> pydict \<Rightarrow> bool" where
  "clean_inspection bytes r \<longleftrightarrow>
     is_dict (dget r ''fabric'') \<and> is_dict (dget r ''audit'') \<and> clean_audit bytes (audit_of r)
     \<and> (\<forall>name\<in>set zero_fabric. dget (fabric_of r) name = PInt 0)
     \<and> (\<forall>name\<in>set direct_names. \<exists>i. dget (fabric_of r) name = PInt i)"

text \<open>The totals are the sums of the direct counters over all inspections.\<close>

definition counter_total :: "pydict list \<Rightarrow> string \<Rightarrow> int" where
  "counter_total inspections name = (\<Sum>r\<leftarrow>inspections. stamp_of name (fabric_of r))"

lemma check_inspection_Inr:
  assumes "totals = map (\<lambda>name. (name, g name)) direct_names"
  shows "check_inspection bytes totals r = Inr totals' \<longleftrightarrow>
     clean_inspection bytes r \<and> totals' = map (\<lambda>name. (name, g name + stamp_of name (fabric_of r))) direct_names"
proof (cases "is_dict (dget r ''fabric'') \<and> is_dict (dget r ''audit'')")
  case False
  then show ?thesis by (auto simp: check_inspection_def clean_inspection_def split: pyval.splits)
next
  case True
  then obtain fabric audit where d: "dget r ''fabric'' = PDict fabric" "dget r ''audit'' = PDict audit"
    by (auto simp: is_tests_iff)
  have "rmap (\<lambda>(name, sofar). rbind (required_integer fabric name) (\<lambda>i. Inr (name, sofar + i))) totals = Inr totals' \<longleftrightarrow>
     (\<forall>name\<in>set direct_names. \<exists>i. dget fabric name = PInt i)
     \<and> totals' = map (\<lambda>name. (name, g name + stamp_of name fabric)) direct_names"
    unfolding assms rmap_Inr_iff
    by (auto simp: direct_names_def list_all2_Cons1 rbind_Inr_iff evidence_int.read_Inr_iff)
  with d True show ?thesis
    by (auto simp: check_inspection_def clean_inspection_def rbind_Inr_iff check_audit_Inr fabric_of_def audit_of_def)
qed

lemma inspections_loop:
  "rfold (check_inspection bytes) (map (\<lambda>name. (name, g name)) direct_names) rs = Inr totals \<longleftrightarrow>
     (\<forall>r\<in>set rs. clean_inspection bytes r) \<and> totals = map (\<lambda>name. (name, g name + counter_total rs name)) direct_names"
proof (induction rs arbitrary: g)
  case (Cons r rs)
  show ?case
    unfolding rfold.simps rbind_Inr_iff check_inspection_Inr [OF refl]
    by (auto simp: Cons.IH counter_total_def add.assoc)
qed (auto simp: counter_total_def)

lemma expected_checksum_block:
  "expected_benchmark_checksum bytes (min bytes (1024 * 1024)) 1 = Some (position_sum (min bytes (1024 * 1024)) 0 bytes)"
proof (cases "bytes \<le> 0")
  case True
  then have "checksum_loop bytes (min bytes (1024 * 1024)) 0 0 = Some 0" by (subst checksum_loop.simps) simp
  with True show ?thesis by (simp add: expected_benchmark_checksum_def position_sum_def)
next
  case False
  then show ?thesis using checksum_loop_total [of "min bytes (1024 * 1024)" 0 bytes 0]
    by (simp add: expected_benchmark_checksum_def)
qed

lemma scalar_loop_Inr:
  "rfold (\<lambda>fields (name, value).
        if name \<in> set (map fst fields) then Inl (ValueError (''duplicate scalar field: '' @ name))
        else Inr (aset name value fields)) acc ps = Inr out \<longleftrightarrow>
     distinct (map fst ps) \<and> fst ` set acc \<inter> fst ` set ps = {} \<and> out = acc @ ps"
proof (induction ps arbitrary: acc)
  case (Cons p ps)
  obtain k v where "p = (k, v)" by (cases p)
  then show ?case by (auto simp: Cons.IH [unfolded set_map] aset_fresh)
qed auto

lemma parse_scalar_fields_Inr:
  "parse_scalar_fields line = Inr raw \<longleftrightarrow> distinct (map fst (find_fields line)) \<and> raw = find_fields line"
  unfolding parse_scalar_fields_def scalar_loop_Inr by auto

lemma benchmark_field_iff:
  "(case map_of raw name of
      None \<Rightarrow> Inl e
    | Some text \<Rightarrow> (case py_int text of None \<Rightarrow> Inl e | Some i \<Rightarrow> Inr (name, i))) = Inr p \<longleftrightarrow>
   (\<exists>t i. map_of raw name = Some t \<and> py_int t = Some i \<and> p = (name, i))"
  by (auto split: option.splits)

lemma check_benchmark_Inr:
  "check_benchmark bytes output = Inr benchmark \<longleftrightarrow>
     (\<exists>line. bench_lines output = [line] \<and> benchmark_line line bytes \<and> benchmark = benchmark_values bytes)"
proof (cases "\<exists>line. bench_lines output = [line]")
  case False
  then have "length (bench_lines output) \<noteq> 1" by (cases "bench_lines output") auto
  with False show ?thesis by (auto simp: check_benchmark_def)
next
  case True
  then obtain line where l: "bench_lines output = [line]" by blast
  have fields: "benchmark_fields (find_fields line) = Inr (benchmark_values bytes)" if "benchmark_line line bytes"
    using that unfolding benchmark_fields_def rmap_Inr_iff benchmark_field_iff
    by (auto simp: benchmark_line_def benchmark_values_def integer_names_def simp del: map_of_eq_Some_iff)
  have line_ok: "benchmark_line line bytes" if "benchmark_fields (find_fields line) = Inr (benchmark_values bytes)"
    "distinct (map fst (find_fields line))"
    using that unfolding benchmark_fields_def rmap_Inr_iff benchmark_field_iff
    by (auto simp: benchmark_line_def benchmark_values_def integer_names_def simp del: map_of_eq_Some_iff)
  have accept: "check_benchmark bytes output = Inr benchmark \<longleftrightarrow>
      distinct (map fst (find_fields line)) \<and> benchmark_fields (find_fields line) = Inr benchmark
      \<and> benchmark = benchmark_values bytes"
  proof (cases "benchmark_fields (find_fields line)")
    case (Inr b)
    then have "map fst b = integer_names" unfolding benchmark_fields_def rmap_Inr_iff benchmark_field_iff
      by (auto simp: integer_names_def list_all2_Cons1)
    then obtain v1 v2 v3 v4 v5 v6 where "b = zip integer_names [v1, v2, v3, v4, v5, v6]"
      by (auto simp: integer_names_def Cons_eq_map_conv map_eq_Cons_conv)
    with Inr show ?thesis
      by (auto simp: check_benchmark_def l rbind_Inr_iff parse_scalar_fields_Inr Let_def expected_checksum_block [simplified]
          benchmark_values_def integer_names_def)
  qed (auto simp: check_benchmark_def l rbind_Inr_iff parse_scalar_fields_Inr)
  show ?thesis unfolding accept using l fields line_ok by (auto simp: benchmark_line_def)
qed

text \<open>
  (C32) The benchmark output is accepted exactly when there is one benchmark line whose
  fields are unambiguous and state the size, block size, one iteration, the bytes written
  and read and the checksum of the byte pattern; there is at least one lifecycle
  inspection; every inspection has zero fallback counters and a quiescent audit with all
  extents published; and the direct reads and writes summed over the inspections cover
  exactly the benchmark bytes.
\<close>

theorem legofs_output_iff:
  "validate_legofs_output output bytes = Inr ev \<longleftrightarrow>
     (\<exists>line. bench_lines output = [line] \<and> benchmark_line line bytes)
     \<and> parse_prefixed_records output ''badfs_lifecycle_inspection'' ''badfs.lifecycle.inspection.v1'' = Inr (le_inspections ev)
     \<and> le_inspections ev \<noteq> [] \<and> list_all (clean_inspection bytes) (le_inspections ev)
     \<and> 0 < counter_total (le_inspections ev) ''trusted_direct_read_ops''
     \<and> 0 < counter_total (le_inspections ev) ''trusted_direct_write_ops''
     \<and> counter_total (le_inspections ev) ''trusted_direct_read_bytes'' = bytes
     \<and> counter_total (le_inspections ev) ''trusted_direct_write_bytes'' = bytes
     \<and> le_benchmark ev = benchmark_values bytes
     \<and> le_direct_totals ev = map (\<lambda>name. (name, counter_total (le_inspections ev) name)) direct_names"
proof -
  have loop: "rfold (check_inspection bytes) (map (\<lambda>name. (name, 0)) direct_names) rs = Inr totals \<longleftrightarrow>
      (\<forall>r\<in>set rs. clean_inspection bytes r) \<and> totals = map (\<lambda>name. (name, counter_total rs name)) direct_names"
    for rs totals using inspections_loop [of bytes "\<lambda>_. 0"] by simp
  have names: "map_of (map (\<lambda>name. (name, g name)) direct_names) ''trusted_direct_read_ops'' = Some (g ''trusted_direct_read_ops'')"
    "map_of (map (\<lambda>name. (name, g name)) direct_names) ''trusted_direct_write_ops'' = Some (g ''trusted_direct_write_ops'')"
    "map_of (map (\<lambda>name. (name, g name)) direct_names) ''trusted_direct_read_bytes'' = Some (g ''trusted_direct_read_bytes'')"
    "map_of (map (\<lambda>name. (name, g name)) direct_names) ''trusted_direct_write_bytes'' = Some (g ''trusted_direct_write_bytes'')"
    for g :: "string \<Rightarrow> int" by (simp_all add: direct_names_def)
  show ?thesis
    unfolding validate_legofs_output_def rbind_Inr_iff check_benchmark_Inr
    by (cases ev; cases "parse_prefixed_records output ''badfs_lifecycle_inspection'' ''badfs.lifecycle.inspection.v1''")
       (auto simp: rbind_Inr_iff loop names Let_def list_all_iff)
qed

section \<open>The combined check\<close>

lemma count_records_pos: "r \<in> set records \<Longrightarrow> p r \<Longrightarrow> 0 < count_records p records"
  by (auto simp: count_records_def filter_empty_conv)

lemma correlated_counts:
  assumes "correlated direct lifecycle coherence m"
  shows "0 < count_records (\<lambda>e. event_is e ''snoop_send'' \<and> py_eq (dget e ''opcode'') (PStr ''SNP_DATA_INV'')) coherence"
    "0 < count_records (\<lambda>e. event_is e ''snoop_ack'' \<and> py_eq (dget e ''ack_strength'') (PStr ''MODEL'')) coherence"
    "0 < count_records (\<lambda>e. event_is e ''dirty_completion'') coherence"
  using assms unfolding correlated_def dirty_snoop_def agree_def
  by (auto intro: count_records_pos [of "snoop m"] count_records_pos [of "ack m"] count_records_pos [of "completion m"])

text \<open>
  (C3) An accepted run rests on real coherence traffic of the benchmark phase: after the
  benchmark offset the trace has no error event; every reported correlation is a dirty
  back-invalidation of that phase inside a direct mapping of the guests; for one of them
  the host captured the unmap before the snoop and the store success after the dirty
  completion; and therefore all three coherence counters of the result are positive.
\<close>

theorem runtime_evidence_sound:
  assumes "validate_runtime_evidence trace events0 events1 server_log node0_output node1_output offset bytes = Inr ev"
  shows "\<exists>coherence direct lifecycle node0 node1 c.
     read_coherence_trace trace offset = Inr coherence
     \<and> parse_prefixed_records node1_output ''BADFS_DIRECT_MAP_TRACE_JSON'' ''badfs.direct-map-trace.v1'' = Inr direct
     \<and> parse_prefixed_records node0_output ''BADFS_LIFECYCLE_TRACE_JSON'' ''badfs.lifecycle.v1'' = Inr lifecycle
     \<and> read_event_sidecar events0 = Inr node0 \<and> read_event_sidecar events1 = Inr node1
     \<and> list_all (\<lambda>e. \<not> in_tuple (dget e ''event'') error_events) coherence
     \<and> list_all (correlated direct lifecycle coherence) (re_correlations ev)
     \<and> c \<in> set (re_correlations ev) \<and> ordered_capture node0 node1 c (re_host_capture_order ev)
     \<and> validate_legofs_output node1_output bytes = Inr (re_legofs ev)
     \<and> 0 < re_snp_data_inv ev \<and> 0 < re_model_acks ev \<and> 0 < re_dirty_data_completions ev"
proof -
  from assms obtain coherence direct lifecycle where p:
    "read_coherence_trace trace offset = Inr coherence"
    "parse_prefixed_records node1_output ''BADFS_DIRECT_MAP_TRACE_JSON'' ''badfs.direct-map-trace.v1'' = Inr direct"
    "parse_prefixed_records node0_output ''BADFS_LIFECYCLE_TRACE_JSON'' ''badfs.lifecycle.v1'' = Inr lifecycle"
    "correlate_dirty_backinvalidations direct lifecycle coherence = Inr (re_correlations ev)"
    "validate_host_capture_order events0 events1 (re_correlations ev) = Inr (re_host_capture_order ev)"
    "validate_legofs_output node1_output bytes = Inr (re_legofs ev)"
    "\<forall>e\<in>set coherence. \<not> in_tuple (dget e ''event'') error_events"
    and counts: "re_snp_data_inv ev = count_records (\<lambda>e. event_is e ''snoop_send''
        \<and> py_eq (dget e ''opcode'') (PStr ''SNP_DATA_INV'')) coherence"
      "re_model_acks ev = count_records (\<lambda>e. event_is e ''snoop_ack''
        \<and> py_eq (dget e ''ack_strength'') (PStr ''MODEL'')) coherence"
      "re_dirty_data_completions ev = count_records (\<lambda>e. event_is e ''dirty_completion'') coherence"
    unfolding validate_runtime_evidence_def rbind_Inr_iff by fastforce
  from p(5) obtain node0 node1 where n: "read_event_sidecar events0 = Inr node0" "read_event_sidecar events1 = Inr node1"
    "order_captures node0 node1 (re_correlations ev) = Inr (re_host_capture_order ev)"
    by (auto simp: validate_host_capture_order_def rbind_Inr_iff)
  from order_captures_sound [OF n(3)] obtain c where
    c: "c \<in> set (re_correlations ev)" "ordered_capture node0 node1 c (re_host_capture_order ev)" by blast
  from correlate_sound [OF p(4)] have all: "\<forall>m\<in>set (re_correlations ev). correlated direct lifecycle coherence m" by blast
  with c(1) have "correlated direct lifecycle coherence c" by blast
  from correlated_counts [OF this] p n c all counts show ?thesis by (auto simp: list_all_iff)
qed

section \<open>The sample run is accepted\<close>

definition run_fabric :: pydict where
  "run_fabric = map (\<lambda>name. (name, PInt 0)) zero_fabric
     @ [(''trusted_direct_read_ops'', PInt 1), (''trusted_direct_read_bytes'', PInt 2), (''trusted_direct_write_ops'', PInt 1),
        (''trusted_direct_write_bytes'', PInt 2)]"

definition run_audit :: pydict where
  "run_audit = map (\<lambda>name. (name, PInt 0))
       (zero_audit @ [''direct_mapped_extents'', ''payload_checksum_bytes'', ''payload_checksum_scans''])
     @ [(''payload_persist_bytes'', PInt 2), (''coherent_acquire_bytes'', PInt 2), (''published_ranges'', PInt 1),
        (''backend_live_extents'', PInt 1), (''extent_states'', PDict [(''0'', PStr ''published'')])]"

definition run_inspection :: pydict where
  "run_inspection = [(''schema_version'', PStr ''badfs.lifecycle.inspection.v1''), (''fabric'', PDict run_fabric),
     (''audit'', PDict run_audit)]"

definition run_bench :: string where
  "run_bench = ''badfs_bench file_size=2 block_size=2 iterations=1 written_bytes=2 read_bytes=2 checksum=1''"

definition run_stats :: pydict where
  "run_stats = map (\<lambda>name. (name, PInt 0)) t3_zero_counters"

lemma run_ok:
  "prefixed_record_ok ''badfs.direct-map-trace.v1'' run_direct" "prefixed_record_ok ''badfs.lifecycle.v1'' run_begin"
  "prefixed_record_ok ''badfs.lifecycle.v1'' run_success"
  by (simp_all add: prefixed_record_ok_def run_defs json_string_def escape_out_def show_int_def ascii_char_def py_simps)

lemma run_inspection_ok:
  "prefixed_record_ok ''badfs.lifecycle.inspection.v1'' run_inspection"
  by (simp add: prefixed_record_ok_def run_inspection_def run_fabric_def run_audit_def zero_fabric_def zero_audit_def
    json_string_def escape_out_def show_int_def ascii_char_def py_simps)

lemma run_stats_ok: "ascii_line (json_compact (PDict run_stats))" "plain_json (PDict run_stats)"
  by (simp_all add: run_stats_def t3_zero_counters_def
    json_string_def escape_out_def show_int_def ascii_char_def py_simps)

lemma run_trace_ok: "list_all (printable_record version_1 ''monotonic_ns'') (run_registration 0 # run_registration 1 # run_coherence)"
  by (simp add: printable_record_def version_1_def run_defs
    json_string_def escape_out_def show_int_def ascii_char_def py_simps)

lemma run_fields: "find_fields run_bench = [(''file_size'',''2''),(''block_size'',''2''),(''iterations'',''1''),(''written_bytes'',''2''),(''read_bytes'',''2''),(''checksum'',''1'')]"
  by (simp add: run_bench_def word_char_def)

definition run_output1 :: string where
  "run_output1 = concat (map (\<lambda>l. l @ [CHR 0x0A])
     [''BADFS_DIRECT_MAP_TRACE_JSON'' @ '' '' @ json_compact (PDict run_direct), run_bench,
      ''badfs_lifecycle_inspection'' @ '' '' @ json_compact (PDict run_inspection)])"

lemma run_bench_ascii: "ascii_line run_bench" "hd run_bench = CHR ''b''" "last run_bench = CHR ''1''" "run_bench \<noteq> []"
  by (simp_all add: run_bench_def ascii_char_def)

lemma emitted_ascii:
  "prefixed_record_ok schema r \<Longrightarrow> ascii_line prefix \<Longrightarrow> ascii_line (prefix @ '' '' @ json_compact (PDict r))"
  by (simp add: prefixed_record_ok_def ascii_char_def del: json_compact.simps)

lemma emitted_strip:
  "prefixed_record_ok schema r \<Longrightarrow> ascii_line prefix \<Longrightarrow> prefix \<noteq> [] \<Longrightarrow> hd prefix \<noteq> CHR '' '' \<Longrightarrow>
   strip (prefix @ '' '' @ json_compact (PDict r)) = prefix @ '' '' @ json_compact (PDict r)"
  using emitted_ascii [of schema r prefix] json_compact_dict_ends [of r]
  by (intro strip_ascii) (auto simp del: json_compact.simps)

lemma run_names_ascii: "ascii_line ''BADFS_DIRECT_MAP_TRACE_JSON''" "ascii_line ''badfs_lifecycle_inspection''"
  "ascii_line ''BADFS_LIFECYCLE_TRACE_JSON''"
  by (simp_all add: ascii_char_def)

lemma run_output1_lines:
  "splitlines run_output1 =
     [''BADFS_DIRECT_MAP_TRACE_JSON'' @ '' '' @ json_compact (PDict run_direct), run_bench,
      ''badfs_lifecycle_inspection'' @ '' '' @ json_compact (PDict run_inspection)]"
  unfolding run_output1_def
proof (rule splitlines_ascii)
  show "list_all ascii_line [''BADFS_DIRECT_MAP_TRACE_JSON'' @ '' '' @ json_compact (PDict run_direct), run_bench,
      ''badfs_lifecycle_inspection'' @ '' '' @ json_compact (PDict run_inspection)]"
    unfolding list.pred_inject(2)
    using emitted_ascii [OF run_ok(1) run_names_ascii(1)] emitted_ascii [OF run_inspection_ok run_names_ascii(2)] run_bench_ascii(1)
    by (intro conjI) simp_all
qed

lemma run_bench_strip: "strip run_bench = run_bench"
  using run_bench_ascii by (intro strip_ascii) simp_all

lemma run_line_records:
  "prefixed_record_ok schema r \<Longrightarrow> ascii_line prefix \<and> prefix \<noteq> [] \<and> hd prefix \<noteq> CHR '' '' \<Longrightarrow>
   prefixed_line_records prefix schema (prefix @ '' '' @ json_compact (PDict r)) = Inr [r]"
  using prefixed_lines.emit_records [of schema r prefix] by blast

lemma run_line_other:
  assumes "prefixed_record_ok schema r" "ascii_line prefix \<and> prefix \<noteq> [] \<and> hd prefix \<noteq> CHR '' ''"
    and "other \<noteq> []" "hd other \<noteq> hd prefix"
  shows "prefixed_line_records other schema' (prefix @ '' '' @ json_compact (PDict r)) = Inr []"
proof -
  have "\<not> starts_with (prefix @ '' '' @ json_compact (PDict r)) (other @ '' '')"
    using assms(2-4) by (cases other; cases prefix) (auto simp: starts_with_iff simp del: json_compact.simps)
  with emitted_strip [of schema r prefix] assms(1,2) show ?thesis
    by (simp add: prefixed_line_records_def del: json_compact.simps)
qed

lemma run_line_bench: "\<not> starts_with run_bench (other @ '' '') \<Longrightarrow> prefixed_line_records other schema run_bench = Inr []"
  by (simp add: prefixed_line_records_def run_bench_strip)

lemma run_records1:
  "parse_prefixed_records run_output1 ''BADFS_DIRECT_MAP_TRACE_JSON'' ''badfs.direct-map-trace.v1'' = Inr [run_direct]"
  "parse_prefixed_records run_output1 ''badfs_lifecycle_inspection'' ''badfs.lifecycle.inspection.v1'' = Inr [run_inspection]"
proof -
  have d: "ascii_line ''BADFS_DIRECT_MAP_TRACE_JSON'' \<and> ''BADFS_DIRECT_MAP_TRACE_JSON'' \<noteq> [] \<and> hd ''BADFS_DIRECT_MAP_TRACE_JSON'' \<noteq> CHR '' ''"
    and i: "ascii_line ''badfs_lifecycle_inspection'' \<and> ''badfs_lifecycle_inspection'' \<noteq> [] \<and> hd ''badfs_lifecycle_inspection'' \<noteq> CHR '' ''"
    using run_names_ascii by simp_all
  have b: "\<not> starts_with run_bench (''BADFS_DIRECT_MAP_TRACE_JSON'' @ '' '')" "\<not> starts_with run_bench (''badfs_lifecycle_inspection'' @ '' '')"
    by (simp_all add: run_bench_def starts_with_def)
  show "parse_prefixed_records run_output1 ''BADFS_DIRECT_MAP_TRACE_JSON'' ''badfs.direct-map-trace.v1'' = Inr [run_direct]"
    unfolding parse_prefixed_records_def run_output1_lines extract_lines_def rfold.simps
      run_line_records [OF run_ok(1) d] run_line_bench [OF b(1)] 
    by (subst run_line_other [OF run_inspection_ok i]) simp_all
  show "parse_prefixed_records run_output1 ''badfs_lifecycle_inspection'' ''badfs.lifecycle.inspection.v1'' = Inr [run_inspection]"
    unfolding parse_prefixed_records_def run_output1_lines extract_lines_def rfold.simps
      run_line_records [OF run_inspection_ok i] run_line_bench [OF b(2)] 
    by (subst run_line_other [OF run_ok(1) d]) simp_all
qed

lemma run_position_sum: "position_sum 2 0 2 = 1"
proof -
  have "{0..<2::int} = {0, 1}" by auto
  then show ?thesis by (simp add: position_sum_def)
qed

lemma run_clean: "clean_inspection 2 run_inspection"
  by (simp add: clean_inspection_def clean_audit_def fabric_of_def audit_of_def run_inspection_def run_fabric_def run_audit_def
     zero_fabric_def zero_audit_def direct_names_def)

lemma run_legofs: "\<exists>legofs. validate_legofs_output run_output1 2 = Inr legofs"
proof -
  have l: "bench_lines run_output1 = [run_bench]"
    unfolding bench_lines_def run_output1_lines
    by (simp add: starts_with_def run_bench_def del: json_compact.simps)
  have v: "benchmark_line run_bench 2"
    by (simp add: benchmark_line_def run_fields benchmark_values_def integer_names_def run_position_sum py_int_def nat_of_digits_def digit_val_def)
  have b: "check_benchmark 2 run_output1 = Inr (benchmark_values 2)"
    unfolding check_benchmark_Inr using l v by blast
  have loop: "rfold (check_inspection 2) (map (\<lambda>name. (name, 0)) direct_names) [run_inspection] =
      Inr (map (\<lambda>name. (name, counter_total [run_inspection] name)) direct_names)"
    using inspections_loop [of 2 "\<lambda>_. 0" "[run_inspection]"] run_clean by (simp del: rfold.simps)
  have totals: "counter_total [run_inspection] ''trusted_direct_read_ops'' = 1"
    "counter_total [run_inspection] ''trusted_direct_read_bytes'' = 2"
    "counter_total [run_inspection] ''trusted_direct_write_ops'' = 1"
    "counter_total [run_inspection] ''trusted_direct_write_bytes'' = 2"
    by (simp_all add: counter_total_def fabric_of_def run_inspection_def run_fabric_def zero_fabric_def stamp_of_def)
  show ?thesis
    unfolding validate_legofs_output_def b run_records1(2) rbind_simps loop
    by (simp add: direct_names_def totals Let_def)
qed

definition run_output0 :: string where
  "run_output0 = concat (map (\<lambda>x. (case x of Inl l \<Rightarrow> l | Inr r \<Rightarrow> ''BADFS_LIFECYCLE_TRACE_JSON'' @ '' '' @ json_compact (PDict r)) @ [CHR 0x0A])
     [Inr run_begin, Inr run_success])"

lemma run_records0:
  "parse_prefixed_records run_output0 ''BADFS_LIFECYCLE_TRACE_JSON'' ''badfs.lifecycle.v1'' = Inr [run_begin, run_success]"
proof -
  have "\<forall>x\<in>set [Inr run_begin, Inr run_success]. case x of
      Inl l \<Rightarrow> ascii_line l \<and> \<not> starts_with (strip l) (''BADFS_LIFECYCLE_TRACE_JSON'' @ '' '')
    | Inr r \<Rightarrow> prefixed_record_ok ''badfs.lifecycle.v1'' r \<and> ascii_line ''BADFS_LIFECYCLE_TRACE_JSON''
        \<and> ''BADFS_LIFECYCLE_TRACE_JSON'' \<noteq> [] \<and> hd ''BADFS_LIFECYCLE_TRACE_JSON'' \<noteq> CHR '' ''"
    using run_ok run_names_ascii by simp
  from prefixed_lines.transcript_records [OF this] show ?thesis
    unfolding run_output0_def parse_prefixed_records_def by simp
qed

definition run_event :: "string \<Rightarrow> pydict \<Rightarrow> int \<Rightarrow> pydict" where
  "run_event marker r now = [(''host_capture_ns'', PInt now), (''line'', PStr (marker @ json_compact (PDict r)))]"

lemma run_events_ok:
  "printable_record text_line ''host_capture_ns'' (run_event ''BADFS_DIRECT_MAP_TRACE_JSON '' run_direct 15)"
  "printable_record text_line ''host_capture_ns'' (run_event ''BADFS_LIFECYCLE_TRACE_JSON '' run_success 40)"
  by (simp_all add: printable_record_def text_line_def run_event_def run_defs
    json_string_def escape_out_def show_int_def ascii_char_def py_simps)

lemma run_order:
  "\<exists>h. validate_host_capture_order (jsonl [run_event ''BADFS_LIFECYCLE_TRACE_JSON '' run_success 40])
       (jsonl [run_event ''BADFS_DIRECT_MAP_TRACE_JSON '' run_direct 15]) [run_match] = Inr h"
proof -
  have l: "strict_json_loads (json_compact (PDict run_direct)) = Inr run_direct"
    "strict_json_loads (json_compact (PDict run_success)) = Inr run_success"
    using run_ok by (auto simp: prefixed_record_ok_def simp del: json_compact.simps plain_json.simps intro: strict_json_loads_compact)
  have t: "rfold (capture_time ''BADFS_DIRECT_MAP_TRACE_JSON '' 7 [''drop'', ''unmap'']) []
        [run_event ''BADFS_DIRECT_MAP_TRACE_JSON '' run_direct 15] = Inr [15]"
    "rfold (capture_time ''BADFS_LIFECYCLE_TRACE_JSON '' 7 [''store_direct_success'']) []
        [run_event ''BADFS_LIFECYCLE_TRACE_JSON '' run_success 40] = Inr [40]"
    using l by (simp_all add: capture_time_def event_text_def run_event_def after_space_def starts_with_def del: json_compact.simps)
       (simp_all add: run_defs in_tuple_def)
  have m: "op_id run_match = 7" "required_integer (snoop run_match) ''monotonic_ns'' = Inr 20"
    "required_integer (ack run_match) ''monotonic_ns'' = Inr 25" "required_integer (completion run_match) ''monotonic_ns'' = Inr 30"
    by (simp_all add: run_defs required_integer_def)
  show ?thesis
    unfolding validate_host_capture_order_def
    by (simp add: read_event_sidecar_jsonl run_events_ok t m del: rfold.simps json_compact.simps)
qed

lemma run_server_log:
  "t3_parse_server_stats (''COHERENCE_V2_STATS_JSON '' @ json_compact (PDict run_stats) @ [CHR 0x0A]) = Inr run_stats"
proof -
  let ?l = "''COHERENCE_V2_STATS_JSON '' @ json_compact (PDict run_stats)"
  have a: "ascii_line ?l" using run_stats_ok(1) by (simp add: ascii_char_def del: json_compact.simps)
  then have "strip ?l = ?l" using json_compact_dict_ends [of run_stats] by (intro strip_ascii) (simp_all del: json_compact.simps)
  then have "t3_stats_line ?l = Inr [run_stats]"
    using run_stats_ok(2) by (simp add: t3_stats_line_def Let_def starts_with_def strict_json_loads_compact del: json_compact.simps plain_json.simps)
  moreover have "splitlines (?l @ [CHR 0x0A]) = [?l]" using splitlines_ascii [of "[?l]"] a by simp
  moreover have "list_all (\<lambda>name. dget run_stats name = PInt 0) t3_zero_counters"
    by (simp add: run_stats_def t3_zero_counters_def)
  ultimately show ?thesis
    unfolding t3_parse_server_stats_def by (simp add: extract_lines_def list_all_iff rbind_Inr_iff del: json_compact.simps)
qed

lemma run_registrations:
  "t3_validate_registrations (run_registration 0 # run_registration 1 # run_coherence) = Inr [run_registration 0, run_registration 1]"
  by (auto simp: t3_validate_registrations_def run_defs is_registration_def t3_register_def required_integer_def host_records_def)

definition run_prefix :: string where
  "run_prefix = jsonl [run_registration 0, run_registration 1]"

lemma run_trace:
  "read_coherence_trace (run_prefix @ jsonl run_coherence) 0 = Inr (run_registration 0 # run_registration 1 # run_coherence)"
  "read_coherence_trace (run_prefix @ jsonl run_coherence) (length run_prefix) = Inr run_coherence"
proof -
  have j: "run_prefix @ jsonl run_coherence = jsonl (run_registration 0 # run_registration 1 # run_coherence)"
    by (simp add: run_prefix_def jsonl_def del: json_compact.simps)
  have s: "sorted (map (stamp_of ''monotonic_ns'') (run_registration 0 # run_registration 1 # run_coherence))"
    by (simp add: run_defs stamp_of_def)
  from read_coherence_trace_jsonl [OF run_trace_ok s, of 0 "[]"]
  show "read_coherence_trace (run_prefix @ jsonl run_coherence) 0 = Inr (run_registration 0 # run_registration 1 # run_coherence)"
    unfolding j by simp
  show "read_coherence_trace (run_prefix @ jsonl run_coherence) (length run_prefix) = Inr run_coherence"
    by (rule read_coherence_trace_jsonl) (use run_trace_ok s in auto)
qed

theorem runtime_evidence_sound_witness:
  "\<exists>trace events0 events1 log ev c.
     validate_runtime_evidence trace events0 events1 log run_output0 run_output1 (length run_prefix) 2 = Inr ev
     \<and> c \<in> set (re_correlations ev) \<and> 0 < re_snp_data_inv ev \<and> 0 < re_model_acks ev \<and> 0 < re_dirty_data_completions ev"
proof -
  let ?trace = "run_prefix @ jsonl run_coherence" and ?log = "''COHERENCE_V2_STATS_JSON '' @ json_compact (PDict run_stats) @ [CHR 0x0A]"
  let ?e0 = "jsonl [run_event ''BADFS_LIFECYCLE_TRACE_JSON '' run_success 40]"
  let ?e1 = "jsonl [run_event ''BADFS_DIRECT_MAP_TRACE_JSON '' run_direct 15]"
  obtain h where h: "validate_host_capture_order ?e0 ?e1 [run_match] = Inr h" using run_order by blast
  obtain legofs where l: "validate_legofs_output run_output1 2 = Inr legofs" using run_legofs by blast
  have q: "\<forall>e\<in>set run_coherence. \<not> in_tuple (dget e ''event'') error_events"
    by (simp add: run_defs in_tuple_def error_events_def)
  then have quiet: "rforall (\<lambda>event. rcheck (in_tuple (dget event ''event'') error_events)
      (ValueError (''benchmark coherence error event: '' @ (case dget event ''event'' of PStr s \<Rightarrow> s | _ \<Rightarrow> []))))
      run_coherence = Inr ()" by simp
  have "\<exists>ev. validate_runtime_evidence ?trace ?e0 ?e1 ?log run_output0 run_output1 (length run_prefix) 2 = Inr ev"
    unfolding validate_runtime_evidence_def run_trace run_registrations quiet run_records0 run_records1 run_correlates h l
      run_server_log rbind_simps by blast
  then obtain ev where ev: "validate_runtime_evidence ?trace ?e0 ?e1 ?log run_output0 run_output1 (length run_prefix) 2 = Inr ev"
    by blast
  from runtime_evidence_sound [OF ev] ev show ?thesis by blast
qed

end
