(* ===== verification/Py_Decode.thy ===== *)
theory Py_Decode
  imports Py_Text
begin

text \<open>
  \<^verbatim>\<open>bytes.decode(errors="replace")\<close>: every maximal invalid part of the input becomes one
  U+FFFD. Text is kept as its UTF-8 bytes, so decoding valid input is the identity. The
  last section has \<^verbatim>\<open>repr\<close> of byte strings and lists of strings.
\<close>

definition REPLACEMENT :: string where
  "REPLACEMENT = [CHR 0xEF, CHR 0xBF, CHR 0xBD]"

definition in_range :: "nat \<Rightarrow> nat \<Rightarrow> char \<Rightarrow> bool" where
  "in_range lo hi c \<longleftrightarrow> lo \<le> ord c \<and> ord c \<le> hi"

text \<open>How many continuation bytes of a sequence are there, at most as many as asked for.\<close>

fun cont_len :: "nat \<Rightarrow> string \<Rightarrow> nat" where
  "cont_len (Suc k) (c # cs) = (if is_cont c then Suc (cont_len k cs) else 0)"
| "cont_len _ _ = 0"

definition lead_ranges :: "char \<Rightarrow> (nat \<times> nat \<times> nat) option" where
  "lead_ranges c =
     (if in_range 194 223 c then Some (1, 128, 191)
      else if in_range 224 239 c then Some (2, if ord c = 224 then 160 else 128, if ord c = 237 then 159 else 191)
      else if in_range 240 244 c then Some (3, if ord c = 240 then 144 else 128, if ord c = 244 then 143 else 191)
      else None)"

text \<open>Whether the text starts with a complete sequence, and how many bytes are consumed.\<close>

fun utf8_head :: "string \<Rightarrow> bool \<times> nat" where
  "utf8_head [] = (True, 0)"
| "utf8_head (c # cs) =
     (if ord c < 128 then (True, 1)
      else case lead_ranges c of
        None \<Rightarrow> (False, 1)
      | Some (k, lo, hi) \<Rightarrow>
          (case cs of
             [] \<Rightarrow> (False, 1)
           | d # ds \<Rightarrow>
               if \<not> in_range lo hi d then (False, 1)
               else let n = cont_len (k - 1) ds in (n = k - 1, 2 + n)))"

lemma utf8_head_pos: "s \<noteq> [] \<Longrightarrow> 0 < snd (utf8_head s)"
  by (cases s) (auto simp: Let_def split: option.splits list.splits)

function decode_replace :: "string \<Rightarrow> string" where
  "decode_replace s =
     (if s = [] then []
      else (if fst (utf8_head s) then take (snd (utf8_head s)) s else REPLACEMENT) @ decode_replace (drop (snd (utf8_head s)) s))"
  by pat_completeness auto
termination
  by (relation "measure length") (auto simp: utf8_head_pos)

declare decode_replace.simps [simp del]

lemma decode_replace_Nil [simp]: "decode_replace [] = []"
  by (simp add: decode_replace.simps)

section \<open>Valid text is unchanged\<close>

lemma utf8_valid_head:
  assumes "utf8_valid s" "s \<noteq> []"
  shows "fst (utf8_head s) \<and> snd (utf8_head s) \<le> length s \<and> utf8_valid (drop (snd (utf8_head s)) s)"
proof (cases s)
  case (Cons c cs)
  with assms(1) show ?thesis
    by (auto simp: lead_ranges_def in_range_def numeral_2_eq_2 numeral_3_eq_3 Let_def split: if_splits list.splits)
qed (use assms in simp)

lemma decode_replace_valid: "utf8_valid s \<Longrightarrow> decode_replace s = s"
proof (induction s rule: decode_replace.induct)
  case (1 s)
  show ?case
  proof (cases "s = []")
    case False
    with 1 utf8_valid_head [OF 1(2) False] show ?thesis by (subst decode_replace.simps) simp
  qed simp
qed

text \<open>The result is always valid.\<close>

lemma cont_len_one: "cont_len 1 ds = 1 \<Longrightarrow> \<exists>e r. ds = e # r \<and> is_cont e"
  by (cases ds) (auto split: if_splits)

lemma cont_len_two: "cont_len 2 ds = 2 \<Longrightarrow> \<exists>e f r. ds = e # f # r \<and> is_cont e \<and> is_cont f"
  using cont_len_one by (cases ds) (auto simp: numeral_2_eq_2 split: if_splits)

text \<open>A complete sequence at the head has one of four shapes.\<close>

lemma utf8_head_cases:
  assumes "fst (utf8_head s)" "s \<noteq> []"
  obtains c r where "s = c # r" "ord c < 128" "snd (utf8_head s) = 1"
    | c d r where "s = c # d # r" "snd (utf8_head s) = 2" "in_range 194 223 c" "is_cont d"
    | c d e r where "s = c # d # e # r" "snd (utf8_head s) = 3" "in_range 224 239 c" "is_cont d" "is_cont e"
        "ord c = 224 \<longrightarrow> 160 \<le> ord d" "ord c = 237 \<longrightarrow> ord d \<le> 159"
    | c d e f r where "s = c # d # e # f # r" "snd (utf8_head s) = 4" "in_range 240 244 c" "is_cont d" "is_cont e" "is_cont f"
        "ord c = 240 \<longrightarrow> 144 \<le> ord d" "ord c = 244 \<longrightarrow> ord d \<le> 143"
proof -
  obtain c cs where s: "s = c # cs" using assms(2) by (cases s) auto
  show ?thesis
  proof (cases "ord c < 128")
    case True
    with s show ?thesis by (intro that(1)) auto
  next
    case False
    with assms(1) s obtain k lo hi d ds where l: "lead_ranges c = Some (k, lo, hi)" "cs = d # ds" "in_range lo hi d"
      "cont_len (k - 1) ds = k - 1" "snd (utf8_head s) = 2 + (k - 1)"
      by (auto simp: Let_def split: option.splits list.splits if_splits)
    from l(1) consider (two) "in_range 194 223 c" "k = 1" "lo = 128" "hi = 191"
      | (three) "in_range 224 239 c" "k = 2" "lo = (if ord c = 224 then 160 else 128)" "hi = (if ord c = 237 then 159 else 191)"
      | (four) "in_range 240 244 c" "k = 3" "lo = (if ord c = 240 then 144 else 128)" "hi = (if ord c = 244 then 143 else 191)"
      by (auto simp: lead_ranges_def split: if_splits)
    then show ?thesis
    proof cases
      case two
      with l s show ?thesis by (intro that(2)) (auto simp: in_range_def)
    next
      case three
      with l(4) obtain e r where e: "ds = e # r" "is_cont e" using cont_len_one [of ds] by auto
      have d: "is_cont d" "ord c = 224 \<longrightarrow> 160 \<le> ord d" "ord c = 237 \<longrightarrow> ord d \<le> 159"
        using l(3) three(3,4) by (auto simp: in_range_def split: if_splits)
      show ?thesis by (rule that(3) [OF _ _ three(1) d(1) e(2) d(2,3)]) (use s l e three in simp_all)
    next
      case four
      with l(4) obtain e f r where e: "ds = e # f # r" "is_cont e" "is_cont f" using cont_len_two [of ds] by auto
      have d: "is_cont d" "ord c = 240 \<longrightarrow> 144 \<le> ord d" "ord c = 244 \<longrightarrow> ord d \<le> 143"
        using l(3) four(3,4) by (auto simp: in_range_def split: if_splits)
      show ?thesis by (rule that(4) [OF _ _ four(1) d(1) e(2,3) d(2,3)]) (use s l e four in simp_all)
    qed
  qed
qed

lemma utf8_valid_prefix:
  assumes "fst (utf8_head s)" "s \<noteq> []"
  shows "utf8_valid (take (snd (utf8_head s)) s @ t) = utf8_valid t"
  using assms
proof (cases rule: utf8_head_cases)
  case (1 c r)
  then show ?thesis by simp
next
  case (2 c d r)
  then show ?thesis by (simp add: in_range_def numeral_2_eq_2)
next
  case (3 c d e r)
  then show ?thesis by (simp add: in_range_def numeral_3_eq_3)
next
  case (4 c d e f r)
  then show ?thesis by (simp add: in_range_def)
qed

lemma utf8_valid_replacement: "utf8_valid (REPLACEMENT @ t) = utf8_valid t"
  by (simp add: REPLACEMENT_def)

lemma decode_replace_is_valid: "utf8_valid (decode_replace s)"
proof (induction s rule: decode_replace.induct)
  case (1 s)
  then show ?case
    by (subst decode_replace.simps) (simp add: utf8_valid_prefix utf8_valid_replacement)
qed

section \<open>Textual representation\<close>

text \<open>\<^verbatim>\<open>repr\<close> of a byte string.\<close>

definition hex_digit :: "nat \<Rightarrow> char" where
  "hex_digit n = ''0123456789abcdef'' ! n"

definition byte_repr :: "char \<Rightarrow> char \<Rightarrow> string" where
  "byte_repr quote c =
     (if c = quote \<or> c = CHR 0x5C then [CHR 0x5C, c]
      else if c = CHR 0x09 then [CHR 0x5C, CHR ''t''] else if c = CHR 0x0A then [CHR 0x5C, CHR ''n'']
      else if c = CHR 0x0D then [CHR 0x5C, CHR ''r'']
      else if 32 \<le> ord c \<and> ord c < 127 then [c]
      else [CHR 0x5C, CHR ''x'', hex_digit (ord c div 16), hex_digit (ord c mod 16)])"

definition quoted_repr :: "string \<Rightarrow> string" where
  "quoted_repr s =
     (let quote = (if CHR 0x27 \<in> set s \<and> CHR 0x22 \<notin> set s then CHR 0x22 else CHR 0x27)
      in [quote] @ concat (map (byte_repr quote) s) @ [quote])"

definition bytes_repr :: "string \<Rightarrow> string" where
  "bytes_repr s = ''b'' @ quoted_repr s"

text \<open>\<^verbatim>\<open>repr\<close> of a list of ASCII strings.\<close>

fun list_items :: "string list \<Rightarrow> string" where
  "list_items [] = []"
| "list_items [s] = quoted_repr s"
| "list_items (s # ss) = quoted_repr s @ '', '' @ list_items ss"

definition list_repr :: "string list \<Rightarrow> string" where
  "list_repr ss = ''['' @ list_items ss @ '']''"

end
