(* ===== verification/Barrier.thy ===== *)
theory Barrier
  imports Py_Decode
begin

text \<open>
  The host-side two-party barrier of scripts/legofs_type3_3node.py (class
  \<^verbatim>\<open>BarrierServer\<close>): requests are read from a connection, parsed, and counted under the
  lock; the second arrival at a barrier releases both connections. The part under the lock
  is the function \<open>barrier_arrive\<close>; the concurrent handlers are a step relation whose
  interleavings are those of the threads. Connections are numbers; what a peer sends is a
  parameter, and whether a send succeeds is a choice of the network.
\<close>

section \<open>State\<close>

type_synonym conn = nat

record barrier =
  bar_expected :: "string list"
  bar_port :: int
  bar_stop :: bool
  bar_arrivals :: "(string \<times> (int \<times> conn) list) list"
  bar_completed :: "string list"
  bar_errors :: "string list"
  bar_active :: "conn list"

definition BARRIERS :: "string list" where
  "BARRIERS = [''disjoint-created'', ''disjoint-written'', ''same-created'', ''same-written'', ''handoff-committed'',
               ''handoff-observed'', ''shared-read-ready'', ''shared-read-done'', ''crash-armed'']"

definition barrier_init :: "int \<Rightarrow> string list \<Rightarrow> barrier res" where
  "barrier_init port expected =
     (if expected = [] \<or> \<not> distinct expected then Inl (ValueError ''barrier names must be nonempty and unique'')
      else Inr \<lparr>bar_expected = expected, bar_port = port, bar_stop = False, bar_arrivals = [], bar_completed = [],
                bar_errors = [], bar_active = []\<rparr>)"

text \<open>\<^verbatim>\<open>str(error)\<close>; the text of a decoding error is left abstract.\<close>

fun error_text :: "pyerr \<Rightarrow> string" where
  "error_text (ValueError m) = m"
| "error_text (OSError m) = m"
| "error_text _ = ''decoding error''"

definition record_error :: "pyerr \<Rightarrow> barrier \<Rightarrow> barrier" where
  "record_error e b = b\<lparr>bar_errors := bar_errors b @ [error_text e]\<rparr>"

section \<open>Requests\<close>

text \<open>What \<^verbatim>\<open>recv\<close> answers in turn; the end of the list is the end of the stream.\<close>

datatype recv = Chunk string | RecvError string

fun read_request :: "string \<Rightarrow> recv list \<Rightarrow> string res" where
  "read_request payload answers =
     (if length payload > 256 then Inl (ValueError ''barrier request is too large'')
      else case answers of
        [] \<Rightarrow> Inr payload
      | RecvError e # _ \<Rightarrow> Inl (OSError e)
      | Chunk chunk # rest \<Rightarrow> if chunk = [] then Inr payload else read_request (payload @ chunk) rest)"

declare read_request.simps [simp del]

definition parse_request :: "string \<Rightarrow> (string \<times> int) res" where
  "parse_request payload =
     (if list_ex (\<lambda>c. 128 \<le> ord c) payload then Inl UnicodeDecodeError
      else case py_split (strip payload) of
        [name, client_text] \<Rightarrow>
          if client_text = ''0'' then Inr (name, 0) else if client_text = ''1'' then Inr (name, 1)
          else Inl (ValueError (''invalid barrier request: '' @ bytes_repr payload))
      | _ \<Rightarrow> Inl (ValueError (''invalid barrier request: '' @ bytes_repr payload)))"

definition receive :: "recv list \<Rightarrow> (string \<times> int) res" where
  "receive answers = rbind (read_request [] answers) parse_request"

section \<open>Arrival, under the lock\<close>

definition arrivals_at :: "barrier \<Rightarrow> string \<Rightarrow> (int \<times> conn) list" where
  "arrivals_at b name = (case map_of (bar_arrivals b) name of None \<Rightarrow> [] | Some a \<Rightarrow> a)"

definition barrier_arrive :: "barrier \<Rightarrow> conn \<Rightarrow> string \<Rightarrow> int \<Rightarrow> (barrier \<times> conn list option) res" where
  "barrier_arrive b connection name client =
     (if name \<notin> set (bar_expected b) then Inl (ValueError (''unknown barrier: '' @ name))
      else if name \<in> set (bar_completed b) then Inl (ValueError (''barrier already completed: '' @ name))
      else if client \<in> set (map fst (arrivals_at b name))
      then Inl (ValueError (''duplicate barrier arrival: '' @ name @ '' client='' @ show_int client))
      else let arrivals = aset client connection (arrivals_at b name)
           in if set (map fst arrivals) = {0, 1}
              then Inr (b\<lparr>bar_arrivals := filter (\<lambda>(n, a). n \<noteq> name) (bar_arrivals b),
                          bar_completed := bar_completed b @ [name]\<rparr>,
                        Some [the (map_of arrivals 0), the (map_of arrivals 1)])
              else Inr (b\<lparr>bar_arrivals := aset name arrivals (bar_arrivals b)\<rparr>, None))"

section \<open>Snapshot and final check\<close>

record barrier_snapshot =
  snap_port :: int
  snap_completed :: "string list"
  snap_pending :: "(string \<times> int list) list"
  snap_errors :: "string list"

definition snapshot :: "barrier \<Rightarrow> barrier_snapshot" where
  "snapshot b = \<lparr>snap_port = bar_port b, snap_completed = bar_completed b,
     snap_pending = map (\<lambda>(name, arrivals). (name, sort (map fst arrivals))) (bar_arrivals b), snap_errors = bar_errors b\<rparr>"

definition assert_complete :: "barrier \<Rightarrow> barrier_snapshot res" where
  "assert_complete b =
     (let state = snapshot b
      in if snap_errors state \<noteq> [] then Inl (ValueError ''barrier server errors'')
         else if set (snap_completed state) \<noteq> set (bar_expected b) \<or> snap_pending state \<noteq> []
         then Inl (ValueError ''incomplete barrier coverage'')
         else Inr state)"

section \<open>Handlers\<close>

text \<open>
  A handler thread reads its request, then (when it completed a barrier) releases the
  peers one after the other outside the lock, then finishes. \<open>Finishing True\<close> keeps the
  connection open.
\<close>

datatype phase = Reading | Releasing "conn list" "string list" | Finishing bool | Done

text \<open>The accepting thread is between two calls, waits in \<^verbatim>\<open>accept\<close>, or has returned.\<close>

datatype acceptor = Idle | Waiting | Ended

record barrier_world =
  server :: barrier
  acceptor :: acceptor
  threads :: "(conn \<times> phase) list"
  go_sent :: "conn list"
  closed :: "conn list"

definition close_connections :: "barrier_world \<Rightarrow> conn list" where
  "close_connections w =
     bar_active (server w) @ concat (map (\<lambda>(name, arrivals). map snd arrivals) (bar_arrivals (server w)))"

definition set_phase :: "conn \<Rightarrow> phase \<Rightarrow> barrier_world \<Rightarrow> barrier_world" where
  "set_phase c p w = w\<lparr>threads := aset c p (threads w)\<rparr>"

inductive barrier_step :: "(conn \<Rightarrow> recv list) \<Rightarrow> barrier_world \<Rightarrow> barrier_world \<Rightarrow> bool"
  for requests :: "conn \<Rightarrow> recv list" where
  poll: "acceptor w = Idle \<Longrightarrow> \<not> bar_stop (server w) \<Longrightarrow> barrier_step requests w (w\<lparr>acceptor := Waiting\<rparr>)"
| stop: "acceptor w = Idle \<Longrightarrow> bar_stop (server w) \<Longrightarrow> barrier_step requests w (w\<lparr>acceptor := Ended\<rparr>)"
| accept_timeout: "acceptor w = Waiting \<Longrightarrow> barrier_step requests w (w\<lparr>acceptor := Idle\<rparr>)"
| accept_failed: "acceptor w = Waiting \<Longrightarrow>
    barrier_step requests w (w\<lparr>acceptor := Ended, server := (if bar_stop (server w) then server w
      else record_error (OSError (''barrier accept failed: '' @ e)) (server w))\<rparr>)"
| accept: "acceptor w = Waiting \<Longrightarrow> c \<notin> fst ` set (threads w) \<Longrightarrow>
    barrier_step requests w (set_phase c Reading
      (w\<lparr>acceptor := Idle, server := (server w)\<lparr>bar_active := c # bar_active (server w)\<rparr>\<rparr>))"
| refuse: "map_of (threads w) c = Some Reading \<Longrightarrow> receive (requests c) = Inl e \<Longrightarrow>
    barrier_step requests w (set_phase c (Finishing False) (w\<lparr>server := record_error e (server w)\<rparr>))"
| interrupted: "map_of (threads w) c = Some Reading \<Longrightarrow> c \<in> set (closed w) \<Longrightarrow>
    barrier_step requests w (set_phase c (Finishing False) (w\<lparr>server := record_error (OSError e) (server w)\<rparr>))"
| reject: "map_of (threads w) c = Some Reading \<Longrightarrow> receive (requests c) = Inr (name, client) \<Longrightarrow>
    barrier_arrive (server w) c name client = Inl e \<Longrightarrow>
    barrier_step requests w (set_phase c (Finishing False) (w\<lparr>server := record_error e (server w)\<rparr>))"
| arrive: "map_of (threads w) c = Some Reading \<Longrightarrow> receive (requests c) = Inr (name, client) \<Longrightarrow>
    barrier_arrive (server w) c name client = Inr (b, None) \<Longrightarrow>
    barrier_step requests w (set_phase c (Finishing True) (w\<lparr>server := b\<rparr>))"
| complete: "map_of (threads w) c = Some Reading \<Longrightarrow> receive (requests c) = Inr (name, client) \<Longrightarrow>
    barrier_arrive (server w) c name client = Inr (b, Some peers) \<Longrightarrow>
    barrier_step requests w (set_phase c (Releasing peers []) (w\<lparr>server := b\<rparr>))"
| send: "map_of (threads w) c = Some (Releasing (p # peers) failures) \<Longrightarrow> p \<notin> set (closed w) \<Longrightarrow>
    barrier_step requests w
      (set_phase c (Releasing peers failures) (w\<lparr>go_sent := go_sent w @ [p], closed := p # closed w\<rparr>))"
| send_failed: "map_of (threads w) c = Some (Releasing (p # peers) failures) \<Longrightarrow>
    barrier_step requests w (set_phase c (Releasing peers (failures @ [e])) (w\<lparr>closed := p # closed w\<rparr>))"
| released: "map_of (threads w) c = Some (Releasing [] []) \<Longrightarrow>
    barrier_step requests w (set_phase c (Finishing True) w)"
| release_failed: "map_of (threads w) c = Some (Releasing [] failures) \<Longrightarrow> failures \<noteq> [] \<Longrightarrow>
    barrier_step requests w (set_phase c (Finishing True)
      (w\<lparr>server := record_error (OSError (''barrier release failed: '' @ list_repr failures)) (server w)\<rparr>))"
| finish: "map_of (threads w) c = Some (Finishing retained) \<Longrightarrow>
    barrier_step requests w (set_phase c Done
      (w\<lparr>server := (server w)\<lparr>bar_active := removeAll c (bar_active (server w))\<rparr>,
         closed := (if retained then closed w else c # closed w)\<rparr>))"
| close: "barrier_step requests w (w\<lparr>server := (server w)\<lparr>bar_stop := True\<rparr>, closed := close_connections w @ closed w\<rparr>)"


definition barrier_start :: "barrier \<Rightarrow> barrier_world" where
  "barrier_start b = \<lparr>server = b, acceptor = Idle, threads = [], go_sent = [], closed = []\<rparr>"

inductive_cases barrier_stepE: "barrier_step requests w w'"

section \<open>Invariant and abstraction of the arrivals\<close>

definition barrier_inv :: "barrier \<Rightarrow> bool" where
  "barrier_inv b \<longleftrightarrow>
     distinct (bar_completed b) \<and> set (bar_completed b) \<subseteq> set (bar_expected b) \<and> distinct (map fst (bar_arrivals b))
     \<and> (\<forall>(name, a)\<in>set (bar_arrivals b). name \<in> set (bar_expected b) - set (bar_completed b)
          \<and> (\<exists>k c. a = [(k, c)] \<and> k \<in> {0, 1}))"

text \<open>The specification: the set of pairs of barrier and client that have arrived.\<close>

definition arrived :: "barrier \<Rightarrow> (string \<times> int) set" where
  "arrived b = set (bar_completed b) \<times> {0, 1} \<union> {(name, k). k \<in> fst ` set (arrivals_at b name)}"

lemma arrivals_at_inv:
  assumes "barrier_inv b"
  obtains "arrivals_at b name = []" "map_of (bar_arrivals b) name = None"
    | k c where "arrivals_at b name = [(k, c)]" "map_of (bar_arrivals b) name = Some [(k, c)]" "k \<in> {0, 1}"
      "name \<in> set (bar_expected b)" "name \<notin> set (bar_completed b)"
proof (cases "map_of (bar_arrivals b) name")
  case None
  then show ?thesis by (intro that(1)) (simp_all add: arrivals_at_def)
next
  case (Some a)
  with assms have "name \<in> set (bar_expected b) - set (bar_completed b) \<and> (\<exists>k c. a = [(k, c)] \<and> k \<in> {0, 1})"
    unfolding barrier_inv_def by (blast dest: map_of_SomeD)
  then obtain k c where "a = [(k, c)]" "k \<in> {0, 1}" "name \<in> set (bar_expected b)" "name \<notin> set (bar_completed b)" by blast
  with Some show ?thesis by (intro that(2)) (simp_all add: arrivals_at_def)
qed

lemma barrier_init_inv:
  "barrier_init port expected = Inr b \<Longrightarrow>
     barrier_inv b \<and> arrived b = {} \<and> bar_expected b = expected \<and> bar_errors b = [] \<and> distinct expected \<and> expected \<noteq> []"
  by (auto simp: barrier_init_def barrier_inv_def arrived_def arrivals_at_def split: if_splits)

text \<open>The two ways an arrival succeeds.\<close>

lemma barrier_arrive_cases:
  assumes "barrier_inv b" "client \<in> {0, 1}" "barrier_arrive b c name client = Inr (b', peers)"
  obtains (first) "peers = None" "map_of (bar_arrivals b) name = None" "name \<in> set (bar_expected b)"
      "name \<notin> set (bar_completed b)" "b' = b\<lparr>bar_arrivals := aset name [(client, c)] (bar_arrivals b)\<rparr>"
    | (second) d where "peers = Some (if client = 0 then [c, d] else [d, c])"
      "map_of (bar_arrivals b) name = Some [(1 - client, d)]" "name \<in> set (bar_expected b)"
      "name \<notin> set (bar_completed b)"
      "b' = b\<lparr>bar_arrivals := filter (\<lambda>(n, a). n \<noteq> name) (bar_arrivals b), bar_completed := bar_completed b @ [name]\<rparr>"
  using assms(1)
proof (cases rule: arrivals_at_inv [where name = name])
  case 1
  with assms(2,3) show ?thesis
    by (intro first) (auto simp: barrier_arrive_def Let_def split: if_splits)
next
  case (2 k d)
  from assms(3) have ne: "client \<noteq> k" by (auto simp: barrier_arrive_def 2 split: if_splits)
  with 2(3) assms(2) have k: "k = 1 - client" by auto
  have "set (map fst (aset client c [(k, d)])) = {0, 1}" using ne assms(2) k by auto
  with assms(2,3) ne k 2 show ?thesis
    by (intro second) (auto simp: barrier_arrive_def Let_def split: if_splits)
qed

lemma set_aset_subset: "set (aset k v d) \<subseteq> insert (k, v) (set d)"
  by (induction k v d rule: aset.induct) auto

lemma map_of_without: "map_of (filter (\<lambda>(n, a). n \<noteq> name) xs) n = (if n = name then None else map_of xs n)"
  by (induction xs) auto

lemma barrier_arrive_refines:
  assumes "barrier_inv b" "client \<in> {0, 1}" "barrier_arrive b c name client = Inr (b', peers)"
  shows "barrier_inv b'" "arrived b' = insert (name, client) (arrived b)" "bar_expected b' = bar_expected b"
    "bar_errors b' = bar_errors b"
proof -
  note inv = assms(1) [unfolded barrier_inv_def]
  show "barrier_inv b'" using assms
  proof (cases rule: barrier_arrive_cases)
    case first
    have "set (bar_arrivals b') \<subseteq> insert (name, [(client, c)]) (set (bar_arrivals b))"
      using first(5) set_aset_subset by simp
    then have "\<forall>(n, a)\<in>set (bar_arrivals b'). n \<in> set (bar_expected b) - set (bar_completed b) \<and> (\<exists>k c. a = [(k, c)] \<and> k \<in> {0, 1})"
      using inv first(3,4) assms(2) by blast
    moreover have "distinct (map fst (bar_arrivals b'))" using inv first(5) distinct_aset by simp
    ultimately show ?thesis using inv first(5) by (simp add: barrier_inv_def)
  next
    case (second d)
    have "distinct (map fst (filter (\<lambda>(n, a). n \<noteq> name) (bar_arrivals b)))" using inv by (auto intro: distinct_map_filter)
    with second show ?thesis using inv by (auto simp: barrier_inv_def)
  qed
  define C where "C n = fst ` set (arrivals_at b n)" for n
  have abs: "arrived b = set (bar_completed b) \<times> {0, 1} \<union> {(n, k). k \<in> C n}" by (simp add: arrived_def C_def)
  show "arrived b' = insert (name, client) (arrived b)" using assms
  proof (cases rule: barrier_arrive_cases)
    case first
    then have "fst ` set (arrivals_at b' n) = (if n = name then {client} else C n)" for n by (simp add: arrivals_at_def C_def)
    moreover have "C name = {}" "bar_completed b' = bar_completed b" using first by (simp_all add: arrivals_at_def C_def)
    ultimately show ?thesis unfolding abs arrived_def [of b'] by (auto split: if_splits)
  next
    case (second d)
    then have "fst ` set (arrivals_at b' n) = (if n = name then {} else C n)" for n
      by (simp add: arrivals_at_def C_def map_of_without)
    moreover have "C name = {1 - client}" using second(2) by (simp add: arrivals_at_def C_def)
    moreover have "set (bar_completed b') = insert name (set (bar_completed b))" using second by simp
    moreover have "{0, 1} = {client, 1 - client}" using assms(2) by auto
    ultimately show ?thesis unfolding abs arrived_def [of b'] by (auto split: if_splits)
  qed
  show "bar_expected b' = bar_expected b" "bar_errors b' = bar_errors b"
    using assms by (cases rule: barrier_arrive_cases; simp)+
qed

lemma barrier_arrive_defined:
  assumes "barrier_inv b" "client \<in> {0, 1}"
  shows "(\<exists>r. barrier_arrive b c name client = Inr r) \<longleftrightarrow> name \<in> set (bar_expected b) \<and> (name, client) \<notin> arrived b"
  using assms(2) by (auto simp: barrier_arrive_def arrived_def Let_def)

section \<open>Rendezvous: the interface\<close>

text \<open>
  The contract of a two-party rendezvous: an arrival is accepted exactly when it is
  expected and new, and it is then recorded. Whatever order the parties come in, all
  expected arrivals are accepted; a repeated or unknown arrival never is.
\<close>

locale rendezvous =
  fixes enter :: "'s \<Rightarrow> 'n \<times> int \<Rightarrow> 's res" and inv :: "'s \<Rightarrow> bool"
    and present :: "'s \<Rightarrow> ('n \<times> int) set" and names :: "'s \<Rightarrow> 'n set"
  assumes enter_defined: "inv s \<Longrightarrow> k \<in> {0, 1} \<Longrightarrow> (\<exists>s'. enter s (n, k) = Inr s') \<longleftrightarrow> n \<in> names s \<and> (n, k) \<notin> present s"
    and enter_step: "inv s \<Longrightarrow> k \<in> {0, 1} \<Longrightarrow> enter s (n, k) = Inr s' \<Longrightarrow>
      inv s' \<and> present s' = insert (n, k) (present s) \<and> names s' = names s"
begin

lemma enter_sequence:
  assumes "inv s" "set ps \<subseteq> UNIV \<times> {0, 1}"
  shows "(\<exists>s'. rfold enter s ps = Inr s') \<longleftrightarrow> distinct ps \<and> fst ` set ps \<subseteq> names s \<and> set ps \<inter> present s = {}"
  using assms
proof (induction ps arbitrary: s)
  case (Cons p ps)
  obtain n k where p: "p = (n, k)" "k \<in> {0, 1}" using Cons.prems(2) by (cases p) auto
  show ?case
  proof (cases "\<exists>s'. enter s (n, k) = Inr s'")
    case True
    then obtain s' where s': "enter s (n, k) = Inr s'" by blast
    from enter_step [OF Cons.prems(1) p(2) s'] have step: "inv s'" "present s' = insert (n, k) (present s)" "names s' = names s"
      by auto
    from enter_defined [OF Cons.prems(1) p(2)] True have new: "n \<in> names s" "(n, k) \<notin> present s" by blast+
    from Cons.IH [OF step(1)] Cons.prems(2) step(2,3) new p(1) s' show ?thesis by auto
  next
    case False
    then have "\<not> (n \<in> names s \<and> (n, k) \<notin> present s)" using enter_defined [OF Cons.prems(1) p(2)] by blast
    moreover have "rfold enter s (p # ps) \<noteq> Inr s'" for s' using False by (auto simp: p rbind_Inr_iff)
    ultimately show ?thesis by (auto simp: p)
  qed
qed simp

lemma enter_result:
  assumes "inv s" "set ps \<subseteq> UNIV \<times> {0, 1}" "rfold enter s ps = Inr s'"
  shows "inv s' \<and> present s' = set ps \<union> present s \<and> names s' = names s"
  using assms
proof (induction ps arbitrary: s)
  case (Cons p ps)
  obtain n k where p: "p = (n, k)" "k \<in> {0, 1}" using Cons.prems(2) by (cases p) auto
  from Cons.prems(3) obtain u where u: "enter s (n, k) = Inr u" "rfold enter u ps = Inr s'" by (auto simp: p rbind_Inr_iff)
  from enter_step [OF Cons.prems(1) p(2) u(1)] Cons.IH [OF _ _ u(2)] Cons.prems(2) show ?case by (auto simp: p)
qed simp

end

definition enter_barrier :: "(string \<times> int \<Rightarrow> conn) \<Rightarrow> barrier \<Rightarrow> string \<times> int \<Rightarrow> barrier res" where
  "enter_barrier conn_of b p = rbind (barrier_arrive b (conn_of p) (fst p) (snd p)) (\<lambda>r. Inr (fst r))"

interpretation two_party: rendezvous "enter_barrier conn_of" barrier_inv arrived "\<lambda>b. set (bar_expected b)"
  for conn_of
proof
  fix b :: barrier and k :: int and n
  assume a: "barrier_inv b" "k \<in> {0, 1}"
  show "(\<exists>b'. enter_barrier conn_of b (n, k) = Inr b') \<longleftrightarrow> n \<in> set (bar_expected b) \<and> (n, k) \<notin> arrived b"
    using barrier_arrive_defined [OF a] by (auto simp: enter_barrier_def rbind_Inr_iff)
  fix b' assume "enter_barrier conn_of b (n, k) = Inr b'"
  then obtain peers where "barrier_arrive b (conn_of (n, k)) n k = Inr (b', peers)"
    by (auto simp: enter_barrier_def rbind_Inr_iff)
  from barrier_arrive_refines [OF a this]
  show "barrier_inv b' \<and> arrived b' = insert (n, k) (arrived b) \<and> set (bar_expected b') = set (bar_expected b)" by simp
qed

lemma all_arrived:
  assumes "barrier_inv b"
  shows "arrived b = set (bar_expected b) \<times> {0, 1} \<longleftrightarrow> set (bar_completed b) = set (bar_expected b) \<and> bar_arrivals b = []"
proof
  assume all: "arrived b = set (bar_expected b) \<times> {0, 1}"
  have both: "name \<in> set (bar_completed b)" if "name \<in> set (bar_expected b)" for name
  proof (rule ccontr)
    assume "name \<notin> set (bar_completed b)"
    moreover have "(name, 0) \<in> arrived b" "(name, 1) \<in> arrived b" unfolding all using that by auto
    ultimately have "{0, 1} \<subseteq> fst ` set (arrivals_at b name)" by (simp add: arrived_def)
    with assms show False by (elim arrivals_at_inv [where name = name]) auto
  qed
  have "bar_arrivals b = []"
  proof (cases "bar_arrivals b")
    case (Cons x xs)
    with assms have "fst x \<in> set (bar_expected b) - set (bar_completed b)" by (auto simp: barrier_inv_def split: prod.splits)
    with both show ?thesis by blast
  qed
  with both assms show "set (bar_completed b) = set (bar_expected b) \<and> bar_arrivals b = []" by (auto simp: barrier_inv_def)
qed (auto simp: arrived_def arrivals_at_def)

lemma assert_complete_iff:
  "(\<exists>s. assert_complete b = Inr s) \<longleftrightarrow> bar_errors b = [] \<and> set (bar_completed b) = set (bar_expected b) \<and> bar_arrivals b = []"
  by (auto simp: assert_complete_def snapshot_def Let_def)

lemma enter_keeps_errors:
  "rfold (enter_barrier conn_of) b ps = Inr b' \<Longrightarrow> barrier_inv b \<Longrightarrow> set ps \<subseteq> UNIV \<times> {0, 1} \<Longrightarrow> bar_errors b' = bar_errors b"
proof (induction ps arbitrary: b)
  case (Cons p ps)
  from Cons.prems(1) obtain u where u: "enter_barrier conn_of b p = Inr u" "rfold (enter_barrier conn_of) u ps = Inr b'"
    by (auto simp: rbind_Inr_iff)
  from u(1) obtain peers where a: "barrier_arrive b (conn_of p) (fst p) (snd p) = Inr (u, peers)"
    by (auto simp: enter_barrier_def rbind_Inr_iff)
  have k: "snd p \<in> {0, 1}" using Cons.prems(3) by auto
  from barrier_arrive_refines [OF Cons.prems(2) k a] Cons.IH [OF u(2)] Cons.prems(3) show ?case by simp
qed simp

section \<open>Reachable states of the concurrent server\<close>

text \<open>The handler of a connection is past its request, which names the barrier and the client.\<close>

definition entered :: "(conn \<Rightarrow> recv list) \<Rightarrow> barrier_world \<Rightarrow> conn \<Rightarrow> string \<Rightarrow> int \<Rightarrow> bool" where
  "entered requests w c name k \<longleftrightarrow>
     receive (requests c) = Inr (name, k) \<and> (\<exists>p. map_of (threads w) c = Some p \<and> p \<noteq> Reading)"

definition partnered :: "(conn \<Rightarrow> recv list) \<Rightarrow> barrier_world \<Rightarrow> conn \<Rightarrow> bool" where
  "partnered requests w c \<longleftrightarrow>
     (\<exists>name k d. entered requests w c name k \<and> entered requests w d name (1 - k) \<and> name \<in> set (bar_completed (server w)))"

definition world_inv :: "(conn \<Rightarrow> recv list) \<Rightarrow> barrier_world \<Rightarrow> bool" where
  "world_inv requests w \<longleftrightarrow>
     barrier_inv (server w)
     \<and> (\<forall>name k c. map_of (bar_arrivals (server w)) name = Some [(k, c)] \<longrightarrow> entered requests w c name k)
     \<and> (\<forall>t ps fs. map_of (threads w) t = Some (Releasing ps fs) \<longrightarrow> (\<forall>c\<in>set ps. partnered requests w c))
     \<and> (\<forall>c\<in>set (go_sent w). partnered requests w c)"

definition grows :: "barrier_world \<Rightarrow> barrier_world \<Rightarrow> bool" where
  "grows w w' \<longleftrightarrow>
     (\<forall>c p. map_of (threads w) c = Some p \<longrightarrow> p \<noteq> Reading \<longrightarrow> (\<exists>p'. map_of (threads w') c = Some p' \<and> p' \<noteq> Reading))
     \<and> set (bar_completed (server w)) \<subseteq> set (bar_completed (server w'))"

lemma partnered_grows: "grows w w' \<Longrightarrow> partnered requests w c \<Longrightarrow> partnered requests w' c"
  unfolding grows_def partnered_def entered_def by blast

lemma entered_grows: "grows w w' \<Longrightarrow> entered requests w c name k \<Longrightarrow> entered requests w' c name k"
  unfolding grows_def entered_def by blast

text \<open>Steps that touch neither the arrivals nor the pending releases.\<close>

definition keeps :: "barrier_world \<Rightarrow> barrier_world \<Rightarrow> bool" where
  "keeps w w' \<longleftrightarrow>
     bar_arrivals (server w') = bar_arrivals (server w) \<and> bar_completed (server w') = bar_completed (server w)
     \<and> bar_expected (server w') = bar_expected (server w) \<and> set (go_sent w') \<subseteq> set (go_sent w)
     \<and> (\<forall>t ps fs. map_of (threads w') t = Some (Releasing ps fs) \<longrightarrow>
          (\<exists>ps' fs'. map_of (threads w) t = Some (Releasing ps' fs') \<and> set ps \<subseteq> set ps'))"

lemma keeps_inv: "keeps w w' \<Longrightarrow> grows w w' \<Longrightarrow> world_inv requests w \<Longrightarrow> world_inv requests w'"
  unfolding world_inv_def keeps_def barrier_inv_def
  by (auto intro: partnered_grows entered_grows) (blast intro: partnered_grows)+

lemma set_phase_simps [simp]:
  "server (set_phase c p w) = server w" "threads (set_phase c p w) = aset c p (threads w)"
  "go_sent (set_phase c p w) = go_sent w" "closed (set_phase c p w) = closed w" "acceptor (set_phase c p w) = acceptor w"
  by (simp_all add: set_phase_def)

lemma fresh_thread: "c \<notin> fst ` set ts \<Longrightarrow> map_of ts c = None"
  by (simp add: map_of_eq_None_iff)

lemma receive_client: "receive rs = Inr (name, client) \<Longrightarrow> client \<in> {0, 1}"
  by (auto simp: receive_def parse_request_def rbind_Inr_iff split: if_splits list.splits)

lemma arrive_inv:
  assumes "world_inv requests w" "map_of (threads w) c = Some Reading" "receive (requests c) = Inr (name, client)"
    and "barrier_arrive (server w) c name client = Inr (b, peers)"
    and p: "p = (case peers of None \<Rightarrow> Finishing True | Some ps \<Rightarrow> Releasing ps [])"
  shows "world_inv requests (set_phase c p (w\<lparr>server := b\<rparr>))" (is "world_inv requests ?w")
proof -
  have inv: "barrier_inv (server w)" using assms(1) by (simp add: world_inv_def)
  note k = receive_client [OF assms(3)]
  have p: "p \<noteq> Reading" using p by (cases peers) simp_all
  from barrier_arrive_refines [OF inv k assms(4)] have b: "barrier_inv b" by simp
  have g: "grows w ?w" using inv k assms(4)
    by (cases rule: barrier_arrive_cases) (use p assms(2) in \<open>auto simp: grows_def set_phase_def\<close>)
  have here: "entered requests ?w c name client" using assms(3) p by (simp add: entered_def)
  have old: "n = name \<and> i = client \<and> e = c \<or> map_of (bar_arrivals (server w)) n = Some [(i, e)]"
    if "map_of (bar_arrivals b) n = Some [(i, e)]" for n i e
    using inv k assms(4) by (cases rule: barrier_arrive_cases) (use that in \<open>auto simp: map_of_without split: if_splits\<close>)
  have released: "partnered requests ?w e" if "peers = Some ps" "e \<in> set ps" for ps e
    using inv k assms(4)
  proof (cases rule: barrier_arrive_cases)
    case (second d)
    have d: "entered requests ?w d name (1 - client)"
      using second(2) assms(1) by (intro entered_grows [OF g]) (simp add: world_inv_def)
    have "name \<in> set (bar_completed (server ?w))" "1 - (1 - client) = client" using second(5) by simp_all
    then have "partnered requests ?w c" "partnered requests ?w d" unfolding partnered_def using here d by metis+
    with that second(1) show ?thesis by (auto split: if_splits)
  qed (use that in simp)
  have "\<forall>n i e. map_of (bar_arrivals (server ?w)) n = Some [(i, e)] \<longrightarrow> entered requests ?w e n i"
    using old here assms(1) entered_grows [OF g] by (fastforce simp: world_inv_def)
  moreover have "\<forall>t ps fs. map_of (threads ?w) t = Some (Releasing ps fs) \<longrightarrow> (\<forall>e\<in>set ps. partnered requests ?w e)"
  proof (intro allI impI ballI)
    fix t ps fs e
    assume t: "map_of (threads ?w) t = Some (Releasing ps fs)" "e \<in> set ps"
    show "partnered requests ?w e"
    proof (cases "t = c")
      case True
      with t assms(5) have "peers = Some ps" by (cases peers) auto
      then show ?thesis using t(2) by (rule released)
    next
      case False
      with t assms(1) have "partnered requests w e" unfolding world_inv_def by simp blast
      then show ?thesis by (rule partnered_grows [OF g])
    qed
  qed
  moreover have "\<forall>e\<in>set (go_sent ?w). partnered requests ?w e"
    using assms(1) partnered_grows [OF g] by (auto simp: world_inv_def)
  ultimately show ?thesis using b by (simp add: world_inv_def)
qed

lemma world_inv_step:
  assumes "barrier_step requests w w'" "world_inv requests w"
  shows "world_inv requests w'"
  using assms(1)
proof cases
  case (arrive c name client b)
  with arrive_inv [OF assms(2) arrive(2-4) refl] show ?thesis by simp
next
  case (complete c name client b peers)
  with arrive_inv [OF assms(2) complete(2-4) refl] show ?thesis by simp
next
  case (send c p peers failures)
  let ?w = "w\<lparr>go_sent := go_sent w @ [p], closed := p # closed w\<rparr>"
  have g: "grows w w'" using send by (auto simp: grows_def)
  have "partnered requests w p" using send(2) assms(2) unfolding world_inv_def by (meson list.set_intros(1))
  then have "world_inv requests ?w" using assms(2) unfolding world_inv_def partnered_def entered_def by auto
  moreover have "keeps ?w w'" "grows ?w w'" using send by (auto simp: keeps_def grows_def split: if_splits)
  ultimately show ?thesis by (blast intro: keeps_inv)
next
  case (accept c)
  then have "keeps w w'" "grows w w'" by (auto simp: keeps_def grows_def fresh_thread split: if_splits)
  then show ?thesis using assms(2) by (rule keeps_inv)
next
  case (send_failed c p peers failures e)
  then have "keeps w w'" "grows w w'" by (auto simp: keeps_def grows_def split: if_splits)
  then show ?thesis using assms(2) by (rule keeps_inv)
qed (rule keeps_inv [OF _ _ assms(2)]; auto simp: keeps_def grows_def record_error_def split: if_splits)+

lemma world_inv_start:
  assumes "barrier_init port expected = Inr b"
  shows "world_inv requests (barrier_start b)"
proof -
  have "bar_arrivals b = []" using assms by (auto simp: barrier_init_def split: if_splits)
  moreover have "barrier_inv b" using barrier_init_inv [OF assms] by blast
  ultimately show ?thesis by (simp add: world_inv_def barrier_start_def)
qed

lemma world_inv_reachable:
  "(barrier_step requests)\<^sup>*\<^sup>* (barrier_start b) w \<Longrightarrow> barrier_init port expected = Inr b \<Longrightarrow> world_inv requests w"
  by (induction rule: rtranclp_induct) (auto intro: world_inv_start world_inv_step)

section \<open>Correctness\<close>


definition sample_barrier :: barrier where
  "sample_barrier = \<lparr>bar_expected = [''a''], bar_port = 9, bar_stop = False, bar_arrivals = [], bar_completed = [],
     bar_errors = [], bar_active = []\<rparr>"

lemma sample_barrier_init: "barrier_init 9 [''a''] = Inr sample_barrier"
  by (simp add: barrier_init_def sample_barrier_def)


text \<open>
  (C19) Whatever the order in which the clients reach the barriers, the server copes: a
  sequence of arrivals goes through exactly when no pair of barrier and client comes twice
  and all barriers are known, and afterwards the final check succeeds exactly when both
  clients have reached every barrier.
\<close>

theorem barrier_any_order:
  assumes "barrier_init port expected = Inr b" and "set ps \<subseteq> UNIV \<times> {0, 1}"
  shows "((\<exists>b'. rfold (enter_barrier conn_of) b ps = Inr b') \<longleftrightarrow> distinct ps \<and> fst ` set ps \<subseteq> set expected)
     \<and> (\<forall>b'. rfold (enter_barrier conn_of) b ps = Inr b' \<longrightarrow>
           ((\<exists>s. assert_complete b' = Inr s) \<longleftrightarrow> set ps = set expected \<times> {0, 1}))"
proof (intro conjI allI impI)
  note i = barrier_init_inv [OF assms(1)]
  then show "(\<exists>b'. rfold (enter_barrier conn_of) b ps = Inr b') \<longleftrightarrow> distinct ps \<and> fst ` set ps \<subseteq> set expected"
    using two_party.enter_sequence [of b ps conn_of] assms(2) by auto
  fix b'
  assume r: "rfold (enter_barrier conn_of) b ps = Inr b'"
  have "barrier_inv b'" "arrived b' = set ps" "set (bar_expected b') = set expected"
    using two_party.enter_result [OF _ assms(2) r] i by auto
  moreover have "bar_errors b' = []" using enter_keeps_errors [OF r _ assms(2)] i by simp
  ultimately show "(\<exists>s. assert_complete b' = Inr s) \<longleftrightarrow> set ps = set expected \<times> {0, 1}"
    using assert_complete_iff all_arrived by metis
qed

theorem barrier_any_order_witness:
  "\<exists>b' s. rfold (enter_barrier (\<lambda>p. nat (snd p))) sample_barrier [(''a'', 1), (''a'', 0)] = Inr b' \<and> assert_complete b' = Inr s"
proof -
  have ps: "set [(''a'', 1), (''a'', 0)] \<subseteq> UNIV \<times> {0, 1}" by simp
  note any = barrier_any_order [OF sample_barrier_init ps, of "\<lambda>p. nat (snd p)"]
  then obtain b' where r: "rfold (enter_barrier (\<lambda>p. nat (snd p))) sample_barrier [(''a'', 1), (''a'', 0)] = Inr b'" by auto
  from any [THEN conjunct2, rule_format, OF r] r show ?thesis by auto
qed

text \<open>
  (C5) Under every interleaving of the accepting thread, the handlers and the network, a
  connection is sent the release only if its own request and that of another connection
  have been handled, both for the same barrier and for different clients, and that barrier
  is complete.
\<close>

theorem barrier_release_safe:
  assumes "barrier_init port expected = Inr b" and "(barrier_step requests)\<^sup>*\<^sup>* (barrier_start b) w" and "c \<in> set (go_sent w)"
  shows "\<exists>name k d. d \<noteq> c \<and> entered requests w c name k \<and> entered requests w d name (1 - k)
     \<and> name \<in> set (bar_completed (server w)) \<and> name \<in> set expected \<and> k \<in> {0, 1}"
proof -
  have inv: "world_inv requests w" using world_inv_reachable [OF assms(2,1)] .
  have names: "bar_expected (server w) = expected"
    using assms(2)
  proof (induction rule: rtranclp_induct)
    case base
    then show ?case using barrier_init_inv [OF assms(1)] by (simp add: barrier_start_def)
  next
    case (step w w')
    from step(1) have "barrier_inv (server w)" using world_inv_reachable [OF _ assms(1)] by (simp add: world_inv_def)
    with step(2,3) show ?case
      by cases (auto simp: record_error_def dest: barrier_arrive_refines(3) receive_client)
  qed
  from inv assms(3) obtain name k d where e: "entered requests w c name k" "entered requests w d name (1 - k)"
    "name \<in> set (bar_completed (server w))" by (auto simp: world_inv_def partnered_def)
  then have k: "k \<in> {0, 1}" using receive_client unfolding entered_def by blast
  have "d \<noteq> c"
  proof
    assume "d = c"
    with e(1,2) have "k = 1 - k" by (simp add: entered_def)
    then have "2 * k = 1" by simp
    then show False by presburger
  qed
  with k e inv names show ?thesis by (auto simp: world_inv_def barrier_inv_def)
qed


definition sample_requests :: "conn \<Rightarrow> recv list" where
  "sample_requests c = [Chunk (if c = 0 then ''a 0'' else ''a 1''), Chunk []]"

lemma sample_requests_received: "receive (sample_requests 0) = Inr (''a'', 0)" "receive (sample_requests 1) = Inr (''a'', 1)"
  by (simp_all add: receive_def sample_requests_def read_request.simps parse_request_def strip_ascii ascii_char_def py_split_def
      white_len_ascii)

theorem barrier_release_safe_witness:
  "\<exists>w. (barrier_step sample_requests)\<^sup>*\<^sup>* (barrier_start sample_barrier) w \<and> 0 \<in> set (go_sent w)
     \<and> (\<exists>name k d. d \<noteq> 0 \<and> entered sample_requests w 0 name k \<and> entered sample_requests w d name (1 - k)
          \<and> name \<in> set (bar_completed (server w)))"
proof -
  let ?R = "barrier_step sample_requests"
  let ?b = "\<lambda>act arr comp. \<lparr>bar_expected = [''a''], bar_port = 9, bar_stop = False, bar_arrivals = arr, bar_completed = comp,
     bar_errors = [], bar_active = act\<rparr>"
  let ?w = "\<lambda>b acc ts sent cl. \<lparr>server = b, acceptor = acc, threads = ts, go_sent = sent, closed = cl\<rparr>"
  have "?R (?w (?b [] [] []) Idle [] [] []) (?w (?b [] [] []) Waiting [] [] [])"
    using barrier_step.poll [of "?w (?b [] [] []) Idle [] [] []"] by simp
  moreover have "?R (?w (?b [] [] []) Waiting [] [] []) (?w (?b [0] [] []) Idle [(0, Reading)] [] [])"
    using barrier_step.accept [of "?w (?b [] [] []) Waiting [] [] []" 0] by (simp add: set_phase_def)
  moreover have "?R (?w (?b [0] [] []) Idle [(0, Reading)] [] []) (?w (?b [0] [(''a'', [(0, 0)])] []) Idle [(0, Finishing True)] [] [])"
    using barrier_step.arrive [where requests = sample_requests and w = "?w (?b [0] [] []) Idle [(0, Reading)] [] []" and c = 0
        and name = "''a''" and client = 0 and b = "?b [0] [(''a'', [(0, 0)])] []"] sample_requests_received(1)
    by (simp add: set_phase_def barrier_arrive_def arrivals_at_def Let_def)
  moreover have "?R (?w (?b [0] [(''a'', [(0, 0)])] []) Idle [(0, Finishing True)] [] [])
      (?w (?b [0] [(''a'', [(0, 0)])] []) Waiting [(0, Finishing True)] [] [])"
    using barrier_step.poll [of "?w (?b [0] [(''a'', [(0, 0)])] []) Idle [(0, Finishing True)] [] []"] by simp
  moreover have "?R (?w (?b [0] [(''a'', [(0, 0)])] []) Waiting [(0, Finishing True)] [] [])
      (?w (?b [1, 0] [(''a'', [(0, 0)])] []) Idle [(0, Finishing True), (1, Reading)] [] [])"
    using barrier_step.accept [of "?w (?b [0] [(''a'', [(0, 0)])] []) Waiting [(0, Finishing True)] [] []" 1]
    by (simp add: set_phase_def)
  moreover have "?R (?w (?b [1, 0] [(''a'', [(0, 0)])] []) Idle [(0, Finishing True), (1, Reading)] [] [])
      (?w (?b [1, 0] [] [''a'']) Idle [(0, Finishing True), (1, Releasing [0, 1] [])] [] [])"
    using barrier_step.complete [where requests = sample_requests and c = 1 and name = "''a''" and client = 1
        and w = "?w (?b [1, 0] [(''a'', [(0, 0)])] []) Idle [(0, Finishing True), (1, Reading)] [] []"
        and b = "?b [1, 0] [] [''a'']" and peers = "[0, 1]"] sample_requests_received(2)
    by (simp add: set_phase_def barrier_arrive_def arrivals_at_def Let_def)
  moreover have "?R (?w (?b [1, 0] [] [''a'']) Idle [(0, Finishing True), (1, Releasing [0, 1] [])] [] [])
      (?w (?b [1, 0] [] [''a'']) Idle [(0, Finishing True), (1, Releasing [1] [])] [0] [0])"
    using barrier_step.send [of "?w (?b [1, 0] [] [''a'']) Idle [(0, Finishing True), (1, Releasing [0, 1] [])] [] []" 1 0 "[1]" "[]"]
    by (simp add: set_phase_def)
  ultimately have run: "?R\<^sup>*\<^sup>* (barrier_start sample_barrier)
      (?w (?b [1, 0] [] [''a'']) Idle [(0, Finishing True), (1, Releasing [1] [])] [0] [0])"
    unfolding barrier_start_def sample_barrier_def by (meson converse_rtranclp_into_rtranclp rtranclp.rtrancl_refl)
  have go: "0 \<in> set (go_sent (?w (?b [1, 0] [] [''a'']) Idle [(0, Finishing True), (1, Releasing [1] [])] [0] [0]))" by simp
  from barrier_release_safe [OF sample_barrier_init run go] run go show ?thesis by blast
qed

end
