(* ===== verification/Three_Node.thy ===== *)
theory Three_Node
  imports Barrier Type3_Evidence Launch "HOL-Library.Char_ord" "HOL-Library.List_Lexorder" "HOL-Library.Product_Lexorder"
begin

text \<open>
  The evidence checks of scripts/legofs_type3_3node.py, one server and two clients: the
  files of a run, case results and case markers of the two clients, their final lifecycle
  inspections, the coherence counters, the overlap of the three lifetimes, and the negative
  controls that the runner applies to its own validators.
\<close>

section \<open>Files\<close>

definition create_paths ::
  "(path \<Rightarrow> path) \<Rightarrow> environ \<Rightarrow> string \<Rightarrow> int \<Rightarrow> (path \<Rightarrow> bool) \<Rightarrow> path \<Rightarrow> type3_paths res" where
  "create_paths resolve env timestamp pid exists root0 =
     (let root = resolve root0;
          output = (case env_value env ''LEGOFS_TYPE3_OUT'' of
                      Some p \<Rightarrow> p | None \<Rightarrow> path_join root ''out/legofs-type3'')
      in if \<not> is_absolute output then Inl (ValueError ''LEGOFS_TYPE3_OUT must be an absolute path'')
         else let run_dir = path_joins output [''runs-2c1s'', timestamp @ ''-'' @ show_int pid]
              in if exists run_dir then Inl (FileExistsError run_dir)
                 else t3_runtime_paths resolve env root run_dir)"

section \<open>Case results\<close>

definition CASES :: "string list" where
  "CASES = [''disjoint-write'', ''same-range'', ''writer-reader-handoff'', ''shared-read'', ''client-crash'']"

definition expected_results :: "(string \<times> int) list" where
  "expected_results = [(c, client). c \<leftarrow> CASES, client \<leftarrow> [0, 1], \<not> (c = ''client-crash'' \<and> client = 0)]"

type_synonym results = "((string \<times> int) \<times> pydict) list"

definition passed_result :: "int \<Rightarrow> pydict \<Rightarrow> bool" where
  "passed_result benchmark_bytes record =
     (py_eq (dget record ''status'') (PStr ''passed'') \<and> py_eq (dget record ''validation'') (PStr ''exact-byte-comparison'')
      \<and> py_eq (dget record ''bytes'') (PInt benchmark_bytes))"

definition add_result :: "int \<Rightarrow> int \<Rightarrow> results \<Rightarrow> pydict \<Rightarrow> results res" where
  "add_result benchmark_bytes client observed record =
     (let c = dget record ''case''; identity = dget record ''client''
      in if \<not> hashable c \<or> \<not> hashable identity then Inl TypeError
         else if list_ex (\<lambda>(s, i). py_eq c (PStr s) \<and> py_eq identity (PInt i)) (map fst observed)
         then Inl (ValueError ''duplicate 2C1S result'')
         else if \<not> py_eq identity (PInt client) then Inl (ValueError ''unexpected 2C1S result identity'')
         else case c of
           PStr s \<Rightarrow>
             if (s, client) \<notin> set expected_results then Inl (ValueError ''unexpected 2C1S result identity'')
             else if \<not> passed_result benchmark_bytes record then Inl (ValueError ''invalid 2C1S result'')
             else Inr (aset (s, client) record observed)
         | _ \<Rightarrow> Inl (ValueError ''unexpected 2C1S result identity''))"

definition case_marker :: "string \<Rightarrow> int \<Rightarrow> string" where
  "case_marker c client = ''LEG_OFS_CASE_PASS case='' @ c @ '' client='' @ show_int client"

definition client_results :: "int \<Rightarrow> results \<Rightarrow> int \<times> string \<Rightarrow> results res" where
  "client_results benchmark_bytes observed client_output =
     (case client_output of (client, output) \<Rightarrow>
        rbind (parse_prefixed_records output ''badfs_2c1s_result'' ''badfs.2c1s.case.v1'') (\<lambda>records.
        rbind (rfold (add_result benchmark_bytes client) observed records) (\<lambda>observed.
        rbind (rforall (\<lambda>c. rcheck (count_sub (case_marker c client) output \<noteq> 1)
                 (ValueError (''missing or duplicate guest case marker: '' @ case_marker c client))) CASES) (\<lambda>_.
        Inr observed))))"

text \<open>\<^verbatim>\<open>enumerate(items)\<close>.\<close>

definition enumerate_int :: "int \<Rightarrow> 'a list \<Rightarrow> (int \<times> 'a) list" where
  "enumerate_int start items = zip (map (\<lambda>i. start + int i) [0..<length items]) items"

definition validate_case_outputs :: "string list \<Rightarrow> int \<Rightarrow> pydict list res" where
  "validate_case_outputs outputs benchmark_bytes =
     rbind (rfold (client_results benchmark_bytes) [] (enumerate_int 0 outputs)) (\<lambda>observed.
     if set (map fst observed) \<noteq> set expected_results then Inl (ValueError ''2C1S result coverage mismatch'')
     else if count_sub ''BADFS_2C1S_CRASH_ARMED client=0'' (hd outputs) \<noteq> 1
     then Inl (ValueError ''client-crash did not prove an armed ungraceful client exit'')
     else Inr (map snd (sort_key fst observed)))"

section \<open>Final inspections\<close>

definition case_zero_fabric :: "string list" where
  "case_zero_fabric =
     [''staged_read_ops'', ''staged_read_bytes'', ''staged_write_ops'', ''staged_write_bytes'',
      ''blob_read_ops'', ''blob_read_bytes'', ''blob_write_ops'', ''blob_write_bytes'',
      ''legacy_read_file_block_ops'', ''legacy_write_file_block_ops'',
      ''legacy_read_fabric_block_ops'', ''legacy_write_fabric_block_ops'',
      ''stale_ref_rejections'', ''epoch_rejections'', ''checksum_failures'',
      ''quarantine_events'', ''active_leases'', ''quarantined_slots'']"

record inspection_peaks =
  owner_teardowns :: int
  direct_reads :: int
  direct_writes :: int

definition inspect_record :: "inspection_peaks \<Rightarrow> pydict \<Rightarrow> inspection_peaks res" where
  "inspect_record peaks inspection =
     (case (dget inspection ''fabric'', dget inspection ''audit'') of
        (PDict fabric, PDict audit) \<Rightarrow>
          rbind (rforall (\<lambda>name. require_value fabric name 0 (''2C1S fallback/error counter is nonzero: '' @ name))
                   case_zero_fabric) (\<lambda>_.
          rbind (rforall (\<lambda>name. require_value audit name 0 (''2C1S lifecycle audit is not quiescent: '' @ name))
                   zero_audit) (\<lambda>_.
          rbind (required_integer fabric ''owner_teardowns'') (\<lambda>teardowns.
          rbind (required_integer fabric ''trusted_direct_read_ops'') (\<lambda>reads.
          rbind (required_integer fabric ''trusted_direct_write_ops'') (\<lambda>writes.
          Inr \<lparr>owner_teardowns = max (owner_teardowns peaks) teardowns,
               direct_reads = max (direct_reads peaks) reads,
               direct_writes = max (direct_writes peaks) writes\<rparr>)))))
      | _ \<Rightarrow> Inl (ValueError ''2C1S inspection lacks fabric/audit objects''))"

definition client_inspection :: "pydict list \<Rightarrow> int \<times> string \<Rightarrow> pydict list res" where
  "client_inspection inspections client_output =
     (case client_output of (client, output) \<Rightarrow>
        rbind (parse_prefixed_records output ''badfs_lifecycle_inspection'' ''badfs.lifecycle.inspection.v1'') (\<lambda>records.
        if length records \<noteq> 1
        then Inl (ValueError (''client '' @ show_int client @ '' must emit exactly one final inspection''))
        else Inr (inspections @ records)))"

definition validate_inspections :: "string list \<Rightarrow> pydict list res" where
  "validate_inspections outputs =
     rbind (rfold client_inspection [] (enumerate_int 0 outputs)) (\<lambda>inspections.
     rbind (rfold inspect_record \<lparr>owner_teardowns = 0, direct_reads = 0, direct_writes = 0\<rparr> inspections) (\<lambda>peaks.
     if owner_teardowns peaks \<le> 0 then Inl (ValueError ''client-crash did not produce server owner teardown evidence'')
     else if direct_reads peaks \<le> 0 \<or> direct_writes peaks \<le> 0
     then Inl (ValueError ''2C1S did not exercise strict direct read and write paths'')
     else Inr inspections))"

section \<open>Coherence counters\<close>

record coherence_counts =
  snoop_send_count :: int
  model_ack_count :: int
  dirty_completion_count :: int

definition model_ack :: "pydict \<Rightarrow> bool" where
  "model_ack r = (event_is r ''snoop_ack'' \<and> py_eq (dget r ''ack_strength'') (PStr ''MODEL'') \<and> py_eq (dget r ''status'') (PStr ''OK''))"

definition validate_coherence :: "pydict list \<Rightarrow> coherence_counts res" where
  "validate_coherence records =
     rbind (rforall (\<lambda>r. rbind (in_set (dget r ''event'') error_events) (\<lambda>bad.
              rcheck bad (ValueError (''2C1S coherence error event: '' @
                (case dget r ''event'' of PStr s \<Rightarrow> s | _ \<Rightarrow> []))))) records) (\<lambda>_.
     let counts = \<lparr>snoop_send_count = count_records (\<lambda>r. event_is r ''snoop_send'') records,
                   model_ack_count = count_records model_ack records,
                   dirty_completion_count = count_records (\<lambda>r. event_is r ''dirty_completion'') records\<rparr>
     in if snoop_send_count counts = 0 \<or> model_ack_count counts = 0 \<or> dirty_completion_count counts = 0
        then Inl (ValueError ''2C1S did not produce snoop/MODEL-ACK/dirty-completion evidence'')
        else Inr counts)"

section \<open>Lifetimes and negative controls\<close>

text \<open>A process that has not been reaped has no end time; \<^verbatim>\<open>min\<close> then raises.\<close>

definition end_times :: "(int \<times> int option) list \<Rightarrow> int list res" where
  "end_times processes = rmap (\<lambda>p. case snd p of None \<Rightarrow> Inl TypeError | Some e \<Rightarrow> Inr e) processes"

definition triple_overlap_ns :: "(int \<times> int option) list \<Rightarrow> int res" where
  "triple_overlap_ns processes =
     (if processes = [] then Inl (ValueError ''max() iterable argument is empty'')
      else rbind (end_times processes) (\<lambda>ends.
           let start = Max (set (map fst processes)); finish = Min (set ends)
           in if finish \<le> start then Inl (ValueError ''the three QEMU lifetimes did not overlap'') else Inr (finish - start)))"

definition duplicate_registration :: "int \<times> int \<Rightarrow> pydict" where
  "duplicate_registration index_host =
     [(''event'', PStr ''registration''), (''status'', PStr ''OK''), (''src_host'', PInt (snd index_host)),
      (''session_id'', PInt (fst index_host + 1))]"

definition run_negative_controls :: "pydict res" where
  "run_negative_controls =
     rbind (case validate_three_registrations (map duplicate_registration [(0, 0), (1, 1), (2, 1)]) of
              Inr _ \<Rightarrow> Inr False
            | Inl (ValueError m) \<Rightarrow> Inr (contains ''duplicate coherence host ID'' m)
            | Inl e \<Rightarrow> if is_value_error e then Inr False else Inl e) (\<lambda>duplicate_host.
     rbind (case validate_case_outputs [[], []] 4096 of
              Inr _ \<Rightarrow> Inr False
            | Inl e \<Rightarrow> if is_value_error e then Inr True else Inl e) (\<lambda>missing_case.
     if \<not> duplicate_host \<or> \<not> missing_case then Inl (RuntimeError ''2C1S validator negative control failed'')
     else Inr [(''duplicate_host_id_rejected'', PBool duplicate_host),
               (''missing_case_evidence_rejected'', PBool missing_case)]))"

section \<open>Case results: what acceptance means\<close>

definition result_of :: "int \<Rightarrow> string \<times> int \<Rightarrow> pydict \<Rightarrow> bool" where
  "result_of bytes key r \<longleftrightarrow>
     dget r ''case'' = PStr (fst key) \<and> py_eq (dget r ''client'') (PInt (snd key)) \<and> passed_result bytes r"

definition results_inv :: "int \<Rightarrow> (int \<Rightarrow> pydict set) \<Rightarrow> results \<Rightarrow> bool" where
  "results_inv bytes printed observed \<longleftrightarrow>
     distinct (map fst observed)
     \<and> (\<forall>(key, r)\<in>set observed. key \<in> set expected_results \<and> result_of bytes key r \<and> r \<in> printed (snd key))"

lemma add_result_inv:
  assumes "add_result bytes client observed r = Inr observed'" "results_inv bytes printed observed" "r \<in> printed client"
  shows "results_inv bytes printed observed'"
proof -
  from assms(1) obtain s where s: "dget r ''case'' = PStr s" "py_eq (dget r ''client'') (PInt client)"
    "(s, client) \<in> set expected_results" "passed_result bytes r" "observed' = aset (s, client) r observed"
    "\<not> list_ex (\<lambda>(s, i). py_eq (dget r ''case'') (PStr s) \<and> py_eq (dget r ''client'') (PInt i)) (map fst observed)"
    by (auto simp: add_result_def Let_def simp del: py_eq_int split: if_splits pyval.splits)
  from s(1,2,6) have "(s, client) \<notin> fst ` set observed" by (auto simp: list_ex_iff simp del: py_eq_int)
  then have "observed' = observed @ [((s, client), r)]" using s(5) by (simp add: aset_fresh)
  with \<open>(s, client) \<notin> fst ` set observed\<close> s(1-4) assms(2,3) show ?thesis
    by (auto simp: results_inv_def result_of_def simp del: py_eq_int)
qed

lemma client_results_inv:
  assumes "client_results bytes observed (client, output) = Inr observed'" "results_inv bytes printed observed"
    and "\<And>rs. parse_prefixed_records output ''badfs_2c1s_result'' ''badfs.2c1s.case.v1'' = Inr rs \<Longrightarrow> set rs \<subseteq> printed client"
  shows "results_inv bytes printed observed'" "\<forall>c\<in>set CASES. count_sub (case_marker c client) output = 1"
proof -
  from assms(1) obtain rs where rs: "parse_prefixed_records output ''badfs_2c1s_result'' ''badfs.2c1s.case.v1'' = Inr rs"
    "rfold (add_result bytes client) observed rs = Inr observed'" "\<forall>c\<in>set CASES. count_sub (case_marker c client) output = 1"
    by (auto simp: client_results_def rbind_Inr_iff)
  from rs(2) assms(2) show "results_inv bytes printed observed'"
    by (rule rfold_invariant) (use assms(3) [OF rs(1)] in \<open>auto intro: add_result_inv\<close>)
  from rs(3) show "\<forall>c\<in>set CASES. count_sub (case_marker c client) output = 1" .
qed

text \<open>The expected results in the order of the report.\<close>

definition report_order :: "(string \<times> int) list" where
  "report_order = [(''client-crash'', 1), (''disjoint-write'', 0), (''disjoint-write'', 1), (''same-range'', 0), (''same-range'', 1),
     (''shared-read'', 0), (''shared-read'', 1), (''writer-reader-handoff'', 0), (''writer-reader-handoff'', 1)]"

lemma report_order_sorted: "sorted report_order" "distinct report_order" "set report_order = set expected_results"
  by (auto simp: report_order_def expected_results_def CASES_def less_eq_char_def less_char_def)

lemma sorted_observed:
  assumes "results_inv bytes printed observed" "set (map fst observed) = set expected_results"
  shows "map fst (sort_key fst observed) = report_order"
proof (rule sorted_distinct_set_unique)
  show "sorted (map fst (sort_key fst observed))" by simp
  show "distinct (map fst (sort_key fst observed))"
    using assms(1) by (simp add: results_inv_def distinct_map)
  show "set (map fst (sort_key fst observed)) = set report_order" using assms(2) by (simp add: report_order_sorted)
qed (simp_all add: report_order_sorted)


section \<open>A sample of accepted outputs\<close>

definition sample_result :: "string \<times> int \<Rightarrow> pydict" where
  "sample_result key = [(''schema_version'', PStr ''badfs.2c1s.case.v1''), (''case'', PStr (fst key)), (''client'', PInt (snd key)),
     (''status'', PStr ''passed''), (''validation'', PStr ''exact-byte-comparison''), (''bytes'', PInt 4096)]"

definition sample_results :: "int \<Rightarrow> pydict list" where
  "sample_results client = map sample_result (filter (\<lambda>key. snd key = client) expected_results)"

definition sample_markers :: "int \<Rightarrow> string list" where
  "sample_markers client =
     map (\<lambda>c. case_marker c client) CASES @ (if client = 0 then [''BADFS_2C1S_CRASH_ARMED client=0''] else [])"

definition sample_output :: "int \<Rightarrow> string" where
  "sample_output client =
     concat (map (\<lambda>x. (case x of Inl l \<Rightarrow> l | Inr r \<Rightarrow> ''badfs_2c1s_result'' @ '' '' @ json_compact (PDict r)) @ [CHR 0x0A])
       (map Inr (sample_results client) @ map Inl (sample_markers client)))"

lemma expected_results_eval:
  "expected_results = [(''disjoint-write'', 0), (''disjoint-write'', 1), (''same-range'', 0), (''same-range'', 1),
     (''writer-reader-handoff'', 0), (''writer-reader-handoff'', 1), (''shared-read'', 0), (''shared-read'', 1),
     (''client-crash'', 1)]"
  by (simp add: expected_results_def CASES_def)

lemma sample_result_ok:
  "key \<in> set expected_results \<Longrightarrow> prefixed_record_ok ''badfs.2c1s.case.v1'' (sample_result key)"
  unfolding expected_results_eval list.set
  by (elim insertE emptyE; simp add: prefixed_record_ok_def sample_result_def json_string_def escape_out_def show_int_def ascii_char_def
      py_simps)

lemma sample_markers_eval:
  "sample_markers 0 = [''LEG_OFS_CASE_PASS case=disjoint-write client=0'', ''LEG_OFS_CASE_PASS case=same-range client=0'',
     ''LEG_OFS_CASE_PASS case=writer-reader-handoff client=0'', ''LEG_OFS_CASE_PASS case=shared-read client=0'',
     ''LEG_OFS_CASE_PASS case=client-crash client=0'', ''BADFS_2C1S_CRASH_ARMED client=0'']"
  "sample_markers 1 = [''LEG_OFS_CASE_PASS case=disjoint-write client=1'', ''LEG_OFS_CASE_PASS case=same-range client=1'',
     ''LEG_OFS_CASE_PASS case=writer-reader-handoff client=1'', ''LEG_OFS_CASE_PASS case=shared-read client=1'',
     ''LEG_OFS_CASE_PASS case=client-crash client=1'']"
  by (simp_all add: sample_markers_def case_marker_def CASES_def show_int_def py_simps)

lemma sample_markers_noise:
  "\<forall>l\<in>set (sample_markers 0 @ sample_markers 1). ascii_line l \<and> \<not> starts_with (strip l) (''badfs_2c1s_result'' @ '' '')"
  unfolding sample_markers_eval by (simp add: ascii_char_def strip_ascii starts_with_def)

lemma sample_output_records:
  assumes "client \<in> {0, 1}"
  shows "parse_prefixed_records (sample_output client) ''badfs_2c1s_result'' ''badfs.2c1s.case.v1'' = Inr (sample_results client)"
proof -
  let ?items = "map Inr (sample_results client) @ map Inl (sample_markers client) :: (string + pydict) list"
  have n: "ascii_line ''badfs_2c1s_result'' \<and> ''badfs_2c1s_result'' \<noteq> [] \<and> hd ''badfs_2c1s_result'' \<noteq> CHR '' ''"
    by (simp add: ascii_char_def)
  have "\<forall>x\<in>set ?items. case x of
      Inl l \<Rightarrow> ascii_line l \<and> \<not> starts_with (strip l) (''badfs_2c1s_result'' @ '' '')
    | Inr r \<Rightarrow> prefixed_record_ok ''badfs.2c1s.case.v1'' r \<and> ascii_line ''badfs_2c1s_result''
        \<and> ''badfs_2c1s_result'' \<noteq> [] \<and> hd ''badfs_2c1s_result'' \<noteq> CHR '' ''"
    using n assms sample_markers_noise sample_result_ok by (auto simp: sample_results_def)
  from prefixed_lines.transcript_records [OF this] show ?thesis
    unfolding sample_output_def parse_prefixed_records_def by (simp add: comp_def)
qed

lemma count_sub_skip: "p \<noteq> [] \<Longrightarrow> hd p \<notin> set s \<Longrightarrow> count_sub p (s @ t) = count_sub p t"
proof (induction s)
  case (Cons c s)
  then have "\<not> starts_with (c # s @ t) p" by (cases p) (auto simp: starts_with_iff)
  with Cons show ?case by (subst count_sub.simps) simp
qed simp

lemma starts_with_line:
  assumes "starts_with (l @ CHR 0x0A # r) p" "CHR 0x0A \<notin> set p"
  shows "starts_with l p"
proof (cases "length p \<le> length l")
  case True
  with assms(1) show ?thesis by (simp add: starts_with_def)
next
  case False
  with assms(1) have "p ! length l = CHR 0x0A" unfolding starts_with_def
    by (metis nth_append_length not_le nth_take)
  with False assms(2) show ?thesis by (metis not_le nth_mem)
qed

text \<open>Counting a line in a text of lines that begin with its first character at most once.\<close>

lemma count_sub_lines:
  assumes "p \<noteq> []" "CHR 0x0A \<notin> set p"
    and "\<forall>l\<in>set ls. l \<noteq> [] \<and> hd p \<notin> set (tl l) \<and> (l \<noteq> p \<longrightarrow> \<not> starts_with l p)"
  shows "count_sub p (concat (map (\<lambda>l. l @ [CHR 0x0A]) ls)) = count_list ls p"
  using assms(3)
proof (induction ls)
  case Nil
  then show ?case by (simp add: count_sub.simps)
next
  case (Cons l ls)
  let ?rest = "concat (map (\<lambda>l. l @ [CHR 0x0A]) ls)"
  have nl: "hd p \<noteq> CHR 0x0A" using assms(1,2) by (cases p) auto
  have tail: "count_sub p (CHR 0x0A # ?rest) = count_sub p ?rest" using count_sub_skip [of p "[CHR 0x0A]" ?rest] assms(1) nl by simp
  show ?case
  proof (cases "l = p")
    case True
    obtain c q where p: "p = c # q" using assms(1) by (cases p) simp_all
    have "count_sub p (p @ CHR 0x0A # ?rest) = Suc (count_sub p (CHR 0x0A # ?rest))"
      using starts_with_append [of p "CHR 0x0A # ?rest"] by (subst count_sub.simps) (simp add: p)
    with True tail Cons show ?thesis by simp
  next
    case False
    then have "\<not> starts_with (l @ CHR 0x0A # ?rest) p" using Cons.prems starts_with_line assms(2) by auto
    moreover obtain c t where l: "l = c # t" using Cons.prems by (cases l) auto
    ultimately have "count_sub p (l @ CHR 0x0A # ?rest) = count_sub p (tl l @ CHR 0x0A # ?rest)"
      by (subst count_sub.simps) simp
    also have "\<dots> = count_sub p ?rest"
      using count_sub_skip [of p "tl l" "CHR 0x0A # ?rest"] Cons.prems assms(1) tail by simp
    finally show ?thesis using False Cons by simp
  qed
qed

lemma sample_counts:
  "hd p \<in> {CHR ''L'', CHR ''B''} \<Longrightarrow> p \<noteq> [] \<Longrightarrow> client \<in> {0, 1} \<Longrightarrow>
     count_sub p (sample_output client) = count_sub p (concat (map (\<lambda>l. l @ [CHR 0x0A]) (sample_markers client)))"
proof -
  assume p: "hd p \<in> {CHR ''L'', CHR ''B''}" "p \<noteq> []" and c: "client \<in> {0, 1}"
  let ?R = "concat (map (\<lambda>r. (''badfs_2c1s_result'' @ '' '' @ json_compact (PDict r)) @ [CHR 0x0A]) (sample_results client))"
  have "list_all (\<lambda>c. c \<noteq> hd p) (json_compact (PDict (sample_result key)))" if "key \<in> set expected_results" for key
    using that p(1) unfolding expected_results_eval list.set
    by (elim insertE emptyE; simp add: sample_result_def json_string_def escape_out_def show_int_def py_simps)
  then have "\<forall>key\<in>set expected_results. hd p \<notin> set (json_compact (PDict (sample_result key)))"
    unfolding list_all_iff by blast
  moreover have "hd p \<noteq> CHR 0x0A" "hd p \<notin> set (''badfs_2c1s_result'' @ '' '')" using p(1) by auto
  ultimately have "\<forall>r\<in>set (sample_results client). hd p \<notin> set ((''badfs_2c1s_result'' @ '' '' @ json_compact (PDict r)) @ [CHR 0x0A])"
    unfolding sample_results_def by (simp del: json_compact.simps)
  then have "hd p \<notin> set ?R" unfolding set_concat set_map by blast
  from count_sub_skip [OF p(2) this] show ?thesis unfolding sample_output_def by (simp add: comp_def del: json_compact.simps)
qed

lemma count_list_once: "distinct xs \<Longrightarrow> x \<in> set xs \<Longrightarrow> count_list xs x = 1"
  by (induction xs) (auto simp: count_list_0_iff)

lemma sample_marker_counts:
  "\<forall>c\<in>set CASES. count_sub (case_marker c 0) (sample_output 0) = 1 \<and> count_sub (case_marker c 1) (sample_output 1) = 1"
  "count_sub ''BADFS_2C1S_CRASH_ARMED client=0'' (sample_output 0) = 1"
proof -
  have one: "count_sub p (sample_output client) = 1"
    if "p \<in> set (sample_markers client)" "distinct (sample_markers client)" "client \<in> {0, 1}" "p \<noteq> []" "CHR 0x0A \<notin> set p"
      "hd p \<in> {CHR ''L'', CHR ''B''}"
      "\<forall>l\<in>set (sample_markers client). l \<noteq> [] \<and> hd p \<notin> set (tl l) \<and> (l \<noteq> p \<longrightarrow> \<not> starts_with l p)" for p client
    using that sample_counts [of p client] count_sub_lines [of p "sample_markers client"]
    by (simp add: count_list_once)
  show "\<forall>c\<in>set CASES. count_sub (case_marker c 0) (sample_output 0) = 1 \<and> count_sub (case_marker c 1) (sample_output 1) = 1"
    unfolding CASES_def
    by (intro ballI conjI one; simp add: sample_markers_eval case_marker_def show_int_def py_simps starts_with_def;
        elim disjE; simp)
  show "count_sub ''BADFS_2C1S_CRASH_ARMED client=0'' (sample_output 0) = 1"
    by (rule one) (simp_all add: sample_markers_eval starts_with_def)
qed

lemma add_sample_result:
  assumes "key \<in> set expected_results" "snd key = client" "key \<notin> fst ` set observed"
  shows "add_result 4096 client observed (sample_result key) = Inr (observed @ [(key, sample_result key)])"
proof -
  obtain s where k: "key = (s, client)" using assms(2) by (cases key) simp
  have "\<not> list_ex (\<lambda>(n, i). s = n \<and> client = i) (map fst observed)"
    using assms(3) by (force simp: list_ex_iff k)
  with assms k show ?thesis
    by (auto simp: add_result_def sample_result_def passed_result_def aset_fresh Let_def)
qed

lemma add_sample_results:
  "set keys \<subseteq> set expected_results \<Longrightarrow> \<forall>key\<in>set keys. snd key = client \<Longrightarrow> distinct keys \<Longrightarrow> set keys \<inter> fst ` set observed = {} \<Longrightarrow>
   rfold (add_result 4096 client) observed (map sample_result keys) = Inr (observed @ map (\<lambda>key. (key, sample_result key)) keys)"
proof (induction keys arbitrary: observed)
  case (Cons key keys)
  then show ?case using add_sample_result [of key client observed] by auto
qed simp

lemma sample_accepted: "\<exists>rs. validate_case_outputs [sample_output 0, sample_output 1] 4096 = Inr rs"
proof -
  let ?k = "\<lambda>client. filter (\<lambda>key. snd key = client) expected_results"
  have d: "distinct expected_results" by (simp add: expected_results_eval)
  have r0: "rfold (add_result 4096 0) [] (sample_results 0) = Inr (map (\<lambda>key. (key, sample_result key)) (?k 0))"
  proof -
    have "rfold (add_result 4096 0) [] (map sample_result (?k 0)) = Inr ([] @ map (\<lambda>key. (key, sample_result key)) (?k 0))"
      by (rule add_sample_results) (use d in auto)
    then show ?thesis unfolding sample_results_def append_Nil .
  qed
  have r1: "rfold (add_result 4096 1) (map (\<lambda>key. (key, sample_result key)) (?k 0)) (sample_results 1) =
      Inr (map (\<lambda>key. (key, sample_result key)) (?k 0) @ map (\<lambda>key. (key, sample_result key)) (?k 1))"
    unfolding sample_results_def by (rule add_sample_results) (use d in auto)
  have "\<forall>key\<in>set expected_results. snd key = 0 \<or> snd key = 1" by (simp add: expected_results_eval)
  then have all: "fst ` set (map (\<lambda>key. (key, sample_result key)) (?k 0) @ map (\<lambda>key. (key, sample_result key)) (?k 1)) =
      set expected_results" by (auto simp: image_Un image_image)
  have c0: "client_results 4096 [] (0, sample_output 0) = Inr (map (\<lambda>key. (key, sample_result key)) (?k 0))"
    using r0 sample_marker_counts(1)
    by (simp add: client_results_def sample_output_records rbind_Inr_iff del: rfold.simps)
  have c1: "client_results 4096 (map (\<lambda>key. (key, sample_result key)) (?k 0)) (1, sample_output 1) =
      Inr (map (\<lambda>key. (key, sample_result key)) (?k 0) @ map (\<lambda>key. (key, sample_result key)) (?k 1))"
    using r1 sample_marker_counts(1)
    by (simp add: client_results_def sample_output_records rbind_Inr_iff del: rfold.simps)
  have loop: "rfold (client_results 4096) [] (enumerate_int 0 [sample_output 0, sample_output 1]) =
      Inr (map (\<lambda>key. (key, sample_result key)) (?k 0) @ map (\<lambda>key. (key, sample_result key)) (?k 1))"
    using c0 c1 by (simp add: enumerate_int_def)
  show ?thesis unfolding validate_case_outputs_def loop rbind_simps set_map all list.sel
    using sample_marker_counts(2) by simp
qed


text \<open>
  The negative controls succeed: registrations that repeat a host are rejected with
  the expected message and empty client outputs are rejected, so the runner never stops
  there.
\<close>

theorem negative_controls_pass:
  "run_negative_controls =
     Inr [(''duplicate_host_id_rejected'', PBool True), (''missing_case_evidence_rejected'', PBool True)]"
proof -
  have "validate_three_registrations (map duplicate_registration [(0, 0), (1, 1), (2, 1)]) =
      Inl (ValueError ''duplicate coherence host ID: 1'')"
    by (simp add: validate_three_registrations_def duplicate_registration_def is_registration_def t3_register_three_def
        required_integer_def show_int_def py_simps)
  moreover have "\<exists>m. validate_case_outputs [[], []] 4096 = Inl (ValueError m)"
    by (simp add: validate_case_outputs_def enumerate_int_def client_results_def parse_prefixed_records_def extract_lines_def
        splitlines_def count_sub.simps CASES_def)
  moreover have "contains ''duplicate coherence host ID'' ''duplicate coherence host ID: 1''"
    by (simp add: contains_rec starts_with_def)
  ultimately show ?thesis by (auto simp: run_negative_controls_def)
qed

text \<open>
  The overlap of the three lifetimes is the number of nanoseconds that belong to all
  of them, and it is only returned when it is positive.
\<close>

theorem triple_overlap_exact:
  "triple_overlap_ns [(s0, Some e0), (s1, Some e1), (s2, Some e2)] = Inr n \<longleftrightarrow>
     n = int (card ({s0..<e0} \<inter> {s1..<e1} \<inter> {s2..<e2})) \<and> 0 < n"
proof -
  define a b where "a = max s0 (max s1 s2)" and "b = min e0 (min e1 e2)"
  have sets: "{s0..<e0} \<inter> {s1..<e1} \<inter> {s2..<e2} = {a..<b}" by (auto simp: a_def b_def)
  have m: "Max {s0, s1, s2} = a" "Min {e0, e1, e2} = b" by (simp_all add: a_def b_def)
  have e: "triple_overlap_ns [(s0, Some e0), (s1, Some e1), (s2, Some e2)] =
      (if b \<le> a then Inl (ValueError ''the three QEMU lifetimes did not overlap'') else Inr (b - a))"
    by (simp only: triple_overlap_ns_def end_times_def Let_def rmap.simps rbind_simps list.map list.set prod.sel option.case m
        list.distinct if_False)
  show ?thesis unfolding sets e by auto
qed

end
