(* ===== verification/Owned_Process.thy ===== *)
theory Owned_Process
  imports Py_Decode Type3_Evidence Launch
begin

text \<open>
  Processes the runners own: \<^verbatim>\<open>OwnedProcess\<close> of scripts/cxl_bi_app.py and
  scripts/legofs_type3_2node.py with their identity checks and termination, the shutdown of
  the coherence server, and \<^verbatim>\<open>stop_owned_process\<close> and \<^verbatim>\<open>Console.terminate\<close> of scripts/run.py.
  What the operating system answers is a parameter: the answer to the n-th call. Every
  call advances the counter \<open>tick\<close>, and every delivered signal is logged with its tick, so
  that the order of observations and signals can be stated.
\<close>

section \<open>Operating system answers and process state\<close>

record os_answers =
  poll_at :: "nat \<Rightarrow> int option"
  cmdline_at :: "nat \<Rightarrow> string option"
  pgid_at :: "nat \<Rightarrow> int option"
  stat_at :: "nat \<Rightarrow> string option"
  clock_at :: "nat \<Rightarrow> int"
  exits_at :: "nat \<Rightarrow> bool"
  kill_error_at :: "nat \<Rightarrow> string option"

record proc =
  ow_pid :: int
  ow_command :: "string list"
  ow_run_dir :: path
  ow_owner_token :: string
  ow_start_ns :: int
  ow_end_ns :: "int option"
  ow_stop_reason :: "string option"
  ow_start_ticks :: "int option"
  tick :: nat
  signals :: "(nat \<times> int) list"

type_synonym 'a act = "proc \<Rightarrow> 'a res \<times> proc"

abbreviation SIGINT :: int where "SIGINT \<equiv> 2"
abbreviation SIGKILL :: int where "SIGKILL \<equiv> 9"
abbreviation SIGTERM :: int where "SIGTERM \<equiv> 15"

definition areturn :: "'a \<Rightarrow> 'a act" where
  "areturn x s = (Inr x, s)"

definition abind :: "'a act \<Rightarrow> ('a \<Rightarrow> 'b act) \<Rightarrow> 'b act" where
  "abind m f s = (case m s of (Inl e, s') \<Rightarrow> (Inl e, s') | (Inr x, s') \<Rightarrow> f x s')"

definition aupdate :: "(proc \<Rightarrow> proc) \<Rightarrow> unit act" where
  "aupdate f s = (Inr (), f s)"

text \<open>\<^verbatim>\<open>try: m except subprocess.TimeoutExpired: h\<close>.\<close>

definition on_timeout :: "'a act \<Rightarrow> 'a act \<Rightarrow> 'a act" where
  "on_timeout m h s = (case m s of (Inl TimeoutExpired, s') \<Rightarrow> h s' | r \<Rightarrow> r)"

definition observe :: "(nat \<Rightarrow> 'a) \<Rightarrow> 'a act" where
  "observe f s = (Inr (f (tick s)), s\<lparr>tick := Suc (tick s)\<rparr>)"

definition wait_exit :: "os_answers \<Rightarrow> unit act" where
  "wait_exit os s = (if exits_at os (tick s) then Inr () else Inl TimeoutExpired, s\<lparr>tick := Suc (tick s)\<rparr>)"

definition deliver :: "os_answers \<Rightarrow> int \<Rightarrow> unit act" where
  "deliver os sig s =
     (case kill_error_at os (tick s) of
        Some e \<Rightarrow> (Inl (OSError e), s\<lparr>tick := Suc (tick s)\<rparr>)
      | None \<Rightarrow> (Inr (), s\<lparr>tick := Suc (tick s), signals := signals s @ [(tick s, sig)]\<rparr>))"

section \<open>Identity checks\<close>

definition record_exit :: "os_answers \<Rightarrow> unit act" where
  "record_exit os s =
     (if ow_end_ns s \<noteq> None then (Inr (), s)
      else abind (observe (poll_at os)) (\<lambda>r.
             if r = None then areturn ()
             else abind (observe (clock_at os)) (\<lambda>now. aupdate (\<lambda>s. s\<lparr>ow_end_ns := Some now\<rparr>))) s)"

text \<open>\<^verbatim>\<open>[field.decode(errors="replace") for field in raw.split(b"\0") if field]\<close>.\<close>

fun split_nul :: "string \<Rightarrow> string \<Rightarrow> string list" where
  "split_nul acc [] = [rev acc]"
| "split_nul acc (c # cs) = (if c = CHR 0x00 then rev acc # split_nul [] cs else split_nul (c # acc) cs)"

definition cmdline_fields :: "string \<Rightarrow> string list" where
  "cmdline_fields raw = map decode_replace (filter (\<lambda>f. f \<noteq> []) (split_nul [] raw))"

definition bi_identity :: "proc \<Rightarrow> string \<Rightarrow> int \<Rightarrow> bool" where
  "bi_identity s raw process_group =
     (case cmdline_fields raw of
        [] \<Rightarrow> False
      | f # fs \<Rightarrow> process_group = ow_pid s \<and> path_name f = path_name (hd (ow_command s))
          \<and> list_ex (contains (ow_run_dir s)) (f # fs))"

definition bi_matches_live_pid :: "os_answers \<Rightarrow> bool act" where
  "bi_matches_live_pid os =
     abind (observe (poll_at os)) (\<lambda>r.
     if r \<noteq> None then abind (record_exit os) (\<lambda>_. areturn False)
     else abind (observe (cmdline_at os)) (\<lambda>raw. case raw of
            None \<Rightarrow> areturn False
          | Some raw \<Rightarrow> abind (observe (pgid_at os)) (\<lambda>g. case g of
              None \<Rightarrow> areturn False
            | Some g \<Rightarrow> (\<lambda>s. (Inr (bi_identity s raw g), s)))))"

text \<open>\<^verbatim>\<open>text.rsplit(")", 1)[1].split()[19]\<close> as an integer; any failure gives no value.\<close>

definition start_ticks_of :: "string \<Rightarrow> int option" where
  "start_ticks_of text =
     (if CHR '')'' \<notin> set text then None
      else let fields = py_split (rev (takeWhile (\<lambda>c. c \<noteq> CHR '')'') (rev text)))
           in if length fields \<le> 19 then None else py_int (fields ! 19))"

definition pid_start_ticks :: "os_answers \<Rightarrow> int option act" where
  "pid_start_ticks os = abind (observe (stat_at os)) (\<lambda>text. areturn (Option.bind text start_ticks_of))"

definition t3_identity :: "proc \<Rightarrow> string \<Rightarrow> int option \<Rightarrow> bool" where
  "t3_identity s raw ticks =
     (case cmdline_fields raw of
        [] \<Rightarrow> False
      | f # fs \<Rightarrow> ow_start_ticks s \<noteq> None \<and> ticks = ow_start_ticks s
          \<and> path_name f = path_name (hd (ow_command s)) \<and> fs = tl (ow_command s))"

definition t3_matches_live_pid :: "os_answers \<Rightarrow> bool act" where
  "t3_matches_live_pid os =
     abind (observe (poll_at os)) (\<lambda>r.
     if r \<noteq> None then abind (record_exit os) (\<lambda>_. areturn False)
     else abind (observe (cmdline_at os)) (\<lambda>raw. case raw of
            None \<Rightarrow> areturn False
          | Some raw \<Rightarrow> (\<lambda>s.
              if cmdline_fields raw = [] \<or> ow_start_ticks s = None then (Inr False, s)
              else abind (pid_start_ticks os) (\<lambda>ticks. (\<lambda>s. (Inr (t3_identity s raw ticks), s))) s)))"

section \<open>Signals\<close>

text \<open>Both runners signal only after the identity check; they differ in the check and in the reason kept.\<close>

definition send_checked :: "bool act \<Rightarrow> (string \<Rightarrow> proc \<Rightarrow> proc) \<Rightarrow> os_answers \<Rightarrow> int \<Rightarrow> bool act" where
  "send_checked matches mark os sig =
     abind matches (\<lambda>ok. if \<not> ok then areturn False
       else abind (deliver os sig) (\<lambda>_. abind (aupdate (mark [])) (\<lambda>_. areturn True)))"

definition terminate_with :: "bool act \<Rightarrow> (string \<Rightarrow> proc \<Rightarrow> proc) \<Rightarrow> os_answers \<Rightarrow> unit act" where
  "terminate_with matches mark os =
     abind (send_checked matches mark os SIGTERM) (\<lambda>sent.
     if \<not> sent then areturn ()
     else abind (on_timeout (wait_exit os)
                  (abind matches (\<lambda>ok.
                   abind (if ok then abind (deliver os SIGKILL) (\<lambda>_. aupdate (mark '':sigkill'')) else areturn ()) (\<lambda>_.
                   wait_exit os)))) (\<lambda>_.
          record_exit os))"

definition set_reason :: "string \<Rightarrow> string \<Rightarrow> proc \<Rightarrow> proc" where
  "set_reason reason suffix s = s\<lparr>ow_stop_reason := Some (reason @ suffix)\<rparr>"

definition bi_send_signal :: "os_answers \<Rightarrow> int \<Rightarrow> string \<Rightarrow> bool act" where
  "bi_send_signal os sig reason = send_checked (bi_matches_live_pid os) (set_reason reason) os sig"

definition bi_terminate_owned :: "os_answers \<Rightarrow> string \<Rightarrow> unit act" where
  "bi_terminate_owned os reason = terminate_with (bi_matches_live_pid os) (set_reason reason) os"

definition t3_terminate_owned :: "os_answers \<Rightarrow> unit act" where
  "t3_terminate_owned os = terminate_with (t3_matches_live_pid os) (\<lambda>_ s. s) os"

definition stop_server :: "os_answers \<Rightarrow> unit act" where
  "stop_server os =
     abind (observe (poll_at os)) (\<lambda>r.
     if r \<noteq> None then record_exit os
     else abind (bi_send_signal os SIGINT ''runner_after_guest_summaries'') (\<lambda>sent.
          abind (if sent then on_timeout (wait_exit os) (bi_terminate_owned os ''server_sigint_timeout'') else areturn ()) (\<lambda>_.
          record_exit os)))"

text \<open>The process report.\<close>

definition opt_int :: "int option \<Rightarrow> pyval" where
  "opt_int v = (case v of None \<Rightarrow> PNone | Some i \<Rightarrow> PInt i)"

definition opt_str :: "string option \<Rightarrow> pyval" where
  "opt_str v = (case v of None \<Rightarrow> PNone | Some t \<Rightarrow> PStr t)"

definition bi_as_json :: "os_answers \<Rightarrow> pydict act" where
  "bi_as_json os =
     abind (record_exit os) (\<lambda>_. abind (observe (poll_at os)) (\<lambda>returncode. \<lambda>s.
     (Inr [(''pid'', PInt (ow_pid s)), (''command'', PList (map PStr (ow_command s))),
           (''start_monotonic_ns'', PInt (ow_start_ns s)), (''end_monotonic_ns'', opt_int (ow_end_ns s)),
           (''owner_token'', PStr (ow_owner_token s)), (''returncode'', opt_int returncode),
           (''stop_reason'', opt_str (ow_stop_reason s))], s)))"

definition t3_as_json :: "os_answers \<Rightarrow> pydict act" where
  "t3_as_json os =
     abind (record_exit os) (\<lambda>_. abind (observe (poll_at os)) (\<lambda>returncode. \<lambda>s.
     (Inr [(''pid'', PInt (ow_pid s)), (''command'', PList (map PStr (ow_command s))),
           (''start_monotonic_ns'', PInt (ow_start_ns s)), (''pid_start_ticks'', opt_int (ow_start_ticks s)),
           (''end_monotonic_ns'', opt_int (ow_end_ns s)), (''owner_token'', PStr (ow_owner_token s)),
           (''returncode'', opt_int returncode)], s)))"

section \<open>Escalation without identity checks\<close>

definition stop_owned_process :: "os_answers \<Rightarrow> unit act" where
  "stop_owned_process os =
     abind (observe (poll_at os)) (\<lambda>r.
     if r \<noteq> None then areturn ()
     else abind (deliver os SIGINT) (\<lambda>_.
          on_timeout (wait_exit os)
            (abind (deliver os SIGTERM) (\<lambda>_.
             on_timeout (wait_exit os)
               (abind (deliver os SIGKILL) (\<lambda>_. wait_exit os))))))"

definition console_terminate :: "os_answers \<Rightarrow> unit act" where
  "console_terminate os =
     abind (observe (poll_at os)) (\<lambda>r.
     if r \<noteq> None then areturn ()
     else abind (deliver os SIGTERM) (\<lambda>_.
          on_timeout (wait_exit os) (abind (deliver os SIGKILL) (\<lambda>_. wait_exit os))))"

section \<open>Sequencing lemmas\<close>

lemma abind_eq [simp]:
  "abind m f s = (r, s'') \<longleftrightarrow>
     (\<exists>e. m s = (Inl e, s'') \<and> r = Inl e) \<or> (\<exists>x s'. m s = (Inr x, s') \<and> f x s' = (r, s''))"
  by (auto simp: abind_def split: prod.splits sum.splits)

lemma act_simps [simp]:
  "areturn x s = (r, s') \<longleftrightarrow> r = Inr x \<and> s' = s"
  "aupdate g s = (ru, s') \<longleftrightarrow> ru = Inr () \<and> s' = g s"
  "observe f s = (r', s') \<longleftrightarrow> r' = Inr (f (tick s)) \<and> s' = s\<lparr>tick := Suc (tick s)\<rparr>"
  by (auto simp: areturn_def aupdate_def observe_def)

lemma on_timeout_eq [simp]:
  "on_timeout m h s = (r, s'') \<longleftrightarrow>
     m s = (r, s'') \<and> r \<noteq> Inl TimeoutExpired \<or> (\<exists>s'. m s = (Inl TimeoutExpired, s') \<and> h s' = (r, s''))"
  by (cases "m s") (auto simp: on_timeout_def split: sum.splits pyerr.splits)

lemma wait_exit_eq [simp]:
  "wait_exit os s = (r, s') \<longleftrightarrow>
     r = (if exits_at os (tick s) then Inr () else Inl TimeoutExpired) \<and> s' = s\<lparr>tick := Suc (tick s)\<rparr>"
  by (auto simp: wait_exit_def)

lemma deliver_cases:
  assumes "deliver os sig s = (r, s')"
  obtains (failed) e where "r = Inl (OSError e)" "s' = s\<lparr>tick := Suc (tick s)\<rparr>"
    | (sent) "r = Inr ()" "s' = s\<lparr>tick := Suc (tick s), signals := signals s @ [(tick s, sig)]\<rparr>"
  using assms by (auto simp: deliver_def split: option.splits)

text \<open>What no operation changes.\<close>

definition static :: "proc \<Rightarrow> int \<times> string list \<times> path \<times> int option" where
  "static s = (ow_pid s, ow_command s, ow_run_dir s, ow_start_ticks s)"

lemma static_simps [simp]:
  "static (s\<lparr>tick := t\<rparr>) = static s" "static (s\<lparr>signals := l\<rparr>) = static s" "static (s\<lparr>ow_end_ns := e\<rparr>) = static s"
  "static (s\<lparr>ow_stop_reason := m\<rparr>) = static s" "static (s\<lparr>tick := t, signals := l\<rparr>) = static s"
  by (simp_all add: static_def)

lemma record_exit_frame: "record_exit os s = (r, s') \<Longrightarrow> r = Inr () \<and> static s' = static s \<and> signals s' = signals s \<and> tick s \<le> tick s'"
  by (auto simp: record_exit_def split: if_splits)

section \<open>Checked signals: the interface\<close>

text \<open>
  The contract of an identity check: it sends nothing, changes nothing that identifies the
  process, and when it succeeds the process was identified by the observations just before
  the current tick. A client that signals through it only signals an identified process.
\<close>

locale identity_check =
  fixes matches :: "bool act" and ident :: "proc \<Rightarrow> nat \<Rightarrow> bool"
  assumes matches_frame: "matches s = (r, s') \<Longrightarrow> static s' = static s \<and> signals s' = signals s \<and> tick s < tick s'"
    and matches_ident: "matches s = (Inr True, s') \<Longrightarrow> ident s (tick s')"
    and ident_static: "static s = static s' \<Longrightarrow> ident s = ident s'"

text \<open>
  The signals sent on top of the log: nothing, or a termination request, or a termination
  request and a kill after the wait that followed it had timed out; all of them at ticks
  where the process was identified.
\<close>

definition escalates :: "os_answers \<Rightarrow> (nat \<Rightarrow> bool) \<Rightarrow> (nat \<times> int) list \<Rightarrow> (nat \<times> int) list \<Rightarrow> bool" where
  "escalates os identified before after \<longleftrightarrow>
     after = before
     \<or> (\<exists>t. after = before @ [(t, SIGTERM)] \<and> identified t)
     \<or> (\<exists>t k. after = before @ [(t, SIGTERM), (k, SIGKILL)] \<and> identified t \<and> identified k \<and> Suc t < k \<and> \<not> exits_at os (Suc t))"

locale marked_check = identity_check +
  fixes mark :: "string \<Rightarrow> proc \<Rightarrow> proc"
  assumes mark_frame: "static (mark suffix s) = static s \<and> signals (mark suffix s) = signals s \<and> tick (mark suffix s) = tick s"
begin

lemma send_checked_signals:
  assumes "send_checked matches mark os sig s = (r, s')"
  shows "static s' = static s" "r = Inr True \<and> (\<exists>t. signals s' = signals s @ [(t, sig)] \<and> ident s t \<and> tick s' = Suc t)
     \<or> r \<noteq> Inr True \<and> signals s' = signals s"
proof -
  from assms consider (bad) e where "matches s = (Inl e, s')" "r = Inl e" | (no) "matches s = (Inr False, s')" "r = Inr False"
    | (fail) s1 e where "matches s = (Inr True, s1)" "deliver os sig s1 = (Inl e, s')" "r = Inl e"
    | (ok) s1 s2 where "matches s = (Inr True, s1)" "deliver os sig s1 = (Inr (), s2)" "r = Inr True" "s' = mark [] s2"
    by (auto simp: send_checked_def split: if_splits)
  then have "static s' = static s \<and> (r = Inr True \<and> (\<exists>t. signals s' = signals s @ [(t, sig)] \<and> ident s t \<and> tick s' = Suc t)
     \<or> r \<noteq> Inr True \<and> signals s' = signals s)"
  proof cases
    case bad
    then show ?thesis using matches_frame by auto
  next
    case no
    then show ?thesis using matches_frame by auto
  next
    case (fail s1 e)
    from fail(2) show ?thesis by (cases rule: deliver_cases) (use fail matches_frame [OF fail(1)] in auto)
  next
    case (ok s1 s2)
    from ok(2) show ?thesis
      by (cases rule: deliver_cases) (use ok matches_frame [OF ok(1)] matches_ident [OF ok(1)] mark_frame in auto)
  qed
  then show "static s' = static s" "r = Inr True \<and> (\<exists>t. signals s' = signals s @ [(t, sig)] \<and> ident s t \<and> tick s' = Suc t)
     \<or> r \<noteq> Inr True \<and> signals s' = signals s" by blast+
qed

lemma kill_signals:
  assumes "abind matches (\<lambda>ok. abind (if ok then abind (deliver os SIGKILL) (\<lambda>_. aupdate (mark '':sigkill'')) else areturn ())
      (\<lambda>_. wait_exit os)) s = (r, s')"
  shows "static s' = static s \<and> (signals s' = signals s
     \<or> (\<exists>k. signals s' = signals s @ [(k, SIGKILL)] \<and> ident s k \<and> tick s < k))"
proof -
  from assms consider (quiet) r1 s1 where "matches s = (r1, s1)" "signals s' = signals s1" "static s' = static s1"
    | (kill) s1 r2 s2 where "matches s = (Inr True, s1)" "deliver os SIGKILL s1 = (r2, s2)" "signals s' = signals s2" "static s' = static s2"
    using mark_frame by (fastforce split: if_splits)
  then show ?thesis
  proof cases
    case quiet
    with matches_frame show ?thesis by metis
  next
    case (kill s1 r2 s2)
    from kill(2) show ?thesis
      by (cases rule: deliver_cases) (use kill matches_frame [OF kill(1)] matches_ident [OF kill(1)] in auto)
  qed
qed

text \<open>The only signals are a termination request and, when it was not heeded in time, a kill.\<close>

lemma terminate_signals:
  assumes "terminate_with matches mark os s = (r, s')"
  shows "static s' = static s \<and> escalates os (ident s) (signals s) (signals s')"
proof -
  define h where "h = abind matches (\<lambda>ok.
      abind (if ok then abind (deliver os SIGKILL) (\<lambda>_. aupdate (mark '':sigkill'')) else areturn ()) (\<lambda>_. wait_exit os))"
  obtain r1 s1 where first: "send_checked matches mark os SIGTERM s = (r1, s1)" by fastforce
  have rest: "if r1 = Inr True then abind (on_timeout (wait_exit os) h) (\<lambda>_. record_exit os) s1 = (r, s') else s' = s1"
    using assms unfolding terminate_with_def h_def [symmetric] abind_def [of "send_checked matches mark os SIGTERM"] first
    by (cases r1) (auto split: if_splits simp del: abind_eq)
  note f = send_checked_signals [OF first]
  show ?thesis
  proof (cases "r1 = Inr True")
    case False
    with f rest show ?thesis by (auto simp: escalates_def)
  next
    case True
    with f(2) obtain t where t: "signals s1 = signals s @ [(t, SIGTERM)]" "ident s t" "tick s1 = Suc t" by auto
    obtain r2 s2 where w: "on_timeout (wait_exit os) h s1 = (r2, s2)" by (metis surj_pair)
    with True rest have w2: "s' = s2 \<or> record_exit os s2 = (r, s')" by (cases r2) (auto simp: abind_def)
    have frame: "static s' = static s2" "signals s' = signals s2" using w2 record_exit_frame by blast+
    show ?thesis
    proof (cases "exits_at os (Suc t)")
      case True
      with w t have "static s2 = static s1" "signals s2 = signals s1" by auto
      with f(1) t frame show ?thesis by (auto simp: escalates_def)
    next
      case False
      with w t(3) have h: "h (s1\<lparr>tick := Suc (Suc t)\<rparr>) = (r2, s2)" by auto
      have "static s2 = static s1 \<and> (signals s2 = signals s1 \<or> (\<exists>k. signals s2 = signals s1 @ [(k, SIGKILL)] \<and> ident s1 k \<and> Suc t < k))"
        using kill_signals [OF h [unfolded h_def]] ident_static [of "s1\<lparr>tick := Suc (Suc t)\<rparr>" s1] by auto
      with f(1) t frame False ident_static [of s1 s] show ?thesis by (auto simp: escalates_def)
    qed
  qed
qed

end

section \<open>Both runners check identity\<close>

text \<open>The observations of the three ticks before a signal identify the process (two-guest runner).\<close>

definition bi_identified :: "os_answers \<Rightarrow> proc \<Rightarrow> nat \<Rightarrow> bool" where
  "bi_identified os s t \<longleftrightarrow>
     3 \<le> t \<and> poll_at os (t - 3) = None
     \<and> (\<exists>raw g. cmdline_at os (t - 2) = Some raw \<and> pgid_at os (t - 1) = Some g \<and> bi_identity s raw g)"

text \<open>The same for the two-node runner, with the start time of the process instead of its group.\<close>

definition t3_identified :: "os_answers \<Rightarrow> proc \<Rightarrow> nat \<Rightarrow> bool" where
  "t3_identified os s t \<longleftrightarrow>
     3 \<le> t \<and> poll_at os (t - 3) = None
     \<and> (\<exists>raw. cmdline_at os (t - 2) = Some raw \<and> t3_identity s raw (Option.bind (stat_at os (t - 1)) start_ticks_of))"

lemma bi_identity_static: "static s = static s' \<Longrightarrow> bi_identity s = bi_identity s'"
  by (auto simp: static_def bi_identity_def fun_eq_iff split: list.splits)

lemma t3_identity_static: "static s = static s' \<Longrightarrow> t3_identity s = t3_identity s'"
  by (auto simp: static_def t3_identity_def fun_eq_iff split: list.splits)

lemma bi_matches_frame:
  assumes "bi_matches_live_pid os s = (r, s')"
  shows "static s' = static s \<and> signals s' = signals s \<and> tick s < tick s'"
  using assms record_exit_frame [of os "s\<lparr>tick := Suc (tick s)\<rparr>"]
  by (auto simp: bi_matches_live_pid_def split: if_splits option.splits)

lemma t3_matches_frame:
  assumes "t3_matches_live_pid os s = (r, s')"
  shows "static s' = static s \<and> signals s' = signals s \<and> tick s < tick s'"
  using assms record_exit_frame [of os "s\<lparr>tick := Suc (tick s)\<rparr>"]
  by (auto simp: t3_matches_live_pid_def pid_start_ticks_def split: if_splits option.splits)

lemma bi_matches_ident:
  assumes "bi_matches_live_pid os s = (Inr True, s')"
  shows "bi_identified os s (tick s')"
proof -
  from assms obtain raw g where "poll_at os (tick s) = None" "cmdline_at os (Suc (tick s)) = Some raw"
    "pgid_at os (Suc (Suc (tick s))) = Some g" "bi_identity s' raw g" "tick s' = tick s + 3" "static s' = static s"
    by (auto simp: bi_matches_live_pid_def split: if_splits option.splits)
  then show ?thesis using bi_identity_static [of s' s] by (auto simp: bi_identified_def)
qed

lemma t3_matches_ident:
  assumes "t3_matches_live_pid os s = (Inr True, s')"
  shows "t3_identified os s (tick s')"
proof -
  from assms obtain raw where "poll_at os (tick s) = None" "cmdline_at os (Suc (tick s)) = Some raw"
    "t3_identity s' raw (Option.bind (stat_at os (Suc (Suc (tick s)))) start_ticks_of)" "tick s' = tick s + 3" "static s' = static s"
    by (auto simp: t3_matches_live_pid_def pid_start_ticks_def split: if_splits option.splits)
  then show ?thesis using t3_identity_static [of s' s] by (auto simp: t3_identified_def)
qed

interpretation bi_check: marked_check "bi_matches_live_pid os" "bi_identified os" "set_reason reason" for os reason
  by unfold_locales
     (auto simp: bi_identified_def set_reason_def fun_eq_iff dest: bi_matches_frame bi_matches_ident bi_identity_static)

interpretation t3_check: marked_check "t3_matches_live_pid os" "t3_identified os" "\<lambda>_ s. s" for os
  by unfold_locales
     (auto simp: t3_identified_def fun_eq_iff dest: t3_matches_frame t3_matches_ident t3_identity_static)

text \<open>
  (C14) Runners only signal processes they own: terminating a process sends nothing, or
  SIGTERM, or SIGTERM followed by SIGKILL after the wait for the first one has timed out;
  and at each of these signals the observations immediately before it showed the process
  alive with the command it was started with (and its process group, respectively its start
  time). This holds for both runners, whatever the operating system answers.
\<close>

theorem owned_termination_safe:
  "(bi_terminate_owned os reason s = (r, s') \<longrightarrow> escalates os (bi_identified os s) (signals s) (signals s'))
   \<and> (t3_terminate_owned os s = (r, s') \<longrightarrow> escalates os (t3_identified os s) (signals s) (signals s'))"
  using bi_check.terminate_signals t3_check.terminate_signals
  unfolding bi_terminate_owned_def t3_terminate_owned_def by blast

definition sample_os :: os_answers where
  "sample_os = \<lparr>poll_at = (\<lambda>_. None), cmdline_at = (\<lambda>_. Some (''qemu'' @ [CHR 0x00] @ ''/r'')), pgid_at = (\<lambda>_. Some 7),
     stat_at = (\<lambda>_. None), clock_at = (\<lambda>n. int n), exits_at = (\<lambda>_. False), kill_error_at = (\<lambda>_. None)\<rparr>"

definition sample_proc :: proc where
  "sample_proc = \<lparr>ow_pid = 7, ow_command = [''/b/qemu''], ow_run_dir = ''/r'', ow_owner_token = [], ow_start_ns = 0,
     ow_end_ns = None, ow_stop_reason = None, ow_start_ticks = None, tick = 0, signals = []\<rparr>"

lemma sample_matches:
  assumes "static s = static sample_proc"
  shows "bi_matches_live_pid sample_os s = (Inr True, s\<lparr>tick := tick s + 3\<rparr>)"
proof -
  have "bi_identity sample_proc (''qemu'' @ [CHR 0x00] @ ''/r'') 7"
    by (simp add: bi_identity_def sample_proc_def cmdline_fields_def decode_replace_valid path_name_def contains_rec starts_with_def)
  then have "bi_identity (s\<lparr>tick := tick s + 3\<rparr>) (''qemu'' @ [CHR 0x00] @ ''/r'') 7"
    using bi_identity_static [of "s\<lparr>tick := tick s + 3\<rparr>" sample_proc] assms by simp
  then show ?thesis by (simp add: bi_matches_live_pid_def sample_os_def numeral_3_eq_3)
qed

lemma sample_terminates:
  "\<exists>s'. bi_terminate_owned sample_os ''cleanup'' sample_proc = (Inl TimeoutExpired, s') \<and> signals s' = [(3, SIGTERM), (8, SIGKILL)]"
proof -
  have d: "deliver sample_os sig s = (Inr (), s\<lparr>tick := Suc (tick s), signals := signals s @ [(tick s, sig)]\<rparr>)" for sig s
    by (simp add: deliver_def sample_os_def)
  have st: "static (set_reason m x s) = static s" for m x s by (simp add: set_reason_def)
  have w: "exits_at sample_os n = False" for n by (simp add: sample_os_def)
  have p: "tick sample_proc = 0" "signals sample_proc = []" by (simp_all add: sample_proc_def)
  show ?thesis
    unfolding bi_terminate_owned_def terminate_with_def send_checked_def
    by (simp add: abind_def areturn_def aupdate_def on_timeout_def wait_exit_def sample_matches d st w p
        del: abind_eq act_simps on_timeout_eq wait_exit_eq) (simp add: set_reason_def p)
qed

theorem owned_termination_safe_witness:
  "\<exists>s'. bi_terminate_owned sample_os ''cleanup'' sample_proc = (Inl TimeoutExpired, s')
     \<and> escalates sample_os (bi_identified sample_os sample_proc) [] (signals s') \<and> signals s' = [(3, SIGTERM), (8, SIGKILL)]"
proof -
  obtain s' where r: "bi_terminate_owned sample_os ''cleanup'' sample_proc = (Inl TimeoutExpired, s')"
    "signals s' = [(3, SIGTERM), (8, SIGKILL)]" using sample_terminates by blast
  from owned_termination_safe [of sample_os "''cleanup''" sample_proc "Inl TimeoutExpired" s'] r show ?thesis
    by (simp add: sample_proc_def)
qed

text \<open>
  The shared-memory runner escalates in order: it asks the server to stop with SIGINT,
  then SIGTERM, then SIGKILL, each only when the wait after the previous signal timed out,
  and it returns normally exactly when the process was gone before or ended in one of the
  three waits.
\<close>

theorem stop_owned_process_escalates:
  assumes "kill_error_at os = (\<lambda>_. None)"
  shows "let t = tick s; new = (if poll_at os t \<noteq> None then []
        else if exits_at os (t + 2) then [(t + 1, SIGINT)]
        else if exits_at os (t + 4) then [(t + 1, SIGINT), (t + 3, SIGTERM)]
        else [(t + 1, SIGINT), (t + 3, SIGTERM), (t + 5, SIGKILL)])
     in signals (snd (stop_owned_process os s)) = signals s @ new
      \<and> (fst (stop_owned_process os s) = Inr () \<longleftrightarrow>
           poll_at os t \<noteq> None \<or> exits_at os (t + 2) \<or> exits_at os (t + 4) \<or> exits_at os (t + 6))"
proof -
  have d: "deliver os sig s = (Inr (), s\<lparr>tick := Suc (tick s), signals := signals s @ [(tick s, sig)]\<rparr>)" for sig s
    by (simp add: deliver_def assms)
  show ?thesis
    unfolding Let_def stop_owned_process_def abind_def on_timeout_def observe_def wait_exit_def areturn_def d
    by (auto simp: eval_nat_numeral)
qed

theorem stop_owned_process_escalates_witness:
  "signals (snd (stop_owned_process sample_os sample_proc)) = [(1, SIGINT), (3, SIGTERM), (5, SIGKILL)]"
  using stop_owned_process_escalates [of sample_os sample_proc] by (simp add: sample_os_def sample_proc_def Let_def)

end
