(* ===== verification/Console.thy ===== *)
theory Console
  imports Py_Decode Strict_Json Py_Float
begin

text \<open>
  The serial consoles of the runners: the reader thread of class \<^verbatim>\<open>Console\<close> in
  scripts/cxl_bi_app.py and scripts/legofs_type3_2node.py (chunks in, text, log and captured
  lines out) and the loops that wait for a marker, a guest record, a log line or an exit. A
  waiting loop is \<open>poll_until\<close> applied to what one iteration does with the n-th
  observation; \<open>None\<close> is a loop that never returns.
\<close>

section \<open>Reader thread\<close>

record console =
  con_output :: string
  con_log :: string
  con_pending :: string
  con_lines :: "string list"
  con_events :: "(int \<times> string) list"
  con_printed :: "string list"

definition empty_console :: console where
  "empty_console = \<lparr>con_output = [], con_log = [], con_pending = [], con_lines = [], con_events = [], con_printed = []\<rparr>"

text \<open>\<^verbatim>\<open>while b"\n" in pending: raw_line, pending = pending.split(b"\n", 1)\<close>.\<close>

function take_lines :: "string \<Rightarrow> string list \<times> string" where
  "take_lines pending =
     (if CHR 0x0A \<in> set pending
      then let (lines, rest) = take_lines (tl (dropWhile (\<lambda>c. c \<noteq> CHR 0x0A) pending))
           in (takeWhile (\<lambda>c. c \<noteq> CHR 0x0A) pending # lines, rest)
      else ([], pending))"
  by pat_completeness auto
termination
proof (relation "measure length")
  fix pending :: string
  assume "CHR 0x0A \<in> set pending"
  then have "pending \<noteq> []" by auto
  moreover have "length (dropWhile (\<lambda>c. c \<noteq> CHR 0x0A) pending) \<le> length pending" by (rule length_dropWhile_le)
  ultimately show "(tl (dropWhile (\<lambda>c. c \<noteq> CHR 0x0A) pending), pending) \<in> measure length"
    by (cases pending) auto
qed simp

declare take_lines.simps [simp del]

definition rstrip_cr :: "string \<Rightarrow> string" where
  "rstrip_cr s = rev (dropWhile (\<lambda>c. c = CHR 0x0D) (rev s))"

definition bi_capture_event :: "(nat \<Rightarrow> int) \<Rightarrow> string \<Rightarrow> console \<Rightarrow> string \<Rightarrow> console" where
  "bi_capture_event clock name c raw_line =
     (let decoded = rstrip_cr (decode_replace raw_line)
      in c\<lparr>con_lines := con_lines c @ [decoded],
           con_events := con_events c @ [(clock (length (con_events c)), decoded)],
           con_printed := (if contains RECORD_PREFIX decoded then con_printed c @ [''['' @ name @ ''] '' @ decoded]
                           else con_printed c)\<rparr>)"

definition bi_read_chunk :: "(nat \<Rightarrow> int) \<Rightarrow> string \<Rightarrow> console \<Rightarrow> string \<Rightarrow> console" where
  "bi_read_chunk clock name c chunk =
     (let decoded = decode_replace chunk;
          (lines, pending) = take_lines (con_pending c @ chunk);
          c = c\<lparr>con_output := con_output c @ decoded, con_log := con_log c @ decoded\<rparr>
      in (foldl (bi_capture_event clock name) c lines)\<lparr>con_pending := pending\<rparr>)"

text \<open>An empty chunk is the end of the stream; a rest without a line break is captured then.\<close>

definition bi_read_output :: "(nat \<Rightarrow> int) \<Rightarrow> string \<Rightarrow> string list \<Rightarrow> console" where
  "bi_read_output clock name chunks =
     (let c = foldl (bi_read_chunk clock name) empty_console (takeWhile (\<lambda>chunk. chunk \<noteq> []) chunks)
      in if con_pending c \<noteq> [] then bi_capture_event clock name c (con_pending c) else c)"

definition t3_capture_event :: "(nat \<Rightarrow> int) \<Rightarrow> console \<Rightarrow> string \<Rightarrow> console" where
  "t3_capture_event clock c raw_line =
     c\<lparr>con_events := con_events c @ [(clock (length (con_events c)), rstrip_cr (decode_replace raw_line))]\<rparr>"

definition t3_read_chunk :: "(nat \<Rightarrow> int) \<Rightarrow> console \<Rightarrow> string \<Rightarrow> console" where
  "t3_read_chunk clock c chunk =
     (let decoded = decode_replace chunk;
          (lines, pending) = take_lines (con_pending c @ chunk);
          c = c\<lparr>con_output := con_output c @ decoded, con_log := con_log c @ decoded, con_printed := con_printed c @ [decoded]\<rparr>
      in (foldl (t3_capture_event clock) c lines)\<lparr>con_pending := pending\<rparr>)"

definition t3_read_output :: "(nat \<Rightarrow> int) \<Rightarrow> string list \<Rightarrow> console" where
  "t3_read_output clock chunks = foldl (t3_read_chunk clock) empty_console (takeWhile (\<lambda>chunk. chunk \<noteq> []) chunks)"

section \<open>Waiting loops\<close>

partial_function (option) poll_until :: "(nat \<Rightarrow> 'r option) \<Rightarrow> nat \<Rightarrow> 'r option" where
  [code]: "poll_until step n = (case step n of Some r \<Rightarrow> Some r | None \<Rightarrow> poll_until step (Suc n))"

text \<open>What an iteration sees: the console text, the exit status and the clock.\<close>

record wait_view =
  wv_output :: string
  wv_poll :: "int option"
  wv_now :: pyfloat

definition expired :: "pyfloat \<Rightarrow> pyfloat \<Rightarrow> bool" where
  "expired deadline now = float_le (fadd deadline (fneg now)) (Fin 0)"

definition find_from :: "string \<Rightarrow> nat \<Rightarrow> string \<Rightarrow> nat option" where
  "find_from p start s = map_option (\<lambda>i. start + i) (find_sub p (drop start s))"

definition FATAL_MARKER :: string where
  "FATAL_MARKER = RECORD_PREFIX @ [CHR ''{'', CHR 0x22] @ ''schema_version'' @ [CHR 0x22] @ '':1,'' @ [CHR 0x22] @ ''event''
     @ [CHR 0x22] @ '':'' @ [CHR 0x22] @ ''fatal'' @ [CHR 0x22]"

definition bi_wait_step :: "string \<Rightarrow> string \<Rightarrow> nat \<Rightarrow> pyfloat \<Rightarrow> wait_view \<Rightarrow> nat res option" where
  "bi_wait_step name text start deadline v =
     (case find_from text start (wv_output v) of
        Some position \<Rightarrow> Some (Inr position)
      | None \<Rightarrow>
          (case find_from FATAL_MARKER start (wv_output v) of
             Some position \<Rightarrow>
               Some (Inl (RuntimeError (name @ '' reported '' @ hd (splitlines (drop position (wv_output v))))))
           | None \<Rightarrow>
               (case wv_poll v of
                  Some status \<Rightarrow> Some (Inl (RuntimeError (name @ '' QEMU exited with '' @ show_int status @ '' while waiting for ''
                                                       @ quoted_repr text)))
                | None \<Rightarrow>
                    if expired deadline (wv_now v)
                    then Some (Inl (TimeoutError (''timed out waiting for '' @ quoted_repr text @ '' on '' @ name)))
                    else None)))"

definition bi_wait :: "(nat \<Rightarrow> wait_view) \<Rightarrow> pyfloat \<Rightarrow> string \<Rightarrow> string \<Rightarrow> pyfloat \<Rightarrow> nat \<Rightarrow> nat res option" where
  "bi_wait views now name text timeout start =
     poll_until (\<lambda>n. bi_wait_step name text start (fadd now timeout) (views n)) 0"

definition t3_wait_step :: "string \<Rightarrow> nat \<Rightarrow> pyfloat \<Rightarrow> wait_view \<Rightarrow> unit res option" where
  "t3_wait_step text start deadline v =
     (if contains text (drop start (wv_output v)) then Some (Inr ())
      else case find_from ''LEG_OFS_FAIL'' start (wv_output v) of
        Some failure \<Rightarrow>
          Some (Inl (RuntimeError (''guest reported '' @ quoted_repr (hd (splitlines (drop failure (wv_output v))))
                       @ '' while waiting for '' @ quoted_repr text)))
      | None \<Rightarrow>
          (case wv_poll v of
             Some status \<Rightarrow> Some (Inl (RuntimeError (''QEMU exited with '' @ show_int status @ '' while waiting for '' @ quoted_repr text)))
           | None \<Rightarrow>
               if expired deadline (wv_now v)
               then Some (Inl (TimeoutError (''timed out waiting for '' @ quoted_repr text))) else None))"

definition t3_wait :: "(nat \<Rightarrow> wait_view) \<Rightarrow> pyfloat \<Rightarrow> string \<Rightarrow> pyfloat \<Rightarrow> nat \<Rightarrow> unit res option" where
  "t3_wait views now text timeout start = poll_until (\<lambda>n. t3_wait_step text start (fadd now timeout) (views n)) 0"

text \<open>\<^verbatim>\<open>wait_guest_event\<close>: the completed lines are scanned anew in every iteration.\<close>

fun scan_guest_lines :: "string \<Rightarrow> string \<Rightarrow> string \<Rightarrow> string list \<Rightarrow> pydict option res" where
  "scan_guest_lines name event role [] = Inr None"
| "scan_guest_lines name event role (line # lines) =
     (if \<not> contains RECORD_PREFIX line then scan_guest_lines name event role lines
      else rbind (parse_guest_records line) (\<lambda>records.
           if length records \<noteq> 1 then Inl (ValueError (name @ '' guest line has multiple records''))
           else if py_eq (dget (hd records) ''event'') (PStr ''fatal'')
           then Inl (RuntimeError (name @ '' reported '' @ line))
           else if py_eq (dget (hd records) ''event'') (PStr event) \<and> py_eq (dget (hd records) ''role'') (PStr role)
           then Inr (Some (hd records))
           else scan_guest_lines name event role lines))"

record lines_view =
  lv_lines :: "string list"
  lv_poll :: "int option"
  lv_now :: pyfloat

definition guest_event_step ::
  "string \<Rightarrow> string \<Rightarrow> string \<Rightarrow> pyfloat \<Rightarrow> lines_view \<Rightarrow> pydict res option" where
  "guest_event_step name event role deadline v =
     (case scan_guest_lines name event role (lv_lines v) of
        Inl e \<Rightarrow> Some (Inl e)
      | Inr (Some record) \<Rightarrow> Some (Inr record)
      | Inr None \<Rightarrow>
          (case lv_poll v of
             Some status \<Rightarrow> Some (Inl (RuntimeError (name @ '' QEMU exited with '' @ show_int status @
                              '' while waiting for complete '' @ event @ ''/'' @ role @ '' record'')))
           | None \<Rightarrow>
               if expired deadline (lv_now v)
               then Some (Inl (TimeoutError (''timed out waiting for complete '' @ event @ ''/'' @ role @ '' record on '' @ name)))
               else None))"

definition wait_guest_event ::
  "(nat \<Rightarrow> lines_view) \<Rightarrow> pyfloat \<Rightarrow> string \<Rightarrow> string \<Rightarrow> string \<Rightarrow> pyfloat \<Rightarrow> pydict res option" where
  "wait_guest_event views now name event role timeout =
     poll_until (\<lambda>n. guest_event_step name event role (fadd now timeout) (views n)) 0"

text \<open>\<^verbatim>\<open>wait_for_log\<close> of both runners; \<open>log_text\<close> is \<open>None\<close> while the file does not exist.\<close>

record log_view =
  log_now :: pyfloat
  log_poll :: "int option"
  log_text :: "string option"

definition log_step :: "string \<Rightarrow> pyfloat \<Rightarrow> log_view \<Rightarrow> unit res option" where
  "log_step marker deadline v =
     (if \<not> float_lt (log_now v) deadline
      then Some (Inl (TimeoutError (''timed out waiting for CXLMemSim marker '' @ quoted_repr marker)))
      else case log_poll v of
        Some status \<Rightarrow> Some (Inl (RuntimeError (''CXLMemSim exited before readiness: '' @ show_int status)))
      | None \<Rightarrow>
          (case log_text v of
             Some text \<Rightarrow> if contains marker (decode_replace text) then Some (Inr ()) else None
           | None \<Rightarrow> None))"

definition wait_for_log :: "(nat \<Rightarrow> log_view) \<Rightarrow> pyfloat \<Rightarrow> string \<Rightarrow> pyfloat \<Rightarrow> unit res option" where
  "wait_for_log views now marker timeout = poll_until (\<lambda>n. log_step marker (fadd now timeout) (views n)) 0"

section \<open>Lines do not depend on the chunks\<close>

definition all_lines :: "string \<Rightarrow> string list" where
  "all_lines s = fst (take_lines s) @ (if snd (take_lines s) = [] then [] else [snd (take_lines s)])"

lemma take_lines_none: "CHR 0x0A \<notin> set s \<Longrightarrow> take_lines s = ([], s)"
  by (subst take_lines.simps) simp

lemma take_lines_rest: "CHR 0x0A \<notin> set (snd (take_lines s))"
  by (induction s rule: take_lines.induct) (subst take_lines.simps, auto split: prod.splits)

lemma take_lines_append:
  "take_lines (s @ t) = (fst (take_lines s) @ fst (take_lines (snd (take_lines s) @ t)), snd (take_lines (snd (take_lines s) @ t)))"
proof (induction s rule: take_lines.induct)
  case (1 s)
  show ?case
  proof (cases "CHR 0x0A \<in> set s")
    case False
    then have "take_lines s = ([], s)" by (subst take_lines.simps) simp
    then show ?thesis by simp
  next
    case True
    let ?p = "\<lambda>c. c \<noteq> CHR 0x0A"
    have parts: "takeWhile ?p (s @ t) = takeWhile ?p s" "dropWhile ?p (s @ t) = dropWhile ?p s @ t" "dropWhile ?p s \<noteq> []"
      using True by (auto simp: takeWhile_append1 dropWhile_append1 dropWhile_eq_Nil_conv)
    have s: "take_lines s = (takeWhile ?p s # fst (take_lines (tl (dropWhile ?p s))), snd (take_lines (tl (dropWhile ?p s))))"
      using True by (subst take_lines.simps) (simp add: case_prod_beta)
    have "take_lines (s @ t) = (takeWhile ?p s # fst (take_lines (tl (dropWhile ?p s) @ t)), snd (take_lines (tl (dropWhile ?p s) @ t)))"
      using True parts by (subst take_lines.simps) (simp add: case_prod_beta)
    with 1 [OF True] s show ?thesis by simp
  qed
qed

definition captured :: "string \<Rightarrow> string" where
  "captured raw = rstrip_cr (decode_replace raw)"

lemma bi_capture_fields:
  "con_lines (foldl (bi_capture_event clock name) c raws) = con_lines c @ map captured raws"
  "map snd (con_events (foldl (bi_capture_event clock name) c raws)) = map snd (con_events c) @ map captured raws"
  "con_pending (foldl (bi_capture_event clock name) c raws) = con_pending c"
  "con_output (foldl (bi_capture_event clock name) c raws) = con_output c"
  by (induction raws arbitrary: c) (auto simp: bi_capture_event_def Let_def captured_def)

lemma bi_read_chunks:
  assumes "con_pending c = snd (take_lines seen)" "con_lines c = map captured (fst (take_lines seen))"
    "map snd (con_events c) = con_lines c"
  shows "con_pending (foldl (bi_read_chunk clock name) c chunks) = snd (take_lines (seen @ concat chunks))
     \<and> con_lines (foldl (bi_read_chunk clock name) c chunks) = map captured (fst (take_lines (seen @ concat chunks)))
     \<and> map snd (con_events (foldl (bi_read_chunk clock name) c chunks)) = con_lines (foldl (bi_read_chunk clock name) c chunks)"
  using assms
proof (induction chunks arbitrary: c seen)
  case (Cons chunk chunks)
  let ?c = "bi_read_chunk clock name c chunk"
  have "con_pending ?c = snd (take_lines (seen @ chunk))" "con_lines ?c = map captured (fst (take_lines (seen @ chunk)))"
    "map snd (con_events ?c) = con_lines ?c"
    using Cons.prems take_lines_append [of seen chunk]
    by (simp_all add: bi_read_chunk_def Let_def case_prod_beta bi_capture_fields)
  from Cons.IH [OF this] show ?case by simp
qed simp

lemma take_lines_Nil [simp]: "take_lines [] = ([], [])"
  by (simp add: take_lines.simps)



text \<open>
  The accumulated text, unlike the lines, does depend on the chunks: every chunk is decoded
  on its own, so a character whose bytes are split between two chunks is replaced.
\<close>

lemma console_output_depends_on_chunks:
  "con_output (bi_read_output int [] [[CHR 0xC3, CHR 0xA9]]) = [CHR 0xC3, CHR 0xA9]"
  "con_output (bi_read_output int [] [[CHR 0xC3], [CHR 0xA9]]) = REPLACEMENT @ REPLACEMENT"
proof -
  have one: "decode_replace [CHR 0xC3] = REPLACEMENT" "decode_replace [CHR 0xA9] = REPLACEMENT"
    by (subst decode_replace.simps, simp add: lead_ranges_def in_range_def)+
  have both: "decode_replace [CHR 0xC3, CHR 0xA9] = [CHR 0xC3, CHR 0xA9]" by (rule decode_replace_valid) simp
  have out: "con_output (bi_capture_event clock name c raw) = con_output c" for clock name c raw
    by (simp add: bi_capture_event_def Let_def)
  have chunk: "con_output (bi_read_chunk clock name c x) = con_output c @ decode_replace x" for clock name c x
    by (simp add: bi_read_chunk_def Let_def case_prod_beta bi_capture_fields)
  have all: "con_output (bi_read_output clock name xs) =
      con_output (foldl (bi_read_chunk clock name) empty_console (takeWhile (\<lambda>x. x \<noteq> []) xs))" for clock name xs
    by (simp add: bi_read_output_def Let_def out)
  show "con_output (bi_read_output int [] [[CHR 0xC3, CHR 0xA9]]) = [CHR 0xC3, CHR 0xA9]"
    "con_output (bi_read_output int [] [[CHR 0xC3], [CHR 0xA9]]) = REPLACEMENT @ REPLACEMENT"
    by (simp_all add: all chunk one both empty_console_def)
qed

section \<open>Waiting loops return\<close>

lemma poll_until_first:
  assumes "step m = Some r" "n \<le> m" "\<forall>k. n \<le> k \<and> k < m \<longrightarrow> step k = None"
  shows "poll_until step n = Some r"
  using assms(2,3)
proof (induction "m - n" arbitrary: n)
  case 0
  then show ?case using assms(1) by (subst poll_until.simps) simp
next
  case (Suc d)
  then have "n < m" by simp
  then have "step n = None" using Suc.prems by simp
  moreover have "poll_until step (Suc n) = Some r" using Suc \<open>n < m\<close> by simp
  ultimately show ?case by (subst poll_until.simps) simp
qed

lemma poll_until_returns:
  assumes "step m \<noteq> None" "n \<le> m"
  shows "\<exists>r. poll_until step n = Some r"
proof -
  let ?k = "LEAST k. n \<le> k \<and> step k \<noteq> None"
  have k: "n \<le> ?k \<and> step ?k \<noteq> None" by (rule LeastI [of _ m]) (use assms in simp)
  then obtain r where r: "step ?k = Some r" by blast
  have before: "\<forall>k. n \<le> k \<and> k < ?k \<longrightarrow> step k = None" using not_less_Least by blast
  from poll_until_first [OF r _ before] k show ?thesis by (metis (no_types))
qed

lemma poll_until_Some:
  assumes "poll_until step n = Some r"
  shows "\<exists>m\<ge>n. step m = Some r \<and> (\<forall>k. n \<le> k \<and> k < m \<longrightarrow> step k = None)"
proof (rule poll_until.raw_induct [OF _ assms])
  fix loop :: "(nat \<Rightarrow> 'a option) \<Rightarrow> nat \<Rightarrow> 'a option" and step n r
  assume ih: "\<And>step n r. loop step n = Some r \<Longrightarrow> \<exists>m\<ge>n. step m = Some r \<and> (\<forall>k. n \<le> k \<and> k < m \<longrightarrow> step k = None)"
    and eq: "(case step n of None \<Rightarrow> loop step (Suc n) | Some r \<Rightarrow> Some r) = Some r"
  show "\<exists>m\<ge>n. step m = Some r \<and> (\<forall>k. n \<le> k \<and> k < m \<longrightarrow> step k = None)"
  proof (cases "step n")
    case None
    with eq ih obtain m where "Suc n \<le> m" "step m = Some r" "\<forall>k. Suc n \<le> k \<and> k < m \<longrightarrow> step k = None" by force
    with None show ?thesis by (metis Suc_leD le_less_Suc_eq not_less_eq_eq nat_less_le)
  qed (use eq in auto)
qed

lemma find_from_Some:
  assumes "find_from p start s = Some i"
  shows "start \<le> i \<and> starts_with (drop i s) p"
  using assms by (auto simp: find_from_def add.commute split: option.splits dest!: find_sub_Some)

text \<open>
  (C39) Waiting on a guest ends: as soon as one observation of the clock is past the
  deadline (or, for the log, not before it), the loops that wait for a marker on the
  console, for a complete guest record and for a line of the server log have returned or
  raised; and a position returned by the console wait is at or after the start and has the
  marker there.
\<close>

theorem console_waits_return:
  "(expired (fadd now timeout) (wv_now (views n)) \<longrightarrow>
      (\<exists>r. bi_wait views now name text timeout start = Some r) \<and> (\<exists>r. t3_wait views now text timeout start = Some r))
   \<and> (expired (fadd now timeout) (lv_now (line_views n)) \<longrightarrow>
      (\<exists>r. wait_guest_event line_views now name event role timeout = Some r))
   \<and> (\<not> float_lt (log_now (log_views n)) (fadd now timeout) \<longrightarrow>
      (\<exists>r. wait_for_log log_views now text timeout = Some r))
   \<and> (bi_wait views now name text timeout start = Some (Inr i) \<longrightarrow>
      start \<le> i \<and> (\<exists>m. starts_with (drop i (wv_output (views m))) text))"
proof (intro conjI impI)
  assume e: "expired (fadd now timeout) (wv_now (views n))"
  then have "bi_wait_step name text start (fadd now timeout) (views n) \<noteq> None" "t3_wait_step text start (fadd now timeout) (views n) \<noteq> None"
    by (auto simp: bi_wait_step_def t3_wait_step_def split: option.splits)
  then show "\<exists>r. bi_wait views now name text timeout start = Some r" "\<exists>r. t3_wait views now text timeout start = Some r"
    unfolding bi_wait_def t3_wait_def by (auto intro: poll_until_returns [of _ n])
next
  assume "expired (fadd now timeout) (lv_now (line_views n))"
  then have "guest_event_step name event role (fadd now timeout) (line_views n) \<noteq> None"
    by (auto simp: guest_event_step_def split: option.splits sum.splits)
  then show "\<exists>r. wait_guest_event line_views now name event role timeout = Some r"
    unfolding wait_guest_event_def by (auto intro: poll_until_returns [of _ n])
next
  assume "\<not> float_lt (log_now (log_views n)) (fadd now timeout)"
  then have "log_step text (fadd now timeout) (log_views n) \<noteq> None" by (simp add: log_step_def)
  then show "\<exists>r. wait_for_log log_views now text timeout = Some r"
    unfolding wait_for_log_def by (auto intro: poll_until_returns [of _ n])
next
  assume "bi_wait views now name text timeout start = Some (Inr i)"
  then obtain m where "bi_wait_step name text start (fadd now timeout) (views m) = Some (Inr i)"
    unfolding bi_wait_def by (auto dest: poll_until_Some)
  then have "find_from text start (wv_output (views m)) = Some i" by (auto simp: bi_wait_step_def split: option.splits if_splits)
  from find_from_Some [OF this] show "start \<le> i" "\<exists>m. starts_with (drop i (wv_output (views m))) text" by auto
qed

theorem console_waits_return_witness:
  "\<exists>r. bi_wait (\<lambda>n. \<lparr>wv_output = [], wv_poll = None, wv_now = Fin (of_nat n)\<rparr>) (Fin 0) ''node0'' ''=> '' (Fin 1) 0 = Some r"
proof -
  have "fadd (Fin 0) (Fin 1) = Fin 1" using fl_of_int [of 1] by simp
  moreover have "fadd (Fin 1) (fneg (Fin 1)) = Fin 0" using fl_of_int [of 0] by simp
  ultimately have "expired (fadd (Fin 0) (Fin 1)) (wv_now ((\<lambda>n. \<lparr>wv_output = [], wv_poll = None, wv_now = Fin (of_nat n)\<rparr>) 1))"
    by (simp add: expired_def)
  then show ?thesis
    using console_waits_return [of "Fin 0" "Fin 1" "\<lambda>n. \<lparr>wv_output = [], wv_poll = None, wv_now = Fin (of_nat n)\<rparr>" 1] by blast
qed

end
