(* ===== verification/Py_Struct.thy ===== *)
theory Py_Struct
  imports Py_Base "HOL-Library.Word"
begin

text \<open>
  Binary records: bytes as 8-bit words, little-endian integers, and \<^verbatim>\<open>struct.unpack_from\<close>
  for one unsigned field. A record image is given by a table of fields (offset, width,
  value); reading a field back from the image of a well-formed table returns its value.
\<close>

type_synonym bytes = "8 word list"

fun le_value :: "bytes \<Rightarrow> int" where
  "le_value [] = 0"
| "le_value (b # bs) = uint b + 256 * le_value bs"

fun le_bytes :: "nat \<Rightarrow> int \<Rightarrow> bytes" where
  "le_bytes 0 v = []"
| "le_bytes (Suc n) v = word_of_int v # le_bytes n (v div 256)"

definition field_at :: "nat \<Rightarrow> bytes \<Rightarrow> nat \<Rightarrow> int" where
  "field_at n data off = le_value (take n (drop off data))"

text \<open>
  A negative offset counts from the end of the buffer; an offset outside the buffer raises
  \<^verbatim>\<open>struct.error\<close>.
\<close>

definition unpack_from :: "nat \<Rightarrow> bytes \<Rightarrow> int \<Rightarrow> int res" where
  "unpack_from n data off =
     (let start = (if off < 0 then off + int (length data) else off)
      in if off < 0 \<and> 0 < off + int n \<or> start < 0 \<or> int (length data) < start + int n then Inl StructError
         else Inr (field_at n data (nat start)))"

text \<open>\<^verbatim>\<open>data[i]\<close> of a bytes object, for an index that is not negative.\<close>

definition byte_at :: "bytes \<Rightarrow> nat \<Rightarrow> int res" where
  "byte_at data i = (if i < length data then Inr (uint (data ! i)) else Inl IndexError)"

section \<open>Little-endian integers\<close>

lemma le_value_nonneg [simp]: "0 \<le> le_value bs"
  by (induction bs) auto

lemma le_value_less: "le_value bs < 256 ^ length bs"
proof (induction bs)
  case (Cons b bs)
  have "uint b < 256" using uint_lt2p [of b] by simp
  moreover from Cons have "le_value bs + 1 \<le> 256 ^ length bs" by simp
  ultimately show ?case by simp
qed simp

lemma length_le_bytes [simp]: "length (le_bytes n v) = n"
  by (induction n arbitrary: v) auto

lemma le_value_bytes: "le_value (le_bytes n v) = v mod 256 ^ n"
proof (induction n arbitrary: v)
  case (Suc n)
  have "v mod 256 ^ Suc n = v mod 256 + 256 * (v div 256 mod 256 ^ n)" by (simp add: zmod_zmult2_eq)
  with Suc show ?case by (simp add: uint_word_of_int)
qed simp

lemma le_bytes_value: "le_bytes (length bs) (le_value bs) = bs"
proof (induction bs)
  case (Cons b bs)
  have "uint b < 256" using uint_bounded [of b] by simp
  then have "(uint b + 256 * le_value bs) div 256 = le_value bs" by simp
  moreover have "(word_of_int (uint b + 256 * le_value bs) :: 8 word) = b"
  proof -
    have "(word_of_int (uint b + 256 * le_value bs) :: 8 word) = word_of_int (uint b) + word_of_int 256 * word_of_int (le_value bs)"
      by (simp only: wi_hom_add wi_hom_mult)
    also have "(word_of_int 256 :: 8 word) = 0" by simp
    finally show ?thesis by (simp only: mult_zero_left add_0_right word_of_int_uint)
  qed
  ultimately show ?case using Cons by simp
qed simp

lemma field_at_bounds: "0 \<le> field_at n data off" "field_at n data off < 256 ^ n"
proof -
  show "0 \<le> field_at n data off" by (simp add: field_at_def)
  have "length (take n (drop off data)) \<le> n" by simp
  then have "(256 :: int) ^ length (take n (drop off data)) \<le> 256 ^ n" by (rule power_increasing) simp
  with le_value_less [of "take n (drop off data)"] show "field_at n data off < 256 ^ n"
    unfolding field_at_def by (rule less_le_trans)
qed

lemma unpack_from_at [simp]:
  "off + n \<le> length data \<Longrightarrow> unpack_from n data (int off) = Inr (field_at n data off)"
  by (simp add: unpack_from_def Let_def)

lemma unpack_from_numeral:
  "numeral k + n \<le> length data \<Longrightarrow> unpack_from n data (numeral k) = Inr (field_at n data (numeral k))"
  using unpack_from_at [of "numeral k" n data] by simp

lemma unpack_from_outside: "0 \<le> off \<Longrightarrow> int (length data) < off + int n \<Longrightarrow> unpack_from n data off = Inl StructError"
  by (simp add: unpack_from_def Let_def)

lemma unpack_from_Inr_iff:
  "0 \<le> off \<Longrightarrow> unpack_from n data off = Inr v \<longleftrightarrow> off + int n \<le> int (length data) \<and> v = field_at n data (nat off)"
  by (auto simp: unpack_from_def Let_def)

lemma unpack_from_bounds: "unpack_from n data off = Inr v \<Longrightarrow> 0 \<le> v \<and> v < 256 ^ n"
  by (auto simp: unpack_from_def Let_def field_at_bounds split: if_splits)

section \<open>Record images\<close>

type_synonym field_table = "(nat \<times> nat \<times> int) list"

fun record_image :: "nat \<Rightarrow> field_table \<Rightarrow> nat \<Rightarrow> bytes" where
  "record_image pos [] total_len = replicate (total_len - pos) 0"
| "record_image pos ((off, n, v) # fs) total_len = replicate (off - pos) 0 @ le_bytes n v @ record_image (off + n) fs total_len"

text \<open>The fields are in order, do not overlap, fit the record and their values fit their width.\<close>

fun fits :: "nat \<Rightarrow> field_table \<Rightarrow> nat \<Rightarrow> bool" where
  "fits pos [] total_len = (pos \<le> total_len)"
| "fits pos ((off, n, v) # fs) total_len = (pos \<le> off \<and> 0 \<le> v \<and> v < 256 ^ n \<and> fits (off + n) fs total_len)"

lemma fits_le: "fits pos fs total_len \<Longrightarrow> pos \<le> total_len"
  by (induction pos fs total_len rule: fits.induct) auto

lemma length_image: "fits pos fs total_len \<Longrightarrow> length (record_image pos fs total_len) = total_len - pos"
  by (induction pos fs total_len rule: fits.induct) (auto dest: fits_le)

lemma fits_bounds: "fits pos fs total_len \<Longrightarrow> (off, n, v) \<in> set fs \<Longrightarrow> pos \<le> off \<and> off + n \<le> total_len"
  by (induction pos fs total_len rule: fits.induct) (fastforce dest: fits_le)+

lemma image_field:
  "fits pos fs total_len \<Longrightarrow> (off, n, v) \<in> set fs \<Longrightarrow> field_at n (record_image pos fs total_len) (off - pos) = v"
proof (induction pos fs total_len rule: fits.induct)
  case (2 pos o1 n1 v1 fs total_len)
  show ?case
  proof (cases "(off, n, v) = (o1, n1, v1)")
    case True
    with 2 show ?thesis by (simp add: field_at_def le_value_bytes)
  next
    case False
    with 2 have m: "(off, n, v) \<in> set fs" and f: "fits (o1 + n1) fs total_len" and le: "pos \<le> o1" by auto
    from fits_bounds [OF f m] have "o1 + n1 \<le> off" by simp
    then have "off - pos = (o1 - pos) + n1 + (off - (o1 + n1))" using le by simp
    with 2(1) [OF f m] show ?thesis by (simp add: field_at_def)
  qed
qed simp

lemma image_read:
  assumes "fits 0 fs total_len" "(off, n, v) \<in> set fs"
  shows "unpack_from n (record_image 0 fs total_len) (int off) = Inr v"
  using image_field [OF assms] fits_bounds [OF assms] length_image [OF assms(1)] by simp

lemma field_at_byte: "i < length data \<Longrightarrow> field_at 1 data i = uint (data ! i)"
  by (simp add: field_at_def take_Suc_conv_app_nth hd_drop_conv_nth take_Suc)

end
