(* ===== verification/Arena.thy ===== *)
theory Arena
  imports Py_Struct Py_Text Bi_Stats "HOL-Library.Char_ord" "HOL-Library.List_Lexorder" "HOL-Library.Product_Lexorder"
begin

text \<open>
  The observation arenas of scripts/legofs_observe.py: the binary header with its identity
  table, the full and compact metric records, their aggregation, percentiles of the
  histogram and the decoder that walks all producer shards of an arena.
\<close>

section \<open>Layout constants\<close>

definition MAGIC :: bytes where
  "MAGIC = [76, 69, 71, 79, 70, 83, 79, 49]"

definition SCHEMA_DIGEST :: string where
  "SCHEMA_DIGEST = ''942b9f1d769746ec''"

abbreviation HEADER_BYTES :: nat where "HEADER_BYTES \<equiv> 4096"
abbreviation IDENTITY_BASE :: nat where "IDENTITY_BASE \<equiv> 4096"
abbreviation METRIC_RECORD_BYTES :: int where "METRIC_RECORD_BYTES \<equiv> 1256"
abbreviation COMPACT_METRIC_BYTES :: int where "COMPACT_METRIC_BYTES \<equiv> 64"
abbreviation WORKLOAD_METRIC_BYTES :: int where "WORKLOAD_METRIC_BYTES \<equiv> 384 * 1256"
abbreviation DIAGNOSTIC_METRIC_BYTES :: int where "DIAGNOSTIC_METRIC_BYTES \<equiv> 384 * 64"
abbreviation PRODUCER_CONTROL_BYTES :: int where "PRODUCER_CONTROL_BYTES \<equiv> 64"
abbreviation HISTOGRAM_MIN_NS :: int where "HISTOGRAM_MIN_NS \<equiv> 100"
abbreviation MIN_PERCENTILE_SAMPLES :: int where "MIN_PERCENTILE_SAMPLES \<equiv> 100"

definition COMPONENTS :: "string list" where
  "COMPONENTS = [''syscall_intercept'', ''client_semantics'', ''direct_metadata_read'', ''cxl_client_transport'',
     ''authority_progress'', ''dispatcher_codec'', ''namespace_metadata'', ''lifecycle_transaction'',
     ''data_arena_extent'', ''persistence'', ''startup_recovery'']"

definition ROOTS :: "string list" where
  "ROOTS = [''create'', ''mkdir'', ''stat'', ''unlink'', ''rmdir'', ''readdir'', ''open'',
     ''close'', ''read'', ''write'', ''fsync'', ''sync'', ''rename'', ''other'']"

definition SEMANTICS :: "string list" where
  "SEMANTICS = ROOTS"

definition STAGES :: "string list" where
  "STAGES =
    [''hook_to_client'', ''result_translate'',
     ''local_validation'', ''namespace_resolution'', ''fd_ofd'', ''local_finalization'',
     ''read_admission'', ''root_load'', ''marker_load'', ''payload_read'', ''revalidate'',
     ''encode'', ''call_gate_wait'', ''sq_credit_observe'', ''sq_publish'',
     ''cq_active_poll'', ''cq_sleep'', ''cq_detection_bound'', ''decode'',
     ''lane_scan'', ''sq_detection_bound'', ''admission'', ''scheduler_wait'',
     ''active_dispatch'', ''cqe_publish'',
     ''dispatcher_decode'', ''dispatcher_route'', ''dispatcher_encode'',
     ''metadata_lookup'', ''metadata_mutation'', ''metadata_lock_wait'',
     ''metadata_lock_hold'', ''metadata_record_copy'',
     ''lifecycle_reserve'', ''lifecycle_stage'', ''lifecycle_commit'',
     ''lifecycle_publish'', ''dependency_wait'',
     ''arena_lock_wait'', ''arena_state_clone'', ''arena_plan'', ''arena_backend_reserve'',
     ''arena_state_build'', ''arena_validate'', ''arena_install'', ''arena_state_persist'',
     ''persistence_enqueue'', ''persistence_queue_wait'', ''persistence_batch'',
     ''persistence_provider'', ''persistence_barrier'',
     ''startup_bootstrap'', ''startup_mapping'', ''startup_authority_open'',
     ''startup_namespace_recovery'', ''startup_control_open'', ''startup_listener_ready'',
     ''startup_lane_provision'', ''transport_remote_wait'',
     ''authority_request_service'', ''completion_publication_wait'']"

definition STAGE_COMPONENTS :: "string list" where
  "STAGE_COMPONENTS =
     replicate 2 ''syscall_intercept'' @ replicate 4 ''client_semantics'' @ replicate 5 ''direct_metadata_read''
     @ replicate 8 ''cxl_client_transport'' @ replicate 6 ''authority_progress'' @ replicate 3 ''dispatcher_codec''
     @ replicate 5 ''namespace_metadata'' @ replicate 5 ''lifecycle_transaction'' @ replicate 8 ''data_arena_extent''
     @ replicate 5 ''persistence'' @ replicate 7 ''startup_recovery'' @ [''cxl_client_transport'']
     @ replicate 2 ''authority_progress''"

text \<open>The two assertions the module makes when it is loaded.\<close>

lemma stage_tables: "length STAGES = 61" "length STAGE_COMPONENTS = 61"
  by (simp_all add: STAGES_def STAGE_COMPONENTS_def)

definition role_name :: "int \<Rightarrow> string option" where
  "role_name i = map_of [(1, ''client-rank''), (2, ''server''), (3, ''diagnostic-client'')] i"

definition mode_name :: "int \<Rightarrow> string option" where
  "mode_name i = map_of [(0, ''off''), (1, ''aggregate''), (2, ''sampled'')] i"

definition REQUEST_EDGES :: "string list" where
  "REQUEST_EDGES = [''submit'', ''observe'', ''publish'', ''consume'']"

definition u16 :: "bytes \<Rightarrow> int \<Rightarrow> int res" where
  "u16 data off = unpack_from 2 data off"

definition u32 :: "bytes \<Rightarrow> int \<Rightarrow> int res" where
  "u32 data off = unpack_from 4 data off"

definition u64 :: "bytes \<Rightarrow> int \<Rightarrow> int res" where
  "u64 data off = unpack_from 8 data off"

section \<open>The arena header\<close>

record request_digest =
  dg_count :: int
  dg_xor0 :: int
  dg_xor1 :: int
  dg_sum0 :: int
  dg_sum1 :: int

record arena_identity =
  id_role :: string
  id_endpoint_id :: int
  id_pid :: int
  id_mpi_rank :: int
  id_exec_incarnation :: int
  id_serving_generation :: int

record arena_header =
  schema_major :: int
  schema_minor :: int
  schema_digest :: string
  arena_bytes :: int
  requested_mode :: string
  effective_mode :: string
  ah_role :: string
  sample_shift :: int
  producer_slots :: int
  metric_slots :: int
  endpoint_id :: int
  ah_pid :: int
  exec_incarnation :: int
  serving_generation :: int
  workload_endpoint_mask :: int
  run_hash :: int
  realtime_anchor_ns :: int
  monotonic_anchor_ns :: int
  anchor_span_ns :: int
  clock_p50_ns :: int
  clock_p99_ns :: int
  clock_backend :: int
  producer_stride :: int
  producer_base :: int
  event_base :: int
  event_capacity_per_producer :: int
  ah_flags :: int
  event_count :: int
  producer_slots_claimed :: int
  producer_overflow :: int
  identity_overflow :: int
  event_overflow :: int
  ah_histogram_saturation :: int
  active_scopes :: int
  active_requests :: int
  pending_persistence :: int
  abandoned_scopes :: int
  initialization_error :: int
  export_error :: int
  clock_reads :: int
  request_digests :: "(string \<times> request_digest) list"
  ah_identity :: arena_identity

text \<open>\<^verbatim>\<open>f"{value:016x}"\<close>.\<close>

definition hex16 :: "int \<Rightarrow> string" where
  "hex16 v = (let digits = hex_nat (nat v) in replicate (16 - length digits) (CHR ''0'') @ digits)"

text \<open>
  The identity table lies right after the fixed header. The length check of the header
  does not cover it, so its reads can fail.
\<close>

definition decode_identity :: "bytes \<Rightarrow> arena_identity res" where
  "decode_identity data =
     rbind (byte_at data IDENTITY_BASE) (\<lambda>role.
     rbind (u32 data 4100) (\<lambda>endpoint.
     rbind (u32 data 4104) (\<lambda>pid.
     rbind (u32 data 4108) (\<lambda>rank.
     rbind (u64 data 4112) (\<lambda>incarnation.
     rbind (u64 data 4120) (\<lambda>generation.
     Inr \<lparr>id_role = (case role_name role of Some r \<Rightarrow> r | None \<Rightarrow> ''unknown''), id_endpoint_id = endpoint,
          id_pid = pid, id_mpi_rank = rank, id_exec_incarnation = incarnation,
          id_serving_generation = generation\<rparr>))))))"

text \<open>Reads inside the fixed header, after its length has been checked, cannot fail.\<close>

definition digest_at :: "bytes \<Rightarrow> nat \<Rightarrow> request_digest" where
  "digest_at data base =
     \<lparr>dg_count = field_at 8 data base, dg_xor0 = field_at 8 data (base + 8), dg_xor1 = field_at 8 data (base + 16),
      dg_sum0 = field_at 8 data (base + 24), dg_sum1 = field_at 8 data (base + 32)\<rparr>"

definition digests_at :: "bytes \<Rightarrow> (string \<times> request_digest) list" where
  "digests_at data = map (\<lambda>(edge_index, edge). (edge, digest_at data (256 + edge_index * 40))) (enumerate 0 REQUEST_EDGES)"

definition header_fields :: "bytes \<Rightarrow> string \<Rightarrow> string \<Rightarrow> string \<Rightarrow> arena_identity \<Rightarrow> arena_header" where
  "header_fields data requested effective role identity =
     \<lparr>schema_major = field_at 2 data 8, schema_minor = field_at 2 data 10,
      schema_digest = hex16 (field_at 8 data 416), arena_bytes = field_at 8 data 16,
      requested_mode = requested, effective_mode = effective, ah_role = role,
      sample_shift = field_at 1 data 27, producer_slots = field_at 2 data 28, metric_slots = field_at 2 data 30,
      endpoint_id = field_at 4 data 32, ah_pid = field_at 4 data 36, exec_incarnation = field_at 8 data 40,
      serving_generation = field_at 8 data 48, workload_endpoint_mask = field_at 8 data 56, run_hash = field_at 8 data 64,
      realtime_anchor_ns = field_at 8 data 72, monotonic_anchor_ns = field_at 8 data 80, anchor_span_ns = field_at 8 data 88,
      clock_p50_ns = field_at 8 data 96, clock_p99_ns = field_at 8 data 104, clock_backend = field_at 4 data 112,
      producer_stride = field_at 4 data 116, producer_base = field_at 8 data 120, event_base = field_at 8 data 128,
      event_capacity_per_producer = field_at 8 data 136, ah_flags = field_at 8 data 144, event_count = field_at 8 data 152,
      producer_slots_claimed = field_at 8 data 160, producer_overflow = field_at 8 data 168,
      identity_overflow = field_at 8 data 176, event_overflow = field_at 8 data 184,
      ah_histogram_saturation = field_at 8 data 192, active_scopes = field_at 8 data 200, active_requests = field_at 8 data 208,
      pending_persistence = field_at 8 data 216, abandoned_scopes = field_at 8 data 224,
      initialization_error = field_at 8 data 232, export_error = field_at 8 data 240, clock_reads = field_at 8 data 248,
      request_digests = digests_at data, ah_identity = identity\<rparr>"

definition identity_matches :: "arena_header \<Rightarrow> bool" where
  "identity_matches header =
     (let identity = ah_identity header
      in id_role identity = ah_role header \<and> id_endpoint_id identity = endpoint_id header \<and> id_pid identity = ah_pid header
         \<and> id_exec_incarnation identity = exec_incarnation header
         \<and> id_serving_generation identity = serving_generation header)"

definition decode_header :: "bytes \<Rightarrow> arena_header res" where
  "decode_header data =
     (if length data < HEADER_BYTES then Inl (ValueError ''arena is shorter than the fixed observation header'')
      else if take 8 data \<noteq> MAGIC then Inl (ValueError ''arena magic mismatch'')
      else let major = field_at 2 data 8; minor = field_at 2 data 10; header_bytes = field_at 2 data 12;
               event_bytes = field_at 2 data 14
      in if major \<noteq> 1 then Inl (ValueError ''unsupported observation schema major'')
      else if header_bytes \<noteq> 4096 \<or> event_bytes < 64 then Inl (ValueError ''unsupported observation record layout'')
      else if 2 < minor \<and> event_bytes < 64 then Inl (ValueError ''new observation minor cannot be skipped'')
      else if field_at 8 data 16 \<noteq> int (length data) then Inl (ValueError ''arena header/file length mismatch'')
      else case (role_name (field_at 1 data 26), mode_name (field_at 1 data 24), mode_name (field_at 1 data 25)) of
        (Some role, Some requested, Some effective) \<Rightarrow>
          if hex16 (field_at 8 data 416) \<noteq> SCHEMA_DIGEST then Inl (ValueError ''arena schema digest mismatch'')
          else rbind (decode_identity data) (\<lambda>identity.
               let header = header_fields data requested effective role identity
               in if \<not> identity_matches header then Inl (ValueError ''arena header/identity table mismatch'')
                  else Inr header)
      | _ \<Rightarrow> Inl (ValueError ''arena contains an unknown role or mode''))"

section \<open>Metric records\<close>

text \<open>
  A metric dictionary. Decoded records always hold a minimum and a maximum; an aggregate
  holds them once a source had duration samples. Compact records hold no histogram.
\<close>

record metric =
  mt_calls :: int
  duration_samples :: int
  sampled_duration_sum_ns :: int
  sampled_min_ns :: "int option"
  sampled_max_ns :: "int option"
  mt_objects :: int
  mt_bytes :: int
  mt_successes :: int
  mt_errors :: int
  mt_retries :: int
  histogram_underflow :: int
  histogram_overflow :: int
  histogram_saturation :: int
  histogram_bins :: "int list option"

definition decode_metric :: "bytes \<Rightarrow> int \<Rightarrow> metric res" where
  "decode_metric data base0 =
     (if base0 < 0 \<or> int (length data) < base0 + METRIC_RECORD_BYTES
      then Inl (ValueError ''metric record lies outside arena'')
      else let base = nat base0;
               bins = map (\<lambda>index. field_at 2 data (base + 104 + index * 2)) [0..<576]
           in Inr \<lparr>mt_calls = field_at 8 data base, duration_samples = field_at 8 data (base + 8),
                   sampled_duration_sum_ns = field_at 8 data (base + 16),
                   sampled_min_ns = Some (field_at 8 data (base + 24)), sampled_max_ns = Some (field_at 8 data (base + 32)),
                   mt_objects = field_at 8 data (base + 40), mt_bytes = field_at 8 data (base + 48),
                   mt_successes = field_at 8 data (base + 56), mt_errors = field_at 8 data (base + 64),
                   mt_retries = field_at 8 data (base + 72), histogram_underflow = field_at 8 data (base + 80),
                   histogram_overflow = field_at 8 data (base + 88), histogram_saturation = field_at 8 data (base + 96),
                   histogram_bins = Some bins\<rparr>)"

definition decode_compact_metric :: "bytes \<Rightarrow> int \<Rightarrow> metric res" where
  "decode_compact_metric data base0 =
     (if base0 < 0 \<or> int (length data) < base0 + COMPACT_METRIC_BYTES
      then Inl (ValueError ''compact metric record lies outside arena'')
      else let base = nat base0; calls = field_at 8 data base; errors = field_at 8 data (base + 48);
               retries = field_at 8 data (base + 56)
           in Inr \<lparr>mt_calls = calls, duration_samples = calls, sampled_duration_sum_ns = field_at 8 data (base + 8),
                   sampled_min_ns = Some (field_at 8 data (base + 16)), sampled_max_ns = Some (field_at 8 data (base + 24)),
                   mt_objects = field_at 8 data (base + 32), mt_bytes = field_at 8 data (base + 40),
                   mt_successes = max 0 (calls - errors - retries), mt_errors = errors, mt_retries = retries,
                   histogram_underflow = 0, histogram_overflow = 0, histogram_saturation = 0, histogram_bins = None\<rparr>)"

section \<open>Aggregation\<close>

text \<open>
  The target of an aggregation is the empty dictionary (\<^term>\<open>None\<close>) or a metric. The bins of
  the source are added position by position; a source with more bins than the target
  raises, and so does a missing minimum or maximum.
\<close>

definition empty_metric :: metric where
  "empty_metric = \<lparr>mt_calls = 0, duration_samples = 0, sampled_duration_sum_ns = 0, sampled_min_ns = None,
     sampled_max_ns = None, mt_objects = 0, mt_bytes = 0, mt_successes = 0, mt_errors = 0, mt_retries = 0,
     histogram_underflow = 0, histogram_overflow = 0, histogram_saturation = 0, histogram_bins = None\<rparr>"

fun add_bins :: "int list \<Rightarrow> int list \<Rightarrow> int list res" where
  "add_bins ts [] = Inr ts"
| "add_bins [] (s # ss) = Inl IndexError"
| "add_bins (t # ts) (s # ss) = rbind (add_bins ts ss) (\<lambda>rest. Inr ((t + s) # rest))"

definition merge_bins :: "bool \<Rightarrow> int list option \<Rightarrow> int list option \<Rightarrow> int list option res" where
  "merge_bins target_had_metric target_bins source_bins =
     (if \<not> target_had_metric then Inr source_bins
      else case (target_bins, source_bins) of
        (Some ts, Some ss) \<Rightarrow> rbind (add_bins ts ss) (\<lambda>bins. Inr (Some bins))
      | _ \<Rightarrow> Inr None)"

definition merge_min :: "int \<Rightarrow> int option \<Rightarrow> int option \<Rightarrow> int option res" where
  "merge_min prior_samples target_min source_min =
     (case source_min of
        None \<Rightarrow> Inl KeyError
      | Some s \<Rightarrow>
          if prior_samples = 0 then Inr (Some s)
          else (case target_min of None \<Rightarrow> Inl KeyError | Some t \<Rightarrow> Inr (Some (min t s))))"

definition merge_max :: "int option \<Rightarrow> int option \<Rightarrow> int option res" where
  "merge_max target_max source_max =
     (case source_max of
        None \<Rightarrow> Inl KeyError
      | Some s \<Rightarrow> Inr (Some (max (case target_max of None \<Rightarrow> 0 | Some t \<Rightarrow> t) s)))"

definition add_metric :: "metric option \<Rightarrow> metric \<Rightarrow> metric res" where
  "add_metric target0 source =
     (let target = (case target0 of None \<Rightarrow> empty_metric | Some t \<Rightarrow> t);
          summed = target\<lparr>
            mt_calls := mt_calls target + mt_calls source,
            duration_samples := duration_samples target + duration_samples source,
            sampled_duration_sum_ns := sampled_duration_sum_ns target + sampled_duration_sum_ns source,
            mt_objects := mt_objects target + mt_objects source,
            mt_bytes := mt_bytes target + mt_bytes source,
            mt_successes := mt_successes target + mt_successes source,
            mt_errors := mt_errors target + mt_errors source,
            mt_retries := mt_retries target + mt_retries source,
            histogram_underflow := histogram_underflow target + histogram_underflow source,
            histogram_overflow := histogram_overflow target + histogram_overflow source,
            histogram_saturation := histogram_saturation target + histogram_saturation source\<rparr>
      in rbind (merge_bins (mt_calls target \<noteq> 0) (histogram_bins target) (histogram_bins source)) (\<lambda>bins.
         if duration_samples source = 0 then Inr (summed\<lparr>histogram_bins := bins\<rparr>)
         else rbind (merge_min (duration_samples target) (sampled_min_ns target) (sampled_min_ns source)) (\<lambda>smallest.
              rbind (merge_max (sampled_max_ns target) (sampled_max_ns source)) (\<lambda>largest.
              Inr (summed\<lparr>histogram_bins := bins, sampled_min_ns := smallest, sampled_max_ns := largest\<rparr>)))))"

section \<open>Percentiles\<close>

text \<open>
  The float power is the one of the C library, whose rounding is not specified: it is the
  parameter \<open>pow\<close>.
\<close>

definition HISTOGRAM_GAMMA :: "pyfloat res" where
  "HISTOGRAM_GAMMA = fdiv (fl (102 / 100)) (fl (98 / 100))"

definition histogram_representative_ns :: "(pyfloat \<Rightarrow> nat \<Rightarrow> pyfloat res) \<Rightarrow> nat \<Rightarrow> int res" where
  "histogram_representative_ns pow index =
     rbind HISTOGRAM_GAMMA (\<lambda>gamma.
     rbind (pow gamma index) (\<lambda>p.
     let lower = fmul (Fin (of_int HISTOGRAM_MIN_NS)) p
     in float_floor (fadd (fmul lower (fl (102 / 100))) (fl (5 / 10)))))"

record percentiles =
  sample_count :: int
  pc_status :: string
  p50_ns :: "int option"
  p95_ns :: "int option"
  p99_ns :: "int option"

fun find_bin :: "int \<Rightarrow> int \<Rightarrow> nat \<Rightarrow> int list \<Rightarrow> nat option" where
  "find_bin rank cursor index [] = None"
| "find_bin rank cursor index (c # counts) =
     (if rank \<le> cursor + c then Some index else find_bin rank (cursor + c) (Suc index) counts)"

definition quantile_rank :: "int \<Rightarrow> pyfloat \<Rightarrow> int res" where
  "quantile_rank samples quantile =
     rbind (int_float (of_int samples)) (\<lambda>n. rbind (float_ceil (fmul n quantile)) (\<lambda>c. Inr (max 1 c)))"

text \<open>The value of one quantile and whether it lies in the overflow bucket.\<close>

definition quantile_value ::
  "(pyfloat \<Rightarrow> nat \<Rightarrow> pyfloat res) \<Rightarrow> metric \<Rightarrow> int list \<Rightarrow> pyfloat \<Rightarrow> (int option \<times> bool) res" where
  "quantile_value pow metric bins quantile =
     (let underflow = histogram_underflow metric; overflow = histogram_overflow metric
      in rbind (quantile_rank (duration_samples metric) quantile) (\<lambda>rank.
         if rank \<le> underflow then Inr (Some HISTOGRAM_MIN_NS, False)
         else case find_bin rank underflow 0 bins of
           Some index \<Rightarrow> rbind (histogram_representative_ns pow index) (\<lambda>v. Inr (Some v, False))
         | None \<Rightarrow> Inr (None, overflow \<noteq> 0 \<and> rank \<le> underflow + sum_list bins + overflow)))"

definition no_percentiles :: "int \<Rightarrow> string \<Rightarrow> percentiles" where
  "no_percentiles samples status = \<lparr>sample_count = samples, pc_status = status, p50_ns = None, p95_ns = None, p99_ns = None\<rparr>"

definition metric_percentiles :: "(pyfloat \<Rightarrow> nat \<Rightarrow> pyfloat res) \<Rightarrow> metric option \<Rightarrow> percentiles res" where
  "metric_percentiles pow metric0 =
     (case metric0 of
        None \<Rightarrow> Inr (no_percentiles 0 ''no_samples'')
      | Some metric \<Rightarrow>
          (let samples = duration_samples metric
           in case histogram_bins metric of
             None \<Rightarrow> Inr (no_percentiles samples ''not_available_compact_metric'')
           | Some bins \<Rightarrow>
               let saturation = histogram_saturation metric;
                   represented = histogram_underflow metric + histogram_overflow metric + saturation + sum_list bins
               in if represented \<noteq> samples then Inr (no_percentiles samples ''histogram_count_mismatch'')
                  else if saturation \<noteq> 0 then Inr (no_percentiles samples ''histogram_saturated'')
                  else if samples < MIN_PERCENTILE_SAMPLES then Inr (no_percentiles samples ''insufficient_samples'')
                  else rbind (quantile_value pow metric bins (fl (50 / 100))) (\<lambda>(p50, o50).
                       rbind (quantile_value pow metric bins (fl (95 / 100))) (\<lambda>(p95, o95).
                       rbind (quantile_value pow metric bins (fl (99 / 100))) (\<lambda>(p99, o99).
                       Inr \<lparr>sample_count = samples,
                            pc_status = (if o50 \<or> o95 \<or> o99 then ''overflow_quantile'' else ''ok''),
                            p50_ns = p50, p95_ns = p95, p99_ns = p99\<rparr>)))))"

section \<open>Decoding an arena\<close>

text \<open>
  The decoder keeps one dictionary of aggregates per bank: root operations, semantic
  operations, workload stages and startup stages. They are kept here in one association
  list whose keys carry the bank.
\<close>

datatype bank = Root_Bank | Semantic_Bank | Stage_Bank | Startup_Bank

type_synonym bank_key = "bank \<times> string \<times> string"
type_synonym banks = "(bank_key \<times> metric) list"

record producer =
  pr_slot :: int
  thread_identity :: int
  trace_sequence :: int
  event_head :: int
  event_drops :: int

text \<open>The metric records of one shard in the order they are read: key and offset from the shard's control block.\<close>

definition component_table :: "nat \<times> string \<Rightarrow> (bank_key \<times> int) list" where
  "component_table = (\<lambda>(component_index, component).
     map (\<lambda>(root_index, root). ((Root_Bank, component, root),
            PRODUCER_CONTROL_BYTES + int (component_index * length ROOTS + root_index) * METRIC_RECORD_BYTES))
       (enumerate 0 ROOTS)
     @ map (\<lambda>(semantic_index, semantic). ((Semantic_Bank, component, semantic),
            PRODUCER_CONTROL_BYTES + int (length COMPONENTS * length ROOTS + component_index * length SEMANTICS + semantic_index)
              * METRIC_RECORD_BYTES))
       (enumerate 0 SEMANTICS))"

definition stage_table :: "(bank_key \<times> int) list" where
  "stage_table =
     map (\<lambda>(stage_index, stage). ((Stage_Bank, STAGE_COMPONENTS ! stage_index, stage),
            PRODUCER_CONTROL_BYTES + int (length COMPONENTS * (length ROOTS + length SEMANTICS) + stage_index) * METRIC_RECORD_BYTES))
       (enumerate 0 STAGES)"

definition startup_table :: "(bank_key \<times> int) list" where
  "startup_table =
     map (\<lambda>(stage_index, stage). ((Startup_Bank, STAGE_COMPONENTS ! stage_index, stage),
            PRODUCER_CONTROL_BYTES + WORKLOAD_METRIC_BYTES + DIAGNOSTIC_METRIC_BYTES + int stage_index * COMPACT_METRIC_BYTES))
       (enumerate 0 STAGES)"

definition metric_table :: "(bank_key \<times> int) list" where
  "metric_table = concat (map component_table (enumerate 0 COMPONENTS)) @ stage_table @ startup_table"

record arena_state =
  as_producers :: "producer list"
  as_banks :: banks
  as_startup :: "metric option"

definition decode_entry :: "bytes \<Rightarrow> bank_key \<Rightarrow> int \<Rightarrow> metric res" where
  "decode_entry data key offset =
     (if fst key = Startup_Bank then decode_compact_metric data offset else decode_metric data offset)"

definition add_entry :: "bytes \<Rightarrow> int \<Rightarrow> arena_state \<Rightarrow> bank_key \<times> int \<Rightarrow> arena_state res" where
  "add_entry data control st = (\<lambda>(key, offset).
     rbind (decode_entry data key (control + offset)) (\<lambda>metric.
     if mt_calls metric = 0 then Inr st
     else rbind (if fst key = Startup_Bank then rbind (add_metric (as_startup st) metric) (\<lambda>m. Inr (Some m))
                 else Inr (as_startup st)) (\<lambda>startup.
          rbind (add_metric (map_of (as_banks st) key) metric) (\<lambda>total.
          Inr (st\<lparr>as_banks := aset key total (as_banks st), as_startup := startup\<rparr>)))))"

definition slot_control :: "arena_header \<Rightarrow> int \<Rightarrow> int" where
  "slot_control header slot = producer_base header + slot * producer_stride header"

definition read_producer :: "bytes \<Rightarrow> int \<Rightarrow> int \<Rightarrow> producer res" where
  "read_producer data control slot =
     rbind (u64 data (control + 8)) (\<lambda>thread.
     rbind (u64 data (control + 16)) (\<lambda>sequence.
     rbind (u64 data (control + 24)) (\<lambda>head.
     rbind (u64 data (control + 32)) (\<lambda>drops.
     Inr \<lparr>pr_slot = slot, thread_identity = thread, trace_sequence = sequence, event_head = head, event_drops = drops\<rparr>))))"

definition decode_slot :: "bytes \<Rightarrow> arena_header \<Rightarrow> arena_state \<Rightarrow> int \<Rightarrow> arena_state res" where
  "decode_slot data header st slot =
     (let control = slot_control header slot
      in if event_base header < control + producer_stride header
         then Inl (ValueError ''producer shard overlaps the sampled event region'')
         else rbind (u64 data control) (\<lambda>claimed.
              if claimed = 0 then Inr st
              else rbind (read_producer data control slot) (\<lambda>producer.
                   rfold (add_entry data control) (st\<lparr>as_producers := as_producers st @ [producer]\<rparr>) metric_table)))"

record arena =
  ar_path :: string
  ar_sha256 :: string
  ar_header :: arena_header
  ar_producers :: "producer list"
  matrix :: "((string \<times> string) \<times> metric) list"
  semantic_matrix :: "((string \<times> string) \<times> metric) list"
  stage_matrix :: "((string \<times> string) \<times> metric) list"
  startup_metric :: "metric option"
  startup_stages :: "((string \<times> string) \<times> metric) list"
  ar_valid :: bool
  invalid_fields :: "(string \<times> int) list"

text \<open>The rows of one bank, sorted by their keys.\<close>

definition bank_rows :: "bank \<Rightarrow> banks \<Rightarrow> ((string \<times> string) \<times> metric) list" where
  "bank_rows b banks = sort_key fst (map (\<lambda>((_, key), m). (key, m)) (filter (\<lambda>((b', _), _). b' = b) banks))"

definition header_faults :: "arena_header \<Rightarrow> (string \<times> int) list" where
  "header_faults h =
     filter (\<lambda>(name, v). v \<noteq> 0)
       [(''flags'', ah_flags h), (''producer_overflow'', producer_overflow h), (''identity_overflow'', identity_overflow h),
        (''event_overflow'', event_overflow h), (''histogram_saturation'', ah_histogram_saturation h),
        (''active_scopes'', active_scopes h), (''active_requests'', active_requests h),
        (''pending_persistence'', pending_persistence h), (''abandoned_scopes'', abandoned_scopes h),
        (''initialization_error'', initialization_error h), (''export_error'', export_error h)]"

definition count_mismatches :: "(pyfloat \<Rightarrow> nat \<Rightarrow> pyfloat res) \<Rightarrow> metric list \<Rightarrow> int res" where
  "count_mismatches pow metrics =
     rfold (\<lambda>n m. rbind (metric_percentiles pow (Some m)) (\<lambda>p.
       Inr (if pc_status p = ''histogram_count_mismatch'' then n + 1 else n))) 0 metrics"

definition mismatch_fault :: "int \<Rightarrow> (string \<times> int) list" where
  "mismatch_fault mismatches = (if mismatches \<noteq> 0 then [(''histogram_count_mismatch'', mismatches)] else [])"

definition decode_arena ::
  "(pyfloat \<Rightarrow> nat \<Rightarrow> pyfloat res) \<Rightarrow> (bytes \<Rightarrow> string) \<Rightarrow> string \<Rightarrow> bytes \<Rightarrow> arena res" where
  "decode_arena pow sha256 path data =
     rbind (decode_header data) (\<lambda>header.
     if producer_stride header < PRODUCER_CONTROL_BYTES + WORKLOAD_METRIC_BYTES
     then Inl (ValueError ''producer stride is too small for observation-v1 metrics'')
     else rbind (rfold (decode_slot data header) \<lparr>as_producers = [], as_banks = [], as_startup = None\<rparr>
                   [0..producer_slots header - 1]) (\<lambda>st.
          let rows = (\<lambda>b. bank_rows b (as_banks st));
              observed = map snd (filter (\<lambda>((b, _), _). b = Root_Bank) (as_banks st))
                @ map snd (filter (\<lambda>((b, _), _). b = Semantic_Bank) (as_banks st))
                @ map snd (filter (\<lambda>((b, _), _). b = Stage_Bank) (as_banks st))
          in rbind (count_mismatches pow observed) (\<lambda>mismatches.
             let faults = header_faults header @ mismatch_fault mismatches
             in Inr \<lparr>ar_path = path, ar_sha256 = sha256 data, ar_header = header, ar_producers = as_producers st,
                     matrix = rows Root_Bank, semantic_matrix = rows Semantic_Bank, stage_matrix = rows Stage_Bank,
                     startup_metric = as_startup st, startup_stages = rows Startup_Bank,
                     ar_valid = (faults = []), invalid_fields = faults\<rparr>)))"

section \<open>The header image\<close>

text \<open>
  The writer's side as a table of fields, used to state the round trip of the header.
\<close>

definition role_code :: "string \<Rightarrow> int" where
  "role_code r = (if r = ''client-rank'' then 1 else if r = ''server'' then 2 else 3)"

definition mode_code :: "string \<Rightarrow> int" where
  "mode_code m = (if m = ''off'' then 0 else if m = ''aggregate'' then 1 else 2)"

definition digest_table :: "nat \<Rightarrow> request_digest \<Rightarrow> field_table" where
  "digest_table base d =
     [(base, 8, dg_count d), (base + 8, 8, dg_xor0 d), (base + 16, 8, dg_xor1 d), (base + 24, 8, dg_sum0 d),
      (base + 32, 8, dg_sum1 d)]"

definition fixed_table :: "arena_header \<Rightarrow> field_table" where
  "fixed_table h =
     [(0, 8, le_value MAGIC), (8, 2, schema_major h), (10, 2, schema_minor h), (12, 2, 4096), (14, 2, 64),
      (16, 8, arena_bytes h), (24, 1, mode_code (requested_mode h)), (25, 1, mode_code (effective_mode h)),
      (26, 1, role_code (ah_role h)), (27, 1, sample_shift h), (28, 2, producer_slots h), (30, 2, metric_slots h),
      (32, 4, endpoint_id h), (36, 4, ah_pid h), (40, 8, exec_incarnation h), (48, 8, serving_generation h),
      (56, 8, workload_endpoint_mask h), (64, 8, run_hash h), (72, 8, realtime_anchor_ns h), (80, 8, monotonic_anchor_ns h),
      (88, 8, anchor_span_ns h), (96, 8, clock_p50_ns h), (104, 8, clock_p99_ns h), (112, 4, clock_backend h),
      (116, 4, producer_stride h), (120, 8, producer_base h), (128, 8, event_base h), (136, 8, event_capacity_per_producer h),
      (144, 8, ah_flags h), (152, 8, event_count h), (160, 8, producer_slots_claimed h), (168, 8, producer_overflow h),
      (176, 8, identity_overflow h), (184, 8, event_overflow h), (192, 8, ah_histogram_saturation h), (200, 8, active_scopes h),
      (208, 8, active_requests h), (216, 8, pending_persistence h), (224, 8, abandoned_scopes h),
      (232, 8, initialization_error h), (240, 8, export_error h), (248, 8, clock_reads h)]
     @ concat (map (\<lambda>(base, d). digest_table base d) (zip [256, 296, 336, 376] (map snd (request_digests h))))
     @ [(416, 8, 0x942b9f1d769746ec)]"

definition identity_table :: "arena_identity \<Rightarrow> field_table" where
  "identity_table i =
     [(4096, 1, role_code (id_role i)), (4100, 4, id_endpoint_id i), (4104, 4, id_pid i), (4108, 4, id_mpi_rank i),
      (4112, 8, id_exec_incarnation i), (4120, 8, id_serving_generation i)]"

definition header_table :: "arena_header \<Rightarrow> field_table" where
  "header_table h = fixed_table h @ identity_table (ah_identity h)"

definition encode_header :: "arena_header \<Rightarrow> bytes" where
  "encode_header h = record_image 0 (header_table h) (nat (arena_bytes h))"

text \<open>The headers a writer of this schema can store.\<close>

definition header_ok :: "arena_header \<Rightarrow> bool" where
  "header_ok h \<longleftrightarrow>
     fits 0 (header_table h) (nat (arena_bytes h)) \<and> schema_major h = 1 \<and> schema_digest h = SCHEMA_DIGEST
     \<and> requested_mode h \<in> {''off'', ''aggregate'', ''sampled''} \<and> effective_mode h \<in> {''off'', ''aggregate'', ''sampled''}
     \<and> ah_role h \<in> {''client-rank'', ''server'', ''diagnostic-client''}
     \<and> map fst (request_digests h) = REQUEST_EDGES \<and> identity_matches h"

lemma role_code_name: "r \<in> {''client-rank'', ''server'', ''diagnostic-client''} \<Longrightarrow> role_name (role_code r) = Some r"
  by (auto simp: role_code_def role_name_def)

lemma mode_code_name: "m \<in> {''off'', ''aggregate'', ''sampled''} \<Longrightarrow> mode_name (mode_code m) = Some m"
  by (auto simp: mode_code_def mode_name_def)

lemma magic_bytes: "le_bytes 8 (le_value MAGIC) = MAGIC"
  by code_simp

lemma hex16_digest: "hex16 0x942b9f1d769746ec = SCHEMA_DIGEST"
  by (simp add: hex16_def SCHEMA_DIGEST_def hex_nat_eval)

lemma image_take:
  "fits pos fs len \<Longrightarrow> fs = (pos, n, v) # rest \<Longrightarrow> take n (record_image pos fs len) = le_bytes n v"
  by simp

lemma image_fields:
  assumes "fits 0 fs len"
  shows "\<forall>(off, n, v)\<in>set fs. field_at n (record_image 0 fs len) off = v"
  using image_field [OF assms] by fastforce

lemma edges_cases:
  assumes "map fst ds = REQUEST_EDGES"
  obtains a b c d where "ds = [(''submit'', a), (''observe'', b), (''publish'', c), (''consume'', d)]"
  using assms by (auto simp: REQUEST_EDGES_def map_eq_Cons_conv)

lemma decode_encode_header:
  assumes "header_ok h"
  shows "decode_header (encode_header h) = Inr h"
proof -
  let ?d = "encode_header h" and ?N = "nat (arena_bytes h)"
  from assms have f: "fits 0 (header_table h) ?N" and m: "schema_major h = 1" "schema_digest h = SCHEMA_DIGEST"
    and modes: "mode_name (mode_code (requested_mode h)) = Some (requested_mode h)"
      "mode_name (mode_code (effective_mode h)) = Some (effective_mode h)"
    and role: "role_name (role_code (ah_role h)) = Some (ah_role h)" and i: "identity_matches h"
    by (auto simp: header_ok_def intro!: role_code_name mode_code_name)
  from assms obtain a b c d where ds: "request_digests h = [(''submit'', a), (''observe'', b), (''publish'', c), (''consume'', d)]"
    by (auto simp: header_ok_def elim: edges_cases)
  have fields: "\<forall>(off, n, v)\<in>set (header_table h). field_at n ?d off = v"
    using image_fields [OF f] by (simp add: encode_header_def)
  then have eqs: "\<forall>(off, n, v)\<in>set (fixed_table h). field_at n ?d off = v"
      "\<forall>(off, n, v)\<in>set (identity_table (ah_identity h)). field_at n ?d off = v"
    by (auto simp: header_table_def)
  note fixed = eqs(1) [unfolded fixed_table_def ds digest_table_def, simplified]
  note ident = eqs(2) [unfolded identity_table_def, simplified]
  have len: "length ?d = ?N" using length_image [OF f] by (simp add: encode_header_def)
  have "(4120, 8, id_serving_generation (ah_identity h)) \<in> set (header_table h)" by (simp add: header_table_def identity_table_def)
  from fits_bounds [OF f this] have big: "4128 \<le> ?N" by simp
  have magic: "take 8 ?d = MAGIC"
    using image_take [OF f, of 8 "le_value MAGIC"] by (simp add: encode_header_def header_table_def fixed_table_def magic_bytes)
  have same: "id_role (ah_identity h) = ah_role h" using i by (simp add: identity_matches_def Let_def)
  have ident_read: "decode_identity ?d = Inr (ah_identity h)"
    using big len ident role same
    by (simp add: decode_identity_def byte_at_def field_at_byte [symmetric] u32_def u64_def unpack_from_numeral)
  have digests: "digests_at ?d = request_digests h"
    using fixed by (simp add: digests_at_def REQUEST_EDGES_def digest_at_def ds)
  have header: "header_fields ?d (requested_mode h) (effective_mode h) (ah_role h) (ah_identity h) = h"
    using fixed m digests by (intro arena_header.equality) (simp_all add: header_fields_def hex16_digest)
  show ?thesis
    using fixed m len big magic modes role i ident_read header
    by (simp add: decode_header_def Let_def hex16_digest)
qed

text \<open>
  (C22) The arena header survives the round trip: decoding the image of any header of this
  schema, with its digests and identity table, returns the header.
\<close>

theorem header_roundtrip:
  assumes "header_ok h"
  shows "decode_header (encode_header h) = Inr h"
  using assms by (rule decode_encode_header)

definition zero_digest :: request_digest where
  "zero_digest = \<lparr>dg_count = 0, dg_xor0 = 0, dg_xor1 = 0, dg_sum0 = 0, dg_sum1 = 0\<rparr>"

definition sample_header :: arena_header where
  "sample_header =
     \<lparr>schema_major = 1, schema_minor = 2, schema_digest = SCHEMA_DIGEST, arena_bytes = 4128, requested_mode = ''aggregate'',
      effective_mode = ''aggregate'', ah_role = ''server'', sample_shift = 0, producer_slots = 0, metric_slots = 384,
      endpoint_id = 7, ah_pid = 40, exec_incarnation = 3, serving_generation = 9, workload_endpoint_mask = 0, run_hash = 5,
      realtime_anchor_ns = 0, monotonic_anchor_ns = 0, anchor_span_ns = 0, clock_p50_ns = 0, clock_p99_ns = 0,
      clock_backend = 0, producer_stride = 482368, producer_base = 4128, event_base = 4128, event_capacity_per_producer = 0,
      ah_flags = 0, event_count = 0, producer_slots_claimed = 0, producer_overflow = 0, identity_overflow = 0,
      event_overflow = 0, ah_histogram_saturation = 0, active_scopes = 0, active_requests = 0, pending_persistence = 0,
      abandoned_scopes = 0, initialization_error = 0, export_error = 0, clock_reads = 0,
      request_digests = [(''submit'', zero_digest), (''observe'', zero_digest), (''publish'', zero_digest), (''consume'', zero_digest)],
      ah_identity = \<lparr>id_role = ''server'', id_endpoint_id = 7, id_pid = 40, id_mpi_rank = 0, id_exec_incarnation = 3,
        id_serving_generation = 9\<rparr>\<rparr>"

lemma sample_header_ok: "header_ok sample_header"
  by (simp add: header_ok_def sample_header_def header_table_def fixed_table_def identity_table_def digest_table_def
      zero_digest_def REQUEST_EDGES_def identity_matches_def role_code_def mode_code_def MAGIC_def)

theorem header_roundtrip_witness:
  "header_ok sample_header \<and> decode_header (encode_header sample_header) = Inr sample_header"
  using sample_header_ok header_roundtrip [OF sample_header_ok] by simp

text \<open>
  The length check accepts an arena that ends with the fixed header, but the decoder then
  reads the identity table behind it: such a file raises an index error instead of the
  value error the checks raise.
\<close>

lemma short_arena_index_error: "\<exists>data. length data = 4096 \<and> decode_header data = Inl IndexError"
proof -
  let ?h = "sample_header\<lparr>arena_bytes := 4096\<rparr>" and ?d = "record_image 0 (fixed_table (sample_header\<lparr>arena_bytes := 4096\<rparr>)) 4096"
  have f: "fits 0 (fixed_table ?h) 4096"
    by (simp add: sample_header_def fixed_table_def digest_table_def zero_digest_def role_code_def mode_code_def MAGIC_def)
  have "length ?d = 4096" using length_image [OF f] by simp
  moreover have "take 8 ?d = MAGIC"
    using image_take [OF f, of 8 "le_value MAGIC"] by (simp add: fixed_table_def magic_bytes)
  moreover note image_fields [OF f]
  ultimately obtain data where len: "length data = 4096" and magic: "take 8 data = MAGIC"
    and fields: "\<forall>(off, n, v)\<in>set (fixed_table ?h). field_at n data off = v" by blast
  have ident: "decode_identity data = Inl IndexError" by (simp add: decode_identity_def byte_at_def len)
  from fields [unfolded fixed_table_def] have "decode_header data = Inl IndexError"
    by (simp add: decode_header_def sample_header_def role_code_def mode_code_def role_name_def mode_name_def
        hex16_digest Let_def len magic ident)
  with len show ?thesis by blast
qed


section \<open>Aggregation against a reference\<close>

text \<open>
  A metric that a writer can produce: it has calls, and a minimum and maximum when it has
  duration samples, and its histogram, if any, has all bins.
\<close>

definition metric_ok :: "metric \<Rightarrow> bool" where
  "metric_ok m \<longleftrightarrow>
     0 < mt_calls m \<and> 0 \<le> duration_samples m
     \<and> (0 < duration_samples m \<longrightarrow> sampled_min_ns m \<noteq> None \<and> sampled_max_ns m \<noteq> None)
     \<and> (\<forall>bins. histogram_bins m = Some bins \<longrightarrow> length bins = 576)"

definition sampled :: "metric list \<Rightarrow> metric list" where
  "sampled ms = filter (\<lambda>m. duration_samples m \<noteq> 0) ms"

definition total_bins :: "metric list \<Rightarrow> int list option" where
  "total_bins ms =
     (if ms = [] \<or> list_ex (\<lambda>m. histogram_bins m = None) ms then None
      else Some (map (\<lambda>i. \<Sum>m\<leftarrow>ms. the (histogram_bins m) ! i) [0..<576]))"

definition totals :: "metric list \<Rightarrow> metric" where
  "totals ms =
     \<lparr>mt_calls = (\<Sum>m\<leftarrow>ms. mt_calls m), duration_samples = (\<Sum>m\<leftarrow>ms. duration_samples m),
      sampled_duration_sum_ns = (\<Sum>m\<leftarrow>ms. sampled_duration_sum_ns m),
      sampled_min_ns = (if sampled ms = [] then None else Some (Min (set (map (the \<circ> sampled_min_ns) (sampled ms))))),
      sampled_max_ns = (if sampled ms = [] then None else Some (Max (insert 0 (set (map (the \<circ> sampled_max_ns) (sampled ms)))))),
      mt_objects = (\<Sum>m\<leftarrow>ms. mt_objects m), mt_bytes = (\<Sum>m\<leftarrow>ms. mt_bytes m), mt_successes = (\<Sum>m\<leftarrow>ms. mt_successes m),
      mt_errors = (\<Sum>m\<leftarrow>ms. mt_errors m), mt_retries = (\<Sum>m\<leftarrow>ms. mt_retries m),
      histogram_underflow = (\<Sum>m\<leftarrow>ms. histogram_underflow m), histogram_overflow = (\<Sum>m\<leftarrow>ms. histogram_overflow m),
      histogram_saturation = (\<Sum>m\<leftarrow>ms. histogram_saturation m), histogram_bins = total_bins ms\<rparr>"

definition aggregate :: "metric list \<Rightarrow> metric option" where
  "aggregate ms = (if ms = [] then None else Some (totals ms))"

definition add_all :: "metric option \<Rightarrow> metric list \<Rightarrow> metric option res" where
  "add_all target ms = rfold (\<lambda>t m. rbind (add_metric t m) (\<lambda>r. Inr (Some r))) target ms"

lemma add_bins_zip: "length ts = length ss \<Longrightarrow> add_bins ts ss = Inr (map2 (+) ts ss)"
  by (induction ts ss rule: add_bins.induct) auto

lemma sum_list_pos: "ms \<noteq> [] \<Longrightarrow> \<forall>m\<in>set ms. 0 < f m \<Longrightarrow> 0 < (\<Sum>m\<leftarrow>ms. f m :: int)"
proof (induction ms)
  case (Cons a ms)
  then have "0 \<le> (\<Sum>m\<leftarrow>ms. f m)" by (intro sum_list_nonneg) (auto intro: less_imp_le)
  with Cons.prems show ?case by simp
qed simp

lemma total_bins_snoc:
  assumes "ms \<noteq> []" "\<forall>m\<in>set (ms @ [m]). metric_ok m"
  shows "merge_bins True (total_bins ms) (histogram_bins m) = Inr (total_bins (ms @ [m]))"
proof (cases "total_bins ms = None \<or> histogram_bins m = None")
  case True
  then show ?thesis using assms(1) by (auto simp: merge_bins_def total_bins_def split: option.splits if_splits)
next
  case False
  then obtain ts ss where s: "total_bins ms = Some ts" "histogram_bins m = Some ss" by auto
  with assms have len: "length ss = 576" by (auto simp: metric_ok_def)
  from s assms(1) have ts: "ts = map (\<lambda>i. \<Sum>m\<leftarrow>ms. the (histogram_bins m) ! i) [0..<576]"
    and all: "\<not> list_ex (\<lambda>m. histogram_bins m = None) ms" by (auto simp: total_bins_def split: if_splits)
  have "map2 (+) ts ss = map (\<lambda>i. (\<Sum>m\<leftarrow>ms. the (histogram_bins m) ! i) + ss ! i) [0..<576]"
    using len by (intro nth_equalityI) (simp_all add: ts)
  with s len all show ?thesis by (simp add: merge_bins_def add_bins_zip ts total_bins_def)
qed

lemma samples_zero_iff:
  assumes "\<forall>m\<in>set ms. metric_ok m"
  shows "(\<Sum>m\<leftarrow>ms. duration_samples m) = 0 \<longleftrightarrow> sampled ms = []"
proof -
  have "\<forall>m\<in>set ms. 0 \<le> duration_samples m" using assms by (auto simp: metric_ok_def)
  then have "(\<Sum>m\<leftarrow>ms. duration_samples m) = 0 \<longleftrightarrow> (\<forall>m\<in>set ms. duration_samples m = 0)"
    by (subst sum_list_nonneg_eq_0_iff) auto
  then show ?thesis by (auto simp: sampled_def filter_empty_conv)
qed

lemma totals_snoc:
  assumes "\<forall>m\<in>set (ms @ [m]). metric_ok m"
  shows "add_metric (aggregate ms) m = Inr (totals (ms @ [m]))"
proof -
  have m: "metric_ok m" and ms: "\<forall>m\<in>set ms. metric_ok m" using assms by auto
  have bins: "merge_bins (ms \<noteq> []) (total_bins ms) (histogram_bins m) = Inr (total_bins (ms @ [m]))"
  proof (cases "ms = []")
    case True
    with m show ?thesis
      by (auto simp: merge_bins_def total_bins_def metric_ok_def intro!: nth_equalityI split: option.splits)
  qed (use total_bins_snoc [OF _ assms] in auto)
  have had: "(\<Sum>m\<leftarrow>ms. mt_calls m) = 0 \<longleftrightarrow> ms = []"
  proof
    assume "(\<Sum>m\<leftarrow>ms. mt_calls m) = 0"
    moreover have "\<forall>m\<in>set ms. 0 < mt_calls m" using ms by (simp add: metric_ok_def)
    ultimately show "ms = []" using sum_list_pos [of ms mt_calls] by fastforce
  qed simp
  have z: "(\<Sum>m\<leftarrow>ms. duration_samples m) = 0 \<longleftrightarrow> sampled ms = []" by (rule samples_zero_iff [OF ms])
  have target: "(case aggregate ms of None \<Rightarrow> empty_metric | Some t \<Rightarrow> t) = totals ms"
    by (simp add: aggregate_def totals_def empty_metric_def sampled_def total_bins_def)
  show ?thesis
  proof (cases "duration_samples m = 0")
    case True
    then have "sampled (ms @ [m]) = sampled ms" by (simp add: sampled_def)
    with True bins show ?thesis
      unfolding add_metric_def target by (simp add: totals_def Let_def had)
  next
    case False
    with m obtain lo hi where lh: "sampled_min_ns m = Some lo" "sampled_max_ns m = Some hi" by (auto simp: metric_ok_def)
    from False have s: "sampled (ms @ [m]) = sampled ms @ [m]" by (simp add: sampled_def)
    have lo: "merge_min (\<Sum>m\<leftarrow>ms. duration_samples m) (sampled_min_ns (totals ms)) (sampled_min_ns m)
        = Inr (sampled_min_ns (totals (ms @ [m])))"
      using lh by (simp add: merge_min_def totals_def s z min.commute)
    have hi: "merge_max (sampled_max_ns (totals ms)) (sampled_max_ns m) = Inr (sampled_max_ns (totals (ms @ [m])))"
      using lh by (simp add: merge_max_def totals_def s max.commute max.left_commute insert_commute)
    show ?thesis
      using False bins lo hi unfolding add_metric_def target by (simp add: totals_def Let_def had)
  qed
qed

lemma add_all_totals: "\<forall>m\<in>set ms. metric_ok m \<Longrightarrow> add_all None ms = Inr (aggregate ms)"
proof (induction ms rule: rev_induct)
  case Nil
  show ?case by (simp add: add_all_def aggregate_def)
next
  case (snoc m ms)
  then have "add_all None ms = Inr (aggregate ms)" by simp
  with totals_snoc [OF snoc.prems] show ?case by (simp add: add_all_def rfold_append aggregate_def)
qed

lemma totals_mset:
  assumes "mset ms = mset ns"
  shows "totals ms = totals ns"
proof -
  have sum: "(\<Sum>m\<leftarrow>ms. f m) = (\<Sum>m\<leftarrow>ns. f m)" for f :: "metric \<Rightarrow> int"
    by (metis assms mset_map sum_mset_sum_list)
  have set: "set ms = set ns" "set (sampled ms) = set (sampled ns)" using assms
    by (auto simp: sampled_def dest: mset_eq_setD)
  then have nil: "sampled ms = [] \<longleftrightarrow> sampled ns = []" "ms = [] \<longleftrightarrow> ns = []" by (metis set_empty)+
  have "total_bins ms = total_bins ns" using sum nil(2) set(1) by (simp add: total_bins_def list_ex_iff)
  with sum set nil show ?thesis by (simp add: totals_def)
qed

text \<open>
  (C7) Aggregation is exact and does not depend on the order: adding metrics one after
  another, from the empty dictionary, gives the sums of all counters, the least minimum and
  the greatest maximum of the sampled ones and the column sums of the histograms (none if
  one of them is compact), for every order of the same metrics.
\<close>

theorem aggregation_exact:
  assumes "\<forall>m\<in>set ms. metric_ok m" and "mset ns = mset ms"
  shows "add_all None ns = Inr (aggregate ms)"
proof -
  have "\<forall>m\<in>set ns. metric_ok m" using assms by (metis mset_eq_setD)
  then have "add_all None ns = Inr (aggregate ns)" by (rule add_all_totals)
  moreover have "aggregate ns = aggregate ms" using totals_mset [OF assms(2)] assms(2) by (auto simp: aggregate_def)
  ultimately show ?thesis by simp
qed

definition sample_metric :: "int \<Rightarrow> metric" where
  "sample_metric t = empty_metric\<lparr>mt_calls := 1, duration_samples := 1, sampled_duration_sum_ns := t,
     sampled_min_ns := Some t, sampled_max_ns := Some t\<rparr>"

theorem aggregation_exact_witness:
  "\<exists>m. add_all None [sample_metric 5, sample_metric 3] = Inr (Some m) \<and> mt_calls m = 2 \<and> sampled_duration_sum_ns m = 8
     \<and> sampled_min_ns m = Some 3 \<and> sampled_max_ns m = Some 5"
proof -
  have "\<forall>m\<in>set [sample_metric 3, sample_metric 5]. metric_ok m"
    by (simp add: sample_metric_def metric_ok_def empty_metric_def)
  moreover have "mset [sample_metric 5, sample_metric 3] = mset [sample_metric 3, sample_metric 5]" by simp
  ultimately have "add_all None [sample_metric 5, sample_metric 3] = Inr (aggregate [sample_metric 3, sample_metric 5])"
    by (rule aggregation_exact)
  then show ?thesis by (simp add: aggregate_def totals_def sample_metric_def empty_metric_def sampled_def)
qed

section \<open>What the decoder reports\<close>

text \<open>The metrics with calls that an arena holds for one key: one record per claimed shard, in slot order.\<close>

definition entry_metrics :: "bytes \<Rightarrow> bank_key \<Rightarrow> int \<Rightarrow> metric list" where
  "entry_metrics data key offset =
     (case decode_entry data key offset of Inr m \<Rightarrow> if mt_calls m = 0 then [] else [m] | Inl e \<Rightarrow> [])"

definition shard_metrics :: "bytes \<Rightarrow> int \<Rightarrow> bank_key \<Rightarrow> (bank_key \<times> int) list \<Rightarrow> metric list" where
  "shard_metrics data control key table =
     concat (map (\<lambda>(k, offset). if k = key then entry_metrics data key (control + offset) else []) table)"

definition arena_metrics :: "bytes \<Rightarrow> arena_header \<Rightarrow> int list \<Rightarrow> bank_key \<Rightarrow> metric list" where
  "arena_metrics data header slots key =
     concat (map (\<lambda>slot. if u64 data (slot_control header slot) = Inr 0 then []
                         else shard_metrics data (slot_control header slot) key metric_table) slots)"

lemma add_all_append: "add_all t (xs @ ys) = rbind (add_all t xs) (\<lambda>u. add_all u ys)"
  by (simp add: add_all_def rfold_append)

lemma decode_entry_ok: "decode_entry data key offset = Inr m \<Longrightarrow> mt_calls m \<noteq> 0 \<Longrightarrow> metric_ok m"
  using field_at_bounds(1) [of 8 data]
  by (auto simp: decode_entry_def decode_metric_def decode_compact_metric_def metric_ok_def Let_def less_le split: if_splits)

lemma entry_metrics_ok: "m \<in> set (entry_metrics data key offset) \<Longrightarrow> metric_ok m"
  by (cases "decode_entry data key offset") (auto simp: entry_metrics_def dest: decode_entry_ok split: if_splits)

lemma shard_metrics_ok: "m \<in> set (shard_metrics data control key table) \<Longrightarrow> metric_ok m"
  by (auto simp: shard_metrics_def dest: entry_metrics_ok split: if_splits)

lemma arena_metrics_ok: "m \<in> set (arena_metrics data header slots key) \<Longrightarrow> metric_ok m"
  by (auto simp: arena_metrics_def dest: shard_metrics_ok split: if_splits)

lemma add_entry_key:
  assumes "add_entry data control st (k, offset) = Inr st'"
  shows "add_all (map_of (as_banks st) key) (if k = key then entry_metrics data key (control + offset) else [])
      = Inr (map_of (as_banks st') key)"
    and "distinct (map fst (as_banks st)) \<Longrightarrow> distinct (map fst (as_banks st'))"
proof -
  from assms obtain m where m: "decode_entry data k (control + offset) = Inr m"
    by (auto simp: add_entry_def rbind_Inr_iff)
  have r: "mt_calls m = 0 \<and> as_banks st' = as_banks st
      \<or> mt_calls m \<noteq> 0 \<and> (\<exists>t. add_metric (map_of (as_banks st) k) m = Inr t \<and> as_banks st' = aset k t (as_banks st))"
  proof (cases "mt_calls m = 0")
    case False
    with assms m obtain t u where "add_metric (map_of (as_banks st) k) m = Inr t"
      "st' = st\<lparr>as_banks := aset k t (as_banks st), as_startup := u\<rparr>"
      by (auto simp: add_entry_def rbind_Inr_iff)
    with False show ?thesis by simp
  qed (use assms m in \<open>simp add: add_entry_def\<close>)
  from r m show "add_all (map_of (as_banks st) key) (if k = key then entry_metrics data key (control + offset) else [])
      = Inr (map_of (as_banks st') key)"
    by (auto simp: entry_metrics_def add_all_def)
  from r show "distinct (map fst (as_banks st)) \<Longrightarrow> distinct (map fst (as_banks st'))"
    by (auto intro: distinct_aset)
qed

lemma add_entries_key:
  assumes "rfold (add_entry data control) st table = Inr st'"
  shows "add_all (map_of (as_banks st) key) (shard_metrics data control key table) = Inr (map_of (as_banks st') key)
    \<and> (distinct (map fst (as_banks st)) \<longrightarrow> distinct (map fst (as_banks st')))"
  using assms
proof (induction table arbitrary: st)
  case Nil
  then show ?case by (simp add: shard_metrics_def add_all_def)
next
  case (Cons e table)
  obtain k offset where e: "e = (k, offset)" by (cases e)
  from Cons.prems obtain u where u: "add_entry data control st (k, offset) = Inr u"
    and rest: "rfold (add_entry data control) u table = Inr st'" by (auto simp: e rbind_Inr_iff)
  from Cons.IH [OF rest] add_entry_key [OF u] show ?case by (simp add: e shard_metrics_def add_all_append)
qed

lemma decode_slots_key:
  assumes "rfold (decode_slot data header) st slots = Inr st'"
  shows "add_all (map_of (as_banks st) key) (arena_metrics data header slots key) = Inr (map_of (as_banks st') key)
    \<and> (distinct (map fst (as_banks st)) \<longrightarrow> distinct (map fst (as_banks st')))"
  using assms
proof (induction slots arbitrary: st)
  case Nil
  then show ?case by (simp add: arena_metrics_def add_all_def)
next
  case (Cons slot slots)
  from Cons.prems obtain u where u: "decode_slot data header st slot = Inr u"
    and rest: "rfold (decode_slot data header) u slots = Inr st'" by (auto simp: rbind_Inr_iff)
  have "add_all (map_of (as_banks st) key) (arena_metrics data header [slot] key) = Inr (map_of (as_banks u) key)
    \<and> (distinct (map fst (as_banks st)) \<longrightarrow> distinct (map fst (as_banks u)))"
  proof (cases "u64 data (slot_control header slot) = Inr 0")
    case True
    with u show ?thesis by (auto simp: decode_slot_def Let_def arena_metrics_def add_all_def split: if_splits)
  next
    case False
    with u obtain p where
      "rfold (add_entry data (slot_control header slot)) (st\<lparr>as_producers := as_producers st @ [p]\<rparr>) metric_table = Inr u"
      by (auto simp: decode_slot_def Let_def rbind_Inr_iff split: if_splits)
    from add_entries_key [OF this, of key] False show ?thesis by (simp add: arena_metrics_def)
  qed
  with Cons.IH [OF rest] show ?case by (simp add: arena_metrics_def add_all_append)
qed

lemma map_of_sort_key:
  "distinct (map fst xs) \<Longrightarrow> map_of (sort_key fst xs) = map_of (xs :: ('k :: linorder \<times> 'v) list)"
proof -
  assume d: "distinct (map fst xs)"
  have "mset (map fst (sort_key fst xs)) = mset (map fst xs)" by simp
  then have "distinct (map fst (sort_key fst xs))" using d by (metis distinct_count_atmost_1 mset_eq_setD)
  with d show ?thesis by (subst map_of_inject_set) auto
qed

lemma map_of_bank_rows:
  assumes "distinct (map fst banks)"
  shows "map_of (bank_rows b banks) key = map_of banks (b, key)"
proof -
  have "map_of (map (\<lambda>((_, key), m). (key, m)) (filter (\<lambda>((b', _), _). b' = b) banks)) key = map_of banks (b, key)"
    by (induction banks) auto
  moreover have "distinct (map fst (map (\<lambda>((_, key), m). (key, m)) (filter (\<lambda>((b', _), _). b' = b) banks)))"
    using assms by (induction banks) (force split: if_splits)+
  ultimately show ?thesis by (simp add: bank_rows_def map_of_sort_key)
qed

text \<open>A histogram agrees with the sample count of its metric.\<close>

definition histogram_agrees :: "metric \<Rightarrow> bool" where
  "histogram_agrees m =
     (case histogram_bins m of
        None \<Rightarrow> True
      | Some bins \<Rightarrow>
          histogram_underflow m + histogram_overflow m + histogram_saturation m + sum_list bins = duration_samples m)"

lemma mismatch_status:
  "metric_percentiles pow (Some m) = Inr p \<Longrightarrow> pc_status p = ''histogram_count_mismatch'' \<longleftrightarrow> \<not> histogram_agrees m"
  by (auto simp: metric_percentiles_def histogram_agrees_def no_percentiles_def Let_def rbind_Inr_iff split: option.splits if_splits)

lemma count_mismatches_from:
  assumes "rfold (\<lambda>n m. rbind (metric_percentiles pow (Some m)) (\<lambda>p.
       Inr (if pc_status p = ''histogram_count_mismatch'' then n + 1 else n))) k ms = Inr n"
  shows "n = k + int (length (filter (\<lambda>m. \<not> histogram_agrees m) ms))"
  using assms
proof (induction ms arbitrary: k)
  case (Cons m ms)
  from Cons.prems obtain p where p: "metric_percentiles pow (Some m) = Inr p" by (auto simp: rbind_Inr_iff)
  with Cons.prems mismatch_status [OF p] Cons.IH [of k] Cons.IH [of "k + 1"] show ?case by (simp split: if_splits)
qed simp

lemma count_mismatches_zero:
  "count_mismatches pow ms = Inr n \<Longrightarrow> n = 0 \<longleftrightarrow> (\<forall>m\<in>set ms. histogram_agrees m)"
  unfolding count_mismatches_def by (drule count_mismatches_from) (simp add: filter_empty_conv)

lemma set_bank_rows: "snd ` set (bank_rows b banks) = snd ` set (filter (\<lambda>((b', _), _). b' = b) banks)"
  by (auto simp: bank_rows_def image_image split_beta)



section \<open>Percentiles of a histogram\<close>

text \<open>
  The samples of a histogram in increasing order, each given by its bucket: 0 for the
  underflow bucket, \<open>i + 1\<close> for bin \<open>i\<close>, and the number after the last bin for the overflow
  bucket.
\<close>

definition bin_samples :: "nat \<Rightarrow> int list \<Rightarrow> nat list" where
  "bin_samples first bins = concat (map (\<lambda>(i, c). replicate (nat c) i) (enumerate first bins))"

definition bucket_samples :: "metric \<Rightarrow> int list \<Rightarrow> nat list" where
  "bucket_samples m bins =
     replicate (nat (histogram_underflow m)) 0 @ bin_samples 1 bins
     @ replicate (nat (histogram_overflow m)) (Suc (length bins))"

definition bucket_value :: "(pyfloat \<Rightarrow> nat \<Rightarrow> pyfloat res) \<Rightarrow> nat \<Rightarrow> nat \<Rightarrow> int option res" where
  "bucket_value pow bins b =
     (if b = 0 then Inr (Some HISTOGRAM_MIN_NS)
      else if b \<le> bins then rbind (histogram_representative_ns pow (b - 1)) (\<lambda>v. Inr (Some v)) else Inr None)"

lemma length_bin_samples: "list_all (\<lambda>c. 0 \<le> c) bins \<Longrightarrow> int (length (bin_samples k bins)) = sum_list bins"
  by (induction bins arbitrary: k) (simp_all add: bin_samples_def)

lemma find_bin_samples:
  assumes "list_all (\<lambda>c. 0 \<le> c) bins" "cursor < rank"
  shows "find_bin rank cursor k bins =
    (if rank \<le> cursor + sum_list bins then Some (bin_samples k bins ! nat (rank - cursor - 1)) else None)"
  using assms
proof (induction bins arbitrary: cursor k)
  case Nil
  then show ?case by simp
next
  case (Cons c bins)
  have s: "0 \<le> sum_list bins" using Cons.prems by (intro sum_list_nonneg) (auto simp: list_all_iff)
  have cons: "bin_samples k (c # bins) = replicate (nat c) k @ bin_samples (Suc k) bins" by (simp add: bin_samples_def)
  show ?case
  proof (cases "rank \<le> cursor + c")
    case True
    then have "nat (rank - cursor - 1) < nat c" using Cons.prems by linarith
    with True s show ?thesis by (simp add: cons nth_append)
  next
    case False
    then have "\<not> nat (rank - cursor - 1) < nat c" "nat (rank - cursor - 1) - nat c = nat (rank - (cursor + c) - 1)"
      using Cons.prems by auto
    with False Cons.IH [of "cursor + c" "Suc k"] Cons.prems show ?thesis by (simp add: cons nth_append add.assoc)
  qed
qed

lemma bin_samples_Suc: "bin_samples (Suc k) bins = map Suc (bin_samples k bins)"
  by (induction bins arbitrary: k) (simp_all add: bin_samples_def)

lemma bin_samples_less: "b \<in> set (bin_samples k bins) \<Longrightarrow> k \<le> b \<and> b < k + length bins"
  by (induction bins arbitrary: k) (fastforce simp: bin_samples_def)+

lemma quantile_rank_exact:
  assumes "p \<in> {50, 95, 99}" "0 < n" "n < 2 ^ 32"
  shows "quantile_rank n (fl (of_int p / 100)) = Inr (exact_rank p n)"
proof -
  obtain y where y: "fmul (fl (of_int p / 100)) (Fin (of_int n)) = Fin y" "\<lceil>y\<rceil> = exact_rank p n"
    using literal_rank [OF assms] by blast
  obtain c where c: "fl (of_int p / 100) = Fin c" using y(1) by (cases "fl (of_int p / 100 :: rat)") (auto simp: signed_inf_def split: if_splits)
  have "fl (of_int n) = Fin (of_int n)" using assms by (intro fl_of_int) auto
  moreover have "0 < exact_rank p n" using exact_rank_range [of p n] assms by auto
  ultimately show ?thesis using y by (simp add: quantile_rank_def int_float_def c mult.commute)
qed

text \<open>What a metric must satisfy for its percentiles to be computed.\<close>

definition histogram_ok :: "metric \<Rightarrow> int list \<Rightarrow> bool" where
  "histogram_ok m bins \<longleftrightarrow>
     histogram_bins m = Some bins \<and> list_all (\<lambda>c. 0 \<le> c) bins \<and> 0 \<le> histogram_underflow m \<and> 0 \<le> histogram_overflow m
     \<and> histogram_saturation m = 0 \<and> histogram_agrees m \<and> 100 \<le> duration_samples m \<and> duration_samples m < 2 ^ 32"

lemma quantile_value_bucket:
  assumes "histogram_ok m bins" "p \<in> {50, 95, 99}"
  shows "quantile_value pow m bins (fl (of_int p / 100)) =
    (let b = bucket_samples m bins ! nat (exact_rank p (duration_samples m) - 1)
     in rbind (bucket_value pow (length bins) b) (\<lambda>v. Inr (v, length bins < b)))"
proof -
  let ?n = "duration_samples m" and ?u = "histogram_underflow m" and ?r = "exact_rank p (duration_samples m)"
  from assms(1) have nn: "list_all (\<lambda>c. 0 \<le> c) bins" "0 \<le> ?u" "0 \<le> histogram_overflow m"
    and total: "?u + histogram_overflow m + sum_list bins = ?n" and n: "0 < ?n" "?n < 2 ^ 32"
    by (auto simp: histogram_ok_def histogram_agrees_def)
  have r: "0 < ?r" "?r \<le> ?n" using exact_rank_range [of p ?n] assms(2) n by auto
  have len: "int (length (bin_samples 1 bins)) = sum_list bins" by (rule length_bin_samples [OF nn(1)])
  have qr: "quantile_rank ?n (fl (of_int p / 100)) = Inr ?r" by (rule quantile_rank_exact [OF assms(2) n])
  consider "?r \<le> ?u" | "?u < ?r" "?r \<le> ?u + sum_list bins" | "?u + sum_list bins < ?r" by linarith
  then show ?thesis
  proof cases
    case 1
    then have "nat (?r - 1) < nat ?u" using r by linarith
    with 1 qr show ?thesis by (simp add: quantile_value_def Let_def bucket_samples_def nth_append bucket_value_def)
  next
    case 2
    let ?i = "nat (?r - ?u - 1)"
    have i: "?i < length (bin_samples 1 bins)" "nat (?r - 1) = nat ?u + ?i" using 2 len nn by linarith+
    then have i0: "?i < length (bin_samples 0 bins)" using bin_samples_Suc [of 0 bins] by simp
    from i have b: "bucket_samples m bins ! nat (?r - 1) = bin_samples 1 bins ! ?i"
      by (simp add: bucket_samples_def nth_append)
    have s: "bin_samples 1 bins ! ?i = Suc (bin_samples 0 bins ! ?i)" using i0 bin_samples_Suc [of 0 bins] by simp
    have "bin_samples 0 bins ! ?i < length bins" using bin_samples_less [of _ 0 bins] i0 nth_mem by fastforce
    with 2 qr show ?thesis
      by (simp add: quantile_value_def Let_def find_bin_samples [OF nn(1)] trans [OF b s] bucket_value_def rbind_assoc)
  next
    case 3
    have ov: "histogram_overflow m \<noteq> 0" "?r \<le> ?u + sum_list bins + histogram_overflow m" using 3 r total by linarith+
    have s0: "0 \<le> sum_list bins" using len by linarith
    have i: "\<not> nat (?r - 1) < nat ?u + length (bin_samples 1 bins)"
      "nat (?r - 1) - (nat ?u + length (bin_samples 1 bins)) < nat (histogram_overflow m)" using 3 ov len nn by linarith+
    then have b: "bucket_samples m bins ! nat (?r - 1) = Suc (length bins)"
      by (auto simp: bucket_samples_def nth_append)
    from 3 ov qr s0 show ?thesis
      by (simp add: quantile_value_def Let_def find_bin_samples [OF nn(1)] b bucket_value_def)
  qed
qed

text \<open>
  (C21) Percentiles of a histogram are nearest-rank percentiles: with at least one hundred
  (and fewer than two to the power 32) samples, all represented in the histogram, each
  reported percentile is the value of the bucket of the sample whose rank is the exact
  rounded-up percentage of the count, although the rank is computed with binary64 numbers;
  the status says whether one of the three lies in the overflow bucket.
\<close>

theorem metric_percentiles_exact:
  assumes "histogram_ok m bins" and "metric_percentiles pow (Some m) = Inr r"
  shows "let b = (\<lambda>p. bucket_samples m bins ! nat (exact_rank p (duration_samples m) - 1)); value = bucket_value pow (length bins)
    in value (b 50) = Inr (p50_ns r) \<and> value (b 95) = Inr (p95_ns r) \<and> value (b 99) = Inr (p99_ns r)
       \<and> pc_status r = (if \<exists>p\<in>{50, 95, 99}. length bins < b p then ''overflow_quantile'' else ''ok'')
       \<and> sample_count r = int (length (bucket_samples m bins))"
proof -
  have q: "quantile_value pow m bins (fl (50 / 100)) = (let b = bucket_samples m bins ! nat (exact_rank 50 (duration_samples m) - 1)
       in rbind (bucket_value pow (length bins) b) (\<lambda>v. Inr (v, length bins < b)))"
    "quantile_value pow m bins (fl (95 / 100)) = (let b = bucket_samples m bins ! nat (exact_rank 95 (duration_samples m) - 1)
       in rbind (bucket_value pow (length bins) b) (\<lambda>v. Inr (v, length bins < b)))"
    "quantile_value pow m bins (fl (99 / 100)) = (let b = bucket_samples m bins ! nat (exact_rank 99 (duration_samples m) - 1)
       in rbind (bucket_value pow (length bins) b) (\<lambda>v. Inr (v, length bins < b)))"
    using quantile_value_bucket [OF assms(1), of 50 pow] quantile_value_bucket [OF assms(1), of 95 pow]
      quantile_value_bucket [OF assms(1), of 99 pow] by simp_all
  from assms(1) have ok: "histogram_bins m = Some bins" "histogram_saturation m = 0" "100 \<le> duration_samples m"
    "histogram_underflow m + histogram_overflow m + sum_list bins = duration_samples m"
    "list_all (\<lambda>c. 0 \<le> c) bins" "0 \<le> histogram_underflow m" "0 \<le> histogram_overflow m"
    by (auto simp: histogram_ok_def histogram_agrees_def)
  have "int (length (bucket_samples m bins)) = duration_samples m"
    using ok length_bin_samples [OF ok(5), of 1] by (simp add: bucket_samples_def)
  with assms(2) ok(1-4) q show ?thesis
    by (auto simp: metric_percentiles_def Let_def rbind_Inr_iff)
qed

definition sample_histogram :: metric where
  "sample_histogram = empty_metric\<lparr>mt_calls := 100, duration_samples := 100, histogram_underflow := 99,
     histogram_overflow := 1, histogram_bins := Some [0, 0]\<rparr>"

theorem metric_percentiles_exact_witness:
  "\<exists>r. metric_percentiles (\<lambda>_ _. Inr (Fin 1)) (Some sample_histogram) = Inr r \<and> pc_status r = ''ok'' \<and> p99_ns r = Some 100"
proof -
  have ok: "histogram_ok sample_histogram [0, 0]"
    by (simp add: histogram_ok_def sample_histogram_def empty_metric_def histogram_agrees_def)
  have b: "bucket_samples sample_histogram [0, 0] = replicate 99 0 @ [3]"
    by (simp add: bucket_samples_def sample_histogram_def bin_samples_def empty_metric_def)
  have q: "quantile_value pow sample_histogram [0, 0] (fl (of_int p / 100)) = Inr (Some 100, False)" if "p \<in> {50, 95, 99}" for p pow
    using quantile_value_bucket [OF ok that, of pow] that b
    by (auto simp: exact_rank_def sample_histogram_def empty_metric_def bucket_value_def nth_append Let_def)
  obtain r where r: "metric_percentiles (\<lambda>_ _. Inr (Fin 1)) (Some sample_histogram) = Inr r"
    using q [of 50] q [of 95] q [of 99] by (simp add: metric_percentiles_def sample_histogram_def empty_metric_def Let_def)
  have d: "duration_samples sample_histogram = 100" by (simp add: sample_histogram_def)
  from metric_percentiles_exact [OF ok r] b d have "pc_status r = ''ok''" "Some 100 = p99_ns r"
    by (auto simp: Let_def exact_rank_def nth_append bucket_value_def)
  with r show ?thesis by auto
qed

end
