(* ===== verification/Ledger.thy ===== *)
theory Ledger
  imports Arena
begin

unbundle bit_operations_syntax

text \<open>
  The analyses of decoded arenas in scripts/legofs_observe.py: the combined request
  digests and stages, the transport ledger with its exclusive sub-ledgers, the component
  summary, and what \<^verbatim>\<open>analyze_observation_files\<close> writes and returns.
\<close>

section \<open>Combining arenas\<close>

definition combined_stage :: "arena list \<Rightarrow> string \<Rightarrow> string option \<Rightarrow> metric option res" where
  "combined_stage decoded stage role =
     add_all None
       (concat (map (\<lambda>a. if role \<noteq> None \<and> Some (ah_role (ar_header a)) \<noteq> role then []
                         else map snd (filter (\<lambda>((_, row_stage), _). row_stage = stage) (stage_matrix a))) decoded))"

definition u64_mask :: int where
  "u64_mask = (push_bit 64 1) - 1"

definition combine_digest :: "request_digest \<Rightarrow> request_digest \<Rightarrow> request_digest" where
  "combine_digest target digest =
     \<lparr>dg_count = dg_count target + dg_count digest,
      dg_xor0 = dg_xor0 target XOR dg_xor0 digest,
      dg_xor1 = dg_xor1 target XOR dg_xor1 digest,
      dg_sum0 = (dg_sum0 target + dg_sum0 digest) AND u64_mask,
      dg_sum1 = (dg_sum1 target + dg_sum1 digest) AND u64_mask\<rparr>"

definition empty_digest :: request_digest where
  "empty_digest = \<lparr>dg_count = 0, dg_xor0 = 0, dg_xor1 = 0, dg_sum0 = 0, dg_sum1 = 0\<rparr>"

type_synonym edge_digests = "(string \<times> request_digest) list"

definition add_digest :: "edge_digests \<Rightarrow> string \<times> request_digest \<Rightarrow> edge_digests res" where
  "add_digest combined = (\<lambda>(edge, digest).
     case map_of combined edge of
       None \<Rightarrow> Inl KeyError
     | Some target \<Rightarrow> Inr (aset edge (combine_digest target digest) combined))"

definition combined_request_digests :: "arena list \<Rightarrow> edge_digests res" where
  "combined_request_digests decoded =
     rfold (\<lambda>combined a. rfold add_digest combined (request_digests (ar_header a)))
       (map (\<lambda>edge. (edge, empty_digest)) REQUEST_EDGES) decoded"

section \<open>The transport ledger\<close>

type_synonym metric_view = "metric option \<times> percentiles"

definition public_metric :: "(pyfloat \<Rightarrow> nat \<Rightarrow> pyfloat res) \<Rightarrow> metric option \<Rightarrow> metric_view res" where
  "public_metric pow m =
     rbind (metric_percentiles pow m) (\<lambda>p. Inr (map_option (\<lambda>t. t\<lparr>histogram_bins := None\<rparr>) m, p))"

text \<open>\<^verbatim>\<open>int(metric.get(name, 0))\<close> for a field that every nonempty metric has.\<close>

definition field_or_zero :: "(metric \<Rightarrow> int) \<Rightarrow> metric option \<Rightarrow> int" where
  "field_or_zero f m = (case m of None \<Rightarrow> 0 | Some t \<Rightarrow> f t)"

abbreviation sampled_ns :: "metric option \<Rightarrow> int" where
  "sampled_ns \<equiv> field_or_zero sampled_duration_sum_ns"

record ledger_view =
  parent_ns :: int
  children_ns :: int
  unaccounted_ns :: int
  unaccounted_share :: "pyfloat option"
  within_five_percent :: bool
  ledger_stages :: "(string \<times> metric_view) list"

record transport_view =
  lg_coverage :: string
  lg_observation_valid :: bool
  validity_reasons :: "string list"
  lg_request_digests :: edge_digests
  request_multiset_match :: bool
  correlated_duration_samples :: int
  client_remote_wait_ns :: int
  correlated_server_request_ns :: int
  transport_handoff_ns :: "int option"
  remaining_unexplained_ns :: "int option"
  share_server_request :: "pyfloat option"
  share_transport_handoff :: "pyfloat option"
  share_server_unaccounted :: "pyfloat option"
  authority_exclusive :: ledger_view
  client_wait_exclusive :: ledger_view
  sq_detection_upper_bound :: metric_view
  cq_detection_upper_bound :: metric_view

text \<open>\<^verbatim>\<open>a / b if condition else None\<close>.\<close>

definition share_if :: "bool \<Rightarrow> int \<Rightarrow> int \<Rightarrow> pyfloat option res" where
  "share_if c a b = (if c then rbind (int_truediv a b) (\<lambda>q. Inr (Some q)) else Inr None)"

definition within_five :: "pyfloat option \<Rightarrow> bool" where
  "within_five share =
     (case share of None \<Rightarrow> False | Some q \<Rightarrow> float_le (Fin 0) q \<and> float_le q (fl (5 / 100)))"

definition exclusive_ledger ::
  "(pyfloat \<Rightarrow> nat \<Rightarrow> pyfloat res) \<Rightarrow> int \<Rightarrow> (string \<times> metric option) list \<Rightarrow> ledger_view res" where
  "exclusive_ledger pow parent children =
     (let sum_ns = (\<Sum>(_, m)\<leftarrow>children. sampled_ns m); rest = parent - sum_ns
      in rbind (share_if (0 < parent) rest parent) (\<lambda>share.
         rbind (rmap (\<lambda>(stage, m). rbind (public_metric pow m) (\<lambda>p. Inr (stage, p))) children) (\<lambda>stages.
         Inr \<lparr>parent_ns = parent, children_ns = sum_ns, unaccounted_ns = rest, unaccounted_share = share,
              within_five_percent = within_five share, ledger_stages = stages\<rparr>)))"

definition exclusive_stage_names :: "string list" where
  "exclusive_stage_names = [''admission'', ''scheduler_wait'', ''dispatcher_decode'', ''dispatcher_route'',
     ''dispatcher_encode'', ''completion_publication_wait'', ''cqe_publish'']"

definition stages_of :: "arena list \<Rightarrow> string \<Rightarrow> string list \<Rightarrow> (string \<times> metric option) list res" where
  "stages_of decoded role names =
     rmap (\<lambda>stage. rbind (combined_stage decoded stage (Some role)) (\<lambda>m. Inr (stage, m))) names"

definition ledger_reasons :: "bool \<Rightarrow> metric option \<Rightarrow> metric option \<Rightarrow> int \<Rightarrow> int \<Rightarrow> string list" where
  "ledger_reasons digest_match remote server server_rest client_rest =
     (if field_or_zero mt_calls remote = 0 then []
      else (if digest_match then [] else [''request_multiset_mismatch''])
        @ (if field_or_zero duration_samples remote \<noteq> field_or_zero duration_samples server
           then [''correlated_duration_sample_count_mismatch''] else [])
        @ (if field_or_zero duration_samples remote = 0 then [''no_correlated_duration_samples''] else [])
        @ (if sampled_ns remote - sampled_ns server < 0 then [''negative_transport_handoff''] else [])
        @ (if server_rest < 0 then [''negative_authority_unaccounted''] else [])
        @ (if client_rest < 0 then [''negative_client_wait_unaccounted''] else []))"

definition transport_ledger :: "(pyfloat \<Rightarrow> nat \<Rightarrow> pyfloat res) \<Rightarrow> arena list \<Rightarrow> transport_view res" where
  "transport_ledger pow decoded =
     rbind (combined_request_digests decoded) (\<lambda>digests.
     rbind (case map_of digests ''submit'' of Some d \<Rightarrow> Inr d | None \<Rightarrow> Inl KeyError) (\<lambda>reference.
     let digest_match = list_all (\<lambda>edge. map_of digests edge = Some reference) REQUEST_EDGES
     in rbind (combined_stage decoded ''transport_remote_wait'' (Some ''client-rank'')) (\<lambda>remote.
        rbind (combined_stage decoded ''authority_request_service'' (Some ''server'')) (\<lambda>server.
        let remote_ns = sampled_ns remote; server_ns = sampled_ns server; handoff_ns = remote_ns - server_ns
        in rbind (stages_of decoded ''server'' exclusive_stage_names) (\<lambda>server_children.
           rbind (exclusive_ledger pow server_ns server_children) (\<lambda>authority.
           rbind (stages_of decoded ''client-rank'' [''cq_active_poll'', ''cq_sleep'']) (\<lambda>client_children.
           rbind (exclusive_ledger pow remote_ns client_children) (\<lambda>client.
           rbind (rbind (combined_stage decoded ''sq_detection_bound'' (Some ''server'')) (public_metric pow)) (\<lambda>sq.
           rbind (rbind (combined_stage decoded ''cq_detection_bound'' (Some ''client-rank'')) (public_metric pow)) (\<lambda>cq.
           rbind (share_if (0 < remote_ns) server_ns remote_ns) (\<lambda>share_server.
           rbind (share_if (0 < remote_ns \<and> 0 \<le> handoff_ns) handoff_ns remote_ns) (\<lambda>share_handoff.
           rbind (share_if (0 < remote_ns \<and> 0 \<le> unaccounted_ns authority) (unaccounted_ns authority) remote_ns) (\<lambda>share_rest.
           let reasons = ledger_reasons digest_match remote server (unaccounted_ns authority) (unaccounted_ns client)
           in Inr
           \<lparr>lg_coverage = (if field_or_zero mt_calls remote \<noteq> 0 then ''instrumented_at_o2'' else ''not_reached''),
            lg_observation_valid = (reasons = []), validity_reasons = reasons, lg_request_digests = digests,
            request_multiset_match = digest_match,
            correlated_duration_samples = field_or_zero duration_samples remote,
            client_remote_wait_ns = remote_ns, correlated_server_request_ns = server_ns,
            transport_handoff_ns = (if 0 \<le> handoff_ns then Some handoff_ns else None),
            remaining_unexplained_ns = (if 0 \<le> handoff_ns then Some (max 0 (unaccounted_ns authority)) else None),
            share_server_request = share_server, share_transport_handoff = share_handoff,
            share_server_unaccounted = share_rest, authority_exclusive = authority, client_wait_exclusive = client,
            sq_detection_upper_bound = sq, cq_detection_upper_bound = cq\<rparr>)))))))))))))"

section \<open>The component summary\<close>

record component_view =
  ce_component :: string
  ce_coverage :: string
  time_semantics :: string
  ce_metrics :: "metric_view option"

record summary_view =
  cs_observation_valid :: bool
  cs_config :: "pydict option"
  arena_count :: nat
  cs_components :: "component_view list"

text \<open>The metrics of one component: its rows of every arena, and for the startup component each arena's startup metric.\<close>

definition own_rows :: "string \<Rightarrow> arena \<Rightarrow> metric list" where
  "own_rows component a = map snd (filter (\<lambda>((c, _), _). c = component) (matrix a))"

definition startup_rows :: "string \<Rightarrow> arena \<Rightarrow> metric list" where
  "startup_rows component a =
     (if component \<noteq> ''startup_recovery'' then [] else case startup_metric a of None \<Rightarrow> [] | Some m \<Rightarrow> [m])"

definition component_metrics :: "arena list \<Rightarrow> string \<Rightarrow> metric list" where
  "component_metrics decoded component = concat (map (\<lambda>a. own_rows component a @ startup_rows component a) decoded)"

definition o1_components :: "string list" where
  "o1_components = [''syscall_intercept'', ''client_semantics'', ''startup_recovery'']"

definition o2_components :: "string list" where
  "o2_components = [''cxl_client_transport'', ''authority_progress'', ''dispatcher_codec'']"

definition component_entry ::
  "(pyfloat \<Rightarrow> nat \<Rightarrow> pyfloat res) \<Rightarrow> arena list \<Rightarrow> (string \<times> metric option) list \<Rightarrow> string \<Rightarrow> component_view res" where
  "component_entry pow decoded combined component =
     (let o1 = component \<in> set o1_components; o2 = component \<in> set o2_components;
          coverage = (if decoded = [] then ''observation_off'' else if o2 then ''instrumented_at_o2''
                      else if o1 then ''instrumented_at_o1'' else ''not_instrumented_at_o1'')
      in rbind (if decoded \<noteq> [] \<and> (o1 \<or> o2)
                then rbind (public_metric pow (case map_of combined component of Some m \<Rightarrow> m | None \<Rightarrow> None)) (\<lambda>p. Inr (Some p))
                else Inr None) (\<lambda>metrics.
         Inr \<lparr>ce_component = component, ce_coverage = coverage,
              time_semantics = (if o1 \<or> o2 then ''sampled_non_additive_parent_or_explicit_stage'' else ''not_available''),
              ce_metrics = metrics\<rparr>))"

definition mode_in :: "pydict option \<Rightarrow> string list \<Rightarrow> bool" where
  "mode_in config modes = (case config of None \<Rightarrow> False | Some c \<Rightarrow> c \<noteq> [] \<and> in_tuple (dget c ''mode'') modes)"

definition summary_valid :: "arena list \<Rightarrow> pydict option \<Rightarrow> bool" where
  "summary_valid decoded config =
     (if mode_in config [''default'', ''off''] \<and> decoded \<noteq> [] then False
      else if mode_in config [''aggregate'', ''sampled''] \<and> decoded = [] then False
      else list_all ar_valid decoded)"

text \<open>
  A row of a component outside the list raises; the rows of one arena are added before the
  next arena, so the order of additions per component is that of \<^term>\<open>component_metrics\<close>.
\<close>

definition component_summary ::
  "(pyfloat \<Rightarrow> nat \<Rightarrow> pyfloat res) \<Rightarrow> arena list \<Rightarrow> pydict option \<Rightarrow> summary_view res" where
  "component_summary pow decoded config =
     (if list_ex (\<lambda>a. list_ex (\<lambda>((c, _), _). c \<notin> set COMPONENTS) (matrix a)) decoded then Inl KeyError
      else rbind (rmap (\<lambda>c. rbind (add_all None (component_metrics decoded c)) (\<lambda>m. Inr (c, m))) COMPONENTS) (\<lambda>combined.
           rbind (rmap (component_entry pow decoded combined) COMPONENTS) (\<lambda>components.
           Inr \<lparr>cs_observation_valid = summary_valid decoded config, cs_config = config, arena_count = length decoded,
                cs_components = components\<rparr>)))"

section \<open>Request digests\<close>

text \<open>
  What a process accumulates for the requests it saw on one edge: their number, and for
  both 64-bit request hashes the bitwise sum and the sum modulo two to the power 64.
\<close>

definition digest_of :: "(int \<times> int) list \<Rightarrow> request_digest" where
  "digest_of requests =
     \<lparr>dg_count = int (length requests),
      dg_xor0 = fold (XOR) (map fst requests) 0, dg_xor1 = fold (XOR) (map snd requests) 0,
      dg_sum0 = sum_list (map fst requests) mod 2 ^ 64, dg_sum1 = sum_list (map snd requests) mod 2 ^ 64\<rparr>"

lemma fold_xor: "fold (XOR) xs (a :: int) = a XOR fold (XOR) xs 0"
proof (induction xs arbitrary: a)
  case (Cons x xs)
  show ?case using Cons [of "x XOR a"] Cons [of x] by (simp add: xor.assoc xor.commute xor.left_commute)
qed simp

lemma and_u64_mask: "a AND u64_mask = a mod 2 ^ 64"
proof -
  have "u64_mask = mask 64" by (simp add: u64_mask_def mask_eq_exp_minus_1 push_bit_eq_mult)
  then show ?thesis using take_bit_eq_mask [of 64 a] take_bit_eq_mod [of 64 a] by (metis)
qed

lemma combine_digest_append: "combine_digest (digest_of xs) (digest_of ys) = digest_of (xs @ ys)"
proof -
  have "fold (XOR) (map f xs @ map f ys) 0 = fold (XOR) (map f xs) 0 XOR fold (XOR) (map f ys) 0" for f :: "int \<times> int \<Rightarrow> int"
    using fold_xor [of "map f ys" "fold (XOR) (map f xs) 0"] by simp
  then show ?thesis by (simp add: combine_digest_def digest_of_def and_u64_mask mod_add_eq)
qed

lemma digest_of_mset:
  assumes "mset xs = mset ys"
  shows "digest_of xs = digest_of ys"
proof -
  have m: "mset (map f xs) = mset (map f ys)" for f :: "int \<times> int \<Rightarrow> int" using assms by simp
  have "fold (XOR) (map f xs) 0 = fold (XOR) (map f ys) 0" for f :: "int \<times> int \<Rightarrow> int"
    by (intro fold_multiset_equiv [THEN fun_cong] m) (auto simp: fun_eq_iff xor.left_commute)
  moreover have "sum_list (map f xs) = sum_list (map f ys)" for f :: "int \<times> int \<Rightarrow> int" by (metis m sum_mset_sum_list)
  moreover have "length xs = length ys" using assms by (rule mset_eq_length)
  ultimately show ?thesis by (simp add: digest_of_def)
qed

lemma add_digests_step:
  "rfold add_digest (map (\<lambda>e. (e, f e)) REQUEST_EDGES) (map (\<lambda>e. (e, g e)) REQUEST_EDGES)
     = Inr (map (\<lambda>e. (e, combine_digest (f e) (g e))) REQUEST_EDGES)"
  by (simp add: REQUEST_EDGES_def add_digest_def)

lemma combined_digests_from:
  assumes "\<forall>a\<in>set decoded. request_digests (ar_header a) = map (\<lambda>e. (e, digest_of (reqs a e))) REQUEST_EDGES"
  shows "rfold (\<lambda>combined a. rfold add_digest combined (request_digests (ar_header a)))
      (map (\<lambda>e. (e, digest_of (before e))) REQUEST_EDGES) decoded
    = Inr (map (\<lambda>e. (e, digest_of (before e @ concat (map (\<lambda>a. reqs a e) decoded)))) REQUEST_EDGES)"
  using assms
proof (induction decoded arbitrary: before)
  case (Cons a decoded)
  then have "request_digests (ar_header a) = map (\<lambda>e. (e, digest_of (reqs a e))) REQUEST_EDGES" by simp
  with Cons.IH [of "\<lambda>e. before e @ reqs a e"] Cons.prems show ?case
    by (simp add: add_digests_step combine_digest_append)
qed simp

lemma combined_digests_exact:
  assumes "\<forall>a\<in>set decoded. request_digests (ar_header a) = map (\<lambda>e. (e, digest_of (reqs a e))) REQUEST_EDGES"
  shows "combined_request_digests decoded
    = Inr (map (\<lambda>e. (e, digest_of (concat (map (\<lambda>a. reqs a e) decoded)))) REQUEST_EDGES)"
proof -
  have "empty_digest = digest_of []" by (simp add: empty_digest_def digest_of_def)
  with combined_digests_from [OF assms, of "\<lambda>_. []"] show ?thesis by (simp add: combined_request_digests_def)
qed

text \<open>
  (C23) Splitting requests over processes does not change the combined digests: if every
  arena holds the digests of the requests its process saw, the ledger reports the digest of
  all requests of each edge; and when the requests of every edge are the same multiset as
  those submitted, whatever process saw them and in whatever order, the ledger finds that
  the request multisets match.
\<close>

theorem request_multisets_match:
  assumes "transport_ledger pow decoded = Inr l"
    and "\<forall>a\<in>set decoded. request_digests (ar_header a) = map (\<lambda>e. (e, digest_of (reqs a e))) REQUEST_EDGES"
    and "\<forall>e\<in>set REQUEST_EDGES. mset (concat (map (\<lambda>a. reqs a e) decoded)) = mset (concat (map (\<lambda>a. reqs a ''submit'') decoded))"
  shows "request_multiset_match l
    \<and> lg_request_digests l = map (\<lambda>e. (e, digest_of (concat (map (\<lambda>a. reqs a ''submit'') decoded)))) REQUEST_EDGES"
proof -
  let ?all = "\<lambda>e. concat (map (\<lambda>a. reqs a e) decoded)"
  have same: "\<forall>e\<in>set REQUEST_EDGES. digest_of (?all e) = digest_of (?all ''submit'')"
    using assms(3) digest_of_mset by blast
  then have "combined_request_digests decoded = Inr (map (\<lambda>e. (e, digest_of (?all ''submit''))) REQUEST_EDGES)"
    using combined_digests_exact [OF assms(2)] by simp
  with assms(1) show ?thesis
    by (auto simp: transport_ledger_def Let_def rbind_Inr_iff REQUEST_EDGES_def)
qed

section \<open>Soundness of the ledger\<close>

lemma exclusive_ledger_parts:
  "exclusive_ledger pow parent children = Inr x \<Longrightarrow>
     parent_ns x = parent \<and> children_ns x + unaccounted_ns x = parent \<and> children_ns x = (\<Sum>(_, m)\<leftarrow>children. sampled_ns m)"
  by (auto simp: exclusive_ledger_def Let_def rbind_Inr_iff)


section \<open>A sample observation\<close>

text \<open>A client and a server process that saw the same two requests; the wait and the service took 4 ns.\<close>

definition sample_arena :: "string \<Rightarrow> (int \<times> int) list \<Rightarrow> string \<Rightarrow> arena" where
  "sample_arena role requests stage =
     \<lparr>ar_path = ''arena.bin'', ar_sha256 = [],
      ar_header = sample_header\<lparr>ah_role := role, request_digests := map (\<lambda>e. (e, digest_of requests)) REQUEST_EDGES\<rparr>,
      ar_producers = [], matrix = [], semantic_matrix = [],
      stage_matrix = [((''cxl_client_transport'', stage), sample_metric 4)], startup_metric = None, startup_stages = [],
      ar_valid = True, invalid_fields = []\<rparr>"

definition sample_observation :: "arena list" where
  "sample_observation =
     [sample_arena ''client-rank'' [(7, 9), (3, 5)] ''transport_remote_wait'',
      sample_arena ''server'' [(3, 5), (7, 9)] ''authority_request_service'']"

lemma sample_stages:
  "combined_stage sample_observation stage (Some role) =
     (if (role, stage) \<in> {(''client-rank'', ''transport_remote_wait''), (''server'', ''authority_request_service'')}
      then Inr (Some (sample_metric 4)) else Inr None)"
proof -
  have "add_all None [sample_metric 4] = Inr (Some (sample_metric 4))"
    by (simp add: add_all_def add_metric_def sample_metric_def empty_metric_def merge_bins_def merge_min_def merge_max_def)
  moreover have "add_all None [] = Inr None" by (simp add: add_all_def)
  ultimately show ?thesis by (auto simp: combined_stage_def sample_observation_def sample_arena_def)
qed

lemma sample_digests:
  "\<forall>a\<in>set sample_observation. request_digests (ar_header a) =
     map (\<lambda>e. (e, digest_of ((\<lambda>a e. if ah_role (ar_header a) = ''server'' then [(3, 5), (7, 9)] else [(7, 9), (3, 5)]) a e))) REQUEST_EDGES"
  by (simp add: sample_observation_def sample_arena_def)

lemma sample_shares: "int_truediv 4 4 = Inr (Fin 1)" "int_truediv 0 4 = Inr (Fin 0)"
  using fl_of_int [of 1] fl_of_int [of 0] by (simp_all add: int_truediv_def int_float_def)

lemma sample_sampled: "sampled_ns (Some (sample_metric 4)) = 4" "sampled_ns None = 0"
  by (simp_all add: field_or_zero_def sample_metric_def)

lemma sample_percentiles: "\<exists>p. metric_percentiles pow (Some (sample_metric 4)) = Inr p" "\<exists>p. metric_percentiles pow None = Inr p"
  by (simp_all add: metric_percentiles_def sample_metric_def empty_metric_def Let_def)

lemma sample_ledger: "\<exists>l. transport_ledger pow sample_observation = Inr l"
proof -
  obtain p q where p: "metric_percentiles pow (Some (sample_metric 4)) = Inr p" "metric_percentiles pow None = Inr q"
    using sample_percentiles by blast
  show ?thesis
    using combined_digests_exact [OF sample_digests]
    by (simp add: transport_ledger_def Let_def REQUEST_EDGES_def sample_stages stages_of_def exclusive_stage_names_def
        exclusive_ledger_def sample_sampled share_if_def sample_shares public_metric_def p)
qed

theorem request_multisets_match_witness:
  "\<exists>l. transport_ledger (\<lambda>_ _. Inr (Fin 1)) sample_observation = Inr l \<and> request_multiset_match l"
proof -
  let ?reqs = "\<lambda>a (e :: string). if ah_role (ar_header a) = ''server'' then [(3, 5), (7, 9)] else [(7, 9), (3, 5 :: int)] :: (int \<times> int) list"
  obtain l where l: "transport_ledger (\<lambda>_ _. Inr (Fin 1)) sample_observation = Inr l" using sample_ledger by blast
  have "\<forall>e\<in>set REQUEST_EDGES. mset (concat (map (\<lambda>a. ?reqs a e) sample_observation))
      = mset (concat (map (\<lambda>a. ?reqs a ''submit'') sample_observation))" by simp
  from request_multisets_match [OF l sample_digests this] l show ?thesis by blast
qed


section \<open>The component summary\<close>

lemma rmap_keyed:
  "rmap (\<lambda>c. rbind (f c) (\<lambda>m. Inr (c, m))) cs = Inr ps \<Longrightarrow> map fst ps = cs \<and> (\<forall>(c, m)\<in>set ps. f c = Inr m)"
  by (induction cs arbitrary: ps) (auto simp: rbind_Inr_iff)

text \<open>The metrics of arenas that the decoder produced.\<close>

definition arena_ok :: "arena \<Rightarrow> bool" where
  "arena_ok a \<longleftrightarrow>
     (\<forall>m\<in>snd ` set (matrix a). metric_ok m) \<and> (\<forall>m. startup_metric a = Some m \<longrightarrow> metric_ok m)"

lemma own_rows_subset: "set (own_rows c a) \<subseteq> snd ` set (matrix a)"
  unfolding own_rows_def set_map set_filter by (rule image_mono) blast

lemma startup_rows_member: "m \<in> set (startup_rows c a) \<Longrightarrow> startup_metric a = Some m"
  by (cases "startup_metric a") (simp_all add: startup_rows_def split: if_splits)

lemma component_metrics_ok:
  assumes "list_all arena_ok decoded"
  shows "\<forall>m\<in>set (component_metrics decoded c). metric_ok m"
proof
  fix m assume "m \<in> set (component_metrics decoded c)"
  then obtain a where a: "a \<in> set decoded" "m \<in> set (own_rows c a) \<or> m \<in> set (startup_rows c a)"
    unfolding component_metrics_def by auto
  with assms have ok: "arena_ok a" by (simp add: list_all_iff)
  from a(2) have "m \<in> snd ` set (matrix a) \<or> startup_metric a = Some m"
    using own_rows_subset startup_rows_member by blast
  with ok show "metric_ok m" unfolding arena_ok_def by blast
qed

text \<open>
  The component summary has one entry per component in the fixed order; the metrics
  of an instrumented component are the aggregate of its rows of all arenas, and a component
  that is not instrumented has none; the observation is valid exactly when all arenas are
  valid, there is an arena if the configuration asks for observation, and none if it
  switches observation off.
\<close>

theorem component_summary_exact:
  assumes "component_summary pow decoded config = Inr s" and "list_all arena_ok decoded"
  shows "map ce_component (cs_components s) = COMPONENTS
    \<and> (\<forall>e\<in>set (cs_components s). case ce_metrics e of
         None \<Rightarrow> decoded = [] \<or> ce_component e \<notin> set (o1_components @ o2_components)
       | Some (m, p) \<Rightarrow> ce_component e \<in> set (o1_components @ o2_components)
           \<and> m = map_option (\<lambda>t. t\<lparr>histogram_bins := None\<rparr>) (aggregate (component_metrics decoded (ce_component e)))
           \<and> metric_percentiles pow (aggregate (component_metrics decoded (ce_component e))) = Inr p)
    \<and> (cs_observation_valid s \<longleftrightarrow> list_all ar_valid decoded \<and> (mode_in config [''aggregate'', ''sampled''] \<longrightarrow> decoded \<noteq> [])
         \<and> (mode_in config [''default'', ''off''] \<longrightarrow> decoded = []))"
proof -
  from assms(1) obtain combined where
    c: "rmap (\<lambda>c. rbind (add_all None (component_metrics decoded c)) (\<lambda>m. Inr (c, m))) COMPONENTS = Inr combined"
    and es: "rmap (component_entry pow decoded combined) COMPONENTS = Inr (cs_components s)"
    and v: "cs_observation_valid s = summary_valid decoded config"
    by (auto simp: component_summary_def rbind_Inr_iff split: if_splits)
  have m: "map_of combined c = Some (aggregate (component_metrics decoded c))" if "c \<in> set COMPONENTS" for c
  proof -
    from rmap_keyed [OF c] have keys: "map fst combined = COMPONENTS"
      and vals: "\<And>c m. (c, m) \<in> set combined \<Longrightarrow> add_all None (component_metrics decoded c) = Inr m" by auto
    from that keys obtain m where m: "map_of combined c = Some m" by (metis map_of_eq_None_iff list.set_map option.exhaust)
    from vals [OF map_of_SomeD [OF m]] add_all_totals [OF component_metrics_ok [OF assms(2), of c]] m show ?thesis by simp
  qed
  have entry: "ce_component e = c \<and> (case ce_metrics e of
         None \<Rightarrow> decoded = [] \<or> c \<notin> set (o1_components @ o2_components)
       | Some (m, p) \<Rightarrow> c \<in> set (o1_components @ o2_components)
           \<and> m = map_option (\<lambda>t. t\<lparr>histogram_bins := None\<rparr>) (aggregate (component_metrics decoded c))
           \<and> metric_percentiles pow (aggregate (component_metrics decoded c)) = Inr p)"
    if "component_entry pow decoded combined c = Inr e" "c \<in> set COMPONENTS" for c e
    using that m [OF that(2)]
    by (auto simp: component_entry_def Let_def rbind_Inr_iff public_metric_def split: if_splits)
  from es have l2: "list_all2 (\<lambda>c e. component_entry pow decoded combined c = Inr e) COMPONENTS (cs_components s)"
    by (simp add: rmap_Inr_iff)
  have names: "map ce_component (cs_components s) = COMPONENTS"
    using l2 entry by (auto simp: list_all2_conv_all_nth intro!: nth_equalityI)
  have "\<forall>e\<in>set (cs_components s). \<exists>c\<in>set COMPONENTS. component_entry pow decoded combined c = Inr e"
  proof
    fix e assume "e \<in> set (cs_components s)"
    then obtain i where i: "i < length (cs_components s)" "e = cs_components s ! i" by (auto simp: in_set_conv_nth)
    with l2 have "component_entry pow decoded combined (COMPONENTS ! i) = Inr e" "i < length COMPONENTS"
      by (auto simp: list_all2_conv_all_nth)
    then show "\<exists>c\<in>set COMPONENTS. component_entry pow decoded combined c = Inr e" by (meson nth_mem)
  qed
  then have "\<forall>e\<in>set (cs_components s). case ce_metrics e of
         None \<Rightarrow> decoded = [] \<or> ce_component e \<notin> set (o1_components @ o2_components)
       | Some (m, p) \<Rightarrow> ce_component e \<in> set (o1_components @ o2_components)
           \<and> m = map_option (\<lambda>t. t\<lparr>histogram_bins := None\<rparr>) (aggregate (component_metrics decoded (ce_component e)))
           \<and> metric_percentiles pow (aggregate (component_metrics decoded (ce_component e))) = Inr p"
    using entry by blast
  with names v show ?thesis by (simp add: summary_valid_def)
qed

theorem component_summary_exact_witness:
  "\<exists>s. component_summary (\<lambda>_ _. Inr (Fin 1)) sample_observation None = Inr s \<and> cs_observation_valid s"
proof -
  have rows: "component_metrics sample_observation c = []" for c
    by (simp add: component_metrics_def own_rows_def startup_rows_def sample_observation_def sample_arena_def)
  have "\<exists>s. component_summary (\<lambda>_ _. Inr (Fin 1)) sample_observation None = Inr s"
    by (simp add: component_summary_def rows COMPONENTS_def add_all_def component_entry_def public_metric_def
        metric_percentiles_def Let_def o1_components_def o2_components_def)
       (simp add: sample_observation_def sample_arena_def)
  then obtain s where s: "component_summary (\<lambda>_ _. Inr (Fin 1)) sample_observation None = Inr s" by blast
  have "list_all arena_ok sample_observation" by (simp add: sample_observation_def sample_arena_def arena_ok_def)
  from component_summary_exact [OF s this] s show ?thesis
    by (auto simp: sample_observation_def sample_arena_def mode_in_def)
qed

end
