(* ===== verification/Observation.thy ===== *)
theory Observation
  imports Ledger
begin

text \<open>
  The offline analysis of a run's observation files in scripts/legofs_observe.py
  (\<^verbatim>\<open>analyze_observation_files\<close>): decoding of all arenas, summary, ledger, the three metric
  tables, the report and the verdict.
\<close>

section \<open>Metric tables\<close>

text \<open>A row of a CSV table. The bank is only written in the stage table.\<close>

record table_row =
  row_role :: string
  row_endpoint :: int
  row_bank :: string
  row_component :: string
  row_name :: string
  row_calls :: int
  row_duration_samples :: int
  row_sampled_duration_sum_ns :: int
  row_p50_ns :: "int option"
  row_p95_ns :: "int option"
  row_p99_ns :: "int option"
  row_percentile_status :: string
  row_objects :: int
  row_bytes :: int
  row_errors :: int
  row_retries :: int

definition metric_row ::
  "(pyfloat \<Rightarrow> nat \<Rightarrow> pyfloat res) \<Rightarrow> arena_header \<Rightarrow> string \<Rightarrow> (string \<times> string) \<times> metric \<Rightarrow> table_row res" where
  "metric_row pow header bank = (\<lambda>((component, name), m).
     rbind (metric_percentiles pow (Some m)) (\<lambda>p.
     Inr \<lparr>row_role = ah_role header, row_endpoint = endpoint_id header, row_bank = bank, row_component = component,
          row_name = name, row_calls = mt_calls m, row_duration_samples = duration_samples m,
          row_sampled_duration_sum_ns = sampled_duration_sum_ns m, row_p50_ns = p50_ns p, row_p95_ns = p95_ns p,
          row_p99_ns = p99_ns p, row_percentile_status = pc_status p, row_objects = mt_objects m, row_bytes = mt_bytes m,
          row_errors = mt_errors m, row_retries = mt_retries m\<rparr>))"

definition table_rows ::
  "(pyfloat \<Rightarrow> nat \<Rightarrow> pyfloat res) \<Rightarrow> string \<Rightarrow> (arena \<Rightarrow> ((string \<times> string) \<times> metric) list) \<Rightarrow> arena \<Rightarrow> table_row list res" where
  "table_rows pow bank rows a = rmap (metric_row pow (ar_header a) bank) (rows a)"

definition operation_table :: "(pyfloat \<Rightarrow> nat \<Rightarrow> pyfloat res) \<Rightarrow> arena list \<Rightarrow> table_row list res" where
  "operation_table pow decoded = rbind (rmap (table_rows pow [] matrix) decoded) (\<lambda>rows. Inr (concat rows))"

definition semantic_table :: "(pyfloat \<Rightarrow> nat \<Rightarrow> pyfloat res) \<Rightarrow> arena list \<Rightarrow> table_row list res" where
  "semantic_table pow decoded = rbind (rmap (table_rows pow [] semantic_matrix) decoded) (\<lambda>rows. Inr (concat rows))"

definition stage_metrics_table :: "(pyfloat \<Rightarrow> nat \<Rightarrow> pyfloat res) \<Rightarrow> arena list \<Rightarrow> table_row list res" where
  "stage_metrics_table pow decoded =
     rbind (rmap (\<lambda>a. rbind (table_rows pow ''workload'' stage_matrix a) (\<lambda>workload.
              rbind (table_rows pow ''startup'' startup_stages a) (\<lambda>startup. Inr (workload @ startup)))) decoded) (\<lambda>rows.
     Inr (concat rows))"

section \<open>Report and verdict\<close>

definition show_bool_lower :: "bool \<Rightarrow> string" where
  "show_bool_lower b = (if b then ''true'' else ''false'')"

definition show_int_option :: "int option \<Rightarrow> string" where
  "show_int_option v = (case v of None \<Rightarrow> ''None'' | Some i \<Rightarrow> show_int i)"

definition backtick :: string where
  "backtick = [CHR 0x60]"

definition report_lines :: "bool \<Rightarrow> nat \<Rightarrow> transport_view \<Rightarrow> string list" where
  "report_lines valid arenas ledger =
     [''# LegoFS observation report'', [],
      ''Observation valid: '' @ backtick @ show_bool_lower valid @ backtick,
      ''Decoded arenas: '' @ backtick @ show_int (int arenas) @ backtick, [],
      ''O2 closes correlated CXL request transport and authority service. Metadata, lifecycle,'',
      ''arena, persistence and exact phase attribution remain explicitly uninstrumented.'', [],
      ''Correlated request samples: '' @ backtick @ show_int (correlated_duration_samples ledger) @ backtick,
      ''Client remote wait: '' @ backtick @ show_int (client_remote_wait_ns ledger) @ backtick @ '' ns'',
      ''Correlated server service: '' @ backtick @ show_int (correlated_server_request_ns ledger) @ backtick @ '' ns'',
      ''Transport handoff residual: '' @ backtick @ show_int_option (transport_handoff_ns ledger) @ backtick @ '' ns'',
      ''Authority unaccounted: '' @ backtick @ show_int (unaccounted_ns (authority_exclusive ledger)) @ backtick @ '' ns'',
      ''Client wait unaccounted: '' @ backtick @ show_int (unaccounted_ns (client_wait_exclusive ledger)) @ backtick @ '' ns'',
      ''SQ detection upper-bound sum: '' @ backtick @ show_int (sampled_ns (fst (sq_detection_upper_bound ledger))) @ backtick @ '' ns'',
      ''CQ detection upper-bound sum: '' @ backtick @ show_int (sampled_ns (fst (cq_detection_upper_bound ledger))) @ backtick @ '' ns'',
      []]"

record analysis =
  an_decoded :: "arena list"
  an_summary :: summary_view
  an_operations :: "table_row list"
  an_semantics :: "table_row list"
  an_stages :: "table_row list"
  an_ledger :: transport_view
  an_report :: "string list"
  an_observation_valid :: bool

text \<open>
  The files are given with their contents. The transport verdict counts only when the
  ledger reached the transport.
\<close>

definition analyze_observation_files ::
  "(pyfloat \<Rightarrow> nat \<Rightarrow> pyfloat res) \<Rightarrow> (bytes \<Rightarrow> string) \<Rightarrow> (string \<times> bytes) list \<Rightarrow> pydict option \<Rightarrow> analysis res" where
  "analyze_observation_files pow sha256 files config =
     rbind (rmap (\<lambda>(path, data). decode_arena pow sha256 path data) files) (\<lambda>decoded.
     rbind (component_summary pow decoded config) (\<lambda>summary0.
     rbind (transport_ledger pow decoded) (\<lambda>ledger.
     let valid = (if lg_coverage ledger = ''instrumented_at_o2''
                  then cs_observation_valid summary0 \<and> lg_observation_valid ledger else cs_observation_valid summary0);
         summary = summary0\<lparr>cs_observation_valid := valid\<rparr>
     in rbind (operation_table pow decoded) (\<lambda>operations.
        rbind (semantic_table pow decoded) (\<lambda>semantics.
        rbind (stage_metrics_table pow decoded) (\<lambda>stages.
        Inr \<lparr>an_decoded = decoded, an_summary = summary, an_operations = operations, an_semantics = semantics,
             an_stages = stages, an_ledger = ledger, an_report = report_lines valid (length decoded) ledger,
             an_observation_valid = valid\<rparr>))))))"

section \<open>What a valid observation shows\<close>

lemma decode_arena_valid:
  assumes "decode_arena pow sha256 path data = Inr a" "ar_valid a"
  shows "decode_header data = Inr (ar_header a) \<and> header_faults (ar_header a) = []"
  using assms by (auto simp: decode_arena_def Let_def rbind_Inr_iff split: if_splits)

lemma component_summary_valid:
  "component_summary pow decoded config = Inr s \<Longrightarrow> cs_observation_valid s \<longleftrightarrow> summary_valid decoded config"
  by (auto simp: component_summary_def rbind_Inr_iff split: if_splits)

lemma transport_ledger_reasons:
  assumes "transport_ledger pow decoded = Inr l" "lg_observation_valid l" "lg_coverage l = ''instrumented_at_o2''"
  shows "request_multiset_match l \<and> correlated_duration_samples l \<noteq> 0 \<and> correlated_server_request_ns l \<le> client_remote_wait_ns l"
proof -
  from assms(1) obtain remote server a c where
    v: "lg_observation_valid l \<longleftrightarrow> ledger_reasons (request_multiset_match l) remote server a c = []"
    and cov: "lg_coverage l = (if field_or_zero mt_calls remote \<noteq> 0 then ''instrumented_at_o2'' else ''not_reached'')"
    and ns: "client_remote_wait_ns l = sampled_ns remote" "correlated_server_request_ns l = sampled_ns server"
      "correlated_duration_samples l = field_or_zero duration_samples remote"
    by (auto simp: transport_ledger_def Let_def rbind_Inr_iff)
  from cov assms(3) have "field_or_zero mt_calls remote \<noteq> 0" by (simp split: if_splits)
  with v assms(2) show ?thesis by (simp add: ledger_reasons_def ns split: if_splits)
qed

lemma header_faults_Nil:
  "header_faults h = [] \<longleftrightarrow>
     ah_flags h = 0 \<and> producer_overflow h = 0 \<and> identity_overflow h = 0 \<and> event_overflow h = 0
     \<and> ah_histogram_saturation h = 0 \<and> active_scopes h = 0 \<and> active_requests h = 0 \<and> pending_persistence h = 0
     \<and> abandoned_scopes h = 0 \<and> initialization_error h = 0 \<and> export_error h = 0"
  by (simp add: header_faults_def)



end
