(* ===== verification/Bi_Experiment.thy ===== *)
theory Bi_Experiment
  imports Bi_Stats Bi_Guest Registrations Launch Py_Decode
begin

text \<open>
  The verdict of the two-guest experiment of scripts/cxl_bi_app.py: the arguments of a run,
  the host capture summary of a guest and the evaluation that \<^verbatim>\<open>run_experiment\<close> performs on
  the collected output. The evaluation composes the guest gates, the coherence trace, the
  registrations, the dirty path analysis and the server counters.
\<close>

section \<open>Arguments\<close>

definition is_guest_memory :: "string \<Rightarrow> bool" where
  "is_guest_memory s =
     (2 \<le> length s \<and> is_digit (hd s) \<and> hd s \<noteq> CHR ''0'' \<and> list_all is_digit (butlast s) \<and> last s \<in> {CHR ''M'', CHR ''G''})"

text \<open>
  The checks after the command line is read; \<^verbatim>\<open>parser.error\<close> exits with a message.
\<close>

definition bi_check_args :: "run_config \<Rightarrow> run_config res" where
  "bi_check_args args =
     (if \<not> (1 \<le> iterations args \<and> iterations args \<le> 16384) then Inl (SystemExit ''iterations must be in 1..16384'')
      else if \<not> (64 \<le> stream_bytes args \<and> stream_bytes args \<le> 4 * 1024 * 1024) \<or> stream_bytes args mod 64 \<noteq> 0
      then Inl (SystemExit ''stream-bytes must be 64-aligned and in 64..4194304'')
      else if \<not> (1 \<le> timeout_seconds args \<and> timeout_seconds args \<le> 600)
      then Inl (SystemExit ''timeout must be in 1..600 seconds'')
      else if \<not> is_guest_memory (guest_memory args)
      then Inl (SystemExit ''guest-memory must use a positive QEMU M or G suffix'')
      else case analytical_envelope (link_gbps args) (media_ns args) (request_ns args) (bi_ns args) of
        Inl (ValueError m) \<Rightarrow> Inl (SystemExit m)
      | Inl e \<Rightarrow> Inl e
      | Inr _ \<Rightarrow> Inr args)"

section \<open>Host captures\<close>

record host_capture =
  mapped_host_ns :: int
  summary_host_ns :: int
  mapped_to_summary_ns :: int

definition capture_line :: "string \<Rightarrow> (string \<times> int) list \<Rightarrow> string \<Rightarrow> (string \<times> int) list res" where
  "capture_line role captures raw_line =
     rbind (strict_json_object raw_line ''host event sidecar record'') (\<lambda>wrapper.
     case (dget wrapper ''line'', dget wrapper ''host_capture_ns'') of
       (PStr line, PInt capture_ns) \<Rightarrow>
         if \<not> contains RECORD_PREFIX line then Inr captures
         else rbind (parse_guest_records line) (\<lambda>parsed.
              Inr (if length parsed = 1 \<and> py_eq (dget (hd parsed) ''role'') (PStr role)
                   then captures @ [(case dget (hd parsed) ''event'' of PStr e \<Rightarrow> e | _ \<Rightarrow> [], capture_ns)] else captures))
     | _ \<Rightarrow> Inl (ValueError ''host event sidecar record has invalid fields''))"

definition host_capture_summary :: "string \<Rightarrow> string \<Rightarrow> host_capture res" where
  "host_capture_summary raw role =
     rbind (utf8_decode raw) (\<lambda>text.
     rbind (rfold (capture_line role) [] (splitlines text)) (\<lambda>captures.
     case (map_of captures ''mapped'', map_of captures ''summary'') of
       (Some mapped, Some summary) \<Rightarrow>
         Inr \<lparr>mapped_host_ns = mapped, summary_host_ns = summary, mapped_to_summary_ns = summary - mapped\<rparr>
     | _ \<Rightarrow> Inl (ValueError (''host capture is missing mapped/summary for '' @ role))))"

definition last_lines :: "string \<Rightarrow> nat \<Rightarrow> string list" where
  "last_lines text n = (let lines = splitlines text in drop (length lines - n) lines)"

section \<open>Evaluation of the collected evidence\<close>

definition BI_ENABLE_MARKER :: string where
  "BI_ENABLE_MARKER = ''CXL Type3: BI enabled via decoder control''"

definition TRACE_ERROR_EVENTS :: "string list" where
  "TRACE_ERROR_EVENTS = [''timeout'', ''protocol_error'', ''delivery_failure'', ''server_copy_failure'']"

text \<open>The files and console texts of a finished run.\<close>

record bi_run =
  reader_output :: string
  writer_output :: string
  reader_sidecar :: string
  writer_sidecar :: string
  trace_bytes :: string
  server_log_bytes :: string

record bi_result =
  application_evidence :: pydict
  guest_records :: "pydict list \<times> pydict list"
  host_captures :: "host_capture \<times> host_capture"
  bi_trace_evidence :: pydict
  required_handoff :: pydict
  br_registrations :: "pydict list"
  coherence_server_stats :: pydict
  request_to_completion_ns :: int
  snoop_to_ack_ns :: int
  ack_to_dirty_completion_ns :: int
  analytical :: pydict

definition dict_at :: "pydict \<Rightarrow> string \<Rightarrow> pydict res" where
  "dict_at d name = rbind (dindex d name) (\<lambda>v. case v of PDict e \<Rightarrow> Inr e | _ \<Rightarrow> Inl TypeError)"

definition int_at :: "pydict \<Rightarrow> string \<Rightarrow> int res" where
  "int_at d name = rbind (dindex d name) (\<lambda>v. case v of PInt i \<Rightarrow> Inr i | _ \<Rightarrow> Inl TypeError)"

text \<open>The device address of the payload, from the reader's mapping.\<close>

definition payload_dpa :: "pydict \<Rightarrow> int res" where
  "payload_dpa application =
     rbind (dict_at application ''mapped'') (\<lambda>mapped.
     rbind (dict_at mapped ''reader'') (\<lambda>reader.
     rbind (int_at reader ''mapping_offset'') (\<lambda>mapping_offset.
     rbind (int_at application ''payload_offset'') (\<lambda>payload_offset.
     Inr (mapping_offset + payload_offset)))))"

definition check_trace_errors :: "pydict list \<Rightarrow> unit res" where
  "check_trace_errors records =
     rbind (rfilter (\<lambda>r. in_set (dget r ''event'') TRACE_ERROR_EVENTS) records) (\<lambda>errors.
     rcheck (errors \<noteq> []) (ValueError (''coherence trace contains '' @ show_nat (length errors) @ '' protocol/error events'')))"

definition required_writer_handoff :: "pydict \<Rightarrow> pydict res" where
  "required_writer_handoff trace_evidence =
     (case require_dirty_handoff trace_evidence 1 0 of
        Inr p \<Rightarrow> Inr p
      | Inl e \<Rightarrow> if is_value_error e
          then Inl (ValueError ''payload DPA lacks the required dirty writer(host 1) to reader(host 0) BI hand-off'')
          else Inl e)"

definition check_stats :: "pydict \<Rightarrow> unit res" where
  "check_stats stats =
     rbind (integer stats ''registrations'' ''server stats'') (\<lambda>n.
     rbind (rcheck (n \<noteq> 2) (ValueError ''coherence server did not register exactly two endpoints'')) (\<lambda>_.
     rbind (integer stats ''snp_data_inv'' ''server stats'') (\<lambda>snoops.
     rbind (rcheck (snoops \<le> 0) (ValueError ''coherence server recorded no SNP_DATA_INV'')) (\<lambda>_.
     rbind (integer stats ''dirty_data_completions'' ''server stats'') (\<lambda>dirty.
     rcheck (dirty \<le> 0) (ValueError ''coherence server recorded no dirty data completion''))))))"

definition check_bi_markers :: "bi_run \<Rightarrow> unit res" where
  "check_bi_markers run =
     rbind (rcheck (\<not> contains BI_ENABLE_MARKER (reader_output run)) (ValueError ''reader console lacks the BI decoder enable marker'')) (\<lambda>_.
     rcheck (\<not> contains BI_ENABLE_MARKER (writer_output run)) (ValueError ''writer console lacks the BI decoder enable marker''))"

definition evaluate_run :: "run_config \<Rightarrow> bi_run \<Rightarrow> bi_result res" where
  "evaluate_run config run =
     rbind (parse_guest_records (reader_output run)) (\<lambda>R.
     rbind (parse_guest_records (writer_output run)) (\<lambda>W.
     rbind (check_bi_markers run) (\<lambda>_.
     rbind (validate_guest_evidence R W (iterations config) (stream_bytes config)) (\<lambda>application.
     rbind (host_capture_summary (reader_sidecar run) ''reader'') (\<lambda>reader_capture.
     rbind (host_capture_summary (writer_sidecar run) ''writer'') (\<lambda>writer_capture.
     rbind (read_trace (trace_bytes run)) (\<lambda>records.
     rbind (bi_validate_registrations records) (\<lambda>registrations.
     rbind (check_trace_errors records) (\<lambda>_.
     rbind (payload_dpa application) (\<lambda>dpa.
     rbind (analyze_trace (trace_bytes run) [PInt dpa]) (\<lambda>evidence.
     if \<not> truthy (dget evidence ''complete'')
     then Inl (ValueError (''application passed but no address-correlated dirty BI path covers payload DPA '' @ py_hex dpa))
     else rbind (required_writer_handoff evidence) (\<lambda>handoff.
     rbind (parse_server_stats (decode_replace (server_log_bytes run))) (\<lambda>stats.
     rbind (check_stats stats) (\<lambda>_.
     rbind (int_at handoff ''request_ns'') (\<lambda>request_time.
     rbind (int_at handoff ''snoop_ns'') (\<lambda>snoop_time.
     rbind (int_at handoff ''ack_ns'') (\<lambda>ack_time.
     rbind (int_at handoff ''completion_ns'') (\<lambda>completion_time.
     rbind (analytical_envelope (link_gbps config) (media_ns config) (request_ns config) (bi_ns config)) (\<lambda>envelope.
     Inr \<lparr>application_evidence = application, guest_records = (R, W), host_captures = (reader_capture, writer_capture),
          bi_trace_evidence = evidence, required_handoff = handoff, br_registrations = registrations,
          coherence_server_stats = stats, request_to_completion_ns = completion_time - request_time,
          snoop_to_ack_ns = ack_time - snoop_time, ack_to_dirty_completion_ns = completion_time - ack_time,
          analytical = envelope\<rparr>)))))))))))))))))))"

section \<open>What a passing verdict shows\<close>

lemma check_trace_errors_Inr:
  "check_trace_errors records = Inr u \<Longrightarrow> \<forall>r\<in>set records. \<forall>e\<in>set TRACE_ERROR_EVENTS. dget r ''event'' \<noteq> PStr e"
proof (intro ballI notI)
  fix r e
  assume a: "check_trace_errors records = Inr u" "r \<in> set records" "e \<in> set TRACE_ERROR_EVENTS" "dget r ''event'' = PStr e"
  from a(1) have f: "rfilter (\<lambda>r. in_set (dget r ''event'') TRACE_ERROR_EVENTS) records = Inr []"
    by (auto simp: check_trace_errors_def rbind_Inr_iff)
  have "in_set (dget r ''event'') TRACE_ERROR_EVENTS = Inr True" using a(3,4) by simp
  moreover have "rfilter p xs = Inr [] \<Longrightarrow> x \<in> set xs \<Longrightarrow> p x = Inr False" for p and xs :: "pydict list" and x
    by (induction xs) (auto simp: rbind_Inr_iff split: if_splits)
  ultimately show False using f a(2) by fastforce
qed

lemma check_stats_Inr:
  "check_stats stats = Inr u \<longleftrightarrow>
     dget stats ''registrations'' = PInt 2 \<and> positive_field stats ''snp_data_inv'' \<and> positive_field stats ''dirty_data_completions''"
  by (auto simp: check_stats_def rbind_Inr_iff guest_int.read_Inr_iff positive_field_def)

lemma payload_dpa_Inr:
  assumes "payload_dpa application = Inr dpa" "dget application ''mapped'' = by_role r w"
  shows "\<exists>m p. dget r ''mapping_offset'' = PInt m \<and> dget application ''payload_offset'' = PInt p \<and> dpa = m + p"
  using assms
  by (auto simp: payload_dpa_def dict_at_def int_at_def dindex_def dget_def by_role_def rbind_Inr_iff
      split: option.splits pyval.splits)

lemma required_writer_handoff_Inr: "required_writer_handoff ev = Inr p \<longleftrightarrow> require_dirty_handoff ev 1 0 = Inr p"
  by (auto simp: required_writer_handoff_def split: sum.splits if_splits)

lemma reported_hosts:
  assumes "analyze_trace raw dpas = Inr ev" "dget ev ''dirty_paths'' = PList paths" "PDict p \<in> set paths"
  shows "\<exists>a b. dget p ''owner_host'' = PInt a \<and> dget p ''requester_host'' = PInt b"
proof -
  let ?T = "sort (remdups (map dpa_line dpas))"
  from assms(1) obtain records ps lines where
    f: "rfold (analyze_step records ?T) ([], []) [0..<length records] = Inr (ps, lines)"
    and d: "dget ev ''dirty_paths'' = PList (map PDict ps)" by (rule analyze_trace_Inr)
  from d assms(2,3) have "p \<in> set ps" by auto
  then obtain j line where "reports records ?T j p line" using analyze_loop(1) [OF f] by blast
  then show ?thesis using reports_hosts by blast
qed

text \<open>
  (C1) A passing verdict of the two-guest experiment is backed by the collected evidence:
  both guests enabled back-invalidation and pass every application gate; exactly hosts 0
  and 1 are registered in the coherence trace, which holds no protocol error; the trace
  holds, in order, a request of the reader (host 0), a snoop of the writer (host 1), its
  acknowledgement with dirty data and the dirty completion, for the cache line of the
  payload that the reader mapped; and the server's own counters report two registrations,
  snoops and dirty completions and no error.
\<close>

theorem experiment_pass_sound:
  assumes "evaluate_run config run = Inr result"
  shows "\<exists>R W records r m p i j k l.
     parse_guest_records (reader_output run) = Inr R \<and> parse_guest_records (writer_output run) = Inr W
     \<and> contains BI_ENABLE_MARKER (reader_output run) \<and> contains BI_ENABLE_MARKER (writer_output run)
     \<and> guest_gates R W (iterations config) (stream_bytes config)
     \<and> read_trace (trace_bytes run) = Inr records
     \<and> registered [0, 1] (\<lambda>s. 0 < s) records (br_registrations result)
     \<and> (\<forall>x\<in>set records. \<forall>e\<in>set TRACE_ERROR_EVENTS. dget x ''event'' \<noteq> PStr e)
     \<and> only_event R ''mapped'' ''reader'' r \<and> dget r ''mapping_offset'' = PInt m \<and> dget r ''payload_offset'' = PInt p
     \<and> i < j \<and> j < k \<and> j < l \<and> k < length records \<and> l < length records
     \<and> dirty_chain (records ! i) (records ! j) (records ! k) (records ! l)
     \<and> dget (records ! j) ''line_address'' = PInt (dpa_line (PInt (m + p)))
     \<and> dget (records ! i) ''src_host'' = PInt 0 \<and> dget (records ! j) ''dst_host'' = PInt 1
     \<and> (\<forall>name\<in>set zero_counters. dget (coherence_server_stats result) name = PInt 0)
     \<and> dget (coherence_server_stats result) ''registrations'' = PInt 2
     \<and> positive_field (coherence_server_stats result) ''snp_data_inv''
     \<and> positive_field (coherence_server_stats result) ''dirty_data_completions''"
proof -
  from assms obtain R W application records dpa where
    R: "parse_guest_records (reader_output run) = Inr R" and W: "parse_guest_records (writer_output run) = Inr W"
    and markers: "check_bi_markers run = Inr ()"
    and app: "validate_guest_evidence R W (iterations config) (stream_bytes config) = Inr application"
    and records: "read_trace (trace_bytes run) = Inr records"
    and regs: "bi_validate_registrations records = Inr (br_registrations result)"
    and errors: "check_trace_errors records = Inr ()" and dpa: "payload_dpa application = Inr dpa"
    and ev: "analyze_trace (trace_bytes run) [PInt dpa] = Inr (bi_trace_evidence result)"
    and handoff: "required_writer_handoff (bi_trace_evidence result) = Inr (required_handoff result)"
    and stats: "parse_server_stats (decode_replace (server_log_bytes run)) = Inr (coherence_server_stats result)"
      "check_stats (coherence_server_stats result) = Inr ()"
    by (auto simp: evaluate_run_def rbind_Inr_iff split: if_splits)
  from guest_evidence_gates [OF app] obtain r w where gates: "guest_gates R W (iterations config) (stream_bytes config)"
    and r: "only_event R ''mapped'' ''reader'' r" "dget application ''payload_offset'' = dget r ''payload_offset''"
      "dget application ''mapped'' = by_role r w" by blast
  from payload_dpa_Inr [OF dpa r(3)] r(2) obtain m p where mp: "dget r ''mapping_offset'' = PInt m" "dget r ''payload_offset'' = PInt p"
    "dpa = m + p" by auto
  from handoff obtain paths where paths: "dget (bi_trace_evidence result) ''dirty_paths'' = PList paths"
    "PDict (required_handoff result) \<in> set paths"
    and hosts: "py_eq (dget (required_handoff result) ''owner_host'') (PInt 1)"
      "py_eq (dget (required_handoff result) ''requester_host'') (PInt 0)"
    unfolding required_writer_handoff_Inr by (rule require_dirty_handoff_Inr)
  from analyze_trace_chain [OF ev paths] records obtain i j k l v where chain:
    "i < j" "j < k" "j < l" "k < length records" "l < length records"
    "dirty_chain (records ! i) (records ! j) (records ! k) (records ! l)"
    "v \<in> set [PInt dpa]" "dget (required_handoff result) ''line_address'' = PInt (dpa_line v)"
    "dget (records ! j) ''line_address'' = dget (required_handoff result) ''line_address''"
    "dget (required_handoff result) ''requester_host'' = dget (records ! i) ''src_host''"
    "dget (required_handoff result) ''owner_host'' = dget (records ! j) ''dst_host''"
    by auto
  from reported_hosts [OF ev paths] hosts have h: "dget (required_handoff result) ''owner_host'' = PInt 1"
    "dget (required_handoff result) ''requester_host'' = PInt 0" by auto
  have "contains BI_ENABLE_MARKER (reader_output run)" "contains BI_ENABLE_MARKER (writer_output run)"
    using markers by (auto simp: check_bi_markers_def rbind_Inr_iff)
  moreover have "registered [0, 1] (\<lambda>s. 0 < s) records (br_registrations result)"
    using regs unfolding bi_validate_registrations_def by (simp add: bi_reg.validator_Inr)
  moreover note check_trace_errors_Inr [OF errors] gates R W records r(1) mp(1,2) chain(1-6)
  moreover have "dget (records ! j) ''line_address'' = PInt (dpa_line (PInt (m + p)))" using chain(7-9) mp(3) by simp
  moreover have "dget (records ! i) ''src_host'' = PInt 0" "dget (records ! j) ''dst_host'' = PInt 1"
    using h chain(10,11) by simp_all
  moreover have "\<forall>name\<in>set zero_counters. dget (coherence_server_stats result) name = PInt 0"
    using stats(1) by (simp add: parse_server_stats_Inr)
  moreover note stats(2) [unfolded check_stats_Inr]
  ultimately show ?thesis by blast
qed

section \<open>A passing run\<close>

text \<open>Values whose printed form is printable ASCII.\<close>

fun ascii_value :: "pyval \<Rightarrow> bool" where
  "ascii_value (PStr s) = ascii_line s"
| "ascii_value (PList vs) = list_all ascii_value vs"
| "ascii_value (PDict d) = list_all (\<lambda>(k, v). ascii_line k \<and> ascii_value v) d"
| "ascii_value v = True"

lemma ascii_marks:
  "ascii_char (CHR 0x22)" "ascii_char (CHR 0x5C)" "ascii_char (CHR '','')" "ascii_char (CHR '':'')" "ascii_char (CHR ''['')"
  "ascii_char (CHR '']'')" "ascii_char (CHR ''{'')" "ascii_char (CHR ''}'')" "ascii_char (CHR ''-'')"
  by (simp_all add: ascii_char_def)

lemma ascii_escape:
  assumes "ascii_char c"
  shows "ascii_line (escape_out c)"
proof -
  have "c \<noteq> CHR 0x08" "c \<noteq> CHR 0x0C" "c \<noteq> CHR 0x0A" "c \<noteq> CHR 0x0D" "c \<noteq> CHR 0x09" "\<not> ord c < 32"
    using assms by (auto simp: ascii_char_def)
  then show ?thesis using assms by (simp add: escape_out_def ascii_marks)
qed

lemma ascii_json_string: "ascii_line s \<Longrightarrow> ascii_line (json_string s)"
  by (auto simp: json_string_def ascii_marks list_all_iff dest!: ascii_escape)

lemma ascii_join_comma: "list_all ascii_line xs \<Longrightarrow> ascii_line (join_comma xs)"
  by (induction xs rule: join_comma.induct) (auto simp: ascii_marks)

lemma ascii_show_int: "ascii_line (show_int i)"
  unfolding list_all_iff
proof
  fix c assume "c \<in> set (show_int i)"
  then have "is_digit c \<or> c = CHR ''-''" by (rule show_int_chars)
  then show "ascii_char c" by (auto simp: ascii_char_def)
qed

lemma ascii_json_compact: "ascii_value v \<Longrightarrow> ascii_line (json_compact v)"
proof (induction v rule: ascii_value.induct)
  case (2 vs)
  then have "list_all ascii_line (map json_compact vs)" by (auto simp: list_all_iff)
  from ascii_join_comma [OF this] show ?case by (simp add: ascii_marks)
next
  case (3 d)
  have "list_all ascii_line (map (\<lambda>(k, v). json_string k @ CHR '':'' # json_compact v) d)"
    unfolding list_all_iff
  proof
    fix x assume "x \<in> set (map (\<lambda>(k, v). json_string k @ CHR '':'' # json_compact v) d)"
    then obtain k v where kv: "(k, v) \<in> set d" "x = json_string k @ CHR '':'' # json_compact v" by auto
    with 3 have "ascii_line k" "ascii_line (json_compact v)" by (auto simp: list_all_iff)
    then have "ascii_line x" by (simp add: kv ascii_json_string ascii_marks)
    then show "\<forall>c\<in>set x. ascii_char c" by (simp only: list_all_iff)
  qed
  from ascii_join_comma [OF this] show ?case by (simp add: ascii_marks)
qed (simp_all add: ascii_json_string ascii_show_int ascii_char_def)

lemma utf8_valid_ascii_line: "ascii_line s \<Longrightarrow> utf8_valid s"
  by (rule utf8_valid_ascii) (auto simp: list_all_iff ascii_char_def)

lemma splitlines_single: "ascii_line l \<Longrightarrow> l \<noteq> [] \<Longrightarrow> splitlines l = [l]"
proof -
  have "ascii_line l \<Longrightarrow> lines_by line_break acc l = (if rev acc @ l = [] then [] else [rev acc @ l])" for acc
    by (induction l arbitrary: acc) (simp_all add: line_break_ascii del: line_break.simps(2))
  then show "ascii_line l \<Longrightarrow> l \<noteq> [] \<Longrightarrow> splitlines l = [l]" by (simp add: splitlines_def)
qed

lemma parse_single_record: "guest_record_ok r \<Longrightarrow> parse_guest_records (RECORD_PREFIX @ json_compact (PDict r)) = Inr [r]"
proof -
  assume ok: "guest_record_ok r"
  have p: "ascii_line RECORD_PREFIX" "RECORD_PREFIX \<noteq> []" by (simp_all add: RECORD_PREFIX_def ascii_char_def)
  then have "ascii_line (RECORD_PREFIX @ json_compact (PDict r))" using ok by (simp add: guest_record_ok_def del: json_compact.simps)
  then have "splitlines (RECORD_PREFIX @ json_compact (PDict r)) = [RECORD_PREFIX @ json_compact (PDict r)]"
    using p by (intro splitlines_single) simp_all
  moreover have "guest_line_records (RECORD_PREFIX @ json_compact (PDict r)) = Inr [r]"
    using guest_lines.emit_records [of r "[]"] ok by (simp add: RECORD_PREFIX_def contains_rec starts_with_def del: json_compact.simps)
  ultimately show ?thesis by (simp add: parse_guest_records_def extract_lines_def del: json_compact.simps)
qed

definition capture_wrapper :: "int \<Rightarrow> pydict \<Rightarrow> pydict" where
  "capture_wrapper t r = [(''host_capture_ns'', PInt t), (''line'', PStr (RECORD_PREFIX @ json_compact (PDict r)))]"

lemma capture_wrapper_ascii: "guest_record_ok r \<Longrightarrow> ascii_line (json_compact (PDict (capture_wrapper t r)))"
  by (rule ascii_json_compact)
     (simp add: capture_wrapper_def guest_record_ok_def RECORD_PREFIX_def ascii_char_def del: json_compact.simps)

lemma capture_line_record:
  assumes "guest_record_ok r" "dget r ''role'' = PStr role" "dget r ''event'' = PStr e"
  shows "capture_line role captures (json_compact (PDict (capture_wrapper t r))) = Inr (captures @ [(e, t)])"
proof -
  have "plain_json (PDict (capture_wrapper t r))" by (simp add: capture_wrapper_def)
  then have "strict_json_object (json_compact (PDict (capture_wrapper t r))) ''host event sidecar record'' = Inr (capture_wrapper t r)"
    by (rule strict_json_object_compact)
  moreover have "contains RECORD_PREFIX (RECORD_PREFIX @ json_compact (PDict r))" unfolding contains_iff by (metis append_Nil)
  ultimately show ?thesis
    using parse_single_record [OF assms(1)] assms(2,3)
    by (simp add: capture_line_def capture_wrapper_def del: json_compact.simps plain_json.simps)
qed

lemma host_capture_summary_two:
  assumes "guest_record_ok a" "dget a ''role'' = PStr role" "dget a ''event'' = PStr ''mapped''"
    and "guest_record_ok b" "dget b ''role'' = PStr role" "dget b ''event'' = PStr ''summary''"
  shows "\<exists>c. host_capture_summary (jsonl [capture_wrapper s a, capture_wrapper t b]) role = Inr c"
proof -
  let ?l = "map (\<lambda>r. json_compact (PDict r)) [capture_wrapper s a, capture_wrapper t b]"
  have ascii: "list_all ascii_line ?l" using capture_wrapper_ascii assms(1,4) by (simp del: json_compact.simps)
  have "list_all (\<lambda>c. ord c < 128) (concat (map (\<lambda>l. l @ [CHR 0x0A]) ?l))"
    using ascii by (auto simp: list_all_iff ascii_char_def simp del: json_compact.simps)
  then have "utf8_decode (jsonl [capture_wrapper s a, capture_wrapper t b]) = Inr (jsonl [capture_wrapper s a, capture_wrapper t b])"
    using utf8_valid_ascii unfolding utf8_decode_def jsonl_def by presburger
  moreover have "splitlines (jsonl [capture_wrapper s a, capture_wrapper t b]) = ?l"
    using splitlines_ascii [OF ascii] by (simp add: jsonl_def del: json_compact.simps)
  ultimately show ?thesis
    using capture_line_record [OF assms(1-3), of "[]" s] capture_line_record [OF assms(4-6), of "[(''mapped'', s)]" t]
    by (simp add: host_capture_summary_def del: json_compact.simps)
qed

definition guest_transcript :: "pydict list \<Rightarrow> string" where
  "guest_transcript records =
     concat (map (\<lambda>x. (case x of Inl l \<Rightarrow> l | Inr r \<Rightarrow> RECORD_PREFIX @ json_compact (PDict r)) @ [CHR 0x0A])
       (Inl BI_ENABLE_MARKER # map Inr records))"

lemma guest_transcript_parse:
  assumes "list_all guest_record_ok records"
  shows "parse_guest_records (guest_transcript records) = Inr records" "contains BI_ENABLE_MARKER (guest_transcript records)"
proof -
  let ?items = "Inl BI_ENABLE_MARKER # map Inr records :: (string + pydict) list"
  have "\<forall>x\<in>set ?items. case x of Inl l \<Rightarrow> ascii_line l \<and> \<not> contains RECORD_PREFIX l
      | Inr r \<Rightarrow> guest_record_ok r \<and> ascii_line [] \<and> \<not> contains RECORD_PREFIX []"
    using assms by (auto simp: list_all_iff BI_ENABLE_MARKER_def RECORD_PREFIX_def ascii_char_def contains_rec starts_with_def)
  from guest_lines.transcript_records [OF this] show "parse_guest_records (guest_transcript records) = Inr records"
    by (simp add: parse_guest_records_def guest_transcript_def comp_def del: json_compact.simps)
  show "contains BI_ENABLE_MARKER (guest_transcript records)"
    unfolding contains_iff guest_transcript_def
    by (intro exI [of _ "[]"] exI [of _ "[CHR 0x0A] @ concat (map (\<lambda>x. (case x of Inl l \<Rightarrow> l | Inr r \<Rightarrow> RECORD_PREFIX @ json_compact (PDict r)) @ [CHR 0x0A])
       (map Inr records))"]) (simp del: json_compact.simps)
qed

definition guest_record_fine :: "pydict \<Rightarrow> bool" where
  "guest_record_fine r \<longleftrightarrow>
     plain_json (PDict r) \<and> ascii_value (PDict r) \<and> dget r ''schema_version'' = PInt 1
     \<and> (case dget r ''event'' of PStr e \<Rightarrow> e \<noteq> [] | _ \<Rightarrow> False)"

lemma guest_record_fine_ok: "guest_record_fine r \<Longrightarrow> guest_record_ok r"
  unfolding guest_record_fine_def guest_record_ok_def
  by (auto simp del: json_compact.simps plain_json.simps ascii_value.simps intro: ascii_json_compact split: pyval.splits)

lemma sample_guest_fine: "list_all guest_record_fine sample_reader" "list_all guest_record_fine sample_writer"
  by (simp_all add: sample_defs guest_record_fine_def geometry_fields_def reader_ping_fields_def ascii_char_def)

definition chain_trace :: "pydict list" where
  "chain_trace =
     [[(''schema_version'', PInt 1), (''event'', PStr ''registration''), (''status'', PStr ''OK''), (''src_host'', PInt 0),
       (''session_id'', PInt 4), (''monotonic_ns'', PInt 1)],
      [(''schema_version'', PInt 1), (''event'', PStr ''registration''), (''status'', PStr ''OK''), (''src_host'', PInt 1),
       (''session_id'', PInt 5), (''monotonic_ns'', PInt 2)],
      [(''schema_version'', PInt 1), (''event'', PStr ''request''), (''opcode'', PStr ''GETM''),
       (''line_address'', PInt 8192), (''request_id'', PInt 7), (''src_host'', PInt 0), (''monotonic_ns'', PInt 10)],
      [(''schema_version'', PInt 1), (''event'', PStr ''snoop_send''), (''opcode'', PStr ''SNP_DATA_INV''),
       (''status'', PStr ''OK''), (''line_address'', PInt 8192), (''snoop_id'', PInt 3), (''session_id'', PInt 5),
       (''epoch'', PInt 1), (''dst_host'', PInt 1), (''monotonic_ns'', PInt 11)],
      [(''schema_version'', PInt 1), (''event'', PStr ''snoop_ack''), (''opcode'', PStr ''SNOOP_ACK''),
       (''status'', PStr ''OK''), (''line_address'', PInt 8192), (''snoop_id'', PInt 3), (''session_id'', PInt 5),
       (''epoch'', PInt 1), (''ack_strength'', PStr ''MODEL''), (''dirty_data'', PBool True), (''payload_len'', PInt 64),
       (''monotonic_ns'', PInt 12)],
      [(''schema_version'', PInt 1), (''event'', PStr ''dirty_completion''), (''opcode'', PStr ''SNOOP_ACK''),
       (''status'', PStr ''OK''), (''line_address'', PInt 8192), (''snoop_id'', PInt 3), (''session_id'', PInt 5),
       (''epoch'', PInt 1), (''ack_strength'', PStr ''MODEL''), (''dirty_data'', PBool True), (''payload_len'', PInt 64),
       (''monotonic_ns'', PInt 13)]]"

lemma chain_trace_read: "read_trace (jsonl chain_trace) = Inr chain_trace"
proof (rule read_trace_jsonl)
  have "utf8_valid (json_compact (PDict r))" if "ascii_value (PDict r)" for r
    using ascii_json_compact [OF that] by (rule utf8_valid_ascii_line)
  moreover have "list_all (\<lambda>r. plain_json (PDict r) \<and> ascii_value (PDict r) \<and> schema_1 r \<and> (\<exists>t. dget r ''monotonic_ns'' = PInt t)) chain_trace"
    by (simp add: chain_trace_def schema_1_def ascii_char_def)
  ultimately show "list_all (printable_record schema_1 ''monotonic_ns'') chain_trace"
    by (simp add: list_all_iff printable_record_def del: json_compact.simps plain_json.simps ascii_value.simps)
  show "sorted (map stamp chain_trace)" by (simp add: chain_trace_def stamp_of_def)
qed

definition chain_path :: pydict where
  "chain_path = aset ''line_address'' (PInt 8192) sample_path"

lemma chain_trace_analyze:
  "\<exists>ev. analyze_trace (jsonl chain_trace) [PInt 8192] = Inr ev \<and> dget ev ''complete'' = PBool True
     \<and> dget ev ''dirty_paths'' = PList [PDict chain_path]"
proof -
  have t: "sort (remdups (map dpa_line [PInt 8192])) = [8192]" "\<not> list_ex bad_dpa [PInt 8192]" by code_simp+
  have "\<exists>ev. analyze_records chain_trace [8192] = Inr ev \<and> dget ev ''complete'' = PBool True
     \<and> dget ev ''dirty_paths'' = PList [PDict chain_path]"
    by (simp add: analyze_records_def analyze_step_def chain_trace_def chain_path_def sample_path_def
        valid_dirty_path_def dirty_path_entry_def required_int_def int_is_def int_le_def
        is_line_request_def has_snoop_id_def dindex_def)
  with t chain_trace_read show ?thesis by (simp add: analyze_trace_def)
qed

definition run_stats :: pydict where
  "run_stats = sample_stats @ [(''registrations'', PInt 2), (''snp_data_inv'', PInt 3), (''dirty_data_completions'', PInt 1)]"

definition stats_log :: string where
  "stats_log = STATS_MARKER @ json_compact (PDict run_stats) @ [CHR 0x0A]"

lemma run_stats_ascii: "plain_json (PDict run_stats)" "ascii_line (json_compact (PDict run_stats))"
proof -
  have "ascii_value (PDict run_stats)" by (simp add: run_stats_def sample_stats_def zero_counters_def ascii_char_def)
  then show "ascii_line (json_compact (PDict run_stats))" by (rule ascii_json_compact)
qed (simp add: run_stats_def sample_stats_def zero_counters_def)

lemma stats_log_parse: "parse_server_stats (decode_replace stats_log) = Inr run_stats"
proof -
  have "list_all (\<lambda>c. ord c < 128) stats_log"
    using run_stats_ascii(2) by (auto simp: stats_log_def STATS_MARKER_def list_all_iff ascii_char_def simp del: json_compact.simps)
  then have d: "decode_replace stats_log = stats_log" by (intro decode_replace_valid utf8_valid_ascii)
  have "\<forall>x\<in>set [Inr run_stats]. case x of Inl l \<Rightarrow> ascii_line l \<and> \<not> contains STATS_MARKER l
      | Inr r \<Rightarrow> plain_json (PDict r) \<and> ascii_line (json_compact (PDict r)) \<and> ascii_line [] \<and> \<not> contains STATS_MARKER []"
    using run_stats_ascii by (simp add: STATS_MARKER_def contains_rec starts_with_def del: json_compact.simps plain_json.simps)
  from stats_lines.transcript_records [OF this]
  have "extract_lines stats_line_records (splitlines stats_log) = Inr [run_stats]"
    by (simp add: stats_log_def del: json_compact.simps)
  then show ?thesis
    unfolding d parse_server_stats_Inr by (simp add: run_stats_def sample_stats_def zero_counters_def)
qed

definition sample_config :: run_config where
  "sample_config = default_run_config\<lparr>iterations := 2, stream_bytes := 4096\<rparr>"

definition sample_run :: bi_run where
  "sample_run = \<lparr>reader_output = guest_transcript sample_reader, writer_output = guest_transcript sample_writer,
     reader_sidecar = jsonl [capture_wrapper 1 (sample_reader ! 0), capture_wrapper 2 (sample_reader ! 5)],
     writer_sidecar = jsonl [capture_wrapper 1 (sample_writer ! 0), capture_wrapper 2 (sample_writer ! 5)],
     trace_bytes = jsonl chain_trace, server_log_bytes = stats_log\<rparr>"

lemma sample_run_pieces:
  "\<exists>a b. host_capture_summary (reader_sidecar sample_run) ''reader'' = Inr a
     \<and> host_capture_summary (writer_sidecar sample_run) ''writer'' = Inr b"
proof -
  have len: "length sample_reader = 6" "length sample_writer = 6" by (simp_all add: sample_defs)
  have ok: "guest_record_ok (sample_reader ! 0)" "guest_record_ok (sample_reader ! 5)"
    "guest_record_ok (sample_writer ! 0)" "guest_record_ok (sample_writer ! 5)"
    using sample_guest_fine len by (auto simp: list_all_length intro!: guest_record_fine_ok)
  have r: "dget (sample_reader ! 0) ''role'' = PStr ''reader''" "dget (sample_reader ! 0) ''event'' = PStr ''mapped''"
    "dget (sample_reader ! 5) ''role'' = PStr ''reader''" "dget (sample_reader ! 5) ''event'' = PStr ''summary''"
    "dget (sample_writer ! 0) ''role'' = PStr ''writer''" "dget (sample_writer ! 0) ''event'' = PStr ''mapped''"
    "dget (sample_writer ! 5) ''role'' = PStr ''writer''" "dget (sample_writer ! 5) ''event'' = PStr ''summary''"
    by (simp_all add: sample_defs)
  show ?thesis
    using host_capture_summary_two [OF ok(1) r(1,2) ok(2) r(3,4), of 1 2] host_capture_summary_two [OF ok(3) r(5,6) ok(4) r(7,8), of 1 2]
    by (simp add: sample_run_def)
qed

lemma sample_envelope: "\<exists>e. analytical_envelope (link_gbps sample_config) (media_ns sample_config) (request_ns sample_config) (bi_ns sample_config) = Inr e"
proof -
  have "fl 350 = Fin 350" "fl 450 = Fin 450" using fl_of_int [of 350] fl_of_int [of 450] by simp_all
  then show ?thesis by (simp add: analytical_envelope_def sample_config_def default_run_config_def Let_def)
qed

lemma sample_run_passes: "\<exists>result. evaluate_run sample_config sample_run = Inr result"
proof -
  have ok: "list_all guest_record_ok sample_reader" "list_all guest_record_ok sample_writer"
    using sample_guest_fine guest_record_fine_ok by (auto simp: list_all_iff)
  obtain app where app: "validate_guest_evidence sample_reader sample_writer 2 4096 = Inr app"
    using guest_evidence_total [OF sample_gates sample_64] by auto
  from guest_evidence_gates [OF app] obtain r w where r: "only_event sample_reader ''mapped'' ''reader'' r"
    "dget app ''payload_offset'' = dget r ''payload_offset''" "dget app ''mapped'' = by_role r w" by blast
  then have "r = sample_reader ! 0" by (simp add: only_event_def sample_events sample_defs event_records_def)
  then have off: "dget r ''payload_offset'' = PInt 4096" "dget r ''mapping_offset'' = PInt 4096"
    by (simp_all add: sample_defs geometry_fields_def)
  have dpa: "payload_dpa app = Inr 8192"
    using r(2,3) off by (auto simp: payload_dpa_def dict_at_def int_at_def dindex_def by_role_def dest!: dget_eqD)
  obtain a b where cap: "host_capture_summary (reader_sidecar sample_run) ''reader'' = Inr a"
    "host_capture_summary (writer_sidecar sample_run) ''writer'' = Inr b" using sample_run_pieces by blast
  obtain ev where ev: "analyze_trace (jsonl chain_trace) [PInt 8192] = Inr ev" "dget ev ''complete'' = PBool True"
    "dget ev ''dirty_paths'' = PList [PDict chain_path]" using chain_trace_analyze by blast
  obtain e where e: "analytical_envelope (link_gbps sample_config) (media_ns sample_config) (request_ns sample_config) (bi_ns sample_config) = Inr e"
    using sample_envelope by blast
  have handoff: "required_writer_handoff ev = Inr chain_path"
    using ev(3) by (simp add: required_writer_handoff_Inr require_dirty_handoff_def chain_path_def sample_path_def)
  have regs: "\<exists>rs. bi_validate_registrations chain_trace = Inr rs"
    by (simp add: bi_validate_registrations_def chain_trace_def is_registration_def bi_register_def required_int_def Let_def insert_commute)
  have errors: "check_trace_errors chain_trace = Inr ()"
    by (simp add: check_trace_errors_def chain_trace_def TRACE_ERROR_EVENTS_def)
  have times: "int_at chain_path ''request_ns'' = Inr 10" "int_at chain_path ''snoop_ns'' = Inr 11"
    "int_at chain_path ''ack_ns'' = Inr 12" "int_at chain_path ''completion_ns'' = Inr 13"
    by (simp_all add: int_at_def chain_path_def sample_path_def dindex_def)
  have stats: "check_stats run_stats = Inr ()"
    unfolding check_stats_Inr by (simp add: run_stats_def sample_stats_def zero_counters_def positive_field_def)
  have markers: "check_bi_markers sample_run = Inr ()"
    using guest_transcript_parse(2) ok by (simp add: check_bi_markers_def sample_run_def)
  have parts: "reader_output sample_run = guest_transcript sample_reader" "writer_output sample_run = guest_transcript sample_writer"
    "trace_bytes sample_run = jsonl chain_trace" "server_log_bytes sample_run = stats_log" "iterations sample_config = 2"
    "stream_bytes sample_config = 4096" by (simp_all add: sample_run_def sample_config_def)
  from regs show ?thesis
    unfolding evaluate_run_def parts
    by (auto simp: guest_transcript_parse(1) ok markers app cap chain_trace_read errors dpa ev(1,2) handoff stats_log_parse stats times e)
qed

theorem experiment_pass_sound_witness:
  "\<exists>result R W. evaluate_run sample_config sample_run = Inr result \<and> parse_guest_records (reader_output sample_run) = Inr R
     \<and> guest_gates R W 2 4096 \<and> dget (coherence_server_stats result) ''registrations'' = PInt 2"
proof -
  obtain result where r: "evaluate_run sample_config sample_run = Inr result" using sample_run_passes by blast
  from experiment_pass_sound [OF r] r show ?thesis by (auto simp: sample_config_def)
qed

end
