(* ===== verification/Py_State.thy ===== *)
theory Py_State
  imports Py_Base
begin

text \<open>
  Computations that change a state and may raise: the sequencing of the console dialogues
  and of the run workflow, with \<^verbatim>\<open>try: ... finally: ...\<close> and the part of a larger state, and
  a Hoare logic with one postcondition for the normal end and one for an exception. The
  state an exception leaves behind is kept.
\<close>

section \<open>Computations\<close>

type_synonym ('s, 'a) stm = "'s \<Rightarrow> 'a res \<times> 's"

definition sreturn :: "'a \<Rightarrow> ('s, 'a) stm" where
  "sreturn x s = (Inr x, s)"

definition sraise :: "pyerr \<Rightarrow> ('s, 'a) stm" where
  "sraise e s = (Inl e, s)"

definition sresult :: "'a res \<Rightarrow> ('s, 'a) stm" where
  "sresult r s = (r, s)"

definition supdate :: "('s \<Rightarrow> 's) \<Rightarrow> ('s, unit) stm" where
  "supdate f s = (Inr (), f s)"

definition sbind :: "('s, 'a) stm \<Rightarrow> ('a \<Rightarrow> ('s, 'b) stm) \<Rightarrow> ('s, 'b) stm" where
  "sbind m f s = (case m s of (Inl e, s') \<Rightarrow> (Inl e, s') | (Inr x, s') \<Rightarrow> f x s')"

definition scheck :: "bool \<Rightarrow> pyerr \<Rightarrow> ('s, unit) stm" where
  "scheck bad e = (if bad then sraise e else sreturn ())"

text \<open>
  \<^verbatim>\<open>try: m finally: f\<close>: an exception of the second part replaces the outcome of the first.
\<close>

definition sfinally :: "('s, 'a) stm \<Rightarrow> ('s, unit) stm \<Rightarrow> ('s, 'a) stm" where
  "sfinally m f s = (case m s of (r, s') \<Rightarrow> (case f s' of (Inl e, s'') \<Rightarrow> (Inl e, s'') | (Inr _, s'') \<Rightarrow> (r, s'')))"

text \<open>\<^verbatim>\<open>try: m except BaseException: h; raise\<close>.\<close>

definition sonerror :: "('s, 'a) stm \<Rightarrow> ('s, unit) stm \<Rightarrow> ('s, 'a) stm" where
  "sonerror m h s =
     (case m s of
        (Inr x, s') \<Rightarrow> (Inr x, s')
      | (Inl e, s') \<Rightarrow> (case h s' of (Inl e', s'') \<Rightarrow> (Inl e', s'') | (Inr _, s'') \<Rightarrow> (Inl e, s'')))"

text \<open>A computation on a component of the state.\<close>

definition szoom :: "('t \<Rightarrow> 's) \<Rightarrow> ('s \<Rightarrow> 't \<Rightarrow> 't) \<Rightarrow> ('s, 'a) stm \<Rightarrow> ('t, 'a) stm" where
  "szoom get put m t = (case m (get t) of (r, s') \<Rightarrow> (r, put s' t))"

section \<open>A logic for computations\<close>

text \<open>
  \<open>hoare P m Q E\<close>: started in a state with \<open>P\<close>, the computation ends with a value and \<open>Q\<close>, or raises
  with \<open>E\<close>.
\<close>

definition hoare :: "('s \<Rightarrow> bool) \<Rightarrow> ('s, 'a) stm \<Rightarrow> ('a \<Rightarrow> 's \<Rightarrow> bool) \<Rightarrow> ('s \<Rightarrow> bool) \<Rightarrow> bool" where
  "hoare P m Q E \<longleftrightarrow> (\<forall>s. P s \<longrightarrow> (case m s of (Inr x, s') \<Rightarrow> Q x s' | (Inl e, s') \<Rightarrow> E s'))"

lemma hoareD:
  assumes "hoare P m Q E" "P s"
  shows "m s = (Inr x, s') \<Longrightarrow> Q x s'" and "m s = (Inl e, s') \<Longrightarrow> E s'"
proof -
  have c: "case m s of (Inr x, s') \<Rightarrow> Q x s' | (Inl e, s') \<Rightarrow> E s'" using assms by (simp add: hoare_def)
  show "m s = (Inr x, s') \<Longrightarrow> Q x s'" using c by simp
  show "m s = (Inl e, s') \<Longrightarrow> E s'" using c by simp
qed

lemma hoare_bind:
  assumes "hoare P m R E" "\<And>x. hoare (R x) (f x) Q E"
  shows "hoare P (sbind m f) Q E"
  unfolding hoare_def
proof (intro allI impI)
  fix s assume p: "P s"
  obtain r s' where m: "m s = (r, s')" by (metis surj_pair)
  have "case m s of (Inr x, s') \<Rightarrow> R x s' | (Inl e, s') \<Rightarrow> E s'" using assms(1) p by (simp add: hoare_def)
  then show "case sbind m f s of (Inr x, s') \<Rightarrow> Q x s' | (Inl e, s') \<Rightarrow> E s'"
    using assms(2) m by (cases r) (auto simp: sbind_def hoare_def)
qed

lemma sbind_assoc: "sbind (sbind m f) g = sbind m (\<lambda>x. sbind (f x) g)"
  by (rule ext) (simp add: sbind_def split: prod.splits sum.splits)

lemma hoare_return: "(\<And>s. P s \<Longrightarrow> Q x s) \<Longrightarrow> hoare P (sreturn x) Q E"
  by (simp add: hoare_def sreturn_def)

lemma hoare_raise: "(\<And>s. P s \<Longrightarrow> E s) \<Longrightarrow> hoare P (sraise e) Q E"
  by (simp add: hoare_def sraise_def)

lemma hoare_check:
  "(\<And>s. P s \<Longrightarrow> bad \<Longrightarrow> E s) \<Longrightarrow> (\<And>s. P s \<Longrightarrow> \<not> bad \<Longrightarrow> Q () s) \<Longrightarrow> hoare P (scheck bad e) Q E"
  by (simp add: hoare_def scheck_def sraise_def sreturn_def)

lemma hoare_weaken:
  "hoare P m Q E \<Longrightarrow> (\<And>s. P' s \<Longrightarrow> P s) \<Longrightarrow> (\<And>x s. Q x s \<Longrightarrow> Q' x s) \<Longrightarrow> (\<And>s. E s \<Longrightarrow> E' s) \<Longrightarrow> hoare P' m Q' E'"
  unfolding hoare_def by (fastforce split: prod.splits sum.splits)

lemma hoare_disj: "hoare P m Q E \<Longrightarrow> hoare P' m Q E \<Longrightarrow> hoare (\<lambda>s. P s \<or> P' s) m Q E"
  by (simp add: hoare_def)

text \<open>What the precondition implies may be assumed.\<close>

lemma hoare_assume: "(\<And>s. P s \<Longrightarrow> A) \<Longrightarrow> (A \<Longrightarrow> hoare P m Q E) \<Longrightarrow> hoare P m Q E"
  unfolding hoare_def by (intro allI impI) (simp split del: prod.split)

lemma hoare_result:
  "(\<And>x s. r = Inr x \<Longrightarrow> P s \<Longrightarrow> Q x s) \<Longrightarrow> (\<And>e s. r = Inl e \<Longrightarrow> P s \<Longrightarrow> E s) \<Longrightarrow> hoare P (sresult r) Q E"
  by (simp add: hoare_def sresult_def split: sum.splits)

lemma hoare_result_bind:
  "(\<And>x. r = Inr x \<Longrightarrow> hoare P (f x) Q E) \<Longrightarrow> (\<And>s. P s \<Longrightarrow> E s) \<Longrightarrow> hoare P (sbind (sresult r) f) Q E"
  by (cases r) (simp_all add: hoare_def sbind_def sresult_def)

lemma hoare_update: "(\<And>s. P s \<Longrightarrow> Q () (f s)) \<Longrightarrow> hoare P (supdate f) Q E"
  by (simp add: hoare_def supdate_def)

lemma hoare_finally:
  assumes "hoare P m R X" and "\<And>x. hoare (R x) f (\<lambda>_. Q x) E" and "hoare X f (\<lambda>_. E) E"
  shows "hoare P (sfinally m f) Q E"
  unfolding hoare_def
proof (intro allI impI)
  fix s assume p: "P s"
  obtain r s' where m: "m s = (r, s')" by (metis surj_pair)
  obtain u t where f: "f s' = (u, t)" by (metis surj_pair)
  have r: "case r of Inr x \<Rightarrow> R x s' | Inl e \<Rightarrow> X s'" using assms(1) p m by (auto simp: hoare_def split: sum.splits)
  show "case sfinally m f s of (Inr x, s') \<Rightarrow> Q x s' | (Inl e, s') \<Rightarrow> E s'"
  proof (cases r)
    case (Inl e)
    with r have "X s'" by simp
    then show ?thesis using assms(3) m f Inl by (auto simp: sfinally_def hoare_def split: sum.splits)
  next
    case (Inr x)
    with r have "R x s'" by simp
    then show ?thesis using assms(2) [of x] m f Inr by (auto simp: sfinally_def hoare_def split: sum.splits)
  qed
qed

lemma hoare_onerror:
  assumes "hoare P m Q X" and "hoare X h (\<lambda>_. E) E"
  shows "hoare P (sonerror m h) Q E"
  unfolding hoare_def
proof (intro allI impI)
  fix s assume p: "P s"
  obtain r s' where m: "m s = (r, s')" by (metis surj_pair)
  obtain u t where h: "h s' = (u, t)" by (metis surj_pair)
  have r: "case r of Inr x \<Rightarrow> Q x s' | Inl e \<Rightarrow> X s'" using assms(1) p m by (auto simp: hoare_def split: sum.splits)
  show "case sonerror m h s of (Inr x, s') \<Rightarrow> Q x s' | (Inl e, s') \<Rightarrow> E s'"
    using assms(2) m h r by (cases r) (auto simp: sonerror_def hoare_def split: sum.splits)
qed

lemma hoare_zoom:
  assumes "hoare (\<lambda>s. \<exists>t. P t \<and> s = get t) m (\<lambda>x s. \<forall>t. P t \<longrightarrow> Q x (put s t)) (\<lambda>s. \<forall>t. P t \<longrightarrow> E (put s t))"
  shows "hoare P (szoom get put m) Q E"
  using assms unfolding hoare_def szoom_def by (fastforce split: prod.splits sum.splits)

end
