(* ===== verification/Boot.thy ===== *)
theory Boot
  imports Launch Console Py_State
begin

text \<open>
  The U-Boot dialogue of the runners: \<^verbatim>\<open>run_uboot\<close> of scripts/cxl_bi_app.py and
  scripts/legofs_type3_2node.py and the console operations it uses (\<^verbatim>\<open>wait\<close>, \<^verbatim>\<open>send\<close>,
  \<^verbatim>\<open>command_until_prompt\<close>). The guest is a parameter: the text that has arrived by each
  observation of the console and the exceptions of failing waits and writes. The loops
  behind a wait are those of the Console theory; here a wait succeeds when the marker is
  in the observed output and raises otherwise. Every sent line is logged with the output
  seen by then.
\<close>

section \<open>Console sessions\<close>

record guest_io =
  arrives :: "nat \<Rightarrow> string"
  wait_raises :: "nat \<Rightarrow> pyerr"
  send_raises :: "nat \<Rightarrow> pyerr option"

record session =
  ss_output :: string
  ss_sent :: "(string \<times> string) list"
  ss_tick :: nat

type_synonym 'a sess = "(session, 'a) stm"

text \<open>An observation of the console: everything that arrived so far is in its output.\<close>

definition observed :: "guest_io \<Rightarrow> session \<Rightarrow> session" where
  "observed io s = s\<lparr>ss_output := ss_output s @ arrives io (ss_tick s), ss_tick := Suc (ss_tick s)\<rparr>"

definition console_output :: "guest_io \<Rightarrow> string sess" where
  "console_output io s = (Inr (ss_output (observed io s)), observed io s)"

definition console_wait :: "guest_io \<Rightarrow> string \<Rightarrow> nat \<Rightarrow> unit sess" where
  "console_wait io text start s =
     (let s' = observed io s
      in (if contains text (drop start (ss_output s')) then Inr () else Inl (wait_raises io (ss_tick s)), s'))"

definition console_send :: "guest_io \<Rightarrow> string \<Rightarrow> unit sess" where
  "console_send io line s =
     (let s' = observed io s
      in case send_raises io (ss_tick s) of
           Some e \<Rightarrow> (Inl e, s')
         | None \<Rightarrow> (Inr (), s'\<lparr>ss_sent := ss_sent s' @ [(line, ss_output s')]\<rparr>))"

definition command_until_prompt :: "guest_io \<Rightarrow> string \<Rightarrow> string sess" where
  "command_until_prompt io command =
     sbind (console_output io) (\<lambda>before.
     sbind (console_send io command) (\<lambda>_.
     sbind (console_wait io ''=> '' (length before)) (\<lambda>_.
     sbind (console_output io) (\<lambda>after. sreturn (drop (length before) after)))))"

section \<open>The dialogues\<close>

definition HOST_DECODER :: string where
  "HOST_DECODER = ''CXL host decoder0: HPA 0000001000000000 size 0000000010000000 target 0 ctrl 00000600''"

definition TYPE3_DECODER :: string where
  "TYPE3_DECODER = ''41.00.0 Type 3 decoder0: HPA 0000001000000000 size 0000000010000000 target 0 ctrl 00001600''"

definition lacks :: "string \<Rightarrow> string list \<Rightarrow> bool" where
  "lacks text markers = list_ex (\<lambda>m. \<not> contains m text) markers"

text \<open>\<^verbatim>\<open>f"bootefi 90000000:{size:x} ${fdtcontroladdr}"\<close>.\<close>

definition bootefi_line :: "nat \<Rightarrow> string" where
  "bootefi_line image_size = ''bootefi 90000000:'' @ hex_nat image_size @ '' ${fdtcontroladdr}''"

definition quoted_bootargs :: "string \<Rightarrow> string" where
  "quoted_bootargs arguments = ''setenv bootargs '' @ [CHR 0x27] @ arguments @ [CHR 0x27]"

text \<open>The common part: the decoder proofs before boot, the endpoint listing and its information.\<close>

definition probe_endpoint :: "guest_io \<Rightarrow> string \<Rightarrow> unit sess" where
  "probe_endpoint io name =
     sbind (console_output io) (\<lambda>output.
     sbind (scheck (lacks output [HOST_DECODER, TYPE3_DECODER]) (ValueError (name @ '' preboot CXL decoder proof is missing''))) (\<lambda>_.
     sbind (command_until_prompt io ''cxl list'') (\<lambda>listing.
     sbind (scheck (lacks listing [''41.00.0'', ''Type 3'']) (ValueError (name @ '' cxl list did not report Type 3''))) (\<lambda>_.
     sbind (command_until_prompt io ''cxl info 41.00.0'') (\<lambda>information.
     scheck (lacks information [''41.00.0'', ''0000000010000000'']) (ValueError (name @ '' cxl info is incomplete'')))))))"

definition interrupt_autoboot :: "guest_io \<Rightarrow> unit sess" where
  "interrupt_autoboot io =
     sbind (console_wait io ''Hit any key to stop autoboot'' 0) (\<lambda>_.
     sbind (console_send io []) (\<lambda>_. console_wait io ''=> '' 0))"

definition commit_decoders :: "guest_io \<Rightarrow> string \<Rightarrow> string \<Rightarrow> unit sess" where
  "commit_decoders io name failure =
     sbind (command_until_prompt io ''cxl init'') (\<lambda>initialization.
     scheck (lacks initialization [HOST_DECODER, TYPE3_DECODER]) (ValueError (name @ failure)))"

record boot_evidence =
  be_role :: string
  cxl_list_type3 :: bool
  cxl_info_capacity :: bool
  decoder_committed :: bool
  be_bootargs :: string

definition bi_run_uboot ::
  "guest_io \<Rightarrow> string \<Rightarrow> nat \<Rightarrow> string \<Rightarrow> run_config \<Rightarrow> bool \<Rightarrow> boot_evidence sess" where
  "bi_run_uboot io name image_size role config commit_decoder =
     sbind (interrupt_autoboot io) (\<lambda>_.
     sbind (probe_endpoint io name) (\<lambda>_.
     sbind (if commit_decoder then commit_decoders io name '' cxl init did not commit decoder state'' else sreturn ()) (\<lambda>_.
     case build_bootargs role config of
       Inl e \<Rightarrow> sraise e
     | Inr bootargs \<Rightarrow>
         sbind (command_until_prompt io (quoted_bootargs bootargs)) (\<lambda>_.
         sbind (console_send io (bootefi_line image_size)) (\<lambda>_.
         sreturn \<lparr>be_role = role, cxl_list_type3 = True, cxl_info_capacity = True, decoder_committed = commit_decoder, be_bootargs = bootargs\<rparr>)))))"

definition t3_bootargs :: "int \<Rightarrow> int \<Rightarrow> int \<Rightarrow> int \<Rightarrow> int option \<Rightarrow> string" where
  "t3_bootargs node legofs_port benchmark_bytes client_count barrier_port =
     ''earlycon=sbi console=hvc0 loglevel=6 cxl_core.pmem_as_dax=1 legofs.role=node'' @ show_int node
     @ '' legofs.server_port='' @ show_int legofs_port @ '' legofs.bytes='' @ show_int benchmark_bytes
     @ '' legofs.clients='' @ show_int client_count
     @ (if client_count = 2 then '' legofs.barrier_port='' @ show_int (the barrier_port) else [])"

definition t3_run_uboot ::
  "guest_io \<Rightarrow> nat \<Rightarrow> int \<Rightarrow> int \<Rightarrow> int \<Rightarrow> int \<Rightarrow> int option \<Rightarrow> unit sess" where
  "t3_run_uboot io image_size node legofs_port benchmark_bytes client_count barrier_port =
     (let name = ''node'' @ show_int node
      in if client_count = 2 \<and> (case barrier_port of None \<Rightarrow> True | Some p \<Rightarrow> \<not> (0 < p \<and> p \<le> 65535))
         then sraise (ValueError ''two-client boot requires a valid barrier port'')
         else
         sbind (interrupt_autoboot io) (\<lambda>_.
         sbind (probe_endpoint io name) (\<lambda>_.
         sbind (commit_decoders io name '' cxl init did not reproduce decoder state'') (\<lambda>_.
         sbind (command_until_prompt io
            (quoted_bootargs (t3_bootargs node legofs_port benchmark_bytes client_count barrier_port))) (\<lambda>_.
         console_send io (bootefi_line image_size))))))"

section \<open>What the dialogues keep\<close>

text \<open>
  What the dialogues keep track of: the sent lines, and texts known to be in the output.
  The output only grows.
\<close>

definition progress :: "string list \<Rightarrow> string list \<Rightarrow> session \<Rightarrow> bool" where
  "progress lines proofs s \<longleftrightarrow> map fst (ss_sent s) = lines \<and> (\<forall>p\<in>set proofs. contains p (ss_output s))"

lemma contains_append: "contains p s \<Longrightarrow> contains p (s @ t)"
  unfolding contains_iff by (metis append.assoc)

lemma contains_drop: "contains p (drop n s) \<Longrightarrow> contains p s"
  unfolding contains_iff by (metis append.assoc append_take_drop_id)

lemma progress_observed: "progress lines proofs s \<Longrightarrow> progress lines proofs (observed io s)"
  by (auto simp: progress_def observed_def intro: contains_append)

lemma hoare_output:
  "hoare (progress lines proofs) (console_output io) (\<lambda>out s. progress lines proofs s \<and> out = ss_output s) E"
  by (auto simp: hoare_def console_output_def intro: progress_observed)

lemma hoare_wait:
  "(\<And>s. progress lines proofs s \<Longrightarrow> E s) \<Longrightarrow>
     hoare (progress lines proofs) (console_wait io text start) (\<lambda>_. progress lines proofs) E"
  by (auto simp: hoare_def console_wait_def Let_def intro: progress_observed)

lemma hoare_send:
  "(\<And>s. progress lines proofs s \<Longrightarrow> E s) \<Longrightarrow>
     hoare (progress lines proofs) (console_send io line) (\<lambda>_. progress (lines @ [line]) proofs) E"
proof -
  assume e: "\<And>s. progress lines proofs s \<Longrightarrow> E s"
  have "progress (lines @ [line]) proofs (s\<lparr>ss_sent := ss_sent s @ [(line, ss_output s)]\<rparr>)" if "progress lines proofs s" for s
    using that by (simp add: progress_def)
  then show ?thesis
    by (auto simp: hoare_def console_send_def Let_def split: option.splits intro: progress_observed e)
qed

text \<open>Exceptional ends: the lines sent so far are one of the given lists.\<close>

abbreviation sent_in :: "string list set \<Rightarrow> session \<Rightarrow> bool" where
  "sent_in A s \<equiv> map fst (ss_sent s) \<in> A"

lemma progress_sent: "progress L P s \<Longrightarrow> L \<in> A \<Longrightarrow> sent_in A s"
  by (simp add: progress_def)

lemma hoare_send_last:
  assumes "L \<in> A"
  shows "hoare (progress L P) (console_send io line)
    (\<lambda>_ s. map fst (ss_sent s) = L @ [line] \<and> (\<forall>p\<in>set P. contains p (snd (last (ss_sent s))))) (sent_in A)"
proof -
  have "map fst (ss_sent s) = L \<and> (\<forall>p\<in>set P. contains p (ss_output s))" if "progress L P s" for s
    using that by (simp add: progress_def)
  then show ?thesis
    using assms progress_observed [of L P _ io]
    by (fastforce simp: hoare_def console_send_def Let_def progress_def split: option.splits)
qed

lemma hoare_command:
  assumes "L \<in> A" "L @ [c] \<in> A"
  shows "hoare (progress L P) (command_until_prompt io c)
    (\<lambda>out s. progress (L @ [c]) P s \<and> (\<forall>p. contains p out \<longrightarrow> contains p (ss_output s))) (sent_in A)"
  unfolding command_until_prompt_def
proof (intro hoare_bind)
  show "hoare (progress L P) (console_output io) (\<lambda>_. progress L P) (sent_in A)"
    by (rule hoare_weaken [OF hoare_output]) auto
  show "hoare (progress L P) (console_send io c) (\<lambda>_. progress (L @ [c]) P) (sent_in A)"
    by (rule hoare_send) (rule progress_sent [OF _ assms(1)])
  show "hoare (progress (L @ [c]) P) (console_wait io ''=> '' n) (\<lambda>_. progress (L @ [c]) P) (sent_in A)" for n
    by (rule hoare_wait) (rule progress_sent [OF _ assms(2)])
  show "hoare (progress (L @ [c]) P) (console_output io) (\<lambda>out s. progress (L @ [c]) P s \<and> out = ss_output s) (sent_in A)"
    by (rule hoare_output)
  show "hoare (\<lambda>s. progress (L @ [c]) P s \<and> after = ss_output s) (sreturn (drop n after))
      (\<lambda>out s. progress (L @ [c]) P s \<and> (\<forall>p. contains p out \<longrightarrow> contains p (ss_output s))) (sent_in A)" for after n
    by (rule hoare_return) (auto dest: contains_drop)
qed

lemma hoare_proofs:
  assumes "L \<in> A"
  shows "hoare (\<lambda>s. progress L P s \<and> (\<forall>p. contains p out \<longrightarrow> contains p (ss_output s))) (scheck (lacks out ms) e)
    (\<lambda>_. progress L (P @ ms)) (sent_in A)"
  using assms by (intro hoare_check) (auto simp: progress_def lacks_def list_ex_iff)

lemma hoare_interrupt:
  assumes "[] \<in> A" "[[]] \<in> A"
  shows "hoare (progress [] []) (interrupt_autoboot io) (\<lambda>_. progress [[]] []) (sent_in A)"
  unfolding interrupt_autoboot_def
proof (intro hoare_bind)
  show "hoare (progress [] []) (console_wait io ''Hit any key to stop autoboot'' 0) (\<lambda>_. progress [] []) (sent_in A)"
    by (rule hoare_wait) (rule progress_sent [OF _ assms(1)])
  show "hoare (progress [] []) (console_send io []) (\<lambda>_. progress [[]] []) (sent_in A)"
    using hoare_send [of "[]" "[]" "sent_in A" io "[]"] progress_sent [OF _ assms(1)] by simp
  show "hoare (progress [[]] []) (console_wait io ''=> '' 0) (\<lambda>_. progress [[]] []) (sent_in A)"
    by (rule hoare_wait) (rule progress_sent [OF _ assms(2)])
qed

definition endpoint_proofs :: "string list" where
  "endpoint_proofs = [HOST_DECODER, TYPE3_DECODER] @ [''41.00.0'', ''Type 3''] @ [''41.00.0'', ''0000000010000000'']"

lemma hoare_probe:
  assumes "L \<in> A" "L @ [''cxl list''] \<in> A" "L @ [''cxl list'', ''cxl info 41.00.0''] \<in> A"
  shows "hoare (progress L P) (probe_endpoint io name)
    (\<lambda>_. progress (L @ [''cxl list'', ''cxl info 41.00.0'']) (P @ endpoint_proofs)) (sent_in A)"
  unfolding probe_endpoint_def
proof (intro hoare_bind)
  let ?M = "L @ [''cxl list'']" and ?N = "L @ [''cxl list'', ''cxl info 41.00.0'']"
  let ?P = "P @ [HOST_DECODER, TYPE3_DECODER]" and ?Q = "(P @ [HOST_DECODER, TYPE3_DECODER]) @ [''41.00.0'', ''Type 3'']"
  show "hoare (progress L P) (console_output io)
      (\<lambda>out s. progress L P s \<and> (\<forall>p. contains p out \<longrightarrow> contains p (ss_output s))) (sent_in A)"
    by (rule hoare_weaken [OF hoare_output]) auto
  show "hoare (\<lambda>s. progress L P s \<and> (\<forall>p. contains p out \<longrightarrow> contains p (ss_output s)))
      (scheck (lacks out [HOST_DECODER, TYPE3_DECODER]) e) (\<lambda>_. progress L ?P) (sent_in A)" for out e
    by (rule hoare_proofs [OF assms(1)])
  show "hoare (progress L ?P) (command_until_prompt io ''cxl list'')
      (\<lambda>out s. progress ?M ?P s \<and> (\<forall>p. contains p out \<longrightarrow> contains p (ss_output s))) (sent_in A)"
    by (rule hoare_command [OF assms(1,2)])
  show "hoare (\<lambda>s. progress ?M ?P s \<and> (\<forall>p. contains p out \<longrightarrow> contains p (ss_output s)))
      (scheck (lacks out [''41.00.0'', ''Type 3'']) e) (\<lambda>_. progress ?M ?Q) (sent_in A)" for out e
    by (rule hoare_proofs [OF assms(2)])
  show "hoare (progress ?M ?Q) (command_until_prompt io ''cxl info 41.00.0'')
      (\<lambda>out s. progress ?N ?Q s \<and> (\<forall>p. contains p out \<longrightarrow> contains p (ss_output s))) (sent_in A)"
    using hoare_command [of ?M A "''cxl info 41.00.0''" ?Q io] assms(2,3) by simp
  show "hoare (\<lambda>s. progress ?N ?Q s \<and> (\<forall>p. contains p out \<longrightarrow> contains p (ss_output s)))
      (scheck (lacks out [''41.00.0'', ''0000000010000000'']) e) (\<lambda>_. progress ?N (P @ endpoint_proofs)) (sent_in A)" for out e
    using hoare_proofs [OF assms(3), of ?Q] by (simp add: endpoint_proofs_def)
qed

lemma hoare_commit:
  assumes "L \<in> A" "L @ [''cxl init''] \<in> A"
  shows "hoare (progress L P) (commit_decoders io name failure)
    (\<lambda>_. progress (L @ [''cxl init'']) (P @ [HOST_DECODER, TYPE3_DECODER])) (sent_in A)"
  unfolding commit_decoders_def
  by (rule hoare_bind [OF hoare_command [OF assms]]) (rule hoare_proofs [OF assms(2)])

lemma hoare_bootargs:
  assumes "L \<in> A" "L @ [c] \<in> A"
  shows "hoare (progress L P) (sbind (command_until_prompt io c) (\<lambda>_. console_send io line))
    (\<lambda>_ s. map fst (ss_sent s) = L @ [c, line] \<and> (\<forall>p\<in>set P. contains p (snd (last (ss_sent s))))) (sent_in A)"
proof (rule hoare_bind)
  show "hoare (progress L P) (command_until_prompt io c) (\<lambda>_. progress (L @ [c]) P) (sent_in A)"
    by (rule hoare_weaken [OF hoare_command [OF assms]]) auto
  show "hoare (progress (L @ [c]) P) (console_send io line)
      (\<lambda>_ s. map fst (ss_sent s) = L @ [c, line] \<and> (\<forall>p\<in>set P. contains p (snd (last (ss_sent s))))) (sent_in A)"
    using hoare_send_last [OF assms(2)] by simp
qed

section \<open>Booting requires the decoder proofs\<close>

definition boot_script :: "bool \<Rightarrow> string \<Rightarrow> nat \<Rightarrow> string list" where
  "boot_script commit bootargs image_size =
     [[], ''cxl list'', ''cxl info 41.00.0''] @ (if commit then [''cxl init''] else [])
     @ [quoted_bootargs bootargs, bootefi_line image_size]"

text \<open>No boot command has been sent.\<close>

definition unbooted :: "string list set" where
  "unbooted = {L. \<forall>l\<in>set L. \<not> starts_with l ''bootefi''}"

lemma unbooted_dialogue:
  "[] \<in> unbooted" "[[]] \<in> unbooted" "L \<in> unbooted \<Longrightarrow> L @ [''cxl list''] \<in> unbooted"
  "L \<in> unbooted \<Longrightarrow> L @ [''cxl list'', ''cxl info 41.00.0''] \<in> unbooted" "L \<in> unbooted \<Longrightarrow> L @ [''cxl init''] \<in> unbooted"
  "L \<in> unbooted \<Longrightarrow> L @ [quoted_bootargs b] \<in> unbooted"
  by (simp_all add: unbooted_def starts_with_def quoted_bootargs_def)

lemma bi_run_uboot_hoare:
  "hoare (progress [] []) (bi_run_uboot io name image_size role config commit)
     (\<lambda>ev s. build_bootargs role config = Inr (be_bootargs ev) \<and> decoder_committed ev = commit
        \<and> map fst (ss_sent s) = boot_script commit (be_bootargs ev) image_size
        \<and> (\<forall>p\<in>set endpoint_proofs. contains p (snd (last (ss_sent s))))) (sent_in unbooted)"
  unfolding bi_run_uboot_def
proof (intro hoare_bind)
  let ?L = "[[], ''cxl list'', ''cxl info 41.00.0'']" and ?M = "[[], ''cxl list'', ''cxl info 41.00.0''] @ (if commit then [''cxl init''] else [])"
  have L: "?L \<in> unbooted" using unbooted_dialogue(4) [OF unbooted_dialogue(2)] by simp
  then have M: "?M \<in> unbooted" using unbooted_dialogue(5) [OF L] by simp
  show "hoare (progress [] []) (interrupt_autoboot io) (\<lambda>_. progress [[]] []) (sent_in unbooted)"
    by (rule hoare_interrupt [OF unbooted_dialogue(1,2)])
  show "hoare (progress [[]] []) (probe_endpoint io name) (\<lambda>_. progress ?L endpoint_proofs) (sent_in unbooted)"
    using hoare_probe [OF unbooted_dialogue(2) unbooted_dialogue(3,4) [OF unbooted_dialogue(2)], of "[]"] by simp
  show "hoare (progress ?L endpoint_proofs)
      (if commit then commit_decoders io name '' cxl init did not commit decoder state'' else sreturn ())
      (\<lambda>_. progress ?M endpoint_proofs) (sent_in unbooted)"
  proof (cases commit)
    case True
    have "hoare (progress ?L endpoint_proofs) (commit_decoders io name '' cxl init did not commit decoder state'')
        (\<lambda>_. progress (?L @ [''cxl init'']) endpoint_proofs) (sent_in unbooted)"
      by (rule hoare_weaken [OF hoare_commit [OF L unbooted_dialogue(5) [OF L]]]) (auto simp: progress_def)
    then show ?thesis using True by simp
  qed (simp add: hoare_return)
  show "hoare (progress ?M endpoint_proofs)
      (case build_bootargs role config of Inl e \<Rightarrow> sraise e
       | Inr bootargs \<Rightarrow> sbind (command_until_prompt io (quoted_bootargs bootargs)) (\<lambda>_.
           sbind (console_send io (bootefi_line image_size)) (\<lambda>_.
           sreturn \<lparr>be_role = role, cxl_list_type3 = True, cxl_info_capacity = True, decoder_committed = commit, be_bootargs = bootargs\<rparr>)))
      (\<lambda>ev s. build_bootargs role config = Inr (be_bootargs ev) \<and> decoder_committed ev = commit
        \<and> map fst (ss_sent s) = boot_script commit (be_bootargs ev) image_size
        \<and> (\<forall>p\<in>set endpoint_proofs. contains p (snd (last (ss_sent s))))) (sent_in unbooted)"
  proof (cases "build_bootargs role config")
    case (Inl e)
    then show ?thesis using M by (simp add: hoare_raise progress_sent)
  next
    case (Inr bootargs)
    have "hoare (progress ?M endpoint_proofs)
        (sbind (sbind (command_until_prompt io (quoted_bootargs bootargs)) (\<lambda>_. console_send io (bootefi_line image_size)))
          (\<lambda>_. sreturn \<lparr>be_role = role, cxl_list_type3 = True, cxl_info_capacity = True, decoder_committed = commit, be_bootargs = bootargs\<rparr>))
        (\<lambda>ev s. build_bootargs role config = Inr (be_bootargs ev) \<and> decoder_committed ev = commit
          \<and> map fst (ss_sent s) = boot_script commit (be_bootargs ev) image_size
          \<and> (\<forall>p\<in>set endpoint_proofs. contains p (snd (last (ss_sent s))))) (sent_in unbooted)"
      by (rule hoare_bind [OF hoare_bootargs [OF M unbooted_dialogue(6) [OF M]]], rule hoare_return) (simp add: boot_script_def Inr)
    then show ?thesis by (simp add: Inr sbind_assoc)
  qed
qed

lemma t3_run_uboot_hoare:
  "hoare (progress [] []) (t3_run_uboot io image_size node port nbytes clients barrier)
     (\<lambda>_ s. map fst (ss_sent s) = boot_script True (t3_bootargs node port nbytes clients barrier) image_size
        \<and> (clients = 2 \<longrightarrow> (\<exists>p. barrier = Some p \<and> 0 < p \<and> p \<le> 65535))
        \<and> (\<forall>p\<in>set endpoint_proofs. contains p (snd (last (ss_sent s))))) (sent_in unbooted)"
proof (cases "clients = 2 \<and> (case barrier of None \<Rightarrow> True | Some p \<Rightarrow> \<not> (0 < p \<and> p \<le> 65535))")
  case True
  then show ?thesis by (simp add: t3_run_uboot_def Let_def hoare_raise progress_sent [OF _ unbooted_dialogue(1)])
next
  case False
  let ?L = "[[], ''cxl list'', ''cxl info 41.00.0'']" and ?M = "[[], ''cxl list'', ''cxl info 41.00.0'', ''cxl init'']"
  let ?P = "endpoint_proofs @ [HOST_DECODER, TYPE3_DECODER]"
  have L: "?L \<in> unbooted" using unbooted_dialogue(4) [OF unbooted_dialogue(2)] by simp
  have M: "?M \<in> unbooted" using unbooted_dialogue(5) [OF L] by simp
  let ?b = "t3_bootargs node port nbytes clients barrier"
  have "hoare (progress [] [])
      (sbind (interrupt_autoboot io) (\<lambda>_. sbind (probe_endpoint io (''node'' @ show_int node)) (\<lambda>_.
       sbind (commit_decoders io (''node'' @ show_int node) '' cxl init did not reproduce decoder state'') (\<lambda>_.
       sbind (command_until_prompt io (quoted_bootargs ?b)) (\<lambda>_. console_send io (bootefi_line image_size))))))
      (\<lambda>_ s. map fst (ss_sent s) = ?M @ [quoted_bootargs ?b, bootefi_line image_size]
         \<and> (\<forall>p\<in>set ?P. contains p (snd (last (ss_sent s))))) (sent_in unbooted)"
  proof (intro hoare_bind)
    show "hoare (progress [] []) (interrupt_autoboot io) (\<lambda>_. progress [[]] []) (sent_in unbooted)"
      by (rule hoare_interrupt [OF unbooted_dialogue(1,2)])
    show "hoare (progress [[]] []) (probe_endpoint io (''node'' @ show_int node)) (\<lambda>_. progress ?L endpoint_proofs) (sent_in unbooted)"
      using hoare_probe [OF unbooted_dialogue(2) unbooted_dialogue(3,4) [OF unbooted_dialogue(2)], of "[]"] by simp
    show "hoare (progress ?L endpoint_proofs) (commit_decoders io (''node'' @ show_int node) '' cxl init did not reproduce decoder state'')
        (\<lambda>_. progress ?M ?P) (sent_in unbooted)"
      using hoare_commit [OF L unbooted_dialogue(5) [OF L]] by simp
    show "hoare (progress ?M ?P) (command_until_prompt io (quoted_bootargs ?b)) (\<lambda>_. progress (?M @ [quoted_bootargs ?b]) ?P) (sent_in unbooted)"
      by (rule hoare_weaken [OF hoare_command [OF M unbooted_dialogue(6) [OF M]]]) auto
    show "hoare (progress (?M @ [quoted_bootargs ?b]) ?P) (console_send io (bootefi_line image_size))
        (\<lambda>_ s. map fst (ss_sent s) = ?M @ [quoted_bootargs ?b, bootefi_line image_size]
         \<and> (\<forall>p\<in>set ?P. contains p (snd (last (ss_sent s))))) (sent_in unbooted)"
      using hoare_send_last [OF unbooted_dialogue(6) [OF M, of ?b], of ?P io "bootefi_line image_size"] by simp
  qed
  then show ?thesis
    unfolding t3_run_uboot_def Let_def if_not_P [OF False]
    by (rule hoare_weaken) (use False in \<open>auto simp: boot_script_def split: option.splits\<close>)
qed


definition sample_text :: string where
  "sample_text = ''Hit any key to stop autoboot '' @ HOST_DECODER @ TYPE3_DECODER @ '' => ''"

definition sample_io :: guest_io where
  "sample_io = \<lparr>arrives = (\<lambda>_. sample_text), wait_raises = (\<lambda>_. TimeoutError []), send_raises = (\<lambda>_. None)\<rparr>"

lemma sample_text_markers:
  "contains ''Hit any key to stop autoboot'' sample_text" "contains ''=> '' sample_text" "contains HOST_DECODER sample_text"
  "contains TYPE3_DECODER sample_text" "contains ''41.00.0'' sample_text" "contains ''Type 3'' sample_text"
  "contains ''0000000010000000'' sample_text"
  by code_simp+

lemma sample_command:
  "command_until_prompt sample_io c s = (Inr (sample_text @ sample_text @ sample_text),
     s\<lparr>ss_output := ss_output s @ sample_text @ sample_text @ sample_text @ sample_text,
       ss_sent := ss_sent s @ [(c, ss_output s @ sample_text @ sample_text)], ss_tick := ss_tick s + 4\<rparr>)"
  by (simp add: command_until_prompt_def sbind_def console_output_def console_send_def console_wait_def sreturn_def
      sample_io_def observed_def Let_def contains_append sample_text_markers)

lemma contains_suffix: "contains p t \<Longrightarrow> contains p (s @ t)"
  unfolding contains_iff by (metis append.assoc)

lemma sample_steps:
  "contains m sample_text \<Longrightarrow> n \<le> length (ss_output s) \<Longrightarrow> console_wait sample_io m n s = (Inr (), observed sample_io s)"
  "console_send sample_io l s = (Inr (), (observed sample_io s)\<lparr>ss_sent := ss_sent s @ [(l, ss_output (observed sample_io s))]\<rparr>)"
  "console_output sample_io s = (Inr (ss_output s @ sample_text), observed sample_io s)"
  by (simp_all add: console_wait_def console_send_def console_output_def Let_def observed_def sample_io_def contains_suffix)


end
