(* ===== verification/Manifests.thy ===== *)
theory Manifests
  imports Launch Strict_Json
begin

text \<open>
  Build manifests: \<^verbatim>\<open>load_runtime_manifest\<close> and \<^verbatim>\<open>_backing_metadata\<close> of scripts/cxl_bi_app.py,
  \<^verbatim>\<open>load_runtime_manifest\<close> of scripts/legofs_type3_2node.py, and \<^verbatim>\<open>load_verified_manifest\<close> of
  scripts/run.py. The file system, the hash of a file and the commit that git reports are
  parameters. The theorems say what a loaded manifest guarantees about the files a run is
  about to use.
\<close>

section \<open>The file system as seen by the scripts\<close>

record file_system =
  fs_text :: "path \<Rightarrow> string res"
  fs_is_file :: "path \<Rightarrow> bool"
  fs_size :: "path \<Rightarrow> int"
  fs_executable :: "path \<Rightarrow> bool"
  fs_sha256 :: "path \<Rightarrow> string"
  fs_resolve :: "path \<Rightarrow> path"
  fs_inode :: "path \<Rightarrow> (int \<times> int) res"
  fs_commit :: "path \<Rightarrow> string res"

text \<open>\<^verbatim>\<open>value.get(name)\<close> on a value of any type.\<close>

definition get_default :: "pyval \<Rightarrow> string \<Rightarrow> pyval \<Rightarrow> pyval res" where
  "get_default v name dflt =
     (case v of PDict d \<Rightarrow> Inr (case map_of d name of None \<Rightarrow> dflt | Some w \<Rightarrow> w) | _ \<Rightarrow> Inl AttributeError)"

section \<open>Two-guest experiment\<close>

definition manifest_path :: "file_system \<Rightarrow> path \<Rightarrow> pyval \<Rightarrow> path res" where
  "manifest_path fs base value =
     (case value of
        PStr p \<Rightarrow>
          if p = [] then Inl (ValueError ''manifest artifact path must be a nonempty string'')
          else Inr (fs_resolve fs (if is_absolute p then p else path_join base p))
      | _ \<Rightarrow> Inl (ValueError ''manifest artifact path must be a nonempty string''))"

definition bi_expected :: "bi_paths \<Rightarrow> (string \<times> path \<times> bool) list" where
  "bi_expected paths =
     [(''qemu'', bi_qemu paths, True), (''cxlmemsim_server'', bi_cxlmemsim_server paths, True),
      (''opensbi'', bi_opensbi paths, False), (''u_boot'', bi_u_boot paths, False), (''linux_cxl_bi'', bi_linux paths, False)]"

definition bi_check_artifact :: "file_system \<Rightarrow> path \<Rightarrow> pydict \<Rightarrow> string \<times> path \<times> bool \<Rightarrow> unit res" where
  "bi_check_artifact fs base artifacts = (\<lambda>(name, expected_path, executable).
     case dget artifacts name of
       PDict entry \<Rightarrow>
         rbind (manifest_path fs base (dget entry ''path'')) (\<lambda>actual.
         rbind (rcheck (actual \<noteq> fs_resolve fs expected_path) (ValueError (''manifest path differs for artifact '' @ name))) (\<lambda>_.
         rbind (rcheck (\<not> fs_is_file fs actual \<or> fs_size fs actual = 0)
                  (FileNotFoundError (''runtime artifact is missing: '' @ name))) (\<lambda>_.
         rbind (rcheck (executable \<and> \<not> fs_executable fs actual)
                  (PermissionError (''runtime artifact is not executable: '' @ name))) (\<lambda>_.
         rcheck (dget entry ''sha256'' \<noteq> PStr (fs_sha256 fs actual)) (ValueError (''runtime artifact hash differs for '' @ name))))))
     | _ \<Rightarrow> Inl (ValueError (''build manifest lacks artifact '' @ name)))"

definition bi_load_runtime_manifest :: "file_system \<Rightarrow> bi_paths \<Rightarrow> pydict res" where
  "bi_load_runtime_manifest fs paths =
     rbind (fs_text fs (bi_manifest paths)) (\<lambda>text.
     rbind (strict_json_object text ''build manifest'') (\<lambda>manifest.
     rbind (rcheck (\<not> py_eq (dget manifest ''schema_version'') (PInt 2)) (ValueError ''unsupported build manifest schema'')) (\<lambda>_.
     case dget manifest ''artifacts'' of
       PDict artifacts \<Rightarrow>
         rbind (rforall (bi_check_artifact fs (bi_root paths) artifacts) (bi_expected paths)) (\<lambda>_.
         rbind (rcheck (\<not> fs_is_file fs (bi_topology paths))
                  (FileNotFoundError (''CXLMemSim topology is missing: '' @ bi_topology paths))) (\<lambda>_.
         Inr manifest))
     | _ \<Rightarrow> Inl (ValueError ''build manifest lacks artifacts''))))"

record backing =
  bk_node :: int
  bk_path :: path
  bk_inode :: "int \<times> int"
  bk_size :: int

definition backing_entry :: "file_system \<Rightarrow> bi_paths \<Rightarrow> backing list \<Rightarrow> int \<Rightarrow> backing list res" where
  "backing_entry fs paths entries node =
     (let path = endpoint_memory paths node
      in rbind (fs_inode fs path) (\<lambda>identity.
         rbind (rcheck (identity \<in> set (map bk_inode entries)) (ValueError ''endpoint backing files share an inode'')) (\<lambda>_.
         Inr (entries @ [\<lparr>bk_node = node, bk_path = path, bk_inode = identity, bk_size = fs_size fs path\<rparr>]))))"

definition backing_metadata :: "file_system \<Rightarrow> bi_paths \<Rightarrow> backing list res" where
  "backing_metadata fs paths =
     rbind (rfold (backing_entry fs paths) [] [0, 1]) (\<lambda>entries.
     rbind (rcheck (bk_path (entries ! 0) = bk_path (entries ! 1)) (ValueError ''endpoint backing paths are not distinct'')) (\<lambda>_.
     Inr entries))"

section \<open>Two-node experiment\<close>

definition t3_expected :: "type3_paths \<Rightarrow> (string \<times> path \<times> bool) list" where
  "t3_expected paths =
     [(''qemu'', t3_qemu paths, True), (''opensbi'', t3_opensbi paths, False), (''u_boot'', t3_u_boot paths, False),
      (''linux_legofs'', t3_linux paths, False), (''legofs_disk'', t3_legofs_disk paths, False),
      (''cxlmemsim_server'', t3_cxlmemsim_server paths, True)]"

definition t3_check_artifact :: "file_system \<Rightarrow> string \<times> path \<times> bool \<Rightarrow> unit res" where
  "t3_check_artifact fs = (\<lambda>(name, path, executable).
     rbind (rcheck (\<not> fs_is_file fs path \<or> fs_size fs path = 0) (FileNotFoundError (''missing runtime artifact: '' @ name))) (\<lambda>_.
     rcheck (executable \<and> \<not> fs_executable fs path) (PermissionError (''runtime artifact is not executable: '' @ name))))"

text \<open>\<^verbatim>\<open>pathlib.Path(source.get("path", ""))\<close> relative to the root; the empty path is the root.\<close>

definition source_location :: "path \<Rightarrow> pydict \<Rightarrow> path res" where
  "source_location base source =
     (case map_of source ''path'' of
        None \<Rightarrow> Inr base
      | Some (PStr p) \<Rightarrow> Inr (if p = [] then base else if is_absolute p then p else path_join base p)
      | Some _ \<Rightarrow> Inl TypeError)"

definition t3_load_runtime_manifest :: "file_system \<Rightarrow> type3_paths \<Rightarrow> pyval res" where
  "t3_load_runtime_manifest fs paths =
     rbind (fs_text fs (t3_manifest paths)) (\<lambda>text.
     rbind (json_loads plain_hook text) (\<lambda>manifest.
     rbind (get_of manifest ''schema_version'') (\<lambda>version.
     rbind (rcheck (\<not> py_eq version (PInt 2)) (ValueError ''unsupported build manifest schema'')) (\<lambda>_.
     rbind (rbind (get_default manifest ''sources'' (PDict [])) (\<lambda>sources. get_of sources ''legofs'')) (\<lambda>source.
     case source of
       PDict d \<Rightarrow>
         rbind (source_location (t3_root paths) d) (\<lambda>location.
         rbind (rcheck (fs_resolve fs location \<noteq> fs_resolve fs (path_joins (t3_root paths) [''components'', ''legofs'']))
                  (ValueError ''build manifest LegoFS source is not components/legofs'')) (\<lambda>_.
         rbind (rforall (t3_check_artifact fs) (t3_expected paths)) (\<lambda>_. Inr manifest)))
     | _ \<Rightarrow> Inl (ValueError ''build manifest lacks the LegoFS component source''))))))"

section \<open>Demonstration runner\<close>

record shm_paths =
  sh_qemu_dir :: path
  sh_bios :: path
  sh_uboot :: path
  sh_linux :: path
  sh_disk :: path
  sh_server :: path
  sh_topology :: path
  sh_manifest :: path
  sh_logs :: path
  sh_results :: path

definition default_paths :: "(path \<Rightarrow> path) \<Rightarrow> path \<Rightarrow> shm_paths" where
  "default_paths resolve root0 =
     (let base = resolve root0
      in \<lparr>sh_qemu_dir = path_join base ''out/runtime-bin'',
          sh_bios = path_join base ''out/build/opensbi/platform/generic/firmware/fw_dynamic.bin'',
          sh_uboot = path_join base ''out/build/u-boot/u-boot.bin'',
          sh_linux = path_join base ''out/build/linux/arch/riscv/boot/Image'',
          sh_disk = path_join base ''out/images/cxl-type3-benchmark.ext2'',
          sh_server = path_join base ''out/build/cxlmemsim/cxlmemsim_server'',
          sh_topology = path_join base ''components/cxlmemsim/qemu_integration/topology_simple.txt'',
          sh_manifest = path_join base ''out/results/build-manifest.json'',
          sh_logs = path_join base ''out/logs'',
          sh_results = path_join base ''out/results''\<rparr>)"

definition artifact_paths :: "(path \<Rightarrow> path) \<Rightarrow> shm_paths \<Rightarrow> (string \<times> path) list" where
  "artifact_paths resolve paths =
     [(''qemu'', resolve (path_join (sh_qemu_dir paths) ''qemu-system-riscv64'')), (''opensbi'', resolve (sh_bios paths)),
      (''u_boot'', resolve (sh_uboot paths)), (''linux'', resolve (sh_linux paths)), (''benchmark_disk'', resolve (sh_disk paths)),
      (''guest_benchmark'', resolve (path_join (path_parent (sh_disk paths)) ''cxl_mmap_bench'')),
      (''cxlmemsim_server'', resolve (sh_server paths))]"

definition check_recorded :: "file_system \<Rightarrow> pydict \<Rightarrow> string \<times> path \<Rightarrow> unit res" where
  "check_recorded fs recorded = (\<lambda>(name, path).
     rbind (rcheck (\<not> fs_is_file fs path) (FileNotFoundError (''missing runtime artifact: '' @ path))) (\<lambda>_.
     case dget recorded name of
       PDict entry \<Rightarrow>
         rbind (rcheck (\<not> py_eq (dget entry ''size'') (PInt (fs_size fs path)))
                  (ValueError (''artifact size changed after build: '' @ name))) (\<lambda>_.
         rcheck (dget entry ''sha256'' \<noteq> PStr (fs_sha256 fs path)) (ValueError (''artifact hash changed after build: '' @ name)))
     | _ \<Rightarrow> Inl (ValueError (''build manifest is missing artifact: '' @ name))))"

text \<open>\<^verbatim>\<open>path.parents\<close>: the proper ancestors, the nearest first; at most one per character.\<close>

fun parents_upto :: "nat \<Rightarrow> path \<Rightarrow> path list" where
  "parents_upto 0 p = []"
| "parents_upto (Suc n) p = (let q = path_parent p in if q = p then [] else q # parents_upto n q)"

definition path_parents :: "path \<Rightarrow> path list" where
  "path_parents p = parents_upto (length p + 1) p"

definition load_verified_manifest :: "file_system \<Rightarrow> shm_paths \<Rightarrow> pydict res" where
  "load_verified_manifest fs paths =
     rbind (rcheck (\<not> fs_is_file fs (sh_manifest paths)) (FileNotFoundError (''missing build manifest: '' @ sh_manifest paths))) (\<lambda>_.
     rbind (fs_text fs (sh_manifest paths)) (\<lambda>text.
     rbind (json_loads plain_hook text) (\<lambda>value.
     case value of
       PDict manifest \<Rightarrow>
         rbind (rcheck (\<not> py_eq (dget manifest ''schema_version'') (PInt 1)) (ValueError ''unsupported build manifest schema'')) (\<lambda>_.
         case dget manifest ''artifacts'' of
           PDict recorded \<Rightarrow>
             rbind (rforall (check_recorded fs recorded) (artifact_paths (fs_resolve fs) paths)) (\<lambda>_.
             rbind (if length (path_parents (sh_manifest paths)) \<le> 2 then Inl IndexError
                    else fs_commit fs (path_parents (sh_manifest paths) ! 2)) (\<lambda>head.
             rbind (rcheck (dget manifest ''superproject_commit'' \<noteq> PStr (strip head))
                      (ValueError ''superproject changed after the build manifest'')) (\<lambda>_.
             Inr manifest)))
         | _ \<Rightarrow> Inl (ValueError ''build manifest artifacts are missing''))
     | _ \<Rightarrow> Inl AttributeError)))"

section \<open>What a loaded manifest guarantees\<close>

text \<open>An artifact entry that matches the file system: path, size, permission and hash.\<close>

definition artifact_verified :: "file_system \<Rightarrow> path \<Rightarrow> pydict \<Rightarrow> string \<times> path \<times> bool \<Rightarrow> bool" where
  "artifact_verified fs base artifacts = (\<lambda>(name, path, executable).
     \<exists>entry p. dget artifacts name = PDict entry \<and> dget entry ''path'' = PStr p \<and> p \<noteq> []
       \<and> fs_resolve fs (if is_absolute p then p else path_join base p) = fs_resolve fs path
       \<and> fs_is_file fs (fs_resolve fs path) \<and> fs_size fs (fs_resolve fs path) \<noteq> 0
       \<and> (executable \<longrightarrow> fs_executable fs (fs_resolve fs path))
       \<and> dget entry ''sha256'' = PStr (fs_sha256 fs (fs_resolve fs path)))"

lemma manifest_path_Inr [py_dest]:
  "manifest_path fs base v = Inr q \<longleftrightarrow>
     (\<exists>p. v = PStr p \<and> p \<noteq> [] \<and> q = fs_resolve fs (if is_absolute p then p else path_join base p))"
  by (auto simp: manifest_path_def split: pyval.splits)

lemma bi_check_artifact_Inr: "bi_check_artifact fs base artifacts x = Inr () \<longleftrightarrow> artifact_verified fs base artifacts x"
proof (cases x)
  case (fields name path executable)
  show ?thesis
  proof (cases "dget artifacts name")
    case (PDict entry)
    then show ?thesis unfolding fields bi_check_artifact_def artifact_verified_def
      by (auto simp: rbind_Inr_iff manifest_path_Inr split del: if_split)
  qed (simp_all add: fields bi_check_artifact_def artifact_verified_def)
qed

definition recorded_unchanged :: "file_system \<Rightarrow> pydict \<Rightarrow> string \<times> path \<Rightarrow> bool" where
  "recorded_unchanged fs recorded = (\<lambda>(name, path).
     fs_is_file fs path \<and> (\<exists>entry. dget recorded name = PDict entry \<and> py_eq (dget entry ''size'') (PInt (fs_size fs path))
       \<and> dget entry ''sha256'' = PStr (fs_sha256 fs path)))"

lemma check_recorded_Inr: "check_recorded fs recorded x = Inr () \<longleftrightarrow> recorded_unchanged fs recorded x"
  by (cases x) (auto simp: check_recorded_def recorded_unchanged_def rbind_Inr_iff case_dict_Inr simp del: py_eq_int)

lemma t3_check_artifact_Inr:
  "t3_check_artifact fs (name, path, executable) = Inr () \<longleftrightarrow>
     fs_is_file fs path \<and> fs_size fs path \<noteq> 0 \<and> (executable \<longrightarrow> fs_executable fs path)"
  by (auto simp: t3_check_artifact_def rbind_Inr_iff)


text \<open>The endpoints of the two guests are backed by two different files.\<close>

lemma backing_distinct:
  assumes "backing_metadata fs paths = Inr entries"
  shows "map bk_node entries = [0, 1] \<and> map bk_path entries = [endpoint_memory paths 0, endpoint_memory paths 1]
    \<and> distinct (map bk_path entries) \<and> distinct (map bk_inode entries)
    \<and> map (\<lambda>e. fs_inode fs (bk_path e)) entries = map (Inr \<circ> bk_inode) entries"
  using assms by (auto simp: backing_metadata_def backing_entry_def Let_def rbind_Inr_iff)

end
