(* ===== verification/Shm_Run.thy ===== *)
theory Shm_Run
  imports Boot Manifests Py_Struct
begin

text \<open>
  The demonstration runner scripts/run.py, without its process handling: command lines and
  environment, the header of the shared memory object, the waiting loops, the U-Boot
  dialogue and the validators of the guest's and the server's output. The stop sequences of
  its processes are in Owned_Process, its manifest in Manifests, the whole workflow in
  Shm_Workflow.
\<close>

section \<open>Constants, command lines and environment\<close>

definition SHM_CONNECTED :: string where
  "SHM_CONNECTED = ''CXL Type3: SHM connected to /cxlmemsim_pgas''"

definition GUEST_PASS :: string where
  "GUEST_PASS = ''CXL_QEMU_UBOOT_LINUX_BENCH_PASS''"

definition SHM_ERRORS :: "string list" where
  "SHM_ERRORS = [''Failed to open shared memory'', ''Failed to open SHM'', ''SHM invalid magic'', ''SHM server not ready'',
     ''SHM slot busy timeout'', ''SHM request timeout'']"

definition REQUIRED_GUEST_MARKERS :: "string list" where
  "REQUIRED_GUEST_MARKERS = [''CXL_GUEST_INIT_START'', ''CXL_DISK_PASS'', ''CXL_TOPOLOGY_PASS'', GUEST_PASS]"

definition SHM_MAGIC :: int where "SHM_MAGIC = 0x43584C53484D454D"

definition SHM_VERSION :: int where "SHM_VERSION = 1"

definition SHM_CAPACITY :: int where "SHM_CAPACITY = 268435456"

definition SHM_HEADER_SIZE :: nat where "SHM_HEADER_SIZE = 64"

definition shm_build_qemu_command :: "shm_paths \<Rightarrow> string list" where
  "shm_build_qemu_command paths =
     [''qemu-system-riscv64'', ''-M'', ''sifive_u'', ''-machine'', ''cxl=on'', ''-machine'',
      ''cxl-fmw.0.targets.0=cxl.1,cxl-fmw.0.size=4G,cxl-fmw.0.restrictions=0xe'', ''-smp'', ''5'', ''-m'', ''2G'',
      ''-display'', ''none'', ''-serial'', ''stdio'', ''-monitor'', ''none'', ''-no-reboot'', ''-bios'', sh_bios paths,
      ''-kernel'', sh_uboot paths, ''-device'', ''loader,file='' @ sh_linux paths @ '',addr=0x90000000,force-raw=on'',
      ''-object'', ''memory-backend-ram,id=t3mem,size=256M,share=on'',
      ''-object'', ''memory-backend-ram,id=t3lsa,size=2M,share=on'',
      ''-device'', ''pxb-cxl,bus=pcie.0,bus_nr=64,id=cxl.1,hdm_for_passthrough=on'',
      ''-device'', ''cxl-rp,bus=cxl.1,port=0,id=rp-t3,chassis=0,slot=0'',
      ''-device'', ''cxl-type3,bus=rp-t3,volatile-memdev=t3mem,lsa=t3lsa,id=t3'',
      ''-drive'', ''file='' @ sh_disk paths @ '',if=none,format=raw,readonly=on,id=bench'',
      ''-device'', ''virtio-blk-pci,drive=bench,bus=pcie.0'']"

definition shm_build_qemu_environment :: "shm_paths \<Rightarrow> environ \<Rightarrow> environ" where
  "shm_build_qemu_environment paths environment =
     (let old_path = (case map_of environment ''PATH'' of Some v \<Rightarrow> v | None \<Rightarrow> []);
          path = sh_qemu_dir paths @ (if old_path \<noteq> [] then '':'' @ old_path else [])
      in aset ''CXL_LATENCY_INJECT'' ''0''
           (aset ''CXL_PGAS_SHM'' ''/cxlmemsim_pgas''
             (aset ''CXL_TRANSPORT_MODE'' ''shm'' (aset ''PATH'' path environment))))"

definition server_command :: "(path \<Rightarrow> path) \<Rightarrow> shm_paths \<Rightarrow> string list" where
  "server_command resolve paths =
     [sh_server paths, ''--comm-mode=pgas-shm'', ''--pgas-shm-name=/cxlmemsim_pgas'', ''--capacity=256'',
      ''--default_latency=100'', ''--topology='' @ resolve (sh_topology paths)]"

section \<open>Header of the shared memory object\<close>

record shm_header =
  hd_magic :: int
  hd_version :: int
  hd_num_slots :: int
  hd_server_ready :: int
  hd_flags :: int
  hd_memory_base :: int
  hd_memory_size :: int
  hd_num_cachelines :: int
  hd_metadata_enabled :: int
  hd_entry_size :: int

text \<open>\<^verbatim>\<open>struct.unpack("<QIIIIQQQII8x", data[:64])\<close>: little-endian, without padding between fields.\<close>

definition unpack_header :: "bytes \<Rightarrow> shm_header" where
  "unpack_header data =
     \<lparr>hd_magic = field_at 8 data 0, hd_version = field_at 4 data 8, hd_num_slots = field_at 4 data 12,
      hd_server_ready = field_at 4 data 16, hd_flags = field_at 4 data 20, hd_memory_base = field_at 8 data 24,
      hd_memory_size = field_at 8 data 32, hd_num_cachelines = field_at 8 data 40, hd_metadata_enabled = field_at 4 data 48,
      hd_entry_size = field_at 4 data 52\<rparr>"

definition parse_shm_header :: "bytes \<Rightarrow> shm_header res" where
  "parse_shm_header data =
     (if length data < SHM_HEADER_SIZE
      then Inl (ValueError (''CXLMemSim SHM header is short: '' @ show_nat (length data) @ '' bytes''))
      else let h = unpack_header (take SHM_HEADER_SIZE data)
           in if hd_magic h \<noteq> SHM_MAGIC
              then Inl (ValueError (''CXLMemSim SHM magic is invalid: 0x'' @ hex_nat (nat (hd_magic h))))
              else if hd_version h \<noteq> SHM_VERSION
              then Inl (ValueError (''CXLMemSim SHM version is invalid: '' @ show_int (hd_version h)))
              else if hd_num_slots h = 0 \<or> 64 < hd_num_slots h
              then Inl (ValueError (''CXLMemSim SHM slot count is invalid: '' @ show_int (hd_num_slots h)))
              else if hd_server_ready h \<noteq> 1 then Inl (ValueError ''CXLMemSim SHM server is not ready'')
              else if hd_memory_size h \<noteq> SHM_CAPACITY
              then Inl (ValueError (''CXLMemSim SHM capacity is invalid: '' @ show_int (hd_memory_size h)))
              else Inr h)"

section \<open>Waiting loops\<close>

text \<open>An iteration of \<^verbatim>\<open>wait_for_shm\<close>: the clock, the server's status and the file's content.\<close>

record shm_view =
  sv_now :: pyfloat
  sv_poll :: "int option"
  sv_read :: "bytes res"

fun shm_error_text :: "pyerr \<Rightarrow> string" where
  "shm_error_text (ValueError m) = m"
| "shm_error_text (FileNotFoundError m) = m"
| "shm_error_text _ = []"

fun retried :: "pyerr \<Rightarrow> bool" where
  "retried (FileNotFoundError _) = True"
| "retried e = is_value_error e"

definition shm_attempt :: "shm_view \<Rightarrow> shm_header res" where
  "shm_attempt v = rbind (sv_read v) (\<lambda>data. parse_shm_header (take SHM_HEADER_SIZE data))"

text \<open>\<^verbatim>\<open>last_error\<close> is the error of the preceding iteration, which went on because of it.\<close>

definition shm_step :: "(nat \<Rightarrow> shm_view) \<Rightarrow> pyfloat \<Rightarrow> nat \<Rightarrow> shm_header res option" where
  "shm_step views deadline n =
     (if \<not> float_lt (sv_now (views n)) deadline
      then Some (Inl (TimeoutError (''timed out waiting for CXLMemSim SHM'' @
             (case n of 0 \<Rightarrow> []
              | Suc k \<Rightarrow> (case shm_attempt (views k) of Inl e \<Rightarrow> '': '' @ shm_error_text e | Inr _ \<Rightarrow> [])))))
      else case sv_poll (views n) of
        Some status \<Rightarrow> Some (Inl (RuntimeError (''CXLMemSim exited before SHM became ready: '' @ show_int status)))
      | None \<Rightarrow>
          (case shm_attempt (views n) of
             Inr h \<Rightarrow> Some (Inr h)
           | Inl e \<Rightarrow> if retried e then None else Some (Inl e)))"

definition wait_for_shm :: "(nat \<Rightarrow> shm_view) \<Rightarrow> pyfloat \<Rightarrow> pyfloat \<Rightarrow> shm_header res option" where
  "wait_for_shm views now timeout = poll_until (shm_step views (fadd now timeout)) 0"

text \<open>
  \<^verbatim>\<open>wait_for_shm_removed\<close>: the loop tests existence and the clock; after it the object is
  looked up once more.
\<close>

definition wait_for_shm_removed ::
  "(nat \<Rightarrow> bool) \<Rightarrow> (nat \<Rightarrow> pyfloat) \<Rightarrow> pyfloat \<Rightarrow> pyfloat \<Rightarrow> path \<Rightarrow> unit res option" where
  "wait_for_shm_removed present clock now timeout shm_path =
     map_option (\<lambda>n. if present (Suc n)
                      then Inl (RuntimeError (''harness-owned SHM object remains after cleanup: '' @ shm_path)) else Inr ())
       (poll_until (\<lambda>n. if present n \<and> float_lt (clock n) (fadd now timeout) then None else Some n) 0)"

text \<open>
  \<^verbatim>\<open>Console._read_once\<close>: what the ready descriptors deliver goes to the output and the log;
  the result tells whether there was anything.
\<close>

definition read_once :: "string list \<Rightarrow> string \<times> string \<Rightarrow> bool \<times> string \<times> string" where
  "read_once delivered = (\<lambda>(seen, logged).
     let decoded = map decode_replace (filter (\<lambda>data. data \<noteq> []) delivered)
     in (decoded \<noteq> [], seen @ concat decoded, logged @ concat decoded))"

text \<open>
  \<^verbatim>\<open>Console.wait\<close>: the text at the test of the loop, the clock, the status of QEMU, and the text
  after the last read when QEMU has exited.
\<close>

record shm_wait_view =
  sw_output :: string
  sw_now :: pyfloat
  sw_poll :: "int option"
  sw_final :: string

definition shm_wait_step :: "string \<Rightarrow> nat \<Rightarrow> pyfloat \<Rightarrow> shm_wait_view \<Rightarrow> unit res option" where
  "shm_wait_step text start deadline v =
     (if contains text (drop start (sw_output v)) then Some (Inr ())
      else if expired deadline (sw_now v) then Some (Inl (TimeoutError (''timed out waiting for '' @ quoted_repr text)))
      else case sw_poll v of
        None \<Rightarrow> None
      | Some status \<Rightarrow>
          if contains text (drop start (sw_final v)) then None
          else Some (Inl (RuntimeError (''QEMU exited with '' @ show_int status @ '' while waiting for '' @ quoted_repr text))))"

definition shm_wait :: "(nat \<Rightarrow> shm_wait_view) \<Rightarrow> pyfloat \<Rightarrow> string \<Rightarrow> pyfloat \<Rightarrow> nat \<Rightarrow> unit res option" where
  "shm_wait views now text timeout start = poll_until (\<lambda>n. shm_wait_step text start (fadd now timeout) (views n)) 0"

text \<open>\<^verbatim>\<open>Console.wait_for_exit\<close>: the status of QEMU and the clock.\<close>

definition exit_step :: "pyfloat \<Rightarrow> int option \<times> pyfloat \<Rightarrow> int res option" where
  "exit_step deadline = (\<lambda>(status, now).
     case status of
       Some returncode \<Rightarrow> Some (Inr returncode)
     | None \<Rightarrow> if expired deadline now then Some (Inl (TimeoutError ''timed out waiting for QEMU to exit'')) else None)"

definition wait_for_exit :: "(nat \<Rightarrow> int option \<times> pyfloat) \<Rightarrow> pyfloat \<Rightarrow> pyfloat \<Rightarrow> int res option" where
  "wait_for_exit views now timeout = poll_until (\<lambda>n. exit_step (fadd now timeout) (views n)) 0"

section \<open>Validators\<close>

definition guest_json_line :: "string \<Rightarrow> pydict list res" where
  "guest_json_line line =
     (let stripped = strip line
      in if \<not> starts_with stripped ''CXL_BENCH_JSON '' then Inr []
         else case json_loads plain_hook (drop (length ''CXL_BENCH_JSON '') stripped) of
           Inl e \<Rightarrow> if e = JSONDecodeError then Inr [] else Inl e
         | Inr (PDict candidate) \<Rightarrow> Inr [candidate]
         | Inr _ \<Rightarrow> Inr [])"

definition extract_guest_json :: "string \<Rightarrow> pydict res" where
  "extract_guest_json output =
     rbind (extract_lines guest_json_line (splitlines output)) (\<lambda>matches.
     if length matches \<noteq> 1
     then Inl (ValueError (''expected exactly one guest benchmark JSON object, got '' @ show_nat (length matches)))
     else Inr (hd matches))"

text \<open>\<^verbatim>\<open>isinstance(value, (int, float)) and not value <= 0\<close>: booleans are integers, and no comparison with a NaN holds.\<close>

definition positive_number :: "pyval \<Rightarrow> bool" where
  "positive_number v = (case num_of v of Some x \<Rightarrow> \<not> float_le x (Fin 0) | None \<Rightarrow> False)"

definition check_timings :: "pydict \<Rightarrow> string \<Rightarrow> unit res" where
  "check_timings result name =
     rcheck (case dget result name of PList samples \<Rightarrow> length samples \<noteq> 3 \<or> \<not> list_all positive_number samples | _ \<Rightarrow> True)
       (ValueError (''invalid guest benchmark field: '' @ name))"

definition validate_benchmark :: "pydict \<Rightarrow> unit res" where
  "validate_benchmark result =
     rbind (rcheck (dget result ''status'' \<noteq> PStr ''pass'' \<or> dget result ''verified'' \<noteq> PBool True)
              (ValueError ''guest benchmark did not report verified pass'')) (\<lambda>_.
     rbind (rforall (check_timings result) [''write_seconds'', ''read_seconds'']) (\<lambda>_.
     rforall (\<lambda>name. rcheck (\<not> positive_number (dget result name)) (ValueError (''invalid guest benchmark field: '' @ name)))
       [''write_mib_s_median'', ''read_mib_s_median'', ''random_ns_per_load'']))"

lemma length_lstrip: "length (lstrip s) \<le> length s"
  by (induction s rule: lstrip.induct) auto

text \<open>\<^verbatim>\<open>re.findall(label + r"\s*([0-9]+)", output)\<close>.\<close>

function find_counts :: "string \<Rightarrow> string \<Rightarrow> string list" where
  "find_counts label [] = []"
| "find_counts label (c # cs) =
     (let rest = lstrip (drop (length label) (c # cs)); digits = takeWhile is_digit rest
      in if starts_with (c # cs) label \<and> digits \<noteq> [] then digits # find_counts label (dropWhile is_digit rest)
         else find_counts label cs)"
  by pat_completeness auto
termination
proof (relation "measure (length \<circ> snd)", goal_cases)
  case (2 label c cs rest digits)
  have "dropWhile is_digit rest \<noteq> rest" using 2 by (metis dropWhile_eq_self_iff takeWhile_eq_Nil_iff)
  then have "length (dropWhile is_digit rest) < length rest"
    by (metis length_dropWhile_le le_neq_implies_less dropWhile_eq_drop length_drop diff_is_0_eq' drop0 drop_eq_Nil
        add_diff_cancel_right' takeWhile_dropWhile_id length_append append_Nil list.size(3))
  moreover have "length rest \<le> length (c # cs)"
    using 2(1) length_lstrip [of "drop (length label) (c # cs)"] by simp
  ultimately show ?case by simp
qed simp_all

definition parse_server_counts :: "string \<Rightarrow> (int \<times> int) res" where
  "parse_server_counts output =
     (let reads = find_counts ''Total Reads:'' output; writes = find_counts ''Total Writes:'' output
      in if reads = [] \<or> writes = [] then Inl (ValueError ''CXLMemSim final read/write counters are missing'')
         else let read_count = int (nat_of_digits (last reads)); write_count = int (nat_of_digits (last writes))
              in if read_count \<le> 0 \<or> write_count \<le> 0
                 then Inl (ValueError ''CXLMemSim final read/write counters must both be positive'')
                 else Inr (read_count, write_count))"

definition validate_console :: "string \<Rightarrow> pydict res" where
  "validate_console output =
     rbind (rforall (\<lambda>error. rcheck (contains error output) (ValueError (''QEMU SHM transport error: '' @ error))) SHM_ERRORS) (\<lambda>_.
     rbind (rforall (\<lambda>marker. rcheck (\<not> contains marker output) (ValueError (''missing firmware or QEMU proof: '' @ marker)))
              [HOST_DECODER, TYPE3_DECODER, SHM_CONNECTED]) (\<lambda>_.
     rbind (rforall (\<lambda>marker. rcheck (\<not> contains marker output) (ValueError (''missing guest proof: '' @ marker)))
              REQUIRED_GUEST_MARKERS) (\<lambda>_.
     rbind (extract_guest_json output) (\<lambda>result.
     rbind (validate_benchmark result) (\<lambda>_. Inr result)))))"

section \<open>U-Boot dialogue\<close>

text \<open>
  This runner has no reader thread: only \<^verbatim>\<open>wait\<close> reads from the console, and not when the text
  is there already.
\<close>

definition shm_output :: "string sess" where
  "shm_output s = (Inr (ss_output s), s)"

definition shm_console_wait :: "guest_io \<Rightarrow> string \<Rightarrow> nat \<Rightarrow> unit sess" where
  "shm_console_wait io text start s =
     (if contains text (drop start (ss_output s)) then (Inr (), s) else console_wait io text start s)"

definition shm_send :: "guest_io \<Rightarrow> string \<Rightarrow> unit sess" where
  "shm_send io line s =
     (case send_raises io (ss_tick s) of
        Some e \<Rightarrow> (Inl e, s\<lparr>ss_tick := Suc (ss_tick s)\<rparr>)
      | None \<Rightarrow> (Inr (), s\<lparr>ss_sent := ss_sent s @ [(line, ss_output s)], ss_tick := Suc (ss_tick s)\<rparr>))"

definition run_console_command :: "guest_io \<Rightarrow> string \<Rightarrow> string sess" where
  "run_console_command io command =
     sbind shm_output (\<lambda>before.
     sbind (shm_send io command) (\<lambda>_.
     sbind (shm_console_wait io ''=> '' (length before)) (\<lambda>_.
     sbind shm_output (\<lambda>after. sreturn (drop (length before) after)))))"

definition shm_bootargs :: "int \<Rightarrow> string" where
  "shm_bootargs benchmark_bytes = ''earlycon=sbi console=hvc0 loglevel=4 cxl_bench_bytes='' @ show_int benchmark_bytes"

definition shm_probe :: "guest_io \<Rightarrow> unit sess" where
  "shm_probe io =
     sbind shm_output (\<lambda>output.
     sbind (scheck (lacks output [HOST_DECODER, TYPE3_DECODER]) (ValueError ''preboot U-Boot decoder proof is missing'')) (\<lambda>_.
     sbind (run_console_command io ''cxl list'') (\<lambda>listing.
     sbind (scheck (lacks listing [''41.00.0'', ''Type 3'']) (ValueError ''cxl list did not report the Type 3 endpoint'')) (\<lambda>_.
     sbind (run_console_command io ''cxl info 41.00.0'') (\<lambda>information.
     sbind (scheck (lacks information [''41.00.0'', ''0000000010000000''])
              (ValueError ''cxl info did not report the expected endpoint'')) (\<lambda>_.
     sbind (run_console_command io ''cxl init'') (\<lambda>initialization.
     scheck (lacks initialization [HOST_DECODER, TYPE3_DECODER])
       (ValueError ''second cxl init did not reproduce decoder state''))))))))"

definition shm_boot :: "guest_io \<Rightarrow> nat res \<Rightarrow> unit sess" where
  "shm_boot io image_size =
     sbind (sresult image_size) (\<lambda>size.
     sbind shm_output (\<lambda>before.
     sbind (shm_send io (bootefi_line size)) (\<lambda>_.
     shm_console_wait io GUEST_PASS (length before))))"

definition run_uboot_guest :: "guest_io \<Rightarrow> nat res \<Rightarrow> int \<Rightarrow> pydict sess" where
  "run_uboot_guest io image_size benchmark_bytes =
     sbind (shm_console_wait io ''=> '' 0) (\<lambda>_.
     sbind (shm_probe io) (\<lambda>_.
     sbind (run_console_command io (quoted_bootargs (shm_bootargs benchmark_bytes))) (\<lambda>_.
     sbind (shm_boot io image_size) (\<lambda>_.
     sbind shm_output (\<lambda>output. sresult (validate_console output))))))"

section \<open>Arguments\<close>

definition shm_check_args :: "int \<Rightarrow> int \<Rightarrow> unit res" where
  "shm_check_args benchmark_bytes timeout =
     rbind (rcheck (benchmark_bytes \<le> 0 \<or> benchmark_bytes mod 8 \<noteq> 0 \<or> benchmark_bytes > SHM_CAPACITY)
        (ValueError ''benchmark bytes must be positive, 8-byte aligned, and no larger than 268435456'')) (\<lambda>_.
     rcheck (timeout \<le> 0) (ValueError ''timeout must be positive''))"

section \<open>The header codec\<close>

text \<open>The 56 bytes before the padding, and the headers the runner accepts.\<close>

definition shm_fields :: "shm_header \<Rightarrow> bytes" where
  "shm_fields h =
     le_bytes 8 (hd_magic h) @ le_bytes 4 (hd_version h) @ le_bytes 4 (hd_num_slots h) @ le_bytes 4 (hd_server_ready h)
     @ le_bytes 4 (hd_flags h) @ le_bytes 8 (hd_memory_base h) @ le_bytes 8 (hd_memory_size h)
     @ le_bytes 8 (hd_num_cachelines h) @ le_bytes 4 (hd_metadata_enabled h) @ le_bytes 4 (hd_entry_size h)"

definition shm_header_ok :: "shm_header \<Rightarrow> bool" where
  "shm_header_ok h \<longleftrightarrow>
     hd_magic h = SHM_MAGIC \<and> hd_version h = SHM_VERSION \<and> hd_num_slots h \<in> {1..64} \<and> hd_server_ready h = 1
     \<and> hd_memory_size h = SHM_CAPACITY \<and> hd_flags h \<in> {0..<2 ^ 32} \<and> hd_memory_base h \<in> {0..<2 ^ 64}
     \<and> hd_num_cachelines h \<in> {0..<2 ^ 64} \<and> hd_metadata_enabled h \<in> {0..<2 ^ 32} \<and> hd_entry_size h \<in> {0..<2 ^ 32}"

lemma slice_bytes: "off + n \<le> length data \<Longrightarrow> take n (drop off data) = le_bytes n (field_at n data off)"
  using le_bytes_value [of "take n (drop off data)"] by (simp add: field_at_def)

lemma field_at_take: "off + n \<le> m \<Longrightarrow> field_at n (take m data) off = field_at n data off"
  by (simp add: field_at_def drop_take)

lemma take_fields:
  assumes "64 \<le> length data"
  shows "take 56 data = shm_fields (unpack_header (take 64 data))"
proof -
  have "take 56 data = take 8 data @ take 4 (drop 8 data) @ take 4 (drop 12 data) @ take 4 (drop 16 data) @ take 4 (drop 20 data)
     @ take 8 (drop 24 data) @ take 8 (drop 32 data) @ take 8 (drop 40 data) @ take 4 (drop 48 data) @ take 4 (drop 52 data)"
    using take_add [of 8 48 data] take_add [of 4 44 "drop 8 data"] take_add [of 4 40 "drop 12 data"] take_add [of 4 36 "drop 16 data"]
      take_add [of 4 32 "drop 20 data"] take_add [of 8 24 "drop 24 data"] take_add [of 8 16 "drop 32 data"]
      take_add [of 8 8 "drop 40 data"] take_add [of 4 4 "drop 48 data"] by simp
  then show ?thesis
    using assms slice_bytes [of 0 8 data] by (simp add: shm_fields_def unpack_header_def slice_bytes field_at_take)
qed

lemma unpack_fields:
  assumes "shm_header_ok h"
  shows "unpack_header (shm_fields h @ rest) = h"
proof -
  have pow: "(256::int) ^ 4 = 2 ^ 32" "(256::int) ^ 8 = 2 ^ 64" by simp_all
  show ?thesis
    using assms unfolding shm_header_ok_def unpack_header_def shm_fields_def field_at_def
    by (simp add: le_value_bytes pow SHM_MAGIC_def SHM_VERSION_def SHM_CAPACITY_def)
qed

lemma parse_encoded:
  assumes "shm_header_ok h" "64 \<le> length data" "take 56 data = shm_fields h"
  shows "parse_shm_header data = Inr h"
proof -
  have "take 64 data = shm_fields h @ take 8 (drop 56 data)" using take_add [of 56 8 data] assms by simp
  then have "unpack_header (take 64 data) = h" using unpack_fields assms by simp
  then show ?thesis
    using assms by (auto simp: parse_shm_header_def SHM_HEADER_SIZE_def Let_def shm_header_ok_def)
qed

text \<open>
  (C16) The header codec is exact: a buffer is accepted with header \<open>h\<close> exactly when \<open>h\<close> is a
  header of a ready server (magic, version, capacity, 1 to 64 slots, all fields within their
  width), the buffer is at least 64 bytes long and starts with the little-endian encoding of \<open>h\<close>.
\<close>

theorem shm_header_exact:
  "parse_shm_header data = Inr h \<longleftrightarrow> shm_header_ok h \<and> 64 \<le> length data \<and> take 56 data = shm_fields h"
proof
  let ?u = "unpack_header (take 64 data)"
  assume p: "parse_shm_header data = Inr h"
  then have h: "h = ?u" and len: "64 \<le> length data" and v: "hd_magic h = SHM_MAGIC" "hd_version h = SHM_VERSION"
    "hd_num_slots h \<noteq> 0" "hd_num_slots h \<le> 64" "hd_server_ready h = 1" "hd_memory_size h = SHM_CAPACITY"
    by (auto simp: parse_shm_header_def SHM_HEADER_SIZE_def Let_def split: if_splits)
  have b: "0 \<le> field_at 4 d off" "field_at 4 d off < 2 ^ 32" "0 \<le> field_at 8 d off" "field_at 8 d off < 2 ^ 64" for d off
    using field_at_bounds [of 4 d off] field_at_bounds [of 8 d off] by simp_all
  have "shm_header_ok h"
    using v b unfolding shm_header_ok_def h unpack_header_def by simp (metis b(1) order_le_less zless_imp_add1_zle add_0)
  then show "shm_header_ok h \<and> 64 \<le> length data \<and> take 56 data = shm_fields h" using len take_fields [OF len] h by simp
qed (blast intro: parse_encoded)

section \<open>The loops return\<close>

text \<open>
  Once the deadline has passed every loop of the runner has returned; the header a successful
  wait returns was read from the object while the server was alive.
\<close>

lemma shm_waits_return:
  assumes "\<not> float_lt (sv_now (views n)) (fadd now timeout)"
  shows "\<exists>r. wait_for_shm views now timeout = Some r"
  unfolding wait_for_shm_def by (rule poll_until_returns [of _ n]) (use assms in \<open>simp_all add: shm_step_def\<close>)

lemma shm_removed_returns:
  assumes "\<not> float_lt (clock n) (fadd now timeout)"
  shows "\<exists>r. wait_for_shm_removed present clock now timeout path = Some r"
proof -
  have "\<exists>r. poll_until (\<lambda>n. if present n \<and> float_lt (clock n) (fadd now timeout) then None else Some n) 0 = Some r"
    by (rule poll_until_returns [of _ n]) (use assms in simp_all)
  then show ?thesis by (auto simp: wait_for_shm_removed_def)
qed

lemma shm_wait_returns:
  "expired (fadd now timeout) (sw_now (views n)) \<Longrightarrow> \<exists>r. shm_wait views now text timeout start = Some r"
  "expired (fadd now timeout) (snd (exits n)) \<Longrightarrow> \<exists>r. wait_for_exit exits now timeout = Some r"
  unfolding shm_wait_def wait_for_exit_def
  by (rule poll_until_returns [of _ n]; auto simp: shm_wait_step_def exit_step_def split: prod.splits option.splits)+

lemma shm_ready:
  assumes "wait_for_shm views now timeout = Some (Inr h)"
  shows "\<exists>n data. sv_read (views n) = Inr data \<and> parse_shm_header (take 64 data) = Inr h \<and> sv_poll (views n) = None
    \<and> float_lt (sv_now (views n)) (fadd now timeout)"
proof -
  from poll_until_Some [OF assms [unfolded wait_for_shm_def]] obtain n
    where s: "shm_step views (fadd now timeout) n = Some (Inr h)" by blast
  then have "shm_attempt (views n) = Inr h" "sv_poll (views n) = None" "float_lt (sv_now (views n)) (fadd now timeout)"
    by (auto simp: shm_step_def split: if_splits option.splits sum.splits)
  then show ?thesis by (auto simp: shm_attempt_def rbind_Inr_iff SHM_HEADER_SIZE_def)
qed

lemma shm_removed:
  "wait_for_shm_removed present clock now timeout path = Some (Inr ()) \<Longrightarrow> \<exists>n. \<not> present n"
  by (auto simp: wait_for_shm_removed_def split: if_splits)

section \<open>What the validators accept\<close>

definition verified_benchmark :: "pydict \<Rightarrow> bool" where
  "verified_benchmark r \<longleftrightarrow>
     dget r ''status'' = PStr ''pass'' \<and> dget r ''verified'' = PBool True
     \<and> (\<forall>name\<in>{''write_seconds'', ''read_seconds''}.
          \<exists>a b c. dget r name = PList [a, b, c] \<and> positive_number a \<and> positive_number b \<and> positive_number c)
     \<and> (\<forall>name\<in>{''write_mib_s_median'', ''read_mib_s_median'', ''random_ns_per_load''}. positive_number (dget r name))"

lemma check_timings_Inr:
  "check_timings r name = Inr () \<longleftrightarrow>
     (\<exists>a b c. dget r name = PList [a, b, c] \<and> positive_number a \<and> positive_number b \<and> positive_number c)"
  by (auto simp: check_timings_def numeral_eq_Suc length_Suc_conv split: pyval.splits)

lemma validate_benchmark_Inr: "validate_benchmark r = Inr () \<longleftrightarrow> verified_benchmark r"
  unfolding validate_benchmark_def verified_benchmark_def by (auto simp: rbind_Inr_iff check_timings_Inr)

definition console_verified :: "string \<Rightarrow> pydict \<Rightarrow> bool" where
  "console_verified output r \<longleftrightarrow>
     (\<forall>e\<in>set SHM_ERRORS. \<not> contains e output)
     \<and> (\<forall>m\<in>set ([HOST_DECODER, TYPE3_DECODER, SHM_CONNECTED] @ REQUIRED_GUEST_MARKERS). contains m output)
     \<and> extract_guest_json output = Inr r \<and> verified_benchmark r"

lemma validate_console_Inr: "validate_console output = Inr r \<longleftrightarrow> console_verified output r"
  unfolding validate_console_def console_verified_def
  by (auto simp: rbind_Inr_iff validate_benchmark_Inr simp del: rforall.simps)

lemma parse_server_counts_Inr:
  "parse_server_counts text = Inr (r, w) \<longleftrightarrow>
     find_counts ''Total Reads:'' text \<noteq> [] \<and> find_counts ''Total Writes:'' text \<noteq> []
     \<and> r = int (nat_of_digits (last (find_counts ''Total Reads:'' text)))
     \<and> w = int (nat_of_digits (last (find_counts ''Total Writes:'' text))) \<and> 0 < r \<and> 0 < w"
  by (auto simp: parse_server_counts_def Let_def)

text \<open>A NaN passes as a timing.\<close>

lemma nan_is_positive: "positive_number (PFloat NaN)" "positive_number (PBool True)"
  by (simp_all add: positive_number_def)

section \<open>The dialogue\<close>

lemma hoare_shm_output: "hoare (progress L P) shm_output (\<lambda>out s. progress L P s \<and> out = ss_output s) E"
  by (simp add: hoare_def shm_output_def)

lemma hoare_shm_wait:
  "L \<in> A \<Longrightarrow> hoare (progress L P) (shm_console_wait io marker start) (\<lambda>_. progress L P) (sent_in A)"
proof -
  assume "L \<in> A"
  then have "hoare (progress L P) (console_wait io marker start) (\<lambda>_. progress L P) (sent_in A)"
    by (intro hoare_wait) (rule progress_sent)
  then show ?thesis by (simp add: hoare_def shm_console_wait_def)
qed

lemma hoare_shm_send:
  "L \<in> A \<Longrightarrow> hoare (progress L P) (shm_send io line) (\<lambda>_ s. progress (L @ [line]) P s
     \<and> (\<forall>p\<in>set P. contains p (snd (last (ss_sent s))))) (sent_in A)"
  by (auto simp: hoare_def shm_send_def progress_def split: option.splits)

lemma hoare_shm_command:
  assumes "L \<in> A" "L @ [c] \<in> A"
  shows "hoare (progress L P) (run_console_command io c)
    (\<lambda>out s. progress (L @ [c]) P s \<and> (\<forall>p. contains p out \<longrightarrow> contains p (ss_output s))) (sent_in A)"
  unfolding run_console_command_def
proof (intro hoare_bind)
  show "hoare (progress L P) shm_output (\<lambda>_. progress L P) (sent_in A)"
    by (rule hoare_weaken [OF hoare_shm_output]) auto
  show "hoare (progress L P) (shm_send io c) (\<lambda>_. progress (L @ [c]) P) (sent_in A)"
    by (rule hoare_weaken [OF hoare_shm_send [OF assms(1)]]) auto
  show "hoare (progress (L @ [c]) P) (shm_console_wait io ''=> '' n) (\<lambda>_. progress (L @ [c]) P) (sent_in A)" for n
    by (rule hoare_shm_wait [OF assms(2)])
  show "hoare (progress (L @ [c]) P) shm_output (\<lambda>out s. progress (L @ [c]) P s \<and> out = ss_output s) (sent_in A)"
    by (rule hoare_shm_output)
  show "hoare (\<lambda>s. progress (L @ [c]) P s \<and> after = ss_output s) (sreturn (drop n after))
      (\<lambda>out s. progress (L @ [c]) P s \<and> (\<forall>p. contains p out \<longrightarrow> contains p (ss_output s))) (sent_in A)" for after n
    by (rule hoare_return) (auto dest: contains_drop)
qed

lemma hoare_shm_checked:
  assumes "L \<in> A" "L @ [c] \<in> A"
  shows "hoare (progress L P) (sbind (run_console_command io c) (\<lambda>out. scheck (lacks out ms) (e out)))
    (\<lambda>_. progress (L @ [c]) (P @ ms)) (sent_in A)"
  by (rule hoare_bind [OF hoare_shm_command [OF assms]]) (rule hoare_proofs [OF assms(2)])

definition shm_script :: "int \<Rightarrow> nat \<Rightarrow> string list" where
  "shm_script benchmark_bytes image_size =
     [''cxl list'', ''cxl info 41.00.0'', ''cxl init'', quoted_bootargs (shm_bootargs benchmark_bytes), bootefi_line image_size]"

definition script_prefixes :: "int \<Rightarrow> string list set" where
  "script_prefixes b = {L. \<exists>k n. L = take k (shm_script b n)}"

lemma script_prefix: "take k (shm_script b n) \<in> script_prefixes b"
  by (auto simp: script_prefixes_def)

lemma script_prefix_lists:
  "[] \<in> script_prefixes b" "[''cxl list''] \<in> script_prefixes b" "[''cxl list'', ''cxl info 41.00.0''] \<in> script_prefixes b"
  "[''cxl list'', ''cxl info 41.00.0'', ''cxl init''] \<in> script_prefixes b"
  "[''cxl list'', ''cxl info 41.00.0'', ''cxl init'', quoted_bootargs (shm_bootargs b)] \<in> script_prefixes b"
  "shm_script b n \<in> script_prefixes b"
  using script_prefix [of 0 b 0] script_prefix [of 1 b 0] script_prefix [of 2 b 0] script_prefix [of 3 b 0]
    script_prefix [of 4 b 0] script_prefix [of 5 b n]
  by (simp_all add: shm_script_def)

abbreviation shm_proofs :: "string list" where
  "shm_proofs \<equiv> [HOST_DECODER, TYPE3_DECODER, ''41.00.0'', ''Type 3'', ''41.00.0'', ''0000000010000000'', HOST_DECODER, TYPE3_DECODER]"

lemma hoare_shm_probe:
  "hoare (progress [] []) (shm_probe io) (\<lambda>_. progress [''cxl list'', ''cxl info 41.00.0'', ''cxl init''] shm_proofs)
     (sent_in (script_prefixes b))"
proof -
  let ?A = "script_prefixes b"
  let ?P = "[HOST_DECODER, TYPE3_DECODER]"
  have 0: "hoare (progress [] []) shm_output (\<lambda>out s. progress [] [] s \<and> (\<forall>p. contains p out \<longrightarrow> contains p (ss_output s))) (sent_in ?A)"
    by (rule hoare_weaken [OF hoare_shm_output]) auto
  have 1: "hoare (\<lambda>s. progress [] [] s \<and> (\<forall>p. contains p out \<longrightarrow> contains p (ss_output s))) (scheck (lacks out ?P) e)
      (\<lambda>_. progress [] ?P) (sent_in ?A)" for out e
    using hoare_proofs [OF script_prefix_lists(1), of "[]" out ?P e] by simp
  have 2: "hoare (progress [] ?P) (sbind (run_console_command io ''cxl list'') (\<lambda>out. scheck (lacks out [''41.00.0'', ''Type 3'']) e))
      (\<lambda>_. progress [''cxl list''] (?P @ [''41.00.0'', ''Type 3''])) (sent_in ?A)" for e
    using hoare_shm_checked [of "[]" ?A "''cxl list''" ?P io "[''41.00.0'', ''Type 3'']" "\<lambda>_. e"] by (simp add: script_prefix_lists)
  have 3: "hoare (progress [''cxl list''] Q) (sbind (run_console_command io ''cxl info 41.00.0'')
        (\<lambda>out. scheck (lacks out [''41.00.0'', ''0000000010000000'']) e))
      (\<lambda>_. progress [''cxl list'', ''cxl info 41.00.0''] (Q @ [''41.00.0'', ''0000000010000000''])) (sent_in ?A)" for e Q
    using hoare_shm_checked [of "[''cxl list'']" ?A "''cxl info 41.00.0''" Q io "[''41.00.0'', ''0000000010000000'']" "\<lambda>_. e"]
    by (simp add: script_prefix_lists)
  have 4: "hoare (progress [''cxl list'', ''cxl info 41.00.0''] Q) (sbind (run_console_command io ''cxl init'') (\<lambda>out. scheck (lacks out ?P) e))
      (\<lambda>_. progress [''cxl list'', ''cxl info 41.00.0'', ''cxl init''] (Q @ ?P)) (sent_in ?A)" for e Q
    using hoare_shm_checked [of "[''cxl list'', ''cxl info 41.00.0'']" ?A "''cxl init''" Q io ?P "\<lambda>_. e"]
    by (simp add: script_prefix_lists)
  have "hoare (progress [] []) (sbind shm_output (\<lambda>out. sbind (scheck (lacks out ?P) e0) (\<lambda>_.
      sbind (sbind (run_console_command io ''cxl list'') (\<lambda>out. scheck (lacks out [''41.00.0'', ''Type 3'']) e1)) (\<lambda>_.
      sbind (sbind (run_console_command io ''cxl info 41.00.0'') (\<lambda>out. scheck (lacks out [''41.00.0'', ''0000000010000000'']) e2)) (\<lambda>_.
      sbind (run_console_command io ''cxl init'') (\<lambda>out. scheck (lacks out ?P) e3))))))
      (\<lambda>_. progress [''cxl list'', ''cxl info 41.00.0'', ''cxl init'']
         (((?P @ [''41.00.0'', ''Type 3'']) @ [''41.00.0'', ''0000000010000000'']) @ ?P)) (sent_in ?A)" for e0 e1 e2 e3
    by (rule hoare_bind [OF 0], rule hoare_bind [OF 1], rule hoare_bind [OF 2], rule hoare_bind [OF 3], rule 4)
  then show ?thesis by (simp add: shm_probe_def sbind_assoc)
qed

text \<open>After the boot command only the output changes.\<close>

definition booted :: "string list \<Rightarrow> string list \<Rightarrow> session \<Rightarrow> bool" where
  "booted L P s \<longleftrightarrow> map fst (ss_sent s) = L \<and> (\<forall>p\<in>set P. contains p (snd (last (ss_sent s))))"

lemma hoare_booted_wait:
  assumes "L \<in> A"
  shows "hoare (booted L P) (shm_console_wait io marker start) (\<lambda>_. booted L P) (sent_in A)"
  using assms by (auto simp: hoare_def shm_console_wait_def console_wait_def observed_def booted_def Let_def)

lemma hoare_booted_output: "hoare (booted L P) shm_output (\<lambda>out s. booted L P s \<and> out = ss_output s) E"
  by (simp add: hoare_def shm_output_def)

lemma hoare_shm_boot:
  assumes "L \<in> A" "\<And>n. L @ [bootefi_line n] \<in> A"
  shows "hoare (progress L P) (shm_boot io image_size)
    (\<lambda>_ s. \<exists>n. image_size = Inr n \<and> booted (L @ [bootefi_line n]) P s) (sent_in A)"
proof (cases image_size)
  case (Inl e)
  then show ?thesis using assms(1) by (auto simp: shm_boot_def hoare_def sbind_def sresult_def progress_def)
next
  case (Inr n)
  have "hoare (progress L P) (sbind shm_output (\<lambda>before. sbind (shm_send io (bootefi_line n)) (\<lambda>_.
      shm_console_wait io GUEST_PASS (length before)))) (\<lambda>_. booted (L @ [bootefi_line n]) P) (sent_in A)"
  proof (intro hoare_bind)
    show "hoare (progress L P) shm_output (\<lambda>_. progress L P) (sent_in A)"
      by (rule hoare_weaken [OF hoare_shm_output]) auto
    show "hoare (progress L P) (shm_send io (bootefi_line n)) (\<lambda>_. booted (L @ [bootefi_line n]) P) (sent_in A)"
      by (rule hoare_weaken [OF hoare_shm_send [OF assms(1)]]) (auto simp: booted_def progress_def)
    show "hoare (booted (L @ [bootefi_line n]) P) (shm_console_wait io GUEST_PASS k) (\<lambda>_. booted (L @ [bootefi_line n]) P) (sent_in A)"
      for k by (rule hoare_booted_wait [OF assms(2)])
  qed
  then show ?thesis using Inr by (auto simp: shm_boot_def sbind_def sresult_def hoare_def)
qed

text \<open>
  The guest of the demonstration is booted only after the decoder proofs, and its result is
  what the validators accept of the whole console output.
\<close>

lemma run_uboot_guest_hoare:
  "hoare (progress [] []) (run_uboot_guest io image_size b)
     (\<lambda>r s. (\<exists>n. image_size = Inr n \<and> booted (shm_script b n) shm_proofs s) \<and> console_verified (ss_output s) r)
     (sent_in (script_prefixes b))"
  unfolding run_uboot_guest_def
proof (intro hoare_bind)
  let ?A = "script_prefixes b"
  let ?L = "[''cxl list'', ''cxl info 41.00.0'', ''cxl init'']" and ?M = "[''cxl list'', ''cxl info 41.00.0'', ''cxl init'', quoted_bootargs (shm_bootargs b)]"
  show "hoare (progress [] []) (shm_console_wait io ''=> '' 0) (\<lambda>_. progress [] []) (sent_in ?A)"
    by (rule hoare_shm_wait [OF script_prefix_lists(1)])
  show "hoare (progress [] []) (shm_probe io) (\<lambda>_. progress ?L shm_proofs) (sent_in ?A)" by (rule hoare_shm_probe)
  show "hoare (progress ?L shm_proofs) (run_console_command io (quoted_bootargs (shm_bootargs b))) (\<lambda>_. progress ?M shm_proofs) (sent_in ?A)"
  proof (rule hoare_weaken)
    show "hoare (progress ?L shm_proofs) (run_console_command io (quoted_bootargs (shm_bootargs b)))
        (\<lambda>out s. progress (?L @ [quoted_bootargs (shm_bootargs b)]) shm_proofs s \<and> (\<forall>p. contains p out \<longrightarrow> contains p (ss_output s))) (sent_in ?A)"
      by (rule hoare_shm_command) (simp_all add: script_prefix_lists)
  qed simp_all
  show "hoare (progress ?M shm_proofs) (shm_boot io image_size)
      (\<lambda>_ s. \<exists>n. image_size = Inr n \<and> booted (?M @ [bootefi_line n]) shm_proofs s) (sent_in ?A)"
  proof (rule hoare_shm_boot)
    show "?M @ [bootefi_line n] \<in> ?A" for n using script_prefix_lists(6) [of b n] by (simp add: shm_script_def)
  qed (rule script_prefix_lists)
  show "hoare (\<lambda>s. \<exists>n. image_size = Inr n \<and> booted (?M @ [bootefi_line n]) shm_proofs s) shm_output
      (\<lambda>out s. (\<exists>n. image_size = Inr n \<and> booted (shm_script b n) shm_proofs s) \<and> out = ss_output s) (sent_in ?A)"
    by (simp add: hoare_def shm_output_def shm_script_def)
  show "hoare (\<lambda>s. (\<exists>n. image_size = Inr n \<and> booted (shm_script b n) shm_proofs s) \<and> out = ss_output s) (sresult (validate_console out))
      (\<lambda>r s. (\<exists>n. image_size = Inr n \<and> booted (shm_script b n) shm_proofs s) \<and> console_verified (ss_output s) r) (sent_in ?A)" for out
    by (rule hoare_result) (auto simp: validate_console_Inr booted_def script_prefix_lists)
qed

end
