(* ===== verification/Atomic_Write.thy ===== *)
theory Atomic_Write
  imports Launch Py_State
begin

text \<open>
  The writers of result files: \<^verbatim>\<open>_atomic_write_json\<close> of scripts/cxl_bi_app.py,
  \<^verbatim>\<open>atomic_write_json\<close> of scripts/legofs_type3_2node.py and scripts/write_manifest.py,
  \<^verbatim>\<open>atomic_write_result\<close> of scripts/run.py, and \<^verbatim>\<open>write_atomic\<close> of
  scripts/legofs_evaluation_manifest.py and scripts/legofs_rdwo_closure.py. Every call to
  the operating system may fail, and a failing write may leave part of the text behind. The
  disk remembers every state it went through, so that a crash between two calls is covered.
  The text that \<^verbatim>\<open>json.dump\<close> produces is an argument.
\<close>

section \<open>Disk operations\<close>

record disk_io =
  io_fails :: "nat \<Rightarrow> pyerr option"
  io_torn :: "nat \<Rightarrow> string"

record disk =
  dk_files :: "path \<rightharpoonup> string"
  dk_history :: "(path \<rightharpoonup> string) list"
  dk_tick :: nat

type_synonym 'a on_disk = "(disk, 'a) stm"

definition store :: "(path \<rightharpoonup> string) \<Rightarrow> disk \<Rightarrow> disk" where
  "store files d = d\<lparr>dk_files := files, dk_history := dk_history d @ [files], dk_tick := Suc (dk_tick d)\<rparr>"

text \<open>A call that leaves \<open>failed\<close> behind when it fails and has the result \<open>m\<close> otherwise.\<close>

definition os_call :: "disk_io \<Rightarrow> (nat \<Rightarrow> path \<rightharpoonup> string) \<Rightarrow> (path \<rightharpoonup> string) res \<Rightarrow> unit on_disk" where
  "os_call io failed m d =
     (case io_fails io (dk_tick d) of
        Some e \<Rightarrow> (Inl e, store (failed (dk_tick d)) d)
      | None \<Rightarrow> (case m of Inl e \<Rightarrow> (Inl e, store (dk_files d) d) | Inr files \<Rightarrow> (Inr (), store files d)))"

definition open_write :: "disk_io \<Rightarrow> path \<Rightarrow> unit on_disk" where
  "open_write io p d = os_call io (\<lambda>_. dk_files d) (Inr ((dk_files d)(p \<mapsto> []))) d"

definition append_text :: "disk_io \<Rightarrow> path \<Rightarrow> string \<Rightarrow> unit on_disk" where
  "append_text io p s d =
     (let old = (case dk_files d p of Some t \<Rightarrow> t | None \<Rightarrow> [])
      in os_call io (\<lambda>n. (dk_files d)(p \<mapsto> old @ io_torn io n)) (Inr ((dk_files d)(p \<mapsto> old @ s))) d)"

definition sync :: "disk_io \<Rightarrow> unit on_disk" where
  "sync io d = os_call io (\<lambda>_. dk_files d) (Inr (dk_files d)) d"

definition os_replace :: "disk_io \<Rightarrow> path \<Rightarrow> path \<Rightarrow> unit on_disk" where
  "os_replace io source target d =
     os_call io (\<lambda>_. dk_files d)
       (case dk_files d source of
          None \<Rightarrow> Inl (FileNotFoundError source)
        | Some t \<Rightarrow> Inr ((dk_files d)(target \<mapsto> t, source := None))) d"

text \<open>\<^verbatim>\<open>try: temporary.unlink() except FileNotFoundError: pass\<close>.\<close>

fun is_missing :: "pyerr \<Rightarrow> bool" where
  "is_missing (FileNotFoundError _) = True" | "is_missing _ = False"

definition unlink_if_present :: "disk_io \<Rightarrow> path \<Rightarrow> unit on_disk" where
  "unlink_if_present io p d =
     (case os_call io (\<lambda>_. dk_files d)
             (if dk_files d p = None then Inl (FileNotFoundError p) else Inr ((dk_files d)(p := None))) d of
        (Inl e, d') \<Rightarrow> if is_missing e then (Inr (), d') else (Inl e, d')
      | (Inr _, d') \<Rightarrow> (Inr (), d'))"

text \<open>\<^verbatim>\<open>path.with_name(path.name + ".tmp")\<close>.\<close>

definition temporary_of :: "path \<Rightarrow> path" where
  "temporary_of p = p @ ''.tmp''"

section \<open>The writers\<close>

definition newline :: string where "newline = [CHR 0x0A]"

definition write_temporary :: "disk_io \<Rightarrow> path \<Rightarrow> string \<Rightarrow> unit on_disk" where
  "write_temporary io temporary body =
     sbind (open_write io temporary) (\<lambda>_.
     sbind (append_text io temporary body) (\<lambda>_.
     sbind (append_text io temporary newline) (\<lambda>_.
     sbind (sync io) (\<lambda>_. sync io))))"

definition t3_atomic_write_json :: "disk_io \<Rightarrow> path \<Rightarrow> string \<Rightarrow> unit on_disk" where
  "t3_atomic_write_json io path body =
     sbind (write_temporary io (temporary_of path) body) (\<lambda>_. os_replace io (temporary_of path) path)"

definition bi_atomic_write_json :: "disk_io \<Rightarrow> path \<Rightarrow> string \<Rightarrow> unit on_disk" where
  "bi_atomic_write_json io path body =
     sonerror (sbind (write_temporary io (temporary_of path) body) (\<lambda>_. os_replace io (temporary_of path) path))
       (unlink_if_present io (temporary_of path))"

text \<open>The next two create the directory first.\<close>

definition atomic_write_result :: "disk_io \<Rightarrow> path \<Rightarrow> string \<Rightarrow> unit on_disk" where
  "atomic_write_result io path body =
     sbind (sync io) (\<lambda>_.
     sonerror (sbind (write_temporary io (temporary_of path) body) (\<lambda>_. os_replace io (temporary_of path) path))
       (unlink_if_present io (temporary_of path)))"

definition wm_atomic_write_json :: "disk_io \<Rightarrow> path \<Rightarrow> string \<Rightarrow> unit on_disk" where
  "wm_atomic_write_json io path body =
     sbind (sync io) (\<lambda>_.
     sonerror (sbind (write_temporary io (temporary_of path) body) (\<lambda>_. os_replace io (temporary_of path) path))
       (unlink_if_present io (temporary_of path)))"

text \<open>
  The two writers with a fresh temporary file (\<^verbatim>\<open>mkstemp\<close>, whose choice of a name is the
  argument) remove it in every case; the last one also flushes the directory.
\<close>

definition write_atomic :: "disk_io \<Rightarrow> path \<Rightarrow> path \<Rightarrow> string \<Rightarrow> unit on_disk" where
  "write_atomic io path temporary body =
     sbind (sync io) (\<lambda>_.
     sbind (open_write io temporary) (\<lambda>_.
     sfinally
       (sbind (append_text io temporary body) (\<lambda>_.
        sbind (sync io) (\<lambda>_. sbind (sync io) (\<lambda>_. os_replace io temporary path))))
       (unlink_if_present io temporary)))"

definition rdwo_write_atomic :: "disk_io \<Rightarrow> path \<Rightarrow> path \<Rightarrow> string \<Rightarrow> unit on_disk" where
  "rdwo_write_atomic io path temporary body =
     sbind (sync io) (\<lambda>_.
     sbind (open_write io temporary) (\<lambda>_.
     sfinally
       (sbind (append_text io temporary body) (\<lambda>_.
        sbind (append_text io temporary newline) (\<lambda>_.
        sbind (sync io) (\<lambda>_. sbind (sync io) (\<lambda>_. sbind (os_replace io temporary path) (\<lambda>_.
        sbind (sync io) (\<lambda>_. sfinally (sync io) (sync io))))))))
       (unlink_if_present io temporary)))"

section \<open>The contract of an atomic writer\<close>

text \<open>
  \<open>intact f t p c\<close>: the files \<open>f\<close> except the temporary one are those of \<open>t\<close>, where the target
  may have its new content.
\<close>

definition intact :: "(path \<rightharpoonup> string) \<Rightarrow> (path \<rightharpoonup> string) \<Rightarrow> path \<Rightarrow> path \<Rightarrow> string \<Rightarrow> bool" where
  "intact files before path temporary content \<longleftrightarrow>
     files path \<in> {before path, Some content} \<and> (\<forall>p. p \<noteq> path \<and> p \<noteq> temporary \<longrightarrow> files p = before p)"

definition atomic_outcome :: "disk \<Rightarrow> path \<Rightarrow> path \<Rightarrow> string \<Rightarrow> unit res \<times> disk \<Rightarrow> bool" where
  "atomic_outcome d path temporary content = (\<lambda>(r, d').
     (\<exists>h. dk_history d' = dk_history d @ h \<and> (\<forall>f\<in>set h \<union> {dk_files d'}. intact f (dk_files d) path temporary content))
     \<and> (r = Inr () \<longrightarrow> dk_files d' = (dk_files d)(path \<mapsto> content, temporary := None)))"

locale atomic_writer =
  fixes writer :: "disk_io \<Rightarrow> path \<Rightarrow> path \<Rightarrow> string \<Rightarrow> unit on_disk"
    and content :: "string \<Rightarrow> string"
    and uses :: "path \<Rightarrow> path \<Rightarrow> bool"
  assumes crash_safe:
      "uses path temporary \<Longrightarrow> writer io path temporary body d = (r, d') \<Longrightarrow>
         \<exists>h. dk_history d' = dk_history d @ h \<and> (\<forall>f\<in>set h \<union> {dk_files d'}. intact f (dk_files d) path temporary (content body))"
    and differs: "uses path temporary \<Longrightarrow> path \<noteq> temporary"
    and written:
      "uses path temporary \<Longrightarrow> writer io path temporary body d = (Inr u, d') \<Longrightarrow>
         dk_files d' = (dk_files d)(path \<mapsto> content body, temporary := None)"
begin

text \<open>After a sequence of successful updates the file has the last content.\<close>

lemma update_sequence:
  assumes "uses path temporary"
    and "rfold (\<lambda>d body. case writer io path temporary body d of (r, d') \<Rightarrow> rbind r (\<lambda>_. Inr d')) d bodies = Inr d'"
    and "bodies \<noteq> []"
  shows "dk_files d' = (dk_files d)(path \<mapsto> content (last bodies), temporary := None)"
  using assms(2,3)
proof (induction bodies arbitrary: d)
  case (Cons body bodies)
  from Cons.prems(1) obtain u d1 where w: "writer io path temporary body d = (Inr u, d1)"
    and r: "rfold (\<lambda>d body. case writer io path temporary body d of (r, d') \<Rightarrow> rbind r (\<lambda>_. Inr d')) d1 bodies = Inr d'"
    by (auto simp: rbind_Inr_iff split: prod.splits)
  note d1 = written [OF assms(1) w]
  show ?case
  proof (cases "bodies = []")
    case True
    with r have "d' = d1" by simp
    then show ?thesis by (simp add: True d1 fun_eq_iff)
  next
    case False
    then show ?thesis using Cons.IH [OF r] d1 by (auto simp: fun_eq_iff)
  qed
qed simp

lemma outcome_atomic:
  assumes "uses path temporary"
  shows "atomic_outcome d path temporary (content body) (writer io path temporary body d)"
proof -
  obtain r d' where w: "writer io path temporary body d = (r, d')" by (metis surj_pair)
  have "r = Inr () \<longrightarrow> dk_files d' = (dk_files d)(path \<mapsto> content body, temporary := None)" using written [OF assms] w by blast
  then show ?thesis unfolding atomic_outcome_def w using crash_safe [OF assms w] by simp
qed

text \<open>Every reader sees the old or the complete new content, also after a crash.\<close>

lemma never_partial:
  assumes "uses path temporary" "writer io path temporary body d = (r, d')"
  shows "dk_files d' path \<in> {dk_files d path, Some (content body)}"
  using crash_safe [OF assms] by (auto simp: intact_def)

end

text \<open>Most writers replace the target in their last call: an exception leaves it as it was.\<close>

locale failing_writer = atomic_writer +
  assumes unchanged: "uses path temporary \<Longrightarrow> writer io path temporary body d = (Inl e, d') \<Longrightarrow> dk_files d' path = dk_files d path"
begin

lemma raising_unchanged:
  "uses path temporary \<Longrightarrow> fst (writer io path temporary body d) = Inl e \<Longrightarrow>
     dk_files (snd (writer io path temporary body d)) path = dk_files d path"
  by (metis unchanged prod.collapse)

lemma outcome:
  assumes "uses path temporary" "writer io path temporary body d = (r, d')"
  shows "dk_files d' path = (case r of Inr _ \<Rightarrow> Some (content body) | Inl _ \<Rightarrow> dk_files d path)"
proof (cases r)
  case (Inr u)
  then show ?thesis using written [OF assms(1)] assms(2) Inr differs [OF assms(1)] by simp
next
  case (Inl e)
  then show ?thesis using unchanged [OF assms(1)] assms(2) by simp
qed

end

section \<open>Proof rules for the disk\<close>

definition tracked ::
  "(path \<rightharpoonup> string) \<Rightarrow> (path \<rightharpoonup> string) list \<Rightarrow> path \<Rightarrow> path \<Rightarrow> string \<Rightarrow> (path \<rightharpoonup> string) set \<Rightarrow> disk \<Rightarrow> bool" where
  "tracked B h0 p t c F d \<longleftrightarrow>
     (\<exists>h. dk_history d = h0 @ h \<and> (\<forall>f\<in>set h. intact f B p t c)) \<and> dk_files d \<in> F"

text \<open>The states before the replacement: only the temporary file differs.\<close>

definition unreplaced :: "(path \<rightharpoonup> string) \<Rightarrow> path \<Rightarrow> (path \<rightharpoonup> string) set" where
  "unreplaced B t = {f. \<exists>s. f = B(t := s)}"

lemma intact_temporary [simp]: "p \<noteq> t \<Longrightarrow> intact (B(t := s)) B p t c"
  by (simp add: intact_def)

lemma unreplaced_intact: "f \<in> unreplaced B t \<Longrightarrow> p \<noteq> t \<Longrightarrow> intact f B p t c"
  by (auto simp: unreplaced_def intact_def)

lemma unreplaced_upd [simp]: "B(t := s) \<in> unreplaced B t" "B \<in> unreplaced B t"
  by (auto simp: unreplaced_def) (metis fun_upd_triv)

lemma replaced_intact: "p \<noteq> t \<Longrightarrow> intact (B(p \<mapsto> c, t := None)) B p t c"
  by (auto simp: intact_def)

lemma tracked_store:
  "tracked B h0 p t c F d \<Longrightarrow> f \<in> G \<Longrightarrow> intact f B p t c \<Longrightarrow> tracked B h0 p t c G (store f d)"
  unfolding tracked_def store_def by auto

lemma hoare_os_call:
  assumes "\<And>d n. dk_files d \<in> F \<Longrightarrow> failed d n \<in> X \<and> intact (failed d n) B p t c"
    and "\<And>d. dk_files d \<in> F \<Longrightarrow> case m d of
        Inr f \<Rightarrow> f \<in> G \<and> intact f B p t c | Inl _ \<Rightarrow> dk_files d \<in> X \<and> intact (dk_files d) B p t c"
  shows "hoare (tracked B h0 p t c F) (\<lambda>d. os_call io (failed d) (m d) d) (\<lambda>_. tracked B h0 p t c G) (tracked B h0 p t c X)"
  unfolding hoare_def
proof (intro allI impI)
  fix d assume d: "tracked B h0 p t c F d"
  then have f: "dk_files d \<in> F" by (simp add: tracked_def)
  show "case os_call io (failed d) (m d) d of (Inr x, s') \<Rightarrow> tracked B h0 p t c G s' | (Inl e, s') \<Rightarrow> tracked B h0 p t c X s'"
    using assms(1) [OF f] assms(2) [OF f] tracked_store [OF d]
    by (auto simp: os_call_def split: option.splits sum.splits)
qed

lemma hoare_open:
  assumes "p \<noteq> t"
  shows "hoare (tracked B h0 p t c (unreplaced B t)) (open_write io t) (\<lambda>_. tracked B h0 p t c {B(t \<mapsto> [])}) (tracked B h0 p t c (unreplaced B t))"
proof -
  have "hoare (tracked B h0 p t c (unreplaced B t)) (\<lambda>d. os_call io (\<lambda>_. dk_files d) (Inr ((dk_files d)(t \<mapsto> []))) d)
      (\<lambda>_. tracked B h0 p t c {B(t \<mapsto> [])}) (tracked B h0 p t c (unreplaced B t))"
    by (rule hoare_os_call) (use assms in \<open>auto simp: unreplaced_def\<close>)
  then show ?thesis by (simp add: open_write_def [abs_def])
qed

lemma hoare_append:
  assumes "p \<noteq> t"
  shows "hoare (tracked B h0 p t c {B(t \<mapsto> x)}) (append_text io t s) (\<lambda>_. tracked B h0 p t c {B(t \<mapsto> x @ s)}) (tracked B h0 p t c (unreplaced B t))"
proof -
  have "hoare (tracked B h0 p t c {B(t \<mapsto> x)})
      (\<lambda>d. os_call io (\<lambda>n. (dk_files d)(t \<mapsto> (case dk_files d t of Some u \<Rightarrow> u | None \<Rightarrow> []) @ io_torn io n))
         (Inr ((dk_files d)(t \<mapsto> (case dk_files d t of Some u \<Rightarrow> u | None \<Rightarrow> []) @ s))) d)
      (\<lambda>_. tracked B h0 p t c {B(t \<mapsto> x @ s)}) (tracked B h0 p t c (unreplaced B t))"
    by (rule hoare_os_call) (use assms in simp_all)
  then show ?thesis by (simp add: append_text_def [abs_def] Let_def)
qed

lemma hoare_sync:
  assumes "F \<subseteq> X" "\<forall>f\<in>F. intact f B p t c"
  shows "hoare (tracked B h0 p t c F) (sync io) (\<lambda>_. tracked B h0 p t c F) (tracked B h0 p t c X)"
proof -
  have "hoare (tracked B h0 p t c F) (\<lambda>d. os_call io (\<lambda>_. dk_files d) (Inr (dk_files d)) d)
      (\<lambda>_. tracked B h0 p t c F) (tracked B h0 p t c X)"
    by (rule hoare_os_call) (use assms in auto)
  then show ?thesis by (simp add: sync_def [abs_def])
qed

lemma hoare_replace:
  assumes "p \<noteq> t"
  shows "hoare (tracked B h0 p t c {B(t \<mapsto> c)}) (os_replace io t p)
    (\<lambda>_. tracked B h0 p t c {B(p \<mapsto> c, t := None)}) (tracked B h0 p t c (unreplaced B t))"
proof -
  have eq: "(B(t \<mapsto> c))(p \<mapsto> c, t := None) = B(p \<mapsto> c, t := None)" by auto
  have "hoare (tracked B h0 p t c {B(t \<mapsto> c)})
      (\<lambda>d. os_call io (\<lambda>_. dk_files d) (case dk_files d t of None \<Rightarrow> Inl (FileNotFoundError t)
         | Some u \<Rightarrow> Inr ((dk_files d)(p \<mapsto> u, t := None))) d)
      (\<lambda>_. tracked B h0 p t c {B(p \<mapsto> c, t := None)}) (tracked B h0 p t c (unreplaced B t))"
    by (rule hoare_os_call) (use assms replaced_intact [OF assms] in \<open>simp_all add: eq\<close>)
  then show ?thesis by (simp add: os_replace_def [abs_def])
qed

lemma hoare_unlink:
  assumes "\<forall>f\<in>F. intact f B p t c \<and> f(t := None) \<in> G \<and> intact (f(t := None)) B p t c" and "F \<subseteq> X"
  shows "hoare (tracked B h0 p t c F) (unlink_if_present io t) (\<lambda>_. tracked B h0 p t c (F \<union> G)) (tracked B h0 p t c X)"
proof -
  let ?m = "\<lambda>d. os_call io (\<lambda>_. dk_files d) (if dk_files d t = None then Inl (FileNotFoundError t) else Inr ((dk_files d)(t := None))) d"
  have h: "hoare (tracked B h0 p t c F) ?m (\<lambda>_. tracked B h0 p t c G) (tracked B h0 p t c F)"
    by (rule hoare_os_call) (use assms in auto)
  have widen: "tracked B h0 p t c F d \<Longrightarrow> tracked B h0 p t c (F \<union> G) d \<and> tracked B h0 p t c X d"
    "tracked B h0 p t c G d \<Longrightarrow> tracked B h0 p t c (F \<union> G) d" for d
    using assms(2) by (auto simp: tracked_def)
  show ?thesis
    unfolding hoare_def
  proof (intro allI impI)
    fix d assume "tracked B h0 p t c F d"
    with h have "case ?m d of (Inr x, s') \<Rightarrow> tracked B h0 p t c G s' | (Inl e, s') \<Rightarrow> tracked B h0 p t c F s'" by (simp add: hoare_def)
    then show "case unlink_if_present io t d of (Inr x, s') \<Rightarrow> tracked B h0 p t c (F \<union> G) s' | (Inl e, s') \<Rightarrow> tracked B h0 p t c X s'"
      using widen by (auto simp: unlink_if_present_def split: prod.splits sum.splits)
  qed
qed


section \<open>The writers keep the contract\<close>

text \<open>The outcome of a writer: replaced on success, the target old or new on an exception.\<close>

definition publishes :: "unit on_disk \<Rightarrow> path \<Rightarrow> path \<Rightarrow> string \<Rightarrow> bool" where
  "publishes w p t c \<longleftrightarrow> (\<forall>B h0. hoare (tracked B h0 p t c {B}) w (\<lambda>_. tracked B h0 p t c {B(p \<mapsto> c, t := None)})
     (tracked B h0 p t c (unreplaced B t \<union> {B(p \<mapsto> c, t := None)})))"

definition publishes_or_fails :: "unit on_disk \<Rightarrow> path \<Rightarrow> path \<Rightarrow> string \<Rightarrow> bool" where
  "publishes_or_fails w p t c \<longleftrightarrow> (\<forall>B h0. hoare (tracked B h0 p t c {B}) w (\<lambda>_. tracked B h0 p t c {B(p \<mapsto> c, t := None)})
     (tracked B h0 p t c (unreplaced B t)))"

lemma tracked_mono: "tracked B h0 p t c F d \<Longrightarrow> F \<subseteq> G \<Longrightarrow> tracked B h0 p t c G d"
  by (auto simp: tracked_def)

lemma hoare_start:
  "hoare (tracked B h0 p t c (unreplaced B t)) w Q E \<Longrightarrow> hoare (tracked B h0 p t c {B}) w Q E"
  by (erule hoare_weaken) (auto elim: tracked_mono)

lemma publishes_or_fails_publishes: "publishes_or_fails w p t c \<Longrightarrow> publishes w p t c"
  unfolding publishes_or_fails_def publishes_def
  by (intro allI) (rule hoare_weaken, blast, auto elim: tracked_mono)

lemma tracked_initial: "tracked (dk_files d) (dk_history d) p t c {dk_files d} d"
  by (simp add: tracked_def)

lemma publishes_crash_safe:
  assumes "publishes w p t c" "p \<noteq> t" "w d = (r, d')"
  shows "\<exists>h. dk_history d' = dk_history d @ h \<and> (\<forall>f\<in>set h \<union> {dk_files d'}. intact f (dk_files d) p t c)"
proof -
  let ?B = "dk_files d"
  note h = assms(1) [unfolded publishes_def, rule_format, of ?B "dk_history d"]
  have "tracked ?B (dk_history d) p t c (unreplaced ?B t \<union> {?B(p \<mapsto> c, t := None)}) d'"
  proof (cases r)
    case (Inr u)
    then show ?thesis using hoareD(1) [OF h tracked_initial] assms(3) by (auto elim!: tracked_mono)
  next
    case (Inl e)
    then show ?thesis using hoareD(2) [OF h tracked_initial] assms(3) by simp
  qed
  then show ?thesis using unreplaced_intact [OF _ assms(2)] replaced_intact [OF assms(2)] unfolding tracked_def by auto
qed

lemma publishes_written:
  assumes "publishes w p t c" "w d = (Inr u, d')"
  shows "dk_files d' = (dk_files d)(p \<mapsto> c, t := None)"
  using hoareD(1) [OF assms(1) [unfolded publishes_def, rule_format] tracked_initial assms(2)] by (simp add: tracked_def)

lemma fails_unchanged:
  assumes "publishes_or_fails w p t c" "p \<noteq> t" "w d = (Inl e, d')"
  shows "dk_files d' p = dk_files d p"
  using hoareD(2) [OF assms(1) [unfolded publishes_or_fails_def, rule_format] tracked_initial assms(3)] assms(2)
  by (auto simp: tracked_def unreplaced_def)

lemma hoare_unreplaced_sync:
  "p \<noteq> t \<Longrightarrow> hoare (tracked B h0 p t c (unreplaced B t)) (sync io) (\<lambda>_. tracked B h0 p t c (unreplaced B t)) (tracked B h0 p t c (unreplaced B t))"
  by (rule hoare_sync) (auto intro: unreplaced_intact)

lemma hoare_written_sync:
  "p \<noteq> t \<Longrightarrow> hoare (tracked B h0 p t c {B(t \<mapsto> x)}) (sync io) (\<lambda>_. tracked B h0 p t c {B(t \<mapsto> x)}) (tracked B h0 p t c (unreplaced B t))"
  by (rule hoare_sync) auto

lemma hoare_write_temporary:
  assumes "p \<noteq> t"
  shows "hoare (tracked B h0 p t c (unreplaced B t)) (write_temporary io t body) (\<lambda>_. tracked B h0 p t c {B(t \<mapsto> body @ newline)})
    (tracked B h0 p t c (unreplaced B t))"
  unfolding write_temporary_def
  by (rule hoare_bind [OF hoare_open [OF assms]], rule hoare_bind [OF hoare_append [OF assms]], rule hoare_bind [OF hoare_append [OF assms]],
      rule hoare_bind [OF hoare_written_sync [OF assms]], simp only: append_Nil, rule hoare_written_sync [OF assms])

lemma hoare_publish:
  assumes "p \<noteq> t"
  shows "hoare (tracked B h0 p t (body @ newline) (unreplaced B t)) (sbind (write_temporary io t body) (\<lambda>_. os_replace io t p))
    (\<lambda>_. tracked B h0 p t (body @ newline) {B(p \<mapsto> body @ newline, t := None)}) (tracked B h0 p t (body @ newline) (unreplaced B t))"
  by (rule hoare_bind [OF hoare_write_temporary [OF assms] hoare_replace [OF assms]])

lemma hoare_unlink_unreplaced:
  assumes "p \<noteq> t"
  shows "hoare (tracked B h0 p t c (unreplaced B t)) (unlink_if_present io t) (\<lambda>_. tracked B h0 p t c (unreplaced B t)) (tracked B h0 p t c (unreplaced B t))"
proof -
  have "\<forall>f\<in>unreplaced B t. intact f B p t c \<and> f(t := None) \<in> unreplaced B t \<and> intact (f(t := None)) B p t c"
    using assms by (auto simp: unreplaced_def)
  from hoare_unlink [OF this, of "unreplaced B t"] show ?thesis by simp
qed

lemma hoare_unlink_replaced:
  assumes "p \<noteq> t"
  shows "hoare (tracked B h0 p t c {B(p \<mapsto> c, t := None)}) (unlink_if_present io t) (\<lambda>_. tracked B h0 p t c {B(p \<mapsto> c, t := None)})
    (tracked B h0 p t c (unreplaced B t \<union> {B(p \<mapsto> c, t := None)}))"
  using hoare_unlink [of "{B(p \<mapsto> c, t := None)}" B p t c "{B(p \<mapsto> c, t := None)}"] replaced_intact [OF assms] by simp

lemma hoare_guarded:
  assumes "p \<noteq> t"
  shows "hoare (tracked B h0 p t (body @ newline) (unreplaced B t))
    (sonerror (sbind (write_temporary io t body) (\<lambda>_. os_replace io t p)) (unlink_if_present io t))
    (\<lambda>_. tracked B h0 p t (body @ newline) {B(p \<mapsto> body @ newline, t := None)}) (tracked B h0 p t (body @ newline) (unreplaced B t))"
  by (rule hoare_onerror [OF hoare_publish [OF assms] hoare_unlink_unreplaced [OF assms]])

lemma temporary_differs: "p \<noteq> temporary_of p"
  by (simp add: temporary_of_def)

lemma hoare_guarded_after_mkdir:
  assumes "p \<noteq> t"
  shows "hoare (tracked B h0 p t (body @ newline) (unreplaced B t))
    (sbind (sync io) (\<lambda>_. sonerror (sbind (write_temporary io t body) (\<lambda>_. os_replace io t p)) (unlink_if_present io t)))
    (\<lambda>_. tracked B h0 p t (body @ newline) {B(p \<mapsto> body @ newline, t := None)}) (tracked B h0 p t (body @ newline) (unreplaced B t))"
  by (rule hoare_bind [OF hoare_unreplaced_sync [OF assms] hoare_guarded [OF assms]])

lemma tmp_writers_publish:
  "publishes_or_fails (t3_atomic_write_json io p body) p (temporary_of p) (body @ newline)"
  "publishes_or_fails (bi_atomic_write_json io p body) p (temporary_of p) (body @ newline)"
  "publishes_or_fails (atomic_write_result io p body) p (temporary_of p) (body @ newline)"
  "publishes_or_fails (wm_atomic_write_json io p body) p (temporary_of p) (body @ newline)"
  unfolding publishes_or_fails_def t3_atomic_write_json_def bi_atomic_write_json_def atomic_write_result_def wm_atomic_write_json_def
  by (intro allI hoare_start hoare_publish hoare_guarded hoare_guarded_after_mkdir temporary_differs)+

text \<open>An exception of the last part leaves the old or the new file.\<close>

abbreviation settled :: "(path \<rightharpoonup> string) \<Rightarrow> path \<Rightarrow> path \<Rightarrow> string \<Rightarrow> (path \<rightharpoonup> string) set" where
  "settled B p t c \<equiv> unreplaced B t \<union> {B(p \<mapsto> c, t := None)}"

lemma hoare_settled:
  "hoare P m Q (tracked B h0 p t c (unreplaced B t)) \<Longrightarrow> hoare P m Q (tracked B h0 p t c (settled B p t c))"
  by (erule hoare_weaken) (auto elim: tracked_mono)

lemma hoare_settled_unlink:
  assumes "p \<noteq> t"
  shows "hoare (tracked B h0 p t c (settled B p t c)) (unlink_if_present io t) (\<lambda>_. tracked B h0 p t c (settled B p t c)) (tracked B h0 p t c (settled B p t c))"
proof -
  have "\<forall>f\<in>settled B p t c. intact f B p t c \<and> f(t := None) \<in> settled B p t c \<and> intact (f(t := None)) B p t c"
    using assms replaced_intact [OF assms] by (auto simp: unreplaced_def)
  from hoare_unlink [OF this, of "settled B p t c"] show ?thesis by simp
qed

lemma hoare_with_mkstemp:
  assumes "p \<noteq> t"
    and "hoare (tracked B h0 p t c {B(t \<mapsto> [])}) m (\<lambda>_. tracked B h0 p t c {B(p \<mapsto> c, t := None)}) (tracked B h0 p t c (settled B p t c))"
  shows "hoare (tracked B h0 p t c {B}) (sbind (sync io) (\<lambda>_. sbind (open_write io t) (\<lambda>_. sfinally m (unlink_if_present io t))))
    (\<lambda>_. tracked B h0 p t c {B(p \<mapsto> c, t := None)}) (tracked B h0 p t c (settled B p t c))"
  by (rule hoare_start, rule hoare_bind [OF hoare_settled [OF hoare_unreplaced_sync [OF assms(1)]]],
      rule hoare_bind [OF hoare_settled [OF hoare_open [OF assms(1)]]],
      rule hoare_finally [OF assms(2) hoare_unlink_replaced [OF assms(1)] hoare_settled_unlink [OF assms(1)]])

lemma write_atomic_publishes:
  assumes pt: "p \<noteq> t"
  shows "publishes (write_atomic io p t body) p t body"
  unfolding publishes_def write_atomic_def
proof (intro allI hoare_with_mkstemp [OF pt])
  fix B h0
  show "hoare (tracked B h0 p t body {B(t \<mapsto> [])})
      (sbind (append_text io t body) (\<lambda>_. sbind (sync io) (\<lambda>_. sbind (sync io) (\<lambda>_. os_replace io t p))))
      (\<lambda>_. tracked B h0 p t body {B(p \<mapsto> body, t := None)}) (tracked B h0 p t body (settled B p t body))"
    by (rule hoare_settled, rule hoare_bind [OF hoare_append [OF pt]], rule hoare_bind [OF hoare_written_sync [OF pt]],
        rule hoare_bind [OF hoare_written_sync [OF pt]], simp only: append_Nil, rule hoare_replace [OF pt])
qed

lemma rdwo_write_publishes:
  assumes pt: "p \<noteq> t"
  shows "publishes (rdwo_write_atomic io p t body) p t (body @ newline)"
  unfolding publishes_def rdwo_write_atomic_def
proof (intro allI hoare_with_mkstemp [OF pt])
  fix B h0
  let ?c = "body @ newline"
  have s: "hoare (tracked B h0 p t ?c {B(p \<mapsto> ?c, t := None)}) (sync io) (\<lambda>_. tracked B h0 p t ?c {B(p \<mapsto> ?c, t := None)})
      (tracked B h0 p t ?c (settled B p t ?c))"
    by (rule hoare_sync) (use replaced_intact [OF pt] in auto)
  have n: "hoare (tracked B h0 p t ?c (settled B p t ?c)) (sync io) (\<lambda>_. tracked B h0 p t ?c (settled B p t ?c)) (tracked B h0 p t ?c (settled B p t ?c))"
    by (rule hoare_sync) (use replaced_intact [OF pt] unreplaced_intact [OF _ pt] in auto)
  show "hoare (tracked B h0 p t ?c {B(t \<mapsto> [])})
      (sbind (append_text io t body) (\<lambda>_. sbind (append_text io t newline) (\<lambda>_. sbind (sync io) (\<lambda>_. sbind (sync io) (\<lambda>_.
       sbind (os_replace io t p) (\<lambda>_. sbind (sync io) (\<lambda>_. sfinally (sync io) (sync io))))))))
      (\<lambda>_. tracked B h0 p t ?c {B(p \<mapsto> ?c, t := None)}) (tracked B h0 p t ?c (settled B p t ?c))"
    by (rule hoare_bind [OF hoare_settled [OF hoare_append [OF pt]]], rule hoare_bind [OF hoare_settled [OF hoare_append [OF pt]]],
        rule hoare_bind [OF hoare_settled [OF hoare_written_sync [OF pt]]], rule hoare_bind [OF hoare_settled [OF hoare_written_sync [OF pt]]],
        simp only: append_Nil, rule hoare_bind [OF hoare_settled [OF hoare_replace [OF pt]]], rule hoare_bind [OF s], rule hoare_finally [OF s s n])
qed

section \<open>All six writers implement the contract\<close>

interpretation mkstemp_writer: atomic_writer write_atomic "\<lambda>body. body" "(\<noteq>)"
  by unfold_locales (blast intro: publishes_crash_safe write_atomic_publishes publishes_written)+

interpretation rdwo_writer: atomic_writer rdwo_write_atomic "\<lambda>body. body @ newline" "(\<noteq>)"
  by unfold_locales (blast intro: publishes_crash_safe rdwo_write_publishes publishes_written)+

lemma temporary_writer:
  assumes "\<And>io p body. publishes_or_fails (w io p body) p (temporary_of p) (body @ newline)"
  shows "failing_writer (\<lambda>io path _. w io path) (\<lambda>body. body @ newline) (\<lambda>path temporary. temporary = temporary_of path)"
proof
  fix path temporary io body d r d' u e
  assume t: "temporary = temporary_of path"
  show "path \<noteq> temporary" using temporary_differs t by simp
  show "w io path body d = (r, d') \<Longrightarrow> \<exists>h. dk_history d' = dk_history d @ h
      \<and> (\<forall>f\<in>set h \<union> {dk_files d'}. intact f (dk_files d) path temporary (body @ newline))"
    using publishes_crash_safe [OF publishes_or_fails_publishes [OF assms] temporary_differs] t by blast
  show "w io path body d = (Inr u, d') \<Longrightarrow> dk_files d' = (dk_files d)(path \<mapsto> body @ newline, temporary := None)"
    using publishes_written [OF publishes_or_fails_publishes [OF assms]] t by blast
  show "w io path body d = (Inl e, d') \<Longrightarrow> dk_files d' path = dk_files d path"
    using fails_unchanged [OF assms temporary_differs] t by blast
qed

interpretation t3_writer: failing_writer "\<lambda>io path _. t3_atomic_write_json io path" "\<lambda>body. body @ newline" "\<lambda>path temporary. temporary = temporary_of path"
  by (rule temporary_writer) (rule tmp_writers_publish)

interpretation bi_writer: failing_writer "\<lambda>io path _. bi_atomic_write_json io path" "\<lambda>body. body @ newline" "\<lambda>path temporary. temporary = temporary_of path"
  by (rule temporary_writer) (rule tmp_writers_publish)

interpretation result_writer: failing_writer "\<lambda>io path _. atomic_write_result io path" "\<lambda>body. body @ newline" "\<lambda>path temporary. temporary = temporary_of path"
  by (rule temporary_writer) (rule tmp_writers_publish)

interpretation manifest_writer: failing_writer "\<lambda>io path _. wm_atomic_write_json io path" "\<lambda>body. body @ newline" "\<lambda>path temporary. temporary = temporary_of path"
  by (rule temporary_writer) (rule tmp_writers_publish)

text \<open>
  (C6) No writer publishes a partial file: whatever call fails, and also if the program
  stops between two calls, the target holds its old content or the complete new text and no
  other file but the temporary one changes; after success the new text is there and the
  temporary file is gone; the four writers that replace the file last leave it untouched when
  they raise.
\<close>

theorem atomic_writers:
  assumes "path \<noteq> temporary"
  shows "(\<forall>w\<in>{t3_atomic_write_json, bi_atomic_write_json, atomic_write_result, wm_atomic_write_json}.
      atomic_outcome d path (temporary_of path) (body @ newline) (w io path body d)
      \<and> (\<forall>e. fst (w io path body d) = Inl e \<longrightarrow> dk_files (snd (w io path body d)) path = dk_files d path))
    \<and> atomic_outcome d path temporary body (write_atomic io path temporary body d)
    \<and> atomic_outcome d path temporary (body @ newline) (rdwo_write_atomic io path temporary body d)"
  using t3_writer.outcome_atomic [OF refl, of d path body io] t3_writer.raising_unchanged [OF refl, of io path body d]
    bi_writer.outcome_atomic [OF refl, of d path body io] bi_writer.raising_unchanged [OF refl, of io path body d]
    result_writer.outcome_atomic [OF refl, of d path body io] result_writer.raising_unchanged [OF refl, of io path body d]
    manifest_writer.outcome_atomic [OF refl, of d path body io] manifest_writer.raising_unchanged [OF refl, of io path body d]
    mkstemp_writer.outcome_atomic [of path temporary d body io] rdwo_writer.outcome_atomic [of path temporary d body io] assms
  by blast

definition steady :: disk_io where
  "steady = \<lparr>io_fails = (\<lambda>_. None), io_torn = (\<lambda>_. [])\<rparr>"

definition failing_at :: "nat \<Rightarrow> disk_io" where
  "failing_at k = \<lparr>io_fails = (\<lambda>n. if n = k then Some (OSError ''No space left on device'') else None), io_torn = (\<lambda>_. ''{'')\<rparr>"

definition old_disk :: disk where
  "old_disk = \<lparr>dk_files = [''result.json'' \<mapsto> ''old''], dk_history = [], dk_tick = 0\<rparr>"

lemmas disk_simps = sbind_def sonerror_def sfinally_def write_temporary_def open_write_def append_text_def sync_def os_replace_def
  unlink_if_present_def os_call_def store_def steady_def failing_at_def old_disk_def temporary_of_def Let_def

theorem atomic_writers_witness:
  "fst (write_atomic steady ''result.json'' ''result.json.x.tmp'' ''new'' old_disk) = Inr ()
   \<and> dk_files (snd (write_atomic steady ''result.json'' ''result.json.x.tmp'' ''new'' old_disk)) ''result.json'' = Some ''new''
   \<and> dk_files (snd (bi_atomic_write_json (failing_at 1) ''result.json'' ''new'' old_disk)) ''result.json'' = Some ''old''"
proof -
  have 1: "fst (write_atomic steady ''result.json'' ''result.json.x.tmp'' ''new'' old_disk) = Inr ()"
    by (simp add: write_atomic_def disk_simps)
  have 2: "fst (bi_atomic_write_json (failing_at 1) ''result.json'' ''new'' old_disk) = Inl (OSError ''No space left on device'')"
    by (simp add: bi_atomic_write_json_def disk_simps)
  from atomic_writers [of "''result.json''" "''result.json.x.tmp''" old_disk "''new''" steady]
    atomic_writers [of "''result.json''" "''result.json.x.tmp''" old_disk "''new''" "failing_at 1"] 1 2
  show ?thesis by (auto simp: atomic_outcome_def old_disk_def split: prod.splits)
qed

text \<open>
  Only the writer of the two-node runner leaves its temporary file behind when a write fails;
  the others remove it.
\<close>

lemma t3_leaves_temporary:
  "dk_files (snd (t3_atomic_write_json (failing_at 1) ''result.json'' ''new'' old_disk)) ''result.json.tmp'' = Some ''{''"
  "dk_files (snd (bi_atomic_write_json (failing_at 1) ''result.json'' ''new'' old_disk)) ''result.json.tmp'' = None"
  by (simp_all add: t3_atomic_write_json_def bi_atomic_write_json_def disk_simps)

end
