(* ===== verification/Shm_Workflow.thy ===== *)
theory Shm_Workflow
  imports Shm_Run Owned_Process Atomic_Write
begin

text \<open>
  The workflow of the demonstration runner, \<^verbatim>\<open>execute_workflow\<close> of scripts/run.py: verify the
  manifest, start the server and QEMU, talk to the guest, stop both processes in any case,
  check the counters of the server, and write the result. Everything outside the script
  is in \<open>run_io\<close>. The state holds the Python variables that decide about the clean-up, the
  processes, the console session, the disk, and a log of the process events.
\<close>

section \<open>World and answers\<close>

datatype run_event =
    Server_Started "string list"
  | Server_Stop
  | Qemu_Started "string list" environ
  | Qemu_Close

record run_io =
  ri_fs :: file_system
  ri_environ :: environ
  ri_shm_path :: path
  ri_shm_exists :: bool
  ri_server_spawn :: "pyerr option"
  ri_shm_views :: "nat \<Rightarrow> shm_view"
  ri_shm_now :: pyfloat
  ri_server_os :: os_answers
  ri_qemu_spawn :: "pyerr option"
  ri_guest :: guest_io
  ri_image_size :: "nat res"
  ri_exit_views :: "nat \<Rightarrow> int option \<times> pyfloat"
  ri_exit_now :: pyfloat
  ri_qemu_os :: os_answers
  ri_drain :: "pyerr option"
  ri_present :: "nat \<Rightarrow> bool"
  ri_removal_clock :: "nat \<Rightarrow> pyfloat"
  ri_removal_now :: pyfloat
  ri_server_log :: "string res"
  ri_timestamp :: string
  ri_disk :: disk_io

record run_world =
  rw_events :: "run_event list"
  rw_server_set :: bool
  rw_console_set :: bool
  rw_server :: proc
  rw_qemu :: proc
  rw_session :: session
  rw_disk :: disk

type_synonym 'a run = "(run_world, 'a) stm"

definition note_event :: "run_event \<Rightarrow> unit run" where
  "note_event e = supdate (\<lambda>w. w\<lparr>rw_events := rw_events w @ [e]\<rparr>)"

definition on_server :: "'a act \<Rightarrow> 'a run" where
  "on_server = szoom rw_server (\<lambda>p w. w\<lparr>rw_server := p\<rparr>)"

definition on_qemu :: "'a act \<Rightarrow> 'a run" where
  "on_qemu = szoom rw_qemu (\<lambda>p w. w\<lparr>rw_qemu := p\<rparr>)"

definition on_session :: "'a sess \<Rightarrow> 'a run" where
  "on_session = szoom rw_session (\<lambda>s w. w\<lparr>rw_session := s\<rparr>)"

definition on_the_disk :: "'a on_disk \<Rightarrow> 'a run" where
  "on_the_disk = szoom rw_disk (\<lambda>d w. w\<lparr>rw_disk := d\<rparr>)"

definition raises :: "pyerr option \<Rightarrow> unit res" where
  "raises e = (case e of None \<Rightarrow> Inr () | Some x \<Rightarrow> Inl x)"

text \<open>A loop that never returns has no result; the theorems assume clocks that advance.\<close>

definition poll_result :: "'a res option \<Rightarrow> 'a res" where
  "poll_result r = (case r of Some x \<Rightarrow> x | None \<Rightarrow> Inl OutOfFuel)"

section \<open>Operations\<close>

definition stop_the_server :: "run_io \<Rightarrow> unit run" where
  "stop_the_server io = sbind (note_event Server_Stop) (\<lambda>_. on_server (stop_owned_process (ri_server_os io)))"

definition start_server :: "run_io \<Rightarrow> shm_paths \<Rightarrow> shm_header run" where
  "start_server io paths =
     sbind (scheck (ri_shm_exists io) (FileExistsError (''refusing to reuse existing SHM object: '' @ ri_shm_path io))) (\<lambda>_.
     sbind (sresult (raises (ri_server_spawn io))) (\<lambda>_.
     sbind (note_event (Server_Started (server_command (fs_resolve (ri_fs io)) paths))) (\<lambda>_.
     sonerror (sresult (poll_result (wait_for_shm (ri_shm_views io) (ri_shm_now io) (Fin 30)))) (stop_the_server io))))"

definition finish_qemu :: "run_io \<Rightarrow> string run" where
  "finish_qemu io =
     sbind (on_session (shm_console_wait (ri_guest io) ''reboot: Power down'' 0)) (\<lambda>_.
     case poll_result (wait_for_exit (ri_exit_views io) (ri_exit_now io) (Fin 5)) of
       Inl (TimeoutError _) \<Rightarrow> sbind (on_qemu (console_terminate (ri_qemu_os io))) (\<lambda>_. sreturn ''terminated-by-harness'')
     | Inl e \<Rightarrow> sraise e
     | Inr return_code \<Rightarrow>
         if return_code \<noteq> 0 then sraise (RuntimeError (''QEMU exited with status '' @ show_int return_code))
         else sreturn ''guest-poweroff'')"

text \<open>\<^verbatim>\<open>Console.close\<close>: terminate QEMU, then read what is left; the files are closed in any case.\<close>

definition close_console :: "run_io \<Rightarrow> unit run" where
  "close_console io =
     sbind (note_event Qemu_Close) (\<lambda>_.
     sbind (on_qemu (console_terminate (ri_qemu_os io))) (\<lambda>_. sresult (raises (ri_drain io))))"

definition swhen :: "(run_world \<Rightarrow> bool) \<Rightarrow> unit run \<Rightarrow> unit run" where
  "swhen b m w = (if b w then m w else (Inr (), w))"

definition cleanup :: "run_io \<Rightarrow> unit run" where
  "cleanup io = sbind (swhen rw_console_set (close_console io)) (\<lambda>_. swhen rw_server_set (stop_the_server io))"

definition run_guest :: "run_io \<Rightarrow> shm_paths \<Rightarrow> int \<Rightarrow> (shm_header \<times> pydict) run" where
  "run_guest io paths benchmark_bytes =
     sbind (start_server io paths) (\<lambda>header.
     sbind (supdate (\<lambda>w. w\<lparr>rw_server_set := True\<rparr>)) (\<lambda>_.
     sbind (sresult (raises (ri_qemu_spawn io))) (\<lambda>_.
     sbind (note_event (Qemu_Started (shm_build_qemu_command paths) (shm_build_qemu_environment paths (ri_environ io)))) (\<lambda>_.
     sbind (supdate (\<lambda>w. w\<lparr>rw_console_set := True\<rparr>)) (\<lambda>_.
     sbind (on_session (run_uboot_guest (ri_guest io) (ri_image_size io) benchmark_bytes)) (\<lambda>guest.
     sbind (finish_qemu io) (\<lambda>_. sreturn (header, guest))))))))"

section \<open>Result\<close>

text \<open>\<^verbatim>\<open>f"0x{value:016x}"\<close>.\<close>

definition hex_padded :: "int \<Rightarrow> string" where
  "hex_padded v = ''0x'' @ (let h = hex_nat (nat v) in replicate (16 - length h) CHR ''0'' @ h)"

definition header_json :: "shm_header \<Rightarrow> pydict" where
  "header_json h =
     [(''magic'', PInt (hd_magic h)), (''version'', PInt (hd_version h)), (''num_slots'', PInt (hd_num_slots h)),
      (''server_ready'', PInt (hd_server_ready h)), (''flags'', PInt (hd_flags h)), (''memory_base'', PInt (hd_memory_base h)),
      (''memory_size'', PInt (hd_memory_size h)), (''num_cachelines'', PInt (hd_num_cachelines h)),
      (''metadata_enabled'', PInt (hd_metadata_enabled h)), (''entry_size'', PInt (hd_entry_size h)),
      (''name'', PStr ''/cxlmemsim_pgas''), (''magic_hex'', PStr (hex_padded (hd_magic h)))]"

definition topology_json :: pydict where
  "topology_json =
     [(''machine'', PStr ''sifive_u''), (''endpoint'', PStr ''0000:41:00.0''), (''endpoint_type'', PStr ''CXL Type 3''),
      (''hpa_base'', PStr ''0x1000000000''), (''window_bytes'', PInt 268435456), (''host_decoder_control'', PStr ''0x600''),
      (''endpoint_decoder_control'', PStr ''0x1600''), (''hdm_for_passthrough'', PBool True)]"

definition proofs_json :: pydict where
  "proofs_json = map (\<lambda>name. (name, PBool True))
     [''shm_ready'', ''qemu_shm_connected'', ''uboot_decoder_reinitialized'', ''linux_cxl_topology'', ''guest_bit_exact'',
      ''server_reads_nonzero'', ''server_writes_nonzero'', ''shm_cleaned_up'']"

definition build_result ::
  "string \<Rightarrow> string list \<Rightarrow> environ \<Rightarrow> pydict \<Rightarrow> shm_header \<Rightarrow> pydict \<Rightarrow> int \<Rightarrow> int \<Rightarrow> pydict res" where
  "build_result timestamp command environment manifest header guest read_count write_count =
     rbind (dindex manifest ''superproject_commit'') (\<lambda>commit.
     rbind (dindex manifest ''submodules'') (\<lambda>submodules.
     rbind (dindex manifest ''artifacts'') (\<lambda>artifacts.
     Inr [(''schema_version'', PInt 1), (''timestamp_utc'', PStr timestamp), (''command'', PList (map PStr command)),
          (''environment'', PDict (map (\<lambda>(k, v). (k, PStr v)) environment)), (''superproject_commit'', commit),
          (''submodules'', submodules), (''artifacts'', artifacts), (''shm'', PDict (header_json header)),
          (''topology'', PDict topology_json), (''guest'', PDict guest),
          (''server'', PDict [(''total_reads'', PInt read_count), (''total_writes'', PInt write_count)]),
          (''proofs'', PDict proofs_json), (''latency_injection'', PBool False),
          (''interpretation'', PStr ''QEMU/TCG plus synchronous CXLMemSim software transport; not real CXL hardware performance.'')])))"

definition selected_environment :: "environ \<Rightarrow> environ" where
  "selected_environment environment =
     map (\<lambda>name. (name, the (map_of environment name))) [''CXL_TRANSPORT_MODE'', ''CXL_PGAS_SHM'', ''CXL_LATENCY_INJECT'']"

definition result_path :: "shm_paths \<Rightarrow> path" where
  "result_path paths = path_join (sh_results paths) ''type3-shm-result.json''"

text \<open>The text of the result is that of \<^verbatim>\<open>json.dump\<close>, the argument \<open>dump\<close>.\<close>

definition execute_workflow :: "(pydict \<Rightarrow> string) \<Rightarrow> run_io \<Rightarrow> shm_paths \<Rightarrow> int \<Rightarrow> pydict run" where
  "execute_workflow dump io paths benchmark_bytes =
     sbind (sresult (load_verified_manifest (ri_fs io) paths)) (\<lambda>manifest.
     sbind (sfinally (run_guest io paths benchmark_bytes) (cleanup io)) (\<lambda>(header, guest).
     sbind (sresult (poll_result (wait_for_shm_removed (ri_present io) (ri_removal_clock io) (ri_removal_now io) (Fin 5) (ri_shm_path io)))) (\<lambda>_.
     sbind (sresult (ri_server_log io)) (\<lambda>server_log.
     sbind (sresult (parse_server_counts (decode_replace server_log))) (\<lambda>(read_count, write_count).
     sbind (sresult (build_result (ri_timestamp io) (shm_build_qemu_command paths)
              (selected_environment (shm_build_qemu_environment paths (ri_environ io))) manifest header guest read_count write_count)) (\<lambda>result.
     sbind (on_the_disk (atomic_write_result (ri_disk io) (result_path paths) (dump result))) (\<lambda>_.
     sreturn result)))))))"

section \<open>How far a run got\<close>

definition run_phase :: "disk \<Rightarrow> (session \<Rightarrow> bool) \<Rightarrow> run_event list \<Rightarrow> bool \<Rightarrow> bool \<Rightarrow> run_world \<Rightarrow> bool" where
  "run_phase D J es server console w \<longleftrightarrow>
     rw_events w = es \<and> rw_server_set w = server \<and> rw_console_set w = console \<and> rw_disk w = D \<and> J (rw_session w)"

abbreviation any_session :: "session \<Rightarrow> bool" where
  "any_session \<equiv> \<lambda>_. True"

lemma phase_any: "run_phase D J es b c w \<Longrightarrow> run_phase D any_session es b c w"
  by (simp add: run_phase_def)

lemma phase_keep:
  "hoare (run_phase D J es b c) (on_server m) (\<lambda>_. run_phase D J es b c) (run_phase D J es b c)"
  "hoare (run_phase D J es b c) (on_qemu m') (\<lambda>_. run_phase D J es b c) (run_phase D J es b c)"
  "hoare (run_phase D J es b c) (on_session m'') (\<lambda>_. run_phase D any_session es b c) (run_phase D any_session es b c)"
  unfolding on_server_def on_qemu_def on_session_def hoare_def szoom_def run_phase_def by (auto split: prod.splits sum.splits)

lemma phase_session:
  assumes "hoare J m K any_session"
  shows "hoare (run_phase D J es b c) (on_session m) (\<lambda>x. run_phase D (K x) es b c) (run_phase D any_session es b c)"
  using assms unfolding on_session_def hoare_def szoom_def run_phase_def by (fastforce split: prod.splits sum.splits)

lemma phase_event: "hoare (run_phase D J es b c) (note_event e) (\<lambda>_. run_phase D J (es @ [e]) b c) E"
  unfolding note_event_def by (rule hoare_update) (simp add: run_phase_def)

lemma phase_server_set: "hoare (run_phase D J es b c) (supdate (\<lambda>w. w\<lparr>rw_server_set := True\<rparr>)) (\<lambda>_. run_phase D J es True c) E"
  by (rule hoare_update) (simp add: run_phase_def)

lemma phase_console_set: "hoare (run_phase D J es b c) (supdate (\<lambda>w. w\<lparr>rw_console_set := True\<rparr>)) (\<lambda>_. run_phase D J es b True) E"
  by (rule hoare_update) (simp add: run_phase_def)

text \<open>The events of a run, and the states a run can be left in.\<close>

definition server_event :: "run_io \<Rightarrow> shm_paths \<Rightarrow> run_event" where
  "server_event io paths = Server_Started (server_command (fs_resolve (ri_fs io)) paths)"

definition qemu_event :: "run_io \<Rightarrow> shm_paths \<Rightarrow> run_event" where
  "qemu_event io paths = Qemu_Started (shm_build_qemu_command paths) (shm_build_qemu_environment paths (ri_environ io))"

definition interrupted :: "disk \<Rightarrow> run_event \<Rightarrow> run_event \<Rightarrow> run_world \<Rightarrow> bool" where
  "interrupted D S Q w \<longleftrightarrow>
     run_phase D any_session [] False False w \<or> run_phase D any_session [S, Server_Stop] False False w
     \<or> run_phase D any_session [S] True False w \<or> run_phase D any_session [S, Q] True True w"

definition close_fails :: "run_io \<Rightarrow> bool" where
  "close_fails io \<longleftrightarrow> ri_drain io \<noteq> None \<or> (\<exists>q e. fst (console_terminate (ri_qemu_os io) q) = Inl e)"

definition cleaned :: "run_io \<Rightarrow> disk \<Rightarrow> run_event \<Rightarrow> run_event \<Rightarrow> run_world \<Rightarrow> bool" where
  "cleaned io D S Q w \<longleftrightarrow> rw_disk w = D \<and>
     (rw_events w \<in> {[], [S, Server_Stop], [S, Q, Qemu_Close, Server_Stop]} \<or> rw_events w = [S, Q, Qemu_Close] \<and> close_fails io)"

lemma hoare_stop:
  "hoare (run_phase D J es b c) (stop_the_server io) (\<lambda>_. run_phase D J (es @ [Server_Stop]) b c) (run_phase D J (es @ [Server_Stop]) b c)"
  unfolding stop_the_server_def by (rule hoare_bind [OF phase_event phase_keep(1)])

lemma poll_result_Inr: "poll_result r = Inr x \<longleftrightarrow> r = Some (Inr x)"
  by (auto simp: poll_result_def split: option.splits)

lemma hoare_start_server:
  assumes "S = server_event io paths"
  shows "hoare (run_phase D J [] False False) (start_server io paths)
    (\<lambda>h w. run_phase D J [S] False False w \<and> wait_for_shm (ri_shm_views io) (ri_shm_now io) (Fin 30) = Some (Inr h))
    (interrupted D S Q)"
proof -
  let ?W = "wait_for_shm (ri_shm_views io) (ri_shm_now io) (Fin 30)" and ?P = "run_phase D J [S] False False"
  have wait: "hoare ?P (sonerror (sresult (poll_result ?W)) (stop_the_server io)) (\<lambda>h w. ?P w \<and> ?W = Some (Inr h)) (interrupted D S Q)"
  proof (rule hoare_onerror)
    show "hoare ?P (sresult (poll_result ?W)) (\<lambda>h w. ?P w \<and> ?W = Some (Inr h)) ?P"
      by (rule hoare_result) (simp_all add: poll_result_Inr)
    have "hoare ?P (stop_the_server io) (\<lambda>_. run_phase D J [S, Server_Stop] False False) (run_phase D J [S, Server_Stop] False False)"
      using hoare_stop [of D J "[S]"] by simp
    then show "hoare ?P (stop_the_server io) (\<lambda>_. interrupted D S Q) (interrupted D S Q)"
      by (rule hoare_weaken) (simp_all add: interrupted_def phase_any)
  qed
  have event: "hoare (run_phase D J [] False False) (note_event (server_event io paths)) (\<lambda>_. ?P) (interrupted D S Q)"
    using phase_event [of D J "[]" False False S "interrupted D S Q"] assms by simp
  show ?thesis
    unfolding start_server_def server_event_def [symmetric]
    by (rule hoare_bind [OF hoare_check], simp add: interrupted_def phase_any, assumption,
        rule hoare_bind [OF hoare_result], assumption, simp add: interrupted_def phase_any, rule hoare_bind [OF event wait])
qed

lemma hoare_finish:
  "hoare (run_phase D J es b c) (finish_qemu io) (\<lambda>_. run_phase D any_session es b c) (run_phase D any_session es b c)"
  unfolding finish_qemu_def
proof (rule hoare_bind [OF phase_keep(3)])
  let ?r = "poll_result (wait_for_exit (ri_exit_views io) (ri_exit_now io) (Fin 5))" and ?P = "run_phase D any_session es b c"
  have t: "hoare ?P (sbind (on_qemu (console_terminate (ri_qemu_os io))) (\<lambda>_. sreturn x)) (\<lambda>_. ?P) ?P" for x :: string
    by (rule hoare_bind [OF phase_keep(2)]) (simp add: hoare_return)
  show "hoare ?P (case ?r of
       Inl (TimeoutError _) \<Rightarrow> sbind (on_qemu (console_terminate (ri_qemu_os io))) (\<lambda>_. sreturn ''terminated-by-harness'')
     | Inl e \<Rightarrow> sraise e
     | Inr return_code \<Rightarrow>
         if return_code \<noteq> 0 then sraise (RuntimeError (''QEMU exited with status '' @ show_int return_code))
         else sreturn ''guest-poweroff'') (\<lambda>_. ?P) ?P"
  proof (cases ?r)
    case (Inl e)
    then show ?thesis using t by (cases e) (simp_all add: hoare_raise)
  qed (simp add: hoare_raise hoare_return)
qed

text \<open>What the guest run_phase established.\<close>

definition guest_evidence :: "run_io \<Rightarrow> int \<Rightarrow> shm_header \<Rightarrow> pydict \<Rightarrow> bool" where
  "guest_evidence io b header guest \<longleftrightarrow>
     (\<exists>n data. sv_read (ri_shm_views io n) = Inr data \<and> parse_shm_header (take 64 data) = Inr header)
     \<and> (\<exists>s n. ri_image_size io = Inr n \<and> booted (shm_script b n) shm_proofs s \<and> console_verified (ss_output s) guest)"

lemma hoare_run_guest:
  assumes "S = server_event io paths" "Q = qemu_event io paths"
  shows "hoare (run_phase D (progress [] []) [] False False) (run_guest io paths b)
    (\<lambda>(h, g) w. run_phase D any_session [S, Q] True True w \<and> guest_evidence io b h g) (interrupted D S Q)"
proof -
  let ?J = "progress [] []" and ?W = "\<lambda>h. wait_for_shm (ri_shm_views io) (ri_shm_now io) (Fin 30) = Some (Inr h)"
  let ?G = "\<lambda>g s. (\<exists>n. ri_image_size io = Inr n \<and> booted (shm_script b n) shm_proofs s) \<and> console_verified (ss_output s) g"
  let ?X = "run_phase D any_session [S, Q] True True" and ?I = "interrupted D S Q"
  have int: "?X w \<Longrightarrow> ?I w" "run_phase D any_session [S] True False w \<Longrightarrow> ?I w" for w by (simp_all add: interrupted_def)
  have ready: "\<exists>n data. sv_read (ri_shm_views io n) = Inr data \<and> parse_shm_header (take 64 data) = Inr h" if "?W h" for h
    using shm_ready [OF that] by blast
  have guest: "hoare (run_phase D ?J [S, Q] True True) (on_session (run_uboot_guest (ri_guest io) (ri_image_size io) b))
      (\<lambda>g. run_phase D (?G g) [S, Q] True True) ?I"
    by (rule hoare_weaken [OF phase_session]) (auto intro: int hoare_weaken [OF run_uboot_guest_hoare])
  have finish: "hoare (run_phase D (?G g) [S, Q] True True) (sbind (finish_qemu io) (\<lambda>_. sreturn (h, g)))
      (\<lambda>(h, g) w. ?X w \<and> guest_evidence io b h g) ?I" if w: "?W h" for h g
  proof (rule hoare_assume [where A = "\<exists>s. ?G g s"])
    assume g: "\<exists>s. ?G g s"
    have "hoare (run_phase D (?G g) [S, Q] True True) (finish_qemu io) (\<lambda>_. ?X) ?I"
      by (rule hoare_weaken [OF hoare_finish]) (auto intro: int)
    then show "hoare (run_phase D (?G g) [S, Q] True True) (sbind (finish_qemu io) (\<lambda>_. sreturn (h, g)))
        (\<lambda>(h, g) w. ?X w \<and> guest_evidence io b h g) ?I"
      by (rule hoare_bind) (rule hoare_return, use g ready [OF w] in \<open>auto simp: guest_evidence_def\<close>)
  qed (auto simp: run_phase_def)
  have spawn: "hoare (run_phase D ?J [S] True False) (sresult (raises (ri_qemu_spawn io))) (\<lambda>_. run_phase D ?J [S] True False) ?I"
    by (rule hoare_result) (auto intro: int phase_any)
  have event: "hoare (run_phase D ?J [S] True False) (note_event (qemu_event io paths)) (\<lambda>_. run_phase D ?J [S, Q] True False) ?I"
    using phase_event [of D ?J "[S]" True False Q ?I] assms by simp
  have rest: "hoare (\<lambda>w. run_phase D ?J [S] False False w \<and> ?W h)
      (sbind (supdate (\<lambda>w. w\<lparr>rw_server_set := True\<rparr>)) (\<lambda>_. sbind (sresult (raises (ri_qemu_spawn io))) (\<lambda>_.
       sbind (note_event (qemu_event io paths)) (\<lambda>_. sbind (supdate (\<lambda>w. w\<lparr>rw_console_set := True\<rparr>)) (\<lambda>_.
       sbind (on_session (run_uboot_guest (ri_guest io) (ri_image_size io) b)) (\<lambda>g.
       sbind (finish_qemu io) (\<lambda>_. sreturn (h, g)))))))) (\<lambda>(h, g) w. ?X w \<and> guest_evidence io b h g) ?I" for h
  proof (rule hoare_assume [where A = "?W h"])
    assume w: "?W h"
    have start: "hoare (\<lambda>w. run_phase D ?J [S] False False w \<and> ?W h) (supdate (\<lambda>w. w\<lparr>rw_server_set := True\<rparr>)) (\<lambda>_. run_phase D ?J [S] True False) ?I"
      by (rule hoare_weaken [OF phase_server_set]) auto
    show "hoare (\<lambda>w. run_phase D ?J [S] False False w \<and> ?W h)
      (sbind (supdate (\<lambda>w. w\<lparr>rw_server_set := True\<rparr>)) (\<lambda>_. sbind (sresult (raises (ri_qemu_spawn io))) (\<lambda>_.
       sbind (note_event (qemu_event io paths)) (\<lambda>_. sbind (supdate (\<lambda>w. w\<lparr>rw_console_set := True\<rparr>)) (\<lambda>_.
       sbind (on_session (run_uboot_guest (ri_guest io) (ri_image_size io) b)) (\<lambda>g.
       sbind (finish_qemu io) (\<lambda>_. sreturn (h, g)))))))) (\<lambda>(h, g) w. ?X w \<and> guest_evidence io b h g) ?I"
      by (rule hoare_bind [OF start], rule hoare_bind [OF spawn], rule hoare_bind [OF event], rule hoare_bind [OF phase_console_set],
          rule hoare_bind [OF guest], rule finish [OF w])
  qed simp
  show ?thesis
    unfolding run_guest_def qemu_event_def [symmetric]
    by (rule hoare_bind [OF hoare_start_server [OF assms(1)] rest])
qed

section \<open>Clean-up\<close>

lemma close_fails_terminate: "\<not> close_fails io \<Longrightarrow> fst (console_terminate (ri_qemu_os io) q) = Inr ()"
  unfolding close_fails_def by (metis (full_types) old.sum.exhaust old.unit.exhaust)

lemma hoare_close:
  "hoare (run_phase D J es b c) (close_console io) (\<lambda>_. run_phase D J (es @ [Qemu_Close]) b c)
     (\<lambda>w. run_phase D J (es @ [Qemu_Close]) b c w \<and> close_fails io)"
proof (cases "close_fails io")
  case True
  have "hoare (run_phase D J (es @ [Qemu_Close]) b c) (sresult (raises (ri_drain io))) (\<lambda>_. run_phase D J (es @ [Qemu_Close]) b c) (run_phase D J (es @ [Qemu_Close]) b c)"
    by (rule hoare_result) simp_all
  then have "hoare (run_phase D J es b c) (close_console io) (\<lambda>_. run_phase D J (es @ [Qemu_Close]) b c) (run_phase D J (es @ [Qemu_Close]) b c)"
    unfolding close_console_def by (intro hoare_bind [OF phase_event] hoare_bind [OF phase_keep(2)])
  then show ?thesis using True by simp
next
  case False
  then have d: "raises (ri_drain io) = Inr ()" by (simp add: close_fails_def raises_def)
  show ?thesis
    using close_fails_terminate [OF False]
    unfolding close_console_def note_event_def on_qemu_def hoare_def sbind_def supdate_def szoom_def sresult_def d run_phase_def
    by (auto split: prod.splits sum.splits) (metis Inl_Inr_False fst_conv)+
qed

lemma hoare_when:
  "(\<And>w. P w \<Longrightarrow> b w) \<Longrightarrow> hoare P m Q E \<Longrightarrow> hoare P (swhen b m) Q E"
  "(\<And>w. P w \<Longrightarrow> \<not> b w) \<Longrightarrow> hoare P (swhen b m') (\<lambda>_. P) E"
  by (simp_all add: hoare_def swhen_def)

lemma hoare_cleanup_both:
  "hoare (run_phase D any_session [S, Q] True True) (cleanup io) (\<lambda>_. run_phase D any_session [S, Q, Qemu_Close, Server_Stop] True True)
     (cleaned io D S Q)"
  unfolding cleanup_def
proof (rule hoare_bind [OF hoare_when(1)])
  show "hoare (run_phase D any_session [S, Q] True True) (close_console io) (\<lambda>_. run_phase D any_session [S, Q, Qemu_Close] True True) (cleaned io D S Q)"
    by (rule hoare_weaken [OF hoare_close]) (auto simp: cleaned_def run_phase_def)
  have "hoare (run_phase D any_session [S, Q, Qemu_Close] True True) (stop_the_server io)
      (\<lambda>_. run_phase D any_session [S, Q, Qemu_Close, Server_Stop] True True) (cleaned io D S Q)"
    by (rule hoare_weaken [OF hoare_stop]) (auto simp: cleaned_def run_phase_def)
  then show "hoare (run_phase D any_session [S, Q, Qemu_Close] True True) (swhen rw_server_set (stop_the_server io))
      (\<lambda>_. run_phase D any_session [S, Q, Qemu_Close, Server_Stop] True True) (cleaned io D S Q)"
    by (rule hoare_when(1) [rotated]) (simp add: run_phase_def)
qed (simp add: run_phase_def)

lemma hoare_cleanup_server:
  "hoare (run_phase D any_session [S] True False) (cleanup io) (\<lambda>_. cleaned io D S Q) (cleaned io D S Q)"
  unfolding cleanup_def
proof (rule hoare_bind [OF hoare_when(2)])
  have "hoare (run_phase D any_session [S] True False) (stop_the_server io) (\<lambda>_. cleaned io D S Q) (cleaned io D S Q)"
    by (rule hoare_weaken [OF hoare_stop]) (auto simp: cleaned_def run_phase_def)
  then show "hoare (run_phase D any_session [S] True False) (swhen rw_server_set (stop_the_server io)) (\<lambda>_. cleaned io D S Q) (cleaned io D S Q)"
    by (rule hoare_when(1) [rotated]) (simp add: run_phase_def)
qed (simp add: run_phase_def)

lemma hoare_cleanup_none:
  assumes "es \<in> {[], [S, Server_Stop]}"
  shows "hoare (run_phase D any_session es False False) (cleanup io) (\<lambda>_. cleaned io D S Q) (cleaned io D S Q)"
  unfolding cleanup_def
proof (rule hoare_bind [OF hoare_when(2)])
  show "hoare (run_phase D any_session es False False) (swhen rw_server_set (stop_the_server io)) (\<lambda>_. cleaned io D S Q) (cleaned io D S Q)"
    by (rule hoare_weaken [OF hoare_when(2) [where P = "run_phase D any_session es False False" and b = rw_server_set and E = "cleaned io D S Q"]])
       (use assms in \<open>auto simp: cleaned_def run_phase_def\<close>)
qed (simp add: run_phase_def)

lemma hoare_cleanup_interrupted: "hoare (interrupted D S Q) (cleanup io) (\<lambda>_. cleaned io D S Q) (cleaned io D S Q)"
proof -
  have both: "hoare (run_phase D any_session [S, Q] True True) (cleanup io) (\<lambda>_. cleaned io D S Q) (cleaned io D S Q)"
    by (rule hoare_weaken [OF hoare_cleanup_both]) (auto simp: cleaned_def run_phase_def)
  have "hoare (\<lambda>w. run_phase D any_session [] False False w \<or> run_phase D any_session [S, Server_Stop] False False w
     \<or> run_phase D any_session [S] True False w \<or> run_phase D any_session [S, Q] True True w) (cleanup io) (\<lambda>_. cleaned io D S Q) (cleaned io D S Q)"
    by (intro hoare_disj hoare_cleanup_none hoare_cleanup_server both) simp_all
  then show ?thesis by (simp add: interrupted_def [abs_def])
qed

lemma hoare_guest_phase:
  assumes "S = server_event io paths" "Q = qemu_event io paths"
  shows "hoare (run_phase D (progress [] []) [] False False) (sfinally (run_guest io paths b) (cleanup io))
    (\<lambda>(h, g) w. run_phase D any_session [S, Q, Qemu_Close, Server_Stop] True True w \<and> guest_evidence io b h g) (cleaned io D S Q)"
proof (rule hoare_finally [OF hoare_run_guest [OF assms] _ hoare_cleanup_interrupted])
  fix x :: "shm_header \<times> pydict"
  obtain h g where x: "x = (h, g)" by (cases x)
  have "hoare (\<lambda>w. run_phase D any_session [S, Q] True True w \<and> guest_evidence io b h g) (cleanup io)
      (\<lambda>_ w. run_phase D any_session [S, Q, Qemu_Close, Server_Stop] True True w \<and> guest_evidence io b h g) (cleaned io D S Q)"
    by (rule hoare_assume [where A = "guest_evidence io b h g"], simp, rule hoare_weaken [OF hoare_cleanup_both]) simp_all
  then show "hoare ((\<lambda>(h, g) w. run_phase D any_session [S, Q] True True w \<and> guest_evidence io b h g) x) (cleanup io)
      (\<lambda>_. (\<lambda>(h, g) w. run_phase D any_session [S, Q, Qemu_Close, Server_Stop] True True w \<and> guest_evidence io b h g) x) (cleaned io D S Q)"
    by (simp add: x)
qed

section \<open>The workflow\<close>

definition run_evidence :: "run_io \<Rightarrow> shm_paths \<Rightarrow> int \<Rightarrow> pydict \<Rightarrow> bool" where
  "run_evidence io paths b result \<longleftrightarrow>
     (\<exists>manifest header guest server_log reads writes.
        load_verified_manifest (ri_fs io) paths = Inr manifest \<and> guest_evidence io b header guest
        \<and> (\<exists>n. \<not> ri_present io n) \<and> ri_server_log io = Inr server_log
        \<and> parse_server_counts (decode_replace server_log) = Inr (reads, writes) \<and> 0 < reads \<and> 0 < writes
        \<and> dget result ''shm'' = PDict (header_json header) \<and> dget result ''guest'' = PDict guest
        \<and> dget result ''server'' = PDict [(''total_reads'', PInt reads), (''total_writes'', PInt writes)]
        \<and> dget result ''artifacts'' = dget manifest ''artifacts'')"

text \<open>A failed run leaves the old result and no process behind, unless QEMU could not be closed.\<close>

definition failed_run :: "run_io \<Rightarrow> shm_paths \<Rightarrow> disk \<Rightarrow> run_world \<Rightarrow> bool" where
  "failed_run io paths D w \<longleftrightarrow>
     dk_files (rw_disk w) (result_path paths) = dk_files D (result_path paths)
     \<and> (rw_events w \<in> {[], [server_event io paths, Server_Stop], [server_event io paths, qemu_event io paths, Qemu_Close, Server_Stop]}
        \<or> rw_events w = [server_event io paths, qemu_event io paths, Qemu_Close] \<and> close_fails io)"

lemma build_result_Inr:
  assumes "build_result timestamp command environment manifest header guest reads writes = Inr result"
  shows "dget result ''shm'' = PDict (header_json header) \<and> dget result ''guest'' = PDict guest
    \<and> dget result ''server'' = PDict [(''total_reads'', PInt reads), (''total_writes'', PInt writes)]
    \<and> dget result ''artifacts'' = dget manifest ''artifacts''"
  using assms unfolding build_result_def by (auto simp: rbind_Inr_iff dindex_def dget_def [of manifest] split: option.splits)

lemma hoare_write:
  assumes "E = [server_event io paths, qemu_event io paths, Qemu_Close, Server_Stop]"
  shows "hoare (run_phase D any_session E True True) (on_the_disk (atomic_write_result (ri_disk io) (result_path paths) body))
    (\<lambda>_ w. rw_events w = E \<and> dk_files (rw_disk w) = (dk_files D)(result_path paths \<mapsto> body @ newline, temporary_of (result_path paths) := None))
    (failed_run io paths D)"
  unfolding hoare_def
proof (intro allI impI)
  fix w assume "run_phase D any_session E True True w"
  then have w: "rw_disk w = D" "rw_events w = E" by (simp_all add: run_phase_def)
  obtain r d' where a: "atomic_write_result (ri_disk io) (result_path paths) body D = (r, d')" by (metis surj_pair)
  show "case on_the_disk (atomic_write_result (ri_disk io) (result_path paths) body) w of
      (Inr x, w') \<Rightarrow> rw_events w' = E \<and> dk_files (rw_disk w') = (dk_files D)(result_path paths \<mapsto> body @ newline, temporary_of (result_path paths) := None)
    | (Inl e, w') \<Rightarrow> failed_run io paths D w'"
  proof (cases r)
    case (Inr u)
    then show ?thesis using result_writer.written [OF refl, of "ri_disk io" "result_path paths" body D] a w
      by (simp add: on_the_disk_def szoom_def)
  next
    case (Inl e)
    then show ?thesis using result_writer.unchanged [OF refl, of "ri_disk io" "result_path paths" body D] a w assms
      by (simp add: on_the_disk_def szoom_def failed_run_def)
  qed
qed

text \<open>What happens after the processes have ended.\<close>

definition conclude :: "(pydict \<Rightarrow> string) \<Rightarrow> run_io \<Rightarrow> shm_paths \<Rightarrow> pydict \<Rightarrow> shm_header \<times> pydict \<Rightarrow> pydict run" where
  "conclude dump io paths manifest = (\<lambda>(header, guest).
     sbind (sresult (poll_result (wait_for_shm_removed (ri_present io) (ri_removal_clock io) (ri_removal_now io) (Fin 5) (ri_shm_path io)))) (\<lambda>_.
     sbind (sresult (ri_server_log io)) (\<lambda>server_log.
     sbind (sresult (parse_server_counts (decode_replace server_log))) (\<lambda>(read_count, write_count).
     sbind (sresult (build_result (ri_timestamp io) (shm_build_qemu_command paths)
              (selected_environment (shm_build_qemu_environment paths (ri_environ io))) manifest header guest read_count write_count)) (\<lambda>result.
     sbind (on_the_disk (atomic_write_result (ri_disk io) (result_path paths) (dump result))) (\<lambda>_.
     sreturn result))))))"

lemma execute_workflow_conclude:
  "execute_workflow dump io paths b = sbind (sresult (load_verified_manifest (ri_fs io) paths))
     (\<lambda>manifest. sbind (sfinally (run_guest io paths b) (cleanup io)) (conclude dump io paths manifest))"
  by (simp add: execute_workflow_def conclude_def)

lemma hoare_conclude:
  assumes m: "load_verified_manifest (ri_fs io) paths = Inr manifest" and g: "guest_evidence io b h g"
    and E: "E = [server_event io paths, qemu_event io paths, Qemu_Close, Server_Stop]"
  shows "hoare (run_phase D any_session E True True) (conclude dump io paths manifest (h, g))
    (\<lambda>result w. run_evidence io paths b result \<and> rw_events w = E
      \<and> dk_files (rw_disk w) = (dk_files D)(result_path paths \<mapsto> dump result @ newline, temporary_of (result_path paths) := None))
    (failed_run io paths D)"
  unfolding conclude_def prod.case
proof (intro hoare_result_bind)
  fix u raw counts
  assume removed: "poll_result (wait_for_shm_removed (ri_present io) (ri_removal_clock io) (ri_removal_now io) (Fin 5) (ri_shm_path io)) = Inr u"
    and log: "ri_server_log io = Inr raw" and counts: "parse_server_counts (decode_replace raw) = Inr counts"
  obtain r w where c: "counts = (r, w)" by (cases counts)
  have failing: "run_phase D any_session E True True w \<Longrightarrow> failed_run io paths D w" for w by (simp add: run_phase_def failed_run_def E)
  show "hoare (run_phase D any_session E True True)
      (case counts of (read_count, write_count) \<Rightarrow>
         sbind (sresult (build_result (ri_timestamp io) (shm_build_qemu_command paths)
              (selected_environment (shm_build_qemu_environment paths (ri_environ io))) manifest h g read_count write_count)) (\<lambda>result.
         sbind (on_the_disk (atomic_write_result (ri_disk io) (result_path paths) (dump result))) (\<lambda>_. sreturn result)))
      (\<lambda>result w. run_evidence io paths b result \<and> rw_events w = E
        \<and> dk_files (rw_disk w) = (dk_files D)(result_path paths \<mapsto> dump result @ newline, temporary_of (result_path paths) := None))
      (failed_run io paths D)"
    unfolding c prod.case
  proof (rule hoare_result_bind [OF _ failing])
    fix result assume result: "build_result (ri_timestamp io) (shm_build_qemu_command paths)
        (selected_environment (shm_build_qemu_environment paths (ri_environ io))) manifest h g r w = Inr result"
    have "run_evidence io paths b result"
      unfolding run_evidence_def
      using m g removed log counts c build_result_Inr [OF result] parse_server_counts_Inr [of "decode_replace raw" r w]
        shm_removed [of "ri_present io"] by (auto simp: poll_result_Inr)
    then show "hoare (run_phase D any_session E True True)
        (sbind (on_the_disk (atomic_write_result (ri_disk io) (result_path paths) (dump result))) (\<lambda>_. sreturn result))
        (\<lambda>result w. run_evidence io paths b result \<and> rw_events w = E
          \<and> dk_files (rw_disk w) = (dk_files D)(result_path paths \<mapsto> dump result @ newline, temporary_of (result_path paths) := None))
        (failed_run io paths D)"
      by (intro hoare_bind [OF hoare_write [OF E]] hoare_return) auto
  qed
qed (simp_all add: run_phase_def failed_run_def E)

lemma hoare_workflow:
  "hoare (run_phase D (progress [] []) [] False False) (execute_workflow dump io paths b)
     (\<lambda>result w. run_evidence io paths b result
        \<and> rw_events w = [server_event io paths, qemu_event io paths, Qemu_Close, Server_Stop]
        \<and> dk_files (rw_disk w) = (dk_files D)(result_path paths \<mapsto> dump result @ newline, temporary_of (result_path paths) := None))
     (failed_run io paths D)"
  unfolding execute_workflow_conclude
proof (rule hoare_result_bind)
  let ?E = "[server_event io paths, qemu_event io paths, Qemu_Close, Server_Stop]" and ?F = "failed_run io paths D"
  let ?Q = "\<lambda>result w. run_evidence io paths b result \<and> rw_events w = ?E
        \<and> dk_files (rw_disk w) = (dk_files D)(result_path paths \<mapsto> dump result @ newline, temporary_of (result_path paths) := None)"
  fix manifest assume m: "load_verified_manifest (ri_fs io) paths = Inr manifest"
  have guest: "hoare (run_phase D (progress [] []) [] False False) (sfinally (run_guest io paths b) (cleanup io))
      (\<lambda>x w. run_phase D any_session ?E True True w \<and> guest_evidence io b (fst x) (snd x)) ?F"
    by (rule hoare_weaken [OF hoare_guest_phase [OF refl refl]]) (auto simp: cleaned_def failed_run_def)
  show "hoare (run_phase D (progress [] []) [] False False)
      (sbind (sfinally (run_guest io paths b) (cleanup io)) (conclude dump io paths manifest)) ?Q ?F"
  proof (rule hoare_bind [OF guest], rule hoare_assume, erule conjunct2)
    fix x assume "guest_evidence io b (fst x) (snd x)"
    from hoare_conclude [OF m this refl, of D dump]
    show "hoare (\<lambda>w. run_phase D any_session ?E True True w \<and> guest_evidence io b (fst x) (snd x)) (conclude dump io paths manifest x) ?Q ?F"
      by (auto elim: hoare_weaken)
  qed
qed (simp add: run_phase_def failed_run_def)


section \<open>A run\<close>

definition sample_guest :: pydict where
  "sample_guest =
     [(''status'', PStr ''pass''), (''verified'', PBool True), (''write_seconds'', PList [PInt 1, PInt 2, PInt 1]),
      (''read_seconds'', PList [PInt 1, PInt 1, PInt 1]), (''write_mib_s_median'', PInt 4), (''read_mib_s_median'', PInt 5),
      (''random_ns_per_load'', PInt 300)]"

definition sample_lines :: "string list" where
  "sample_lines =
     [HOST_DECODER @ TYPE3_DECODER @ ''=> '' @ ''41.00.0 Type 3=> '' @ ''41.00.0 0000000010000000=> ''
        @ HOST_DECODER @ TYPE3_DECODER @ ''=> '' @ ''=> .'',
      SHM_CONNECTED, ''CXL_GUEST_INIT_START'', ''CXL_DISK_PASS'', ''CXL_TOPOLOGY_PASS'',
      ''CXL_BENCH_JSON '' @ json_compact (PDict sample_guest), GUEST_PASS, ''reboot: Power down'']"

definition sample_reply :: "nat \<Rightarrow> string" where
  "sample_reply n =
     (if n = 0 \<or> n = 6 then HOST_DECODER @ TYPE3_DECODER @ ''=> '' else if n = 2 then ''41.00.0 Type 3=> ''
      else if n = 4 then ''41.00.0 0000000010000000=> '' else if n = 8 then ''=> .''
      else newline @ concat (map (\<lambda>l. l @ newline) (tl sample_lines)))"

definition sample_console :: guest_io where
  "sample_console = \<lparr>arrives = sample_reply, wait_raises = (\<lambda>_. TimeoutError []), send_raises = (\<lambda>_. None)\<rparr>"

definition sample_output :: string where
  "sample_output = concat (map (\<lambda>l. l @ newline) sample_lines)"

lemma contains_split:
  assumes "contains e (x @ c # y)" "c \<notin> set e"
  shows "contains e x \<or> contains e y"
proof -
  from assms(1) obtain a b where "x @ c # y = (a @ e) @ b" by (auto simp: contains_iff)
  then obtain us where "x = (a @ e) @ us \<or> x @ us = a @ e \<and> c # y = us @ b" unfolding append_eq_append_conv2 by blast
  then consider (left) "x = (a @ e) @ us" | (right) "x @ us = a @ e" "c # y = us @ b" by blast
  then show ?thesis
  proof cases
    case left
    then have "x = a @ e @ us" by simp
    then show ?thesis unfolding contains_iff by blast
  next
    case right
    show ?thesis
    proof (cases us)
      case Nil
      then have "x = a @ e @ []" using right by simp
      then show ?thesis unfolding contains_iff by blast
    next
      case (Cons d vs)
      with right have d: "d = c" "y = vs @ b" by auto
      have "x @ (c # vs) = a @ e" using right(1) Cons d by simp
      then obtain zs where "x = a @ zs \<and> zs @ c # vs = e \<or> x @ zs = a \<and> c # vs = zs @ e"
        using iffD1 [OF append_eq_append_conv2 [of x "c # vs" a e]] by blast
      then obtain zs' where "vs = zs' @ e" using assms(2) by (auto simp: Cons_eq_append_conv)
      then have "y = zs' @ e @ b" using d by simp
      then show ?thesis unfolding contains_iff by blast
    qed
  qed
qed

lemma contains_line:
  assumes "contains e (concat (map (\<lambda>l. l @ newline) ls))" "CHR 0x0A \<notin> set e" "e \<noteq> []"
  shows "\<exists>l\<in>set ls. contains e l"
  using assms(1)
proof (induction ls)
  case Nil
  then show ?case using assms(3) by (simp add: contains_rec)
next
  case (Cons l ls)
  then have "contains e (l @ CHR 0x0A # concat (map (\<lambda>l. l @ newline) ls))" by (simp add: newline_def)
  from contains_split [OF this assms(2)] show ?case using Cons.IH by auto
qed

lemma in_line_contained:
  assumes "l \<in> set ls" "contains e l"
  shows "contains e (concat (map (\<lambda>l. l @ newline) ls))"
proof -
  from assms(1) obtain p q where ls: "ls = p @ l # q" by (auto simp: in_set_conv_decomp)
  let ?text = "\<lambda>ls. concat (map (\<lambda>l. l @ newline) ls)"
  have "contains e (?text p @ (l @ (newline @ ?text q)))"
    by (intro contains_suffix contains_append assms(2))
  then show ?thesis by (simp add: ls)
qed

lemma chars_contained: "contains e l \<Longrightarrow> set e \<subseteq> set l"
  by (auto simp: contains_iff)

lemma sample_line_chars:
  "\<forall>l\<in>set sample_lines. CHR ''F'' \<notin> set l"
  "\<forall>l\<in>set sample_lines. CHR ''M'' \<notin> set l \<or> l = SHM_CONNECTED \<or> CHR ''H'' \<notin> set l \<or> CHR '' '' \<notin> set l"
  unfolding sample_lines_def HOST_DECODER_def TYPE3_DECODER_def SHM_CONNECTED_def GUEST_PASS_def sample_guest_def
  by (simp_all add: json_string_def escape_out_def show_int_def show_nat_eval)

lemma sample_errors: "\<forall>e\<in>set SHM_ERRORS. \<not> contains e sample_output"
proof
  fix e assume e: "e \<in> set SHM_ERRORS"
  have f: "CHR ''F'' \<in> set e \<or> CHR ''S'' \<in> set e \<and> CHR ''H'' \<in> set e \<and> CHR ''M'' \<in> set e \<and> CHR '' '' \<in> set e
      \<and> \<not> set e \<subseteq> set SHM_CONNECTED" and n: "CHR 0x0A \<notin> set e" "e \<noteq> []"
    using e by (auto simp: SHM_ERRORS_def SHM_CONNECTED_def)
  show "\<not> contains e sample_output"
  proof
    assume "contains e sample_output"
    from contains_line [OF this [unfolded sample_output_def] n] obtain l where l: "l \<in> set sample_lines" "contains e l" by blast
    from f sample_line_chars l chars_contained [OF l(2)] show False by blast
  qed
qed

lemma other_line:
  assumes "ascii_line l" "l \<noteq> []" "hd l \<noteq> CHR '' ''" "last l \<noteq> CHR '' ''" "\<not> starts_with l ''CXL_BENCH_JSON ''"
  shows "guest_json_line l = Inr []"
  using assms by (simp add: guest_json_line_def strip_ascii Let_def)

lemma json_line:
  assumes "ascii_line (json_compact (PDict d))" "plain_json (PDict d)"
  shows "guest_json_line (''CXL_BENCH_JSON '' @ json_compact (PDict d)) = Inr [d]"
proof -
  let ?l = "''CXL_BENCH_JSON '' @ json_compact (PDict d)"
  have "last (json_compact (PDict d)) = CHR ''}''" "json_compact (PDict d) \<noteq> []" by simp_all
  then have "strip ?l = ?l" using assms(1) by (intro strip_ascii) (simp_all add: ascii_char_def)
  moreover have "json_loads plain_hook (json_compact (PDict d)) = Inr (PDict d)"
    by (rule json_loads_compact [OF plain_hook_distinct assms(2)])
  ultimately show ?thesis by (simp add: guest_json_line_def Let_def starts_with_def)
qed

lemma sample_ascii: "list_all ascii_line sample_lines" "ascii_line (json_compact (PDict sample_guest))"
  unfolding sample_lines_def HOST_DECODER_def TYPE3_DECODER_def SHM_CONNECTED_def GUEST_PASS_def sample_guest_def
  by (simp_all add: json_string_def escape_out_def show_int_def show_nat_eval ascii_char_def)

lemma starts_with_rec [simp]: "starts_with (c # cs) (d # ds) \<longleftrightarrow> c = d \<and> starts_with cs ds" "starts_with s []" "\<not> starts_with [] (d # ds)"
  by (auto simp: starts_with_def)

lemma sample_edges:
  "list_all (\<lambda>l. l \<noteq> [] \<and> hd l \<noteq> CHR '' '' \<and> last l \<noteq> CHR '' '') sample_lines"
  "list_all (\<lambda>l. \<not> starts_with l ''CXL_BENCH_JSON '') (take 5 sample_lines @ drop 6 sample_lines)"
  unfolding sample_lines_def HOST_DECODER_def TYPE3_DECODER_def SHM_CONNECTED_def GUEST_PASS_def by simp_all

lemma sample_json: "extract_guest_json sample_output = Inr sample_guest"
proof -
  have lines: "splitlines sample_output = sample_lines"
    using splitlines_ascii [OF sample_ascii(1)] by (simp add: sample_output_def newline_def)
  have json: "guest_json_line (''CXL_BENCH_JSON '' @ json_compact (PDict sample_guest)) = Inr [sample_guest]"
    by (rule json_line [OF sample_ascii(2)]) (simp add: sample_guest_def)
  let ?A = "take 5 sample_lines" and ?B = "drop 6 sample_lines"
  have parts: "sample_lines = ?A @ (''CXL_BENCH_JSON '' @ json_compact (PDict sample_guest)) # ?B" by (simp add: sample_lines_def)
  have others: "guest_json_line l = Inr []" if "l \<in> set ?A \<or> l \<in> set ?B" for l
  proof (rule other_line)
    have l: "l \<in> set sample_lines" using that by (meson in_set_takeD in_set_dropD)
    show "ascii_line l" using sample_ascii(1) l by (simp add: list_all_iff)
    show "l \<noteq> []" "hd l \<noteq> CHR '' ''" "last l \<noteq> CHR '' ''" using l sample_edges(1) unfolding list_all_iff by blast+
    show "\<not> starts_with l ''CXL_BENCH_JSON ''" using that sample_edges(2) unfolding list_all_iff set_append by blast
  qed
  have skip: "rfold (\<lambda>records line. rbind (guest_json_line line) (\<lambda>rs. Inr (records @ rs))) acc ls = Inr acc"
    if "\<forall>l\<in>set ls. guest_json_line l = Inr []" for acc ls
    using that by (induction ls) simp_all
  have "rfold (\<lambda>records line. rbind (guest_json_line line) (\<lambda>rs. Inr (records @ rs))) [] sample_lines = Inr [sample_guest]"
    using others by (subst parts) (simp only: rfold_append rfold.simps json rbind_simps skip ball_Un, simp add: skip)
  then show ?thesis unfolding extract_guest_json_def lines extract_lines_def by simp
qed

lemma sample_markers: "\<forall>m\<in>set ([HOST_DECODER, TYPE3_DECODER, SHM_CONNECTED] @ REQUIRED_GUEST_MARKERS). contains m sample_output"
proof -
  have self: "contains m m" for m unfolding contains_iff by (metis append.right_neutral append_Nil)
  have first: "contains HOST_DECODER (HOST_DECODER @ x)" "contains TYPE3_DECODER (HOST_DECODER @ TYPE3_DECODER @ x)" for x
    by (intro contains_append contains_suffix self)+
  have "\<forall>m\<in>set ([HOST_DECODER, TYPE3_DECODER, SHM_CONNECTED] @ REQUIRED_GUEST_MARKERS). \<exists>l\<in>set sample_lines. contains m l"
    unfolding sample_lines_def REQUIRED_GUEST_MARKERS_def using self first by auto
  then show ?thesis unfolding sample_output_def using in_line_contained by blast
qed

lemma sample_console_accepted: "validate_console sample_output = Inr sample_guest"
proof -
  have "verified_benchmark sample_guest" by (simp add: verified_benchmark_def sample_guest_def positive_number_def)
  then show ?thesis using sample_errors sample_markers sample_json by (simp add: validate_console_Inr console_verified_def)
qed

lemma sample_command_reply:
  assumes "contains ''=> '' (sample_reply (Suc n))"
  shows "run_console_command sample_console c \<lparr>ss_output = out, ss_sent = S, ss_tick = n\<rparr> =
    (Inr (sample_reply (Suc n)), \<lparr>ss_output = out @ sample_reply (Suc n), ss_sent = S @ [(c, out)], ss_tick = Suc (Suc n)\<rparr>)"
  using assms
  by (simp add: run_console_command_def sbind_def shm_output_def shm_send_def shm_console_wait_def console_wait_def observed_def
      sample_console_def Let_def sreturn_def contains_rec)

lemma sample_replies:
  "contains ''=> '' (sample_reply 0)" "contains ''=> '' (sample_reply 2)" "contains ''=> '' (sample_reply 4)"
  "contains ''=> '' (sample_reply 6)" "contains ''=> '' (sample_reply 8)"
  "\<not> lacks (sample_reply 0) [HOST_DECODER, TYPE3_DECODER]" "\<not> lacks (sample_reply 6) [HOST_DECODER, TYPE3_DECODER]"
  "\<not> lacks (sample_reply 2) [''41.00.0'', ''Type 3'']" "\<not> lacks (sample_reply 4) [''41.00.0'', ''0000000010000000'']"
proof -
  have self: "contains m (m @ x)" for m x unfolding contains_iff by (metis append_Nil)
  show "contains ''=> '' (sample_reply 0)" "contains ''=> '' (sample_reply 6)"
    using contains_suffix [OF contains_suffix [OF self [of "''=> ''" "[]"], of TYPE3_DECODER], of HOST_DECODER] by (simp_all add: sample_reply_def)
  show "contains ''=> '' (sample_reply 2)" "contains ''=> '' (sample_reply 4)" "contains ''=> '' (sample_reply 8)"
    "\<not> lacks (sample_reply 2) [''41.00.0'', ''Type 3'']" "\<not> lacks (sample_reply 4) [''41.00.0'', ''0000000010000000'']"
    by (simp_all add: sample_reply_def contains_rec lacks_def)
  show "\<not> lacks (sample_reply 0) [HOST_DECODER, TYPE3_DECODER]" "\<not> lacks (sample_reply 6) [HOST_DECODER, TYPE3_DECODER]"
    using self contains_suffix [OF self] by (simp_all add: sample_reply_def lacks_def)
qed

lemma sample_replies_output:
  "sample_reply 0 @ sample_reply 2 @ sample_reply 4 @ sample_reply 6 @ sample_reply 8 @ sample_reply 10 = sample_output"
  by (simp add: sample_reply_def sample_output_def sample_lines_def newline_def)

lemma sample_dialogue:
  "\<exists>s. run_uboot_guest sample_console (Inr n) b \<lparr>ss_output = [], ss_sent = [], ss_tick = 0\<rparr> = (Inr sample_guest, s)
     \<and> ss_output s = sample_output"
proof -
  have pass: "contains GUEST_PASS (sample_reply 10)"
  proof -
    have "contains GUEST_PASS (concat (map (\<lambda>l. l @ newline) (tl sample_lines)))"
      by (rule in_line_contained [of GUEST_PASS]) (simp add: sample_lines_def, metis contains_iff append.right_neutral append_Nil)
    then show ?thesis by (simp add: sample_reply_def contains_suffix)
  qed
  note replies = sample_replies [unfolded eval_nat_numeral BitM.simps] and whole = sample_replies_output [unfolded eval_nat_numeral BitM.simps]
    and steps = sample_command_reply [OF replies(2)] sample_command_reply [OF replies(3)] sample_command_reply [OF replies(4)]
      sample_command_reply [OF replies(5)] and last = pass [unfolded eval_nat_numeral BitM.simps]
  have some: "GUEST_PASS \<noteq> []" by (simp add: GUEST_PASS_def)
  have io: "arrives sample_console = sample_reply" "send_raises sample_console = (\<lambda>_. None)" by (simp_all add: sample_console_def)
  show ?thesis
    by (simp add: run_uboot_guest_def shm_probe_def shm_boot_def sbind_def shm_output_def scheck_def sreturn_def sresult_def
        shm_console_wait_def console_wait_def observed_def shm_send_def Let_def io steps replies last contains_rec some
        whole sample_console_accepted)
qed

text \<open>The rest of the world: every file has one byte and the recorded hash, the server is ready at once.\<close>

definition sample_manifest :: pydict where
  "sample_manifest =
     [(''schema_version'', PInt 1), (''superproject_commit'', PStr ''c0ffee''), (''submodules'', PDict []),
      (''artifacts'', PDict (map (\<lambda>name. (name, PDict [(''size'', PInt 1), (''sha256'', PStr ''ab'')]))
         [''qemu'', ''opensbi'', ''u_boot'', ''linux'', ''benchmark_disk'', ''guest_benchmark'', ''cxlmemsim_server'']))]"

definition sample_fs :: file_system where
  "sample_fs = \<lparr>fs_text = (\<lambda>_. Inr (json_compact (PDict sample_manifest))), fs_is_file = (\<lambda>_. True), fs_size = (\<lambda>_. 1),
     fs_executable = (\<lambda>_. True), fs_sha256 = (\<lambda>_. ''ab''), fs_resolve = (\<lambda>p. p), fs_inode = (\<lambda>_. Inr (0, 0)),
     fs_commit = (\<lambda>_. Inr ''c0ffee'')\<rparr>"

definition sample_paths :: shm_paths where
  "sample_paths = default_paths (\<lambda>p. p) ''/r''"

definition sample_header :: shm_header where
  "sample_header = \<lparr>hd_magic = SHM_MAGIC, hd_version = 1, hd_num_slots = 4, hd_server_ready = 1, hd_flags = 0, hd_memory_base = 0,
     hd_memory_size = SHM_CAPACITY, hd_num_cachelines = 0, hd_metadata_enabled = 0, hd_entry_size = 0\<rparr>"

definition sample_log :: string where
  "sample_log = ''Total Reads: 7 Total Writes: 9''"

definition sample_run_io :: run_io where
  "sample_run_io = \<lparr>ri_fs = sample_fs, ri_environ = [], ri_shm_path = ''/dev/shm/cxlmemsim_pgas'', ri_shm_exists = False,
     ri_server_spawn = None,
     ri_shm_views = (\<lambda>_. \<lparr>sv_now = Fin 0, sv_poll = None, sv_read = Inr (shm_fields sample_header @ replicate 8 0)\<rparr>), ri_shm_now = Fin 0,
     ri_server_os = sample_os\<lparr>poll_at := (\<lambda>_. Some 0)\<rparr>, ri_qemu_spawn = None, ri_guest = sample_console, ri_image_size = Inr 4096,
     ri_exit_views = (\<lambda>_. (Some 0, Fin 0)), ri_exit_now = Fin 0, ri_qemu_os = sample_os\<lparr>poll_at := (\<lambda>_. Some 0)\<rparr>, ri_drain = None,
     ri_present = (\<lambda>_. False), ri_removal_clock = (\<lambda>_. Fin 0), ri_removal_now = Fin 0, ri_server_log = Inr sample_log,
     ri_timestamp = ''2025-01-01T00:00:00+00:00'', ri_disk = steady\<rparr>"

definition sample_world :: run_world where
  "sample_world = \<lparr>rw_events = [], rw_server_set = False, rw_console_set = False, rw_server = sample_proc, rw_qemu = sample_proc,
     rw_session = \<lparr>ss_output = [], ss_sent = [], ss_tick = 0\<rparr>, rw_disk = old_disk\<rparr>"

definition json_compact_dict :: "pydict \<Rightarrow> string" where
  "json_compact_dict d = json_compact (PDict d)"

lemma sample_manifest_loads: "load_verified_manifest sample_fs sample_paths = Inr sample_manifest"
proof -
  have json: "json_loads plain_hook (json_compact (PDict sample_manifest)) = Inr (PDict sample_manifest)"
    by (rule json_loads_compact [OF plain_hook_distinct]) (simp_all add: sample_manifest_def)
  have parents: "2 < length (path_parents (sh_manifest sample_paths))" by code_simp
  have strip: "strip ''c0ffee'' = ''c0ffee''" by (rule strip_ascii) (simp_all add: ascii_char_def)
  show ?thesis
    using parents
    by (simp add: load_verified_manifest_def sample_fs_def json strip del: json_compact.simps)
       (simp add: sample_manifest_def artifact_paths_def check_recorded_def strip)
qed

lemma sample_shm: "wait_for_shm (ri_shm_views sample_run_io) (Fin 0) (Fin 30) = Some (Inr sample_header)"
proof -
  have ok: "shm_header_ok sample_header" by (simp add: shm_header_ok_def sample_header_def SHM_VERSION_def)
  have "length (shm_fields sample_header) = 56" by (simp add: shm_fields_def)
  then have p: "parse_shm_header (take 64 (shm_fields sample_header @ replicate 8 0)) = Inr sample_header"
    by (intro parse_encoded [OF ok]) simp_all
  have lt: "float_lt (Fin 0) (fadd (Fin 0) (Fin 30))" by code_simp
  show ?thesis
    unfolding wait_for_shm_def
    by (rule poll_until_first [of _ 0]) (simp_all add: shm_step_def sample_run_io_def shm_attempt_def SHM_HEADER_SIZE_def p lt [simplified] del: take_append)
qed

lemma sample_run_counts: "parse_server_counts (decode_replace sample_log) = Inr (7, 9)"
  by code_simp

lemma sample_loops:
  "wait_for_exit (ri_exit_views sample_run_io) (Fin 0) (Fin 5) = Some (Inr 0)"
  "wait_for_shm_removed (ri_present sample_run_io) (ri_removal_clock sample_run_io) (Fin 0) (Fin 5) p = Some (Inr ())"
  unfolding wait_for_exit_def wait_for_shm_removed_def
  by (subst poll_until.simps; simp add: exit_step_def sample_run_io_def)+

definition draining :: "pyerr option \<Rightarrow> run_io" where
  "draining dr = sample_run_io\<lparr>ri_drain := dr\<rparr>"

lemma draining_simps:
  "ri_fs (draining dr) = sample_fs" "ri_shm_exists (draining dr) = False" "ri_server_spawn (draining dr) = None"
  "ri_qemu_spawn (draining dr) = None" "ri_guest (draining dr) = sample_console" "ri_image_size (draining dr) = Inr 4096"
  "ri_shm_now (draining dr) = Fin 0" "ri_exit_now (draining dr) = Fin 0" "ri_removal_now (draining dr) = Fin 0" "ri_drain (draining dr) = dr"
  "ri_server_log (draining dr) = Inr sample_log" "ri_disk (draining dr) = steady" "ri_shm_views (draining dr) = ri_shm_views sample_run_io"
  "ri_exit_views (draining dr) = ri_exit_views sample_run_io" "ri_present (draining dr) = ri_present sample_run_io"
  "ri_removal_clock (draining dr) = ri_removal_clock sample_run_io"
  "stop_owned_process (ri_server_os (draining dr)) q = (Inr (), q\<lparr>tick := Suc (tick q)\<rparr>)"
  "console_terminate (ri_qemu_os (draining dr)) q = (Inr (), q\<lparr>tick := Suc (tick q)\<rparr>)"
  by (simp_all add: draining_def sample_run_io_def stop_owned_process_def console_terminate_def abind_def observe_def areturn_def)

lemmas run_simps = szoom_def note_event_def sbind_def sfinally_def sonerror_def sresult_def supdate_def scheck_def sreturn_def raises_def
  poll_result_def on_server_def on_qemu_def on_session_def on_the_disk_def swhen_def

lemma sample_guest_run:
  "\<exists>w. run_guest (draining dr) sample_paths 4096 sample_world = (Inr (sample_header, sample_guest), w) \<and> rw_disk w = old_disk
     \<and> rw_events w = [server_event (draining dr) sample_paths, qemu_event (draining dr) sample_paths] \<and> rw_server_set w \<and> rw_console_set w"
proof -
  obtain s where s: "run_uboot_guest sample_console (Inr 4096) 4096 \<lparr>ss_output = [], ss_sent = [], ss_tick = 0\<rparr> = (Inr sample_guest, s)"
    "ss_output s = sample_output" using sample_dialogue by blast
  have down: "contains ''reboot: Power down'' sample_output"
    unfolding sample_output_def
    by (rule in_line_contained [of "''reboot: Power down''"]) (simp add: sample_lines_def, metis contains_iff append.right_neutral append_Nil)
  show ?thesis
    by (simp add: run_guest_def start_server_def finish_qemu_def run_simps draining_simps sample_shm sample_loops s down shm_console_wait_def
        sample_world_def server_event_def qemu_event_def)
qed

lemma sample_run_succeeds: "\<exists>result w. execute_workflow dump (draining None) sample_paths 4096 sample_world = (Inr result, w)"
proof -
  obtain w where w: "run_guest (draining None) sample_paths 4096 sample_world = (Inr (sample_header, sample_guest), w)" "rw_disk w = old_disk"
    "rw_server_set w" "rw_console_set w" using sample_guest_run by blast
  obtain result where result: "build_result (ri_timestamp (draining None)) (shm_build_qemu_command sample_paths)
      (selected_environment (shm_build_qemu_environment sample_paths (ri_environ (draining None)))) sample_manifest sample_header sample_guest 7 9 = Inr result"
    by (simp add: build_result_def dindex_def sample_manifest_def)
  have written: "\<exists>d. atomic_write_result steady p t old_disk = (Inr (), d)" for p t
    by (simp add: atomic_write_result_def disk_simps)
  have "\<exists>w. execute_workflow dump (draining None) sample_paths 4096 sample_world = (Inr result, w)"
    using written [of "result_path sample_paths" "dump result"]
    by (auto simp add: execute_workflow_def cleanup_def close_console_def stop_the_server_def run_simps draining_simps sample_loops w
        sample_manifest_loads sample_run_counts result)
  then show ?thesis by blast
qed


text \<open>
  The clean-up does not stop the server when closing QEMU raises: the log of such a run has
  no \<open>Server_Stop\<close>.
\<close>

lemma server_left_running:
  "\<exists>w. execute_workflow dump (draining (Some (OSError ''read''))) sample_paths 4096 sample_world = (Inl (OSError ''read''), w)
     \<and> Server_Stop \<notin> set (rw_events w) \<and> server_event (draining (Some (OSError ''read''))) sample_paths \<in> set (rw_events w)"
proof -
  let ?io = "draining (Some (OSError ''read''))"
  obtain w where w: "run_guest ?io sample_paths 4096 sample_world = (Inr (sample_header, sample_guest), w)" "rw_disk w = old_disk"
    "rw_events w = [server_event ?io sample_paths, qemu_event ?io sample_paths]" "rw_server_set w" "rw_console_set w"
    using sample_guest_run by blast
  show ?thesis
    by (simp add: execute_workflow_def cleanup_def close_console_def run_simps draining_simps w sample_manifest_loads)
       (simp add: server_event_def qemu_event_def)
qed

end
