(* ===== verification/Py_Hash.thy ===== *)
theory Py_Hash
  imports Py_Text
begin

text \<open>
  The parts of the standard library that give documents and guests their identity:
  \<^verbatim>\<open>hashlib.sha256\<close> and \<^verbatim>\<open>hashlib.sha1\<close> on byte strings and the versions 4 and 5 of
  \<^verbatim>\<open>uuid.UUID\<close>. A 32-bit word is an integer with the wrap-around written out, so that
  the functions compute inside the kernel; the test vectors of the standard are
  evaluated below.
\<close>

unbundle bit_operations_syntax

section \<open>Blocks of a message\<close>

fun be_bytes :: "nat \<Rightarrow> int \<Rightarrow> string" where
  "be_bytes 0 n = []"
| "be_bytes (Suc k) n = be_bytes k (n div 256) @ [char_of (n mod 256)]"

text \<open>The message, a one bit, zeros and the length in bits: a multiple of 64 bytes.\<close>

definition padded :: "string \<Rightarrow> string" where
  "padded s =
     s @ CHR 0x80 # replicate ((119 - length s mod 64) mod 64) CHR 0x00 @ be_bytes 8 (8 * int (length s))"

definition be_word :: "string \<Rightarrow> int" where
  "be_word bs = foldl (\<lambda>n c. 256 * n + of_char c) 0 bs"

fun chunks :: "nat \<Rightarrow> nat \<Rightarrow> 'a list \<Rightarrow> 'a list list" where
  "chunks 0 n xs = []"
| "chunks (Suc k) n xs = take n xs # chunks k n (drop n xs)"

definition blocks :: "string \<Rightarrow> int list list" where
  "blocks s = (let p = padded s in map (\<lambda>b. map be_word (chunks 16 4 b)) (chunks (length p div 64) 64 p))"

lemma padded_blocks: "length (padded s) mod 64 = 0"
proof -
  have be: "length (be_bytes k n) = k" for k n by (induction k n rule: be_bytes.induct) auto
  have "(n + 1 + (119 - n mod 64) mod 64 + 8) mod 64 = 0" for n :: nat
  proof -
    have r: "n mod 64 < 64" by simp
    have "(n mod 64 + (9 + (119 - n mod 64) mod 64)) mod 64 = 0"
    proof (cases "n mod 64 \<le> 55")
      case True
      then have "(119 - n mod 64) mod 64 = 55 - n mod 64"
        by (subst mod_if) (simp add: Suc_leI)
      with True show ?thesis by simp
    next
      case False
      then have "(119 - n mod 64) mod 64 = 119 - n mod 64" by simp
      with False r show ?thesis by simp
    qed
    then have "(n + (9 + (119 - n mod 64) mod 64)) mod 64 = 0" by (simp only: mod_add_left_eq)
    then show ?thesis by (simp add: algebra_simps)
  qed
  from this [of "length s"] show ?thesis by (simp add: padded_def be algebra_simps)
qed

section \<open>Words\<close>

definition wrap :: "int \<Rightarrow> int" where
  "wrap x = x mod 4294967296"

definition complement :: "int \<Rightarrow> int" where
  "complement x = 4294967295 - x"

text \<open>Rotation of a word to the right.\<close>

definition rotr :: "nat \<Rightarrow> int \<Rightarrow> int" where
  "rotr n x = x div 2 ^ n + x mod 2 ^ n * 2 ^ (32 - n)"

definition word_bytes :: "int list \<Rightarrow> string" where
  "word_bytes ws = concat (map (be_bytes 4) ws)"

section \<open>SHA-256\<close>

definition K256 :: "int list" where
  "K256 =
    [1116352408, 1899447441, 3049323471, 3921009573, 961987163, 1508970993, 2453635748, 2870763221,
     3624381080, 310598401, 607225278, 1426881987, 1925078388, 2162078206, 2614888103, 3248222580,
     3835390401, 4022224774, 264347078, 604807628, 770255983, 1249150122, 1555081692, 1996064986,
     2554220882, 2821834349, 2952996808, 3210313671, 3336571891, 3584528711, 113926993, 338241895,
     666307205, 773529912, 1294757372, 1396182291, 1695183700, 1986661051, 2177026350, 2456956037,
     2730485921, 2820302411, 3259730800, 3345764771, 3516065817, 3600352804, 4094571909, 275423344,
     430227734, 506948616, 659060556, 883997877, 958139571, 1322822218, 1537002063, 1747873779,
     1955562222, 2024104815, 2227730452, 2361852424, 2428436474, 2756734187, 3204031479, 3329325298]"

definition H256 :: "int list" where
  "H256 = [1779033703, 3144134277, 1013904242, 2773480762, 1359893119, 2600822924, 528734635, 1541459225]"

text \<open>The schedule is built backwards, the newest word first.\<close>

fun schedule256 :: "nat \<Rightarrow> int list \<Rightarrow> int list" where
  "schedule256 0 ws = rev ws"
| "schedule256 (Suc n) ws =
     (let a = ws ! 14; b = ws ! 1
      in schedule256 n
           (wrap (ws ! 15 + (rotr 7 a XOR rotr 18 a XOR (a div 8)) + ws ! 6
                  + (rotr 17 b XOR rotr 19 b XOR (b div 1024))) # ws))"

fun round256 :: "int list \<Rightarrow> int \<times> int \<Rightarrow> int list" where
  "round256 [a, b, c, d, e, f, g, h] (k, w) =
     (let t = h + (rotr 6 e XOR rotr 11 e XOR rotr 25 e) + ((e AND f) XOR (complement e AND g)) + k + w;
          u = (rotr 2 a XOR rotr 13 a XOR rotr 22 a) + ((a AND b) XOR (a AND c) XOR (b AND c))
      in [wrap (t + u), a, b, c, wrap (d + t), e, f, g])"
| "round256 hs kw = hs"

definition block256 :: "int list \<Rightarrow> int list \<Rightarrow> int list" where
  "block256 hs b = map2 (\<lambda>x y. wrap (x + y)) hs (foldl round256 hs (zip K256 (schedule256 48 (rev b))))"

definition sha256_digest :: "string \<Rightarrow> string" where
  "sha256_digest s = word_bytes (foldl block256 H256 (blocks s))"

section \<open>SHA-1\<close>

definition H160 :: "int list" where
  "H160 = [1732584193, 4023233417, 2562383102, 271733878, 3285377520]"

fun schedule160 :: "nat \<Rightarrow> int list \<Rightarrow> int list" where
  "schedule160 0 ws = rev ws"
| "schedule160 (Suc n) ws = schedule160 n (rotr 31 (ws ! 2 XOR ws ! 7 XOR ws ! 13 XOR ws ! 15) # ws)"

text \<open>Mixing function and constant of the four parts of the rounds.\<close>

definition mix160 :: "nat \<Rightarrow> int \<Rightarrow> int \<Rightarrow> int \<Rightarrow> int" where
  "mix160 part b c d =
     (if part = 0 then ((b AND c) XOR (complement b AND d)) + 1518500249
      else if part = 1 then (b XOR c XOR d) + 1859775393
      else if part = 2 then ((b AND c) XOR (b AND d) XOR (c AND d)) + 2400959708
      else (b XOR c XOR d) + 3395469782)"

fun round160 :: "int list \<Rightarrow> nat \<times> int \<Rightarrow> int list" where
  "round160 [a, b, c, d, e] (part, w) = [wrap (rotr 27 a + mix160 part b c d + e + w), a, rotr 2 b, c, d]"
| "round160 hs gw = hs"

definition block160 :: "int list \<Rightarrow> int list \<Rightarrow> int list" where
  "block160 hs b =
     map2 (\<lambda>x y. wrap (x + y)) hs
       (foldl round160 hs (zip (concat (map (replicate 20) [0, 1, 2, 3])) (schedule160 64 (rev b))))"

definition sha1_digest :: "string \<Rightarrow> string" where
  "sha1_digest s = word_bytes (foldl block160 H160 (blocks s))"

section \<open>Hexadecimal text\<close>

definition hex_text :: "string \<Rightarrow> string" where
  "hex_text bs =
     concat (map (\<lambda>c. [''0123456789abcdef'' ! (of_char c div 16), ''0123456789abcdef'' ! (of_char c mod 16)]) bs)"

definition hex_char :: "char \<Rightarrow> bool" where
  "hex_char c = (c \<in> set ''0123456789abcdef'')"

text \<open>\<^verbatim>\<open>hashlib.sha256(data).hexdigest()\<close>.\<close>

definition sha256 :: "string \<Rightarrow> string" where
  "sha256 s = hex_text (sha256_digest s)"

lemma sha256_vectors:
  "sha256 [] = ''e3b0c44298fc1c149afbf4c8996fb92427ae41e4649b934ca495991b7852b855''"
  "sha256 ''abc'' = ''ba7816bf8f01cfea414140de5dae2223b00361a396177a9cb410ff61f20015ad''"
  by code_simp+

lemma sha1_vector: "hex_text (sha1_digest ''abc'') = ''a9993e364706816aba3e25717850c26c9cd0d89d''"
  by code_simp

text \<open>Every digest is 64 lower-case hexadecimal digits.\<close>

lemma be_bytes_length [simp]: "length (be_bytes k n) = k"
  by (induction k n rule: be_bytes.induct) auto

lemma word_bytes_length: "length (word_bytes ws) = 4 * length ws"
  by (induction ws) (simp_all add: word_bytes_def)

lemma round256_length: "length (round256 hs kw) = length hs"
  by (cases "(hs, kw)" rule: round256.cases) (simp_all add: Let_def)

lemma rounds256_length: "length (foldl round256 hs kws) = length hs"
  by (induction kws arbitrary: hs) (simp_all add: round256_length)

lemma blocks256_length: "length (foldl block256 hs bs) = length hs"
  by (induction bs arbitrary: hs) (simp_all add: block256_def rounds256_length)

lemma hex_text_length: "length (hex_text bs) = 2 * length bs"
  by (induction bs) (simp_all add: hex_text_def)

lemma hex_digit_char: "n < 16 \<Longrightarrow> hex_char (''0123456789abcdef'' ! n)"
proof -
  have "\<forall>k\<in>set [0..<16]. hex_char (''0123456789abcdef'' ! k)" by code_simp
  then show "n < 16 \<Longrightarrow> ?thesis" by simp
qed

lemma high_nibble: "ord c div 16 < 16"
  using nat_of_char_less_256 [of c] by (simp add: less_mult_imp_div_less)

lemma hex_text_digits: "list_all hex_char (hex_text bs)"
  unfolding hex_text_def by (induction bs) (simp_all add: hex_digit_char high_nibble)

lemma sha256_hex: "length (sha256 s) = 64 \<and> list_all hex_char (sha256 s)"
  by (simp add: sha256_def hex_text_digits hex_text_length sha256_digest_def word_bytes_length blocks256_length H256_def)

section \<open>UUIDs\<close>

text \<open>
  A UUID is its 16 bytes. The constructor writes the version into the seventh byte and
  the variant into the ninth.
\<close>

definition with_version :: "nat \<Rightarrow> string \<Rightarrow> string" where
  "with_version v bs = bs[6 := char_of (16 * v + ord (bs ! 6) mod 16), 8 := char_of (128 + ord (bs ! 8) mod 64)]"

text \<open>\<^verbatim>\<open>str(u)\<close> and \<^verbatim>\<open>uuid.UUID(text)\<close>, the latter on text that \<^verbatim>\<open>str\<close> wrote.\<close>

definition uuid_str :: "string \<Rightarrow> string" where
  "uuid_str bs =
     hex_text (take 4 bs) @ ''-'' @ hex_text (take 2 (drop 4 bs)) @ ''-'' @ hex_text (take 2 (drop 6 bs)) @ ''-''
     @ hex_text (take 2 (drop 8 bs)) @ ''-'' @ hex_text (drop 10 bs)"

definition nibble :: "char \<Rightarrow> nat" where
  "nibble c = (if is_digit c then ord c - 48 else ord c - 87)"

fun bytes_of_hex :: "string \<Rightarrow> string" where
  "bytes_of_hex (a # b # r) = char_of (16 * nibble a + nibble b) # bytes_of_hex r"
| "bytes_of_hex _ = []"

definition uuid_of_str :: "string \<Rightarrow> string res" where
  "uuid_of_str s =
     (let h = filter (\<lambda>c. c \<noteq> CHR ''-'') s
      in if length h = 32 \<and> list_all hex_char h then Inr (bytes_of_hex h)
         else Inl (ValueError ''badly formed hexadecimal UUID string''))"

text \<open>\<^verbatim>\<open>uuid.uuid4()\<close> from the 16 bytes of \<^verbatim>\<open>os.urandom\<close>, and \<^verbatim>\<open>uuid.uuid5(namespace, name)\<close>.\<close>

definition uuid4 :: "string \<Rightarrow> string" where
  "uuid4 random = with_version 4 random"

definition uuid5 :: "string \<Rightarrow> string \<Rightarrow> string res" where
  "uuid5 namespace name = rbind (utf8_encode name) (\<lambda>n. Inr (with_version 5 (take 16 (sha1_digest (namespace @ n)))))"

lemma bytes_of_hex_text: "bytes_of_hex (hex_text bs) = bs"
proof -
  have small: "\<forall>k\<in>set [0..<16]. nibble (''0123456789abcdef'' ! k) = k" by code_simp
  have "char_of (16 * nibble (''0123456789abcdef'' ! (ord c div 16)) + nibble (''0123456789abcdef'' ! (ord c mod 16))) = c" for c
  proof -
    have "nibble (''0123456789abcdef'' ! k) = k" if "k < 16" for k using small that by simp
    then show ?thesis using high_nibble [of c] by simp
  qed
  then show ?thesis unfolding hex_text_def by (induction bs) simp_all
qed

lemma no_dash: "filter (\<lambda>c. c \<noteq> CHR ''-'') (hex_text bs) = hex_text bs"
proof (rule filter_True, rule ballI)
  fix c assume "c \<in> set (hex_text bs)"
  then have "hex_char c" using hex_text_digits [of bs] by (simp only: list_all_iff)
  moreover have "\<not> hex_char CHR ''-''" by code_simp
  ultimately show "c \<noteq> CHR ''-''" by metis
qed

lemma hex_text_append: "hex_text (a @ b) = hex_text a @ hex_text b"
  by (simp add: hex_text_def)

lemma uuid_roundtrip:
  assumes "length bs = 16"
  shows "uuid_of_str (uuid_str bs) = Inr bs"
proof -
  have "bs = take 4 bs @ take 2 (drop 4 bs) @ take 2 (drop 6 bs) @ take 2 (drop 8 bs) @ drop 10 bs"
    using append_take_drop_id [of 4 bs] append_take_drop_id [of 2 "drop 4 bs"] append_take_drop_id [of 2 "drop 6 bs"]
      append_take_drop_id [of 2 "drop 8 bs"] by simp
  then have "filter (\<lambda>c. c \<noteq> CHR ''-'') (uuid_str bs) = hex_text bs"
    by (simp add: uuid_str_def no_dash flip: hex_text_append)
  with assms show ?thesis
    by (simp add: uuid_of_str_def Let_def hex_text_length hex_text_digits bytes_of_hex_text)
qed

lemma uuid4_length: "length random = 16 \<Longrightarrow> length (uuid4 random) = 16"
  by (simp add: uuid4_def with_version_def)

end
