(* ===== verification/Canonical_Json.thy ===== *)
theory Canonical_Json
  imports Py_Json Py_Hash "HOL-Library.Char_ord" "HOL-Library.List_Lexorder" "HOL-Library.Multiset"
begin

text \<open>
  The canonical form of a document and its digest:
  \<^verbatim>\<open>json.dumps(value, sort_keys=True, separators=(",", ":"), ensure_ascii=False)\<close>, encoded
  and hashed. The text of a float is \<^verbatim>\<open>float.__repr__\<close>, the shortest decimal that rounds
  to the value (the sign of a zero is not kept by the value model). Text is UTF-8, whose
  byte order is the order of code points that \<^verbatim>\<open>sort_keys\<close> uses. The main result is
  that the canonical text of a document without floats determines the document up to
  the order of keys.
\<close>

section \<open>Text of a float\<close>

text \<open>The decimal exponent of a positive rational.\<close>

definition ilog10 :: "rat \<Rightarrow> int" where
  "ilog10 x =
     (let (n, d) = quotient_of x; k = int (length (show_int n)) - int (length (show_int d))
      in if 10 powi k \<le> x then k else k - 1)"

text \<open>
  The digits and the power of ten of their last place: the fewest digits whose value
  rounds to \<open>x\<close>, the nearer of two candidates and the even one at equal distance.
\<close>

fun shortest_digits :: "rat \<Rightarrow> int \<Rightarrow> nat list \<Rightarrow> int \<times> int" where
  "shortest_digits x e [] = (round_half_even (x / 10 powi (e - 16)), e - 16)"
| "shortest_digits x e (n # ns) =
     (let p = e + 1 - int n; q = x / 10 powi p; m = \<lfloor>q\<rfloor>; near = round_half_even q
      in if fl_pos (of_int near * 10 powi p) = x then (near, p)
         else if fl_pos (of_int m * 10 powi p) = x then (m, p)
         else if fl_pos (of_int (m + 1) * 10 powi p) = x then (m + 1, p)
         else shortest_digits x e ns)"

definition drop_zeros :: "string \<Rightarrow> string" where
  "drop_zeros ds = rev (dropWhile (\<lambda>c. c = CHR ''0'') (rev ds))"

definition exponent_text :: "int \<Rightarrow> string" where
  "exponent_text x =
     (if x < 0 then ''-'' else ''+'') @ (if \<bar>x\<bar> < 10 then ''0'' else []) @ show_int \<bar>x\<bar>"

text \<open>The digits \<open>d\<^sub>1d\<^sub>2\<dots>\<close> stand for \<open>d\<^sub>1.d\<^sub>2\<dots> \<cdot> 10\<^sup>x\<close>.\<close>

definition place_point :: "string \<Rightarrow> int \<Rightarrow> string" where
  "place_point ds x =
     (if - 4 \<le> x \<and> x < 0 then ''0.'' @ replicate (nat (- x - 1)) CHR ''0'' @ ds
      else if 0 \<le> x \<and> x < 16 then
        (if int (length ds) \<le> x + 1 then ds @ replicate (nat (x + 1) - length ds) CHR ''0'' @ ''.0''
         else take (nat (x + 1)) ds @ ''.'' @ drop (nat (x + 1)) ds)
      else take 1 ds @ (if length ds \<le> 1 then [] else ''.'' @ drop 1 ds) @ ''e'' @ exponent_text x)"

definition positive_repr :: "rat \<Rightarrow> string" where
  "positive_repr x =
     (let (m, p) = shortest_digits x (ilog10 x) [1..<18]; ds = show_int m
      in place_point (drop_zeros ds) (p + int (length ds) - 1))"

fun float_text :: "pyfloat \<Rightarrow> string" where
  "float_text (Fin x) =
     (if x = 0 then ''0.0'' else if x < 0 then CHR ''-'' # positive_repr (- x) else positive_repr x)"
| "float_text PInf = ''Infinity''"
| "float_text NInf = ''-Infinity''"
| "float_text NaN = ''NaN''"

section \<open>Canonical text\<close>

definition sort_items :: "(string \<times> 'a) list \<Rightarrow> (string \<times> 'a) list" where
  "sort_items d = sort_key fst d"

fun canonical_text :: "pyval \<Rightarrow> string" where
  "canonical_text PNone = ''null''"
| "canonical_text (PBool b) = (if b then ''true'' else ''false'')"
| "canonical_text (PInt i) = show_int i"
| "canonical_text (PFloat f) = float_text f"
| "canonical_text (PStr s) = json_string s"
| "canonical_text (PList vs) = CHR ''['' # join_comma (map canonical_text vs) @ '']''"
| "canonical_text (PDict d) =
     CHR ''{'' # join_comma (map (\<lambda>(k, t). json_string k @ CHR '':'' # t)
                              (sort_items (map (\<lambda>(k, v). (k, canonical_text v)) d))) @ ''}''"

definition canonical_digest :: "pydict \<Rightarrow> string res" where
  "canonical_digest d = rbind (utf8_encode (canonical_text (PDict d))) (\<lambda>data. Inr (sha256 data))"

text \<open>The same document with the keys of every object in order.\<close>

fun sorted_value :: "pyval \<Rightarrow> pyval" where
  "sorted_value (PList vs) = PList (map sorted_value vs)"
| "sorted_value (PDict d) = PDict (sort_items (map (\<lambda>(k, v). (k, sorted_value v)) d))"
| "sorted_value v = v"

lemma canonical_digest_Inr:
  "canonical_digest d = Inr h \<longleftrightarrow> utf8_valid (canonical_text (PDict d)) \<and> h = sha256 (canonical_text (PDict d))"
  by (auto simp: canonical_digest_def utf8_encode_def)

lemma sort_items_map:
  fixes f :: "'a \<Rightarrow> 'b"
  shows "sort_items (map (\<lambda>(k, v). (k, f v)) d) = map (\<lambda>(k, v). (k, f v)) (sort_items d)"
proof -
  have insert: "insort_key fst (k, f v) (map (\<lambda>(k, v). (k, f v)) d) = map (\<lambda>(k, v). (k, f v)) (insort_key fst (k, v) d)"
    for k v and d :: "(string \<times> 'a) list"
    by (induction d) auto
  show ?thesis unfolding sort_items_def by (induction d) (auto simp: insert)
qed

lemma sort_items_set [simp]: "set (sort_items d) = set d"
  by (simp add: sort_items_def)

lemma sort_items_mset: "mset (sort_items d) = mset d"
  by (simp add: sort_items_def)

lemma sort_items_distinct: "distinct (map fst (sort_items d)) \<longleftrightarrow> distinct (map fst d)"
  by (metis sort_items_mset mset_map mset_eq_imp_distinct_iff)

text \<open>The canonical text does not depend on the order in which keys were inserted.\<close>

lemma sort_items_permute:
  assumes "mset d = mset d'" "distinct (map fst d)"
  shows "sort_items d = sort_items d'"
  unfolding sort_items_def
  by (rule sort_key_inj_key_eq) (use assms in \<open>simp_all add: distinct_map\<close>)

lemma canonical_text_permute:
  assumes "mset d = mset d'" "distinct (map fst d)"
  shows "canonical_text (PDict d) = canonical_text (PDict d')"
proof -
  have "sort_items (map (\<lambda>(k, v). (k, canonical_text v)) d) = sort_items (map (\<lambda>(k, v). (k, canonical_text v)) d')"
    by (rule sort_items_permute) (use assms in \<open>simp_all add: mset_map case_prod_unfold comp_def\<close>)
  then show ?thesis by simp
qed

text \<open>The keys of a canonical document are in order, and its values are those of the document.\<close>

lemma sorted_value_plain: "plain_json v \<Longrightarrow> plain_json (sorted_value v)"
proof (induction v rule: sorted_value.induct)
  case (2 d)
  then have "\<And>k v. (k, v) \<in> set d \<Longrightarrow> plain_json (sorted_value v)" by (auto simp: list_all_iff)
  moreover have "distinct (map fst (sort_items (map (\<lambda>(k, v). (k, sorted_value v)) d)))"
    using 2 by (simp add: sort_items_distinct case_prod_unfold comp_def)
  ultimately show ?case by (auto simp: list_all_iff)
qed (auto simp: list_all_iff)

lemma canonical_text_compact: "plain_json v \<Longrightarrow> canonical_text v = json_compact (sorted_value v)"
proof (induction v rule: sorted_value.induct)
  case (1 vs)
  then have "map canonical_text vs = map json_compact (map sorted_value vs)" by (simp add: list_all_iff)
  then show ?case by (simp only: canonical_text.simps json_compact.simps sorted_value.simps)
next
  case (2 d)
  have "map (\<lambda>(k, v). (k, canonical_text v)) d = map (\<lambda>(k, v). (k, json_compact (sorted_value v))) d"
    using 2 by (auto simp: list_all_iff)
  then have "canonical_text (PDict d) =
      CHR ''{'' # join_comma (map (\<lambda>(k, t). json_string k @ CHR '':'' # t)
                               (map (\<lambda>(k, v). (k, json_compact (sorted_value v))) (sort_items d))) @ ''}''"
    by (simp only: canonical_text.simps sort_items_map)
  moreover have "map (\<lambda>(k, t). json_string k @ CHR '':'' # t) (map (\<lambda>(k, v). (k, json_compact (sorted_value v))) (sort_items d))
      = map (\<lambda>(k, v). json_string k @ CHR '':'' # json_compact v) (map (\<lambda>(k, v). (k, sorted_value v)) (sort_items d))"
    by auto
  ultimately show ?case by (simp only: json_compact.simps sorted_value.simps sort_items_map)
qed auto

text \<open>Reading the canonical text gives the document with its keys sorted.\<close>

lemma canonical_text_roundtrip:
  assumes "plain_json v"
  shows "json_loads plain_hook (canonical_text v) = Inr (sorted_value v)"
  using canonical_text_compact [OF assms] json_loads_compact [OF plain_hook_distinct sorted_value_plain [OF assms]]
  by simp

section \<open>Canonical text is encodable\<close>

definition ascii7 :: "string \<Rightarrow> bool" where
  "ascii7 s = list_all (\<lambda>c. ord c < 128) s"

lemma ascii7_simps [simp]:
  "ascii7 []" "ascii7 (c # s) \<longleftrightarrow> ord c < 128 \<and> ascii7 s" "ascii7 (s @ t) \<longleftrightarrow> ascii7 s \<and> ascii7 t"
  by (simp_all add: ascii7_def)

text \<open>The four lengths of an encoded character.\<close>

lemma utf8_valid_cases:
  assumes "utf8_valid (c # cs)"
  obtains (one) "ord c < 128" "utf8_valid cs"
    | (two) d r where "cs = d # r" "194 \<le> ord c" "ord c \<le> 223" "is_cont d" "utf8_valid r"
    | (three) d e r where "cs = d # e # r" "224 \<le> ord c" "ord c \<le> 239" "is_cont d" "is_cont e"
        "ord c = 224 \<longrightarrow> 160 \<le> ord d" "ord c = 237 \<longrightarrow> ord d \<le> 159" "utf8_valid r"
    | (four) d e f r where "cs = d # e # f # r" "240 \<le> ord c" "ord c \<le> 244" "is_cont d" "is_cont e" "is_cont f"
        "ord c = 240 \<longrightarrow> 144 \<le> ord d" "ord c = 244 \<longrightarrow> ord d \<le> 143" "utf8_valid r"
proof -
  consider "ord c < 128" | "194 \<le> ord c" "ord c \<le> 223" | "224 \<le> ord c" "ord c \<le> 239" | "240 \<le> ord c" "ord c \<le> 244"
    using assms by (fastforce split: if_splits)
  then show thesis
  proof cases
    case 1
    with assms show ?thesis by (intro one) simp_all
  next
    case 2
    with assms obtain d r where "cs = d # r" "is_cont d" "utf8_valid r"
      by (cases cs) (simp_all del: is_cont.simps)
    with 2 show ?thesis by (intro two)
  next
    case 3
    with assms obtain d r' where d: "cs = d # r'" by (cases cs) simp_all
    with 3 assms obtain e r where "r' = e # r" by (cases r') simp_all
    with 3 d assms show ?thesis by (intro three [of d e r]) (simp_all del: is_cont.simps)
  next
    case 4
    with assms obtain d r' where d: "cs = d # r'" by (cases cs) simp_all
    with 4 assms obtain e r'' where e: "r' = e # r''" by (cases r') simp_all
    with 4 d assms obtain f r where "r'' = f # r" by (cases r'') simp_all
    with 4 d e assms show ?thesis by (intro four [of d e f r]) (simp_all del: is_cont.simps)
  qed
qed

lemma utf8_valid_append: "utf8_valid s \<Longrightarrow> utf8_valid (s @ t) = utf8_valid t"
proof (induction s rule: length_induct)
  case (1 s)
  show ?case
  proof (cases s)
    case (Cons c cs)
    with 1(2) have "utf8_valid (c # cs)" by simp
    then show ?thesis
      by (cases rule: utf8_valid_cases) (use 1(1) Cons in \<open>simp_all del: is_cont.simps\<close>)
  qed simp
qed

lemma ascii7_valid: "ascii7 s \<Longrightarrow> utf8_valid s"
  by (simp add: ascii7_def utf8_valid_ascii)

lemma ascii7_show_nat: "ascii7 (show_nat n)"
proof (induction n rule: show_nat.induct)
  case (1 n)
  have digit: "ord (''0123456789'' ! k) < 128" if "k < 10" for k
  proof -
    have "\<forall>k\<in>set [0..<10]. ord (''0123456789'' ! k) < 128" by code_simp
    with that show ?thesis by simp
  qed
  show ?case using 1 digit [of n] digit [of "n mod 10"] by (subst show_nat.simps) simp
qed

lemma ascii7_subset: "ascii7 t \<Longrightarrow> set s \<subseteq> set t \<Longrightarrow> ascii7 s"
  by (auto simp: ascii7_def list_all_iff)

lemma ascii7_show_int: "ascii7 (show_int i)"
  by (simp add: show_int_def ascii7_show_nat)

lemma ascii7_place_point: "ascii7 ds \<Longrightarrow> ascii7 (place_point ds x)"
proof -
  assume ds: "ascii7 ds"
  have "ascii7 (replicate n (CHR ''0''))" for n by (induction n) simp_all
  moreover have "ascii7 (take n ds)" "ascii7 (drop n ds)" for n
    using ascii7_subset [OF ds] by (simp_all add: set_take_subset set_drop_subset)
  ultimately show ?thesis
    using ds by (simp add: place_point_def exponent_text_def ascii7_show_int)
qed

lemma ascii7_float_text: "ascii7 (float_text f)"
proof -
  have "set (drop_zeros s) \<subseteq> set s" for s by (auto simp: drop_zeros_def dest: set_dropWhileD)
  then have "ascii7 (drop_zeros (show_int i))" for i using ascii7_subset ascii7_show_int by blast
  then have "ascii7 (positive_repr x)" for x by (simp add: positive_repr_def ascii7_place_point Let_def split: prod.splits)
  then show ?thesis by (cases f) simp_all
qed

text \<open>Every string of a value can be encoded.\<close>

fun encodable :: "pyval \<Rightarrow> bool" where
  "encodable (PStr s) = utf8_valid s"
| "encodable (PList vs) = list_all encodable vs"
| "encodable (PDict d) = list_all (\<lambda>(k, v). utf8_valid k \<and> encodable v) d"
| "encodable _ = True"

lemma escape_high: "128 \<le> ord c \<Longrightarrow> escape_out c = [c]"
proof -
  assume high: "128 \<le> ord c"
  then have "c \<noteq> d" if "ord d < 128" for d using that by auto
  with high show ?thesis by (simp add: escape_out_def)
qed

lemma escape_low: "ord c < 128 \<Longrightarrow> ascii7 (escape_out c)"
proof -
  have digit: "ord (''0123456789abcdef'' ! k) < 128" if "k < 16" for k
  proof -
    have "\<forall>k\<in>set [0..<16]. ord (''0123456789abcdef'' ! k) < 128" by code_simp
    with that show ?thesis by simp
  qed
  assume "ord c < 128"
  then show ?thesis using digit [of "ord c div 16"] digit [of "ord c mod 16"] by (simp add: escape_out_def)
qed

lemma escaped_valid: "utf8_valid s \<Longrightarrow> utf8_valid (concat (map escape_out s))"
proof (induction s rule: length_induct)
  case (1 s)
  show ?case
  proof (cases s)
    case (Cons c cs)
    with 1(2) have "utf8_valid (c # cs)" by simp
    then show ?thesis
    proof (cases rule: utf8_valid_cases)
      case one
      with 1(1) Cons show ?thesis by (simp add: utf8_valid_append ascii7_valid escape_low)
    qed (use 1(1) Cons in \<open>simp_all add: escape_high\<close>)
  qed simp
qed

lemma json_string_valid: "utf8_valid s \<Longrightarrow> utf8_valid (json_string s)"
  by (simp add: json_string_def utf8_valid_append escaped_valid)

lemma join_comma_valid: "\<forall>x\<in>set xs. utf8_valid x \<Longrightarrow> utf8_valid (join_comma xs)"
  by (induction xs rule: join_comma.induct) (simp_all add: utf8_valid_append)

lemma canonical_text_valid: "encodable v \<Longrightarrow> utf8_valid (canonical_text v)"
proof (induction v rule: encodable.induct)
  case (2 vs)
  then show ?case by (simp add: utf8_valid_append join_comma_valid list_all_iff)
next
  case (3 d)
  have "utf8_valid (canonical_text v)" if "(k, v) \<in> set d" for k v
    using 3 that by (auto simp: list_all_iff)
  with 3 have "utf8_valid (json_string k @ CHR '':'' # canonical_text v)" if "(k, v) \<in> set d" for k v
    using that by (auto simp: utf8_valid_append json_string_valid list_all_iff)
  then have "utf8_valid (join_comma (map (\<lambda>(k, t). json_string k @ CHR '':'' # t)
               (sort_items (map (\<lambda>(k, v). (k, canonical_text v)) d))))"
    by (intro join_comma_valid) auto
  then show ?case by (simp add: utf8_valid_append)
qed (simp_all add: json_string_valid ascii7_valid ascii7_show_int ascii7_float_text)

lemma canonical_digest_encodable: "encodable (PDict d) \<Longrightarrow> canonical_digest d = Inr (sha256 (canonical_text (PDict d)))"
  using canonical_text_valid [of "PDict d"] by (simp only: canonical_digest_Inr)

end
