(* ===== verification/Candidate.thy ===== *)
theory Candidate
  imports Canonical_Json
begin

text \<open>
  The evidence document of the candidate product path
  (\<^verbatim>\<open>scripts/legofs_candidate_evidence.py\<close>): construction of the initial document from a
  build manifest, and the validator that every document has to pass, with its error
  values in the order of the code. A document is a JSON value; the random bytes behind
  \<^verbatim>\<open>uuid.uuid4()\<close> are an argument. Documents come from \<^verbatim>\<open>json.load\<close>, which returns the
  same object for every \<^verbatim>\<open>NaN\<close>, so a set keeps one of them.
\<close>

section \<open>Constants\<close>

definition SCHEMA_VERSION :: string where
  "SCHEMA_VERSION = ''legofs.rdwo-candidate-evidence.v1''"

definition SECTION_NAMES :: "string list" where
  "SECTION_NAMES =
     [''engine_build_attestation'', ''process_terminals'', ''network_closure'', ''response_and_final_drain'',
      ''qemu_bi_topology'', ''artifact_completion'']"

definition CANDIDATE_ARTIFACTS :: "string list" where
  "CANDIDATE_ARTIFACTS =
     [''rdwo_client'', ''rdwo_server'', ''rdwo_host_agent'', ''rdwo_intercept'', ''product_engine_manifest'',
      ''product_capability_manifest'']"

definition BANNED_LEGACY_KEYS :: "string list" where
  "BANNED_LEGACY_KEYS =
     [''posix_path_summaries'', ''lifecycle_inspection'', ''legofs_timing'', ''legacy_lifecycle_inspector'',
      ''destructor_summary'', ''badfs_bench_timing'']"

definition BANNED_LEGACY_VALUE_FRAGMENTS :: "string list" where
  "BANNED_LEGACY_VALUE_FRAGMENTS = [''badfs-bench'', ''legacy lifecycle inspector'', ''destructor summary'']"

definition HEX_DIGEST_LENGTH :: nat where
  "HEX_DIGEST_LENGTH = 64"

section \<open>Construction\<close>

definition unsupported :: "string \<Rightarrow> string list \<Rightarrow> pydict res" where
  "unsupported reason missing =
     (if reason = [] \<or> missing = []
      then Inl (CandidateEvidenceError ''not_yet_supported sections require a reason and missing evidence'')
      else Inr [(''status'', PStr ''not_yet_supported''), (''reason'', PStr reason),
                (''missing_evidence'', PList (map PStr missing))])"

text \<open>\<^verbatim>\<open>value[name]\<close> with a string as the index.\<close>

definition index_of :: "pyval \<Rightarrow> string \<Rightarrow> pyval res" where
  "index_of v name = (case v of PDict d \<Rightarrow> dindex d name | _ \<Rightarrow> Inl TypeError)"

definition is_digest :: "pyval \<Rightarrow> bool" where
  "is_digest v = (case v of PStr s \<Rightarrow> length s = HEX_DIGEST_LENGTH \<and> list_all hex_char s | _ \<Rightarrow> False)"

fun nonempty_str :: "pyval \<Rightarrow> bool" where
  "nonempty_str (PStr s) = (s \<noteq> [])" | "nonempty_str _ = False"

text \<open>\<^verbatim>\<open>isinstance(size, int) and size > 0\<close>, which \<^verbatim>\<open>True\<close> satisfies, and the same for \<open>\<ge> 0\<close>.\<close>

fun positive_int :: "pyval \<Rightarrow> bool" where
  "positive_int (PInt i) = (0 < i)" | "positive_int (PBool b) = b" | "positive_int _ = False"

fun natural_int :: "pyval \<Rightarrow> bool" where
  "natural_int (PInt i) = (0 \<le> i)" | "natural_int (PBool b) = True" | "natural_int _ = False"

definition artifact_record :: "pydict \<Rightarrow> string \<Rightarrow> pydict res" where
  "artifact_record manifest name =
     (case rbind (dindex manifest ''artifacts'') (\<lambda>artifacts.
           rbind (index_of artifacts name) (\<lambda>record.
           rbind (index_of record ''path'') (\<lambda>path.
           rbind (index_of record ''size'') (\<lambda>extent.
           rbind (index_of record ''sha256'') (\<lambda>digest. Inr (path, extent, digest)))))) of
        Inl _ \<Rightarrow> Inl (CandidateEvidenceError (''candidate build manifest lacks artifact: '' @ name))
      | Inr (path, extent, digest) \<Rightarrow>
          if \<not> nonempty_str path then Inl (CandidateEvidenceError (''candidate artifact has invalid path: '' @ name))
          else if \<not> positive_int extent then Inl (CandidateEvidenceError (''candidate artifact has invalid size: '' @ name))
          else if \<not> is_digest digest then Inl (CandidateEvidenceError (''candidate artifact has invalid digest: '' @ name))
          else Inr [(''path'', path), (''size'', extent), (''sha256'', digest)])"

definition guest_declaration :: "string \<Rightarrow> string \<Rightarrow> int \<Rightarrow> int \<Rightarrow> string \<Rightarrow> pydict res" where
  "guest_declaration run_uuid role index endpoint launch_state =
     rbind (uuid_of_str run_uuid) (\<lambda>namespace.
     rbind (uuid5 namespace (role @ '':'' @ show_int index)) (\<lambda>u.
     let guest_uuid = uuid_str u
     in Inr [(''role'', PStr role), (''index'', PInt index), (''guest_uuid'', PStr guest_uuid),
             (''independent_address_space'', PStr (''qemu-process:'' @ guest_uuid)),
             (''endpoint_host_id'', PInt endpoint), (''region_generation'', PNone),
             (''launch_state'', PStr launch_state)]))"

text \<open>The roles and indices in the order of the two nested loops.\<close>

definition guest_roles :: "int \<Rightarrow> int \<Rightarrow> (string \<times> int) list" where
  "guest_roles server_count client_count =
     map (\<lambda>i. (''server'', i)) [0..server_count - 1] @ map (\<lambda>i. (''client'', i)) [0..client_count - 1]"

definition guest_declarations :: "string \<Rightarrow> int \<Rightarrow> int \<Rightarrow> pyval list res" where
  "guest_declarations run_uuid server_count client_count =
     (let roles = guest_roles server_count client_count
      in rbind (rmap (\<lambda>(endpoint, role, index). guest_declaration run_uuid role index endpoint ''required'')
                  (zip [0..int (length roles) - 1] roles)) (\<lambda>guests.
         rbind (guest_declaration run_uuid ''cold-observer'' 0 (int (length roles)) ''predeclared-not-launched'') (\<lambda>observer.
         Inr (map PDict (guests @ [observer])))))"

section \<open>Validation of the sections\<close>

definition fail :: "bool \<Rightarrow> string \<Rightarrow> unit res" where
  "fail bad message = rcheck bad (CandidateEvidenceError message)"

text \<open>Paths and values below a value, a container before its contents.\<close>

function walk :: "string list \<Rightarrow> pyval \<Rightarrow> (string list \<times> pyval) list" where
  "walk path (PDict d) = concat (map (\<lambda>(key, child). (path @ [key], child) # walk (path @ [key]) child) d)"
| "walk path (PList vs) =
     concat (map (\<lambda>(index, child). (path @ [show_nat index], child) # walk (path @ [show_nat index]) child)
               (zip [0..<length vs] vs))"
| "walk path PNone = []"
| "walk path (PBool b) = []"
| "walk path (PInt i) = []"
| "walk path (PFloat f) = []"
| "walk path (PStr s) = []"
  by pat_completeness auto
termination
proof (relation "measure (\<lambda>(path, v). size v)", goal_cases)
  case (2 path d pair key child)
  then show ?case using size_pair_member [of key child d] by simp
next
  case (3 path vs pair index child)
  then have "child \<in> set vs" by (auto dest: set_zip_rightD)
  then have "size child < Suc (size_list size vs)" by (induction vs) auto
  then show ?case by simp
qed simp

definition validate_unsupported :: "string \<Rightarrow> pydict \<Rightarrow> unit res" where
  "validate_unsupported name section =
     rbind (fail (\<not> nonempty_str (dget section ''reason'')) (name @ '' lacks not_yet_supported reason'')) (\<lambda>_.
     fail (case dget section ''missing_evidence'' of PList items \<Rightarrow> items = [] \<or> \<not> list_all nonempty_str items | _ \<Rightarrow> True)
       (name @ '' lacks explicit missing evidence''))"

abbreviation is_complete :: "pydict \<Rightarrow> bool" where
  "is_complete section \<equiv> dget section ''status'' = PStr ''complete''"

definition process_identity :: "pyval \<Rightarrow> (pyval \<times> pyval) res" where
  "process_identity record =
     (case record of
        PDict d \<Rightarrow>
          let identity = (dget d ''process_uuid'', dget d ''exec_incarnation'')
          in rbind (fail (\<not> (nonempty_str (fst identity) \<and> nonempty_str (snd identity)))
                      ''candidate process terminal lacks identity'') (\<lambda>_.
             rbind (in_set (dget d ''terminal'') [''completed'', ''failed'', ''cancelled'']) (\<lambda>closed.
             rbind (fail (\<not> closed) ''candidate process terminal is unclosed'') (\<lambda>_.
             rbind (fail (\<not> is_digest (dget d ''terminal_digest'')) ''candidate process terminal lacks a digest'') (\<lambda>_.
             Inr identity))))
      | _ \<Rightarrow> Inl (CandidateEvidenceError ''candidate process terminal record is invalid''))"

definition validate_process_terminals :: "pydict \<Rightarrow> unit res" where
  "validate_process_terminals section =
     (if \<not> is_complete section then Inr ()
      else case dget section ''records'' of
        PList records \<Rightarrow>
          rbind (fail (records = [] \<or> \<not> py_eq (dget section ''expected_processes'') (PInt (int (length records))))
                   ''complete process terminals lack exact records'') (\<lambda>_.
          rbind (rmap process_identity records) (\<lambda>identities.
          rbind (fail (\<not> distinct identities) ''candidate process terminal identity is reused'') (\<lambda>_.
          let issued = dget section ''root_operations_issued''
          in fail (\<not> natural_int issued \<or> \<not> py_eq (dget section ''root_operations_terminal'') issued)
               ''candidate RootOperation conservation is open'')))
      | _ \<Rightarrow> Inl (CandidateEvidenceError ''complete process terminals lack exact records''))"

definition validate_network_closure :: "pydict \<Rightarrow> unit res" where
  "validate_network_closure section =
     (if \<not> is_complete section then Inr ()
      else
        rbind (rforall (\<lambda>field. fail (\<not> py_eq (dget section field) (PInt 0)) ''candidate network closure has a nonzero route'')
                 [''filesystem_socket_calls'', ''filesystem_tcp_routes'', ''unknown_semantic_routes'']) (\<lambda>_.
        rbind (fail (dget section ''filesystem_network_namespace_enforced'' \<noteq> PBool True)
                 ''candidate filesystem network namespace is not closed'') (\<lambda>_.
        rbind (fail (dget section ''functional_model_transport_classified'' \<noteq> PBool True)
                 ''candidate functional-model transport is unclassified'') (\<lambda>_.
        fail (\<not> is_digest (dget section ''route_allowlist_digest'')) ''candidate route allowlist is not digest closed''))))"

definition digest_closed :: "pydict \<Rightarrow> string \<Rightarrow> unit res" where
  "digest_closed section field =
     fail (\<not> is_digest (dget section field)) (''candidate '' @ field @ '' is not digest closed'')"

definition validate_response_and_drain :: "pydict \<Rightarrow> unit res" where
  "validate_response_and_drain section =
     (if \<not> is_complete section then Inr ()
      else
        let admitted = dget section ''requests_admitted''
        in rbind (fail (\<not> natural_int admitted \<or> \<not> py_eq (dget section ''responses_completed'') admitted)
                    ''candidate response conservation is open'') (\<lambda>_.
           rbind (fail (dget section ''final_drain_complete'' \<noteq> PBool True) ''candidate final drain is incomplete'') (\<lambda>_.
           rforall (digest_closed section)
             [''response_seal_digest'', ''fully_drained_seal_digest'', ''phase_terminal_digest''])))"

text \<open>\<^verbatim>\<open>len(set(xs)) != len(xs)\<close>: elements have to be hashable; equal and identical elements fall together.\<close>

fun pairwise_new :: "pyval list \<Rightarrow> bool" where
  "pairwise_new [] = True"
| "pairwise_new (x # xs) = (list_all (\<lambda>y. x \<noteq> y \<and> \<not> py_eq x y) xs \<and> pairwise_new xs)"

definition has_repeats :: "pyval list \<Rightarrow> bool res" where
  "has_repeats xs = (if list_all hashable xs then Inr (\<not> pairwise_new xs) else Inl TypeError)"

definition validate_topology :: "pydict \<Rightarrow> unit res" where
  "validate_topology section =
     (case dget section ''guest_declarations'' of
        PList (first # more) \<Rightarrow>
          let declarations = first # more
          in rbind (rmap (\<lambda>record. get_of record ''guest_uuid'') declarations) (\<lambda>uuids.
             rbind (rmap (\<lambda>record. get_of record ''independent_address_space'') declarations) (\<lambda>spaces.
             rbind (rmap (\<lambda>record. get_of record ''endpoint_host_id'') declarations) (\<lambda>endpoints.
             rbind (has_repeats uuids) (\<lambda>repeated.
             rbind (fail (repeated \<or> \<not> list_all truthy uuids) ''candidate guest UUIDs are absent or reused'') (\<lambda>_.
             rbind (has_repeats spaces) (\<lambda>repeated.
             rbind (fail (repeated \<or> \<not> list_all truthy spaces) ''candidate address spaces are absent or reused'') (\<lambda>_.
             rbind (has_repeats endpoints) (\<lambda>repeated.
             rbind (fail (repeated \<or> \<not> list_all natural_int endpoints) ''candidate endpoint identities are invalid'') (\<lambda>_.
             rbind (rfilter (\<lambda>record. rbind (get_of record ''role'') (\<lambda>role. Inr (role = PStr ''cold-observer''))) declarations) (\<lambda>observers.
             rbind (fail (length observers \<noteq> 1) ''candidate topology must predeclare one cold observer'') (\<lambda>_.
             if \<not> is_complete section then Inr ()
             else
               rbind (fail (dget section ''hdm_db_bi_observed'' \<noteq> PBool True) ''complete candidate topology lacks BI evidence'') (\<lambda>_.
               rbind (rmap (\<lambda>record. get_of record ''region_generation'') declarations) (\<lambda>generations.
               rbind (fail (PNone \<in> set generations) ''complete candidate topology lacks a region generation'') (\<lambda>_.
               rbind (get_of (hd observers) ''launch_state'') (\<lambda>state.
               fail (state \<noteq> PStr ''launched-and-observed'') ''complete candidate topology lacks a cold-observer receipt'')))))))))))))))
      | _ \<Rightarrow> Inl (CandidateEvidenceError ''candidate topology lacks guest declarations''))"

definition validate_artifact_completion :: "pydict \<Rightarrow> unit res" where
  "validate_artifact_completion section =
     (if \<not> is_complete section then Inr ()
      else
        rbind (fail (\<not> nonempty_str (dget section ''phase_artifact_path'')) ''candidate phase artifact path is missing'') (\<lambda>_.
        rbind (rforall (digest_closed section) [''phase_artifact_digest'', ''terminal_evidence_digest'']) (\<lambda>_.
        case dget section ''metric_units'' of
          PList units \<Rightarrow>
            rbind (rdisj (map (\<lambda>u. rbind (in_set u [''GiB/s'', ''kIOPS'']) (\<lambda>known. Inr (\<not> known))) units)) (\<lambda>unknown.
            fail unknown ''candidate metric units are invalid'')
        | _ \<Rightarrow> Inl (CandidateEvidenceError ''candidate metric units are invalid''))))"

section \<open>Validation of a document\<close>

definition join_dots :: "string list \<Rightarrow> string" where
  "join_dots path = concat (case path of [] \<Rightarrow> [] | p # ps \<Rightarrow> p # map (\<lambda>q. CHR ''.'' # q) ps)"

text \<open>
  \<^verbatim>\<open>value.lower()\<close> is the ASCII conversion here: no other character becomes a letter of a
  banned fragment at a place where the fragment could go on.
\<close>

definition cites_legacy :: "pyval \<Rightarrow> bool" where
  "cites_legacy v =
     (case v of PStr s \<Rightarrow> list_ex (\<lambda>fragment. contains fragment (ascii_lower s)) BANNED_LEGACY_VALUE_FRAGMENTS | _ \<Rightarrow> False)"

definition check_legacy :: "string list \<times> pyval \<Rightarrow> unit res" where
  "check_legacy pv = (case pv of (path, v) \<Rightarrow>
     rbind (fail (path \<noteq> [] \<and> last path \<in> set BANNED_LEGACY_KEYS)
              (''candidate evidence contains legacy source: '' @ join_dots path)) (\<lambda>_.
     fail (cites_legacy v) (''candidate evidence cites a forbidden legacy source: '' @ join_dots path)))"

definition check_section :: "pydict \<Rightarrow> string \<Rightarrow> pydict res" where
  "check_section sections name =
     rbind (dindex sections name) (\<lambda>section.
     case section of
       PDict d \<Rightarrow>
         let status = dget d ''status''
         in rbind (in_set status [''complete'', ''not_yet_supported'', ''failed'']) (\<lambda>known.
            rbind (fail (\<not> known) (''candidate evidence status is invalid: '' @ name)) (\<lambda>_.
            rbind (if status = PStr ''not_yet_supported'' then validate_unsupported name d else Inr ()) (\<lambda>_.
            rbind (if status = PStr ''failed''
                   then rbind (fail (\<not> nonempty_str (dget d ''reason'')) (name @ '' lacks an explicit failure reason'')) (\<lambda>_.
                        fail (\<not> nonempty_str (dget d ''failure_class'')) (name @ '' lacks an explicit failure class''))
                   else Inr ()) (\<lambda>_. Inr d))))
     | _ \<Rightarrow> Inl (CandidateEvidenceError (''candidate evidence section is invalid: '' @ name)))"

text \<open>\<^verbatim>\<open>set(value) == set(names)\<close> for a value of any type.\<close>

definition same_names :: "pyval \<Rightarrow> string list \<Rightarrow> bool res" where
  "same_names v names =
     (case v of
        PDict d \<Rightarrow> Inr (set (map fst d) = set names)
      | PList vs \<Rightarrow> if list_all hashable vs then Inr (set vs = PStr ` set names) else Inl TypeError
      | PStr s \<Rightarrow> Inr False
      | _ \<Rightarrow> Inl TypeError)"

definition check_attestation :: "pydict \<Rightarrow> unit res" where
  "check_attestation attestation =
     rbind (fail (\<not> is_complete attestation) ''candidate engine/build attestation must be complete'') (\<lambda>_.
     rbind (same_names (case map_of attestation ''artifacts'' of None \<Rightarrow> PDict [] | Some v \<Rightarrow> v) CANDIDATE_ARTIFACTS) (\<lambda>closed.
     rbind (fail (\<not> closed) ''candidate build attestation artifact set is not closed'') (\<lambda>_.
     rbind (rforall (digest_closed attestation)
              [''build_identity_digest'', ''product_engine_manifest_digest'', ''product_capability_manifest_digest'']) (\<lambda>_.
     rforall (\<lambda>name. rbind (dindex attestation ''artifacts'') (\<lambda>artifacts.
                      rbind (artifact_record [(''artifacts'', artifacts)] name) (\<lambda>_. Inr ())))
       CANDIDATE_ARTIFACTS))))"

definition expected_status :: "pydict list \<Rightarrow> string" where
  "expected_status sections =
     (let statuses = map (\<lambda>d. dget d ''status'') sections
      in if PStr ''failed'' \<in> set statuses then ''failed''
         else if list_all (\<lambda>s. s = PStr ''complete'') statuses then ''complete''
         else ''not_yet_supported'')"

definition without :: "string \<Rightarrow> pydict \<Rightarrow> pydict" where
  "without key d = filter (\<lambda>(k, v). k \<noteq> key) d"

definition validate_sections :: "pydict list \<Rightarrow> unit res" where
  "validate_sections checked =
     (case checked of
        [attestation, terminals, network, response, topology, completion] \<Rightarrow>
          rbind (check_attestation attestation) (\<lambda>_.
          rbind (validate_process_terminals terminals) (\<lambda>_.
          rbind (validate_network_closure network) (\<lambda>_.
          rbind (validate_response_and_drain response) (\<lambda>_.
          rbind (validate_topology topology) (\<lambda>_. validate_artifact_completion completion)))))
      | _ \<Rightarrow> Inl KeyError)"

definition validate :: "pyval \<Rightarrow> pyval res" where
  "validate document =
     (case document of
        PDict d \<Rightarrow>
          rbind (fail (dget d ''schema_version'' \<noteq> PStr SCHEMA_VERSION) ''candidate evidence schema mismatch'') (\<lambda>_.
          rbind (fail (dget d ''filesystem_mode'' \<noteq> PStr ''rdwo-candidate'') ''candidate evidence has the wrong filesystem mode'') (\<lambda>_.
          rbind (fail (dget d ''functional_model_only'' \<noteq> PBool True) ''V0 candidate evidence must remain functional-model-only'') (\<lambda>_.
          rbind (fail (dget d ''physical_hardware_evidence'' \<noteq> PBool False) ''V0 candidate evidence cannot claim physical hardware'') (\<lambda>_.
          rbind (fail (dget d ''official_candidate'' \<noteq> PBool False) ''V0 candidate evidence cannot claim official eligibility'') (\<lambda>_.
          rbind (rforall check_legacy (walk [] (PDict d))) (\<lambda>_.
          case dget d ''sections'' of
            PDict sections \<Rightarrow>
              rbind (fail (set (map fst sections) \<noteq> set SECTION_NAMES) ''candidate evidence section set is not closed'') (\<lambda>_.
              rbind (rmap (check_section sections) SECTION_NAMES) (\<lambda>checked.
              rbind (validate_sections checked) (\<lambda>_.
              rbind (fail (dget d ''status'' \<noteq> PStr (expected_status checked)) ''candidate aggregate status disagrees with sections'') (\<lambda>_.
              rbind (canonical_digest (without ''evidence_digest'' d)) (\<lambda>digest.
              rbind (fail (dget d ''evidence_digest'' \<noteq> PStr digest) ''candidate evidence digest mismatch'') (\<lambda>_.
              Inr document))))))
          | _ \<Rightarrow> Inl (CandidateEvidenceError ''candidate evidence section set is not closed'')))))))
      | _ \<Rightarrow> Inl (CandidateEvidenceError ''candidate evidence must be a JSON object''))"

section \<open>The initial document\<close>

text \<open>The arguments of \<^verbatim>\<open>create_skeleton\<close>.\<close>

record skeleton_request =
  sk_run_id :: string
  sk_stage :: string
  sk_owner_token :: string
  sk_build_manifest :: pydict
  sk_evaluation_manifest :: "pydict option"
  sk_server_count :: int
  sk_client_count :: int
  sk_qemu_machine :: string
  sk_shared_region_bytes :: int

definition skeleton_artifacts :: "pydict \<Rightarrow> pydict res" where
  "skeleton_artifacts manifest =
     rmap (\<lambda>name. rbind (artifact_record manifest name) (\<lambda>record. Inr (name, PDict record))) CANDIDATE_ARTIFACTS"

definition artifact_digest :: "pydict \<Rightarrow> string \<Rightarrow> pyval res" where
  "artifact_digest artifacts name = rbind (dindex artifacts name) (\<lambda>record. index_of record ''sha256'')"

definition skeleton_attestation :: "pydict \<Rightarrow> pydict \<Rightarrow> pydict res" where
  "skeleton_attestation manifest artifacts =
     rbind (canonical_digest (without ''artifacts'' manifest)) (\<lambda>identity.
     rbind (artifact_digest artifacts ''product_engine_manifest'') (\<lambda>engine.
     rbind (artifact_digest artifacts ''product_capability_manifest'') (\<lambda>capability.
     Inr [(''status'', PStr ''complete''), (''build_identity_digest'', PStr identity), (''artifacts'', PDict artifacts),
          (''product_engine_manifest_digest'', engine), (''product_capability_manifest_digest'', capability)])))"

definition skeleton_topology :: "skeleton_request \<Rightarrow> string \<Rightarrow> pydict res" where
  "skeleton_topology rq run_uuid =
     rbind (guest_declarations run_uuid (sk_server_count rq) (sk_client_count rq)) (\<lambda>declarations.
     Inr [(''status'', PStr ''not_yet_supported''),
          (''reason'', PStr ''guest identities are predeclared, but region generations and the cold-observer launch receipt are not yet emitted''),
          (''missing_evidence'', PList [PStr ''per_guest_region_generation'', PStr ''cold_observer_launch_receipt'']),
          (''qemu_machine'', PStr (sk_qemu_machine rq)), (''hdm_db_bi_required'', PBool True),
          (''shared_region_bytes'', PInt (sk_shared_region_bytes rq)), (''guest_declarations'', PList declarations)])"

definition skeleton_sections :: "skeleton_request \<Rightarrow> string \<Rightarrow> pydict res" where
  "skeleton_sections rq run_uuid =
     rbind (skeleton_artifacts (sk_build_manifest rq)) (\<lambda>artifacts.
     rbind (skeleton_attestation (sk_build_manifest rq) artifacts) (\<lambda>attestation.
     rbind (unsupported ''candidate process-terminal ABI is introduced in V1''
              [''root_operation_conservation'', ''per_process_terminal_records'']) (\<lambda>terminals.
     rbind (unsupported ''candidate socket and route accounting is introduced in V1''
              [''filesystem_socket_ledger'', ''route_allowlist_digest'']) (\<lambda>network.
     rbind (unsupported ''candidate response and durability seals are introduced in V1''
              [''response_seal'', ''fully_drained_seal'', ''phase_terminal'']) (\<lambda>response.
     rbind (skeleton_topology rq run_uuid) (\<lambda>topology.
     rbind (unsupported ''candidate phase artifacts cannot close before V1 terminal records exist''
              [''phase_artifact_digest'', ''terminal_evidence_digest'']) (\<lambda>completion.
     Inr [(''engine_build_attestation'', PDict attestation), (''process_terminals'', PDict terminals),
          (''network_closure'', PDict network), (''response_and_final_drain'', PDict response),
          (''qemu_bi_topology'', PDict topology), (''artifact_completion'', PDict completion)])))))))"

definition skeleton_document :: "skeleton_request \<Rightarrow> string \<Rightarrow> pydict \<Rightarrow> pydict" where
  "skeleton_document rq run_uuid sections =
     [(''schema_version'', PStr SCHEMA_VERSION), (''filesystem_mode'', PStr ''rdwo-candidate''),
      (''status'', PStr ''not_yet_supported''), (''run_id'', PStr (sk_run_id rq)), (''run_uuid'', PStr run_uuid),
      (''owner_token'', PStr (sk_owner_token rq)), (''stage'', PStr (sk_stage rq)),
      (''functional_model_only'', PBool True), (''physical_hardware_evidence'', PBool False),
      (''official_candidate'', PBool False),
      (''evaluation_manifest_digest'',
         case sk_evaluation_manifest rq of None \<Rightarrow> PNone | Some m \<Rightarrow> dget m ''manifest_digest''),
      (''sections'', PDict sections)]"

definition create_skeleton :: "string \<Rightarrow> skeleton_request \<Rightarrow> pydict res" where
  "create_skeleton random rq =
     (let run_uuid = uuid_str (uuid4 random)
      in rbind (skeleton_sections rq run_uuid) (\<lambda>sections.
         let document = skeleton_document rq run_uuid sections
         in rbind (canonical_digest document) (\<lambda>digest.
            let signed = aset ''evidence_digest'' (PStr digest) document
            in rbind (validate (PDict signed)) (\<lambda>_. Inr signed))))"

text \<open>The command: the text of the file (or the error of reading it) to the printed line.\<close>

definition candidate_main :: "(string \<Rightarrow> string res) \<Rightarrow> string \<Rightarrow> string res" where
  "candidate_main read_text path =
     rbind (read_text path) (\<lambda>source.
     rbind (json_loads plain_hook source) (\<lambda>document.
     rbind (validate document) (\<lambda>_. Inr (''candidate_evidence=PASS path='' @ path))))"

section \<open>What an accepted document says\<close>

lemma fail_Inr [simp]: "fail bad message = Inr u \<longleftrightarrow> \<not> bad"
  by (simp add: fail_def)

lemma fail_False [simp]: "fail False message = Inr ()"
  by (simp add: fail_def)

lemma digest_closed_Inr [simp]: "digest_closed section field = Inr u \<longleftrightarrow> is_digest (dget section field)"
  by (simp add: digest_closed_def)

lemma check_legacy_Inr [simp]:
  "check_legacy (path, v) = Inr u \<longleftrightarrow> (path = [] \<or> last path \<notin> set BANNED_LEGACY_KEYS) \<and> \<not> cites_legacy v"
  by (auto simp: check_legacy_def rbind_Inr_iff)

definition free_of_legacy :: "pydict \<Rightarrow> bool" where
  "free_of_legacy d = list_all (\<lambda>(path, v). last path \<notin> set BANNED_LEGACY_KEYS \<and> \<not> cites_legacy v) (walk [] (PDict d))"

lemma walk_path: "(path', v) \<in> set (walk path w) \<Longrightarrow> path' \<noteq> []"
  by (induction path w arbitrary: path' v rule: walk.induct) (fastforce dest: set_zip_leftD)+

lemma legacy_loop: "rforall check_legacy (walk [] (PDict d)) = Inr u \<longleftrightarrow> free_of_legacy d"
proof -
  have "check_legacy (path, v) = Inr () \<longleftrightarrow> last path \<notin> set BANNED_LEGACY_KEYS \<and> \<not> cites_legacy v"
    if "(path, v) \<in> set (walk [] (PDict d))" for path v
    using walk_path [OF that] by simp
  then show ?thesis by (fastforce simp: free_of_legacy_def list_all_iff)
qed

text \<open>The fixed claims of a document.\<close>

definition fixed_fields :: "pydict \<Rightarrow> bool" where
  "fixed_fields d \<longleftrightarrow>
     dget d ''schema_version'' = PStr SCHEMA_VERSION \<and> dget d ''filesystem_mode'' = PStr ''rdwo-candidate''
     \<and> dget d ''functional_model_only'' = PBool True \<and> dget d ''physical_hardware_evidence'' = PBool False
     \<and> dget d ''official_candidate'' = PBool False"

lemma validate_Inr:
  "validate document = Inr w \<longleftrightarrow>
     w = document \<and>
     (\<exists>d sections checked.
        document = PDict d \<and> fixed_fields d \<and> free_of_legacy d \<and> dget d ''sections'' = PDict sections
        \<and> set (map fst sections) = set SECTION_NAMES \<and> rmap (check_section sections) SECTION_NAMES = Inr checked
        \<and> validate_sections checked = Inr () \<and> dget d ''status'' = PStr (expected_status checked)
        \<and> (\<exists>digest. canonical_digest (without ''evidence_digest'' d) = Inr digest \<and> dget d ''evidence_digest'' = PStr digest))"
  unfolding validate_def case_dict_Inr
  by (simp only: rbind_Inr_iff fail_Inr legacy_loop case_dict_Inr fixed_fields_def not_not) auto

lemma check_section_Inr:
  "check_section sections name = Inr s \<longleftrightarrow>
     map_of sections name = Some (PDict s)
     \<and> (is_complete s \<or>
        dget s ''status'' = PStr ''not_yet_supported'' \<and> validate_unsupported name s = Inr () \<or>
        dget s ''status'' = PStr ''failed'' \<and> nonempty_str (dget s ''reason'') \<and> nonempty_str (dget s ''failure_class''))"
proof (cases "\<exists>d. map_of sections name = Some (PDict d)")
  case True
  then obtain d where d: "map_of sections name = Some (PDict d)" by blast
  have "check_section sections name = Inr s \<longleftrightarrow>
      s = d \<and> in_set (dget d ''status'') [''complete'', ''not_yet_supported'', ''failed''] = Inr True
      \<and> (dget d ''status'' = PStr ''not_yet_supported'' \<longrightarrow> validate_unsupported name d = Inr ())
      \<and> (dget d ''status'' = PStr ''failed'' \<longrightarrow> nonempty_str (dget d ''reason'') \<and> nonempty_str (dget d ''failure_class''))"
    by (auto simp: check_section_def dindex_def d Let_def rbind_Inr_iff)
  then show ?thesis using d by auto
next
  case False
  then show ?thesis by (auto simp: check_section_def dindex_def rbind_Inr_iff case_dict_Inr split: option.splits)
qed
text \<open>Closed sections, as the reader of a complete document understands them.\<close>

fun identity_of :: "pyval \<Rightarrow> pyval \<times> pyval" where
  "identity_of (PDict d) = (dget d ''process_uuid'', dget d ''exec_incarnation'')"
| "identity_of v = (PNone, PNone)"

definition process_closed :: "pyval \<Rightarrow> bool" where
  "process_closed record \<longleftrightarrow>
     (\<exists>d. record = PDict d \<and> nonempty_str (dget d ''process_uuid'') \<and> nonempty_str (dget d ''exec_incarnation'')
        \<and> (\<exists>t\<in>{''completed'', ''failed'', ''cancelled''}. dget d ''terminal'' = PStr t) \<and> is_digest (dget d ''terminal_digest''))"

definition terminals_closed :: "pydict \<Rightarrow> bool" where
  "terminals_closed s \<longleftrightarrow>
     (\<exists>records. dget s ''records'' = PList records \<and> records \<noteq> []
        \<and> py_eq (dget s ''expected_processes'') (PInt (int (length records)))
        \<and> list_all process_closed records \<and> distinct (map identity_of records)
        \<and> natural_int (dget s ''root_operations_issued'')
        \<and> py_eq (dget s ''root_operations_terminal'') (dget s ''root_operations_issued''))"

definition network_closed :: "pydict \<Rightarrow> bool" where
  "network_closed s \<longleftrightarrow>
     py_eq (dget s ''filesystem_socket_calls'') (PInt 0) \<and> py_eq (dget s ''filesystem_tcp_routes'') (PInt 0)
     \<and> py_eq (dget s ''unknown_semantic_routes'') (PInt 0)
     \<and> dget s ''filesystem_network_namespace_enforced'' = PBool True
     \<and> dget s ''functional_model_transport_classified'' = PBool True \<and> is_digest (dget s ''route_allowlist_digest'')"

definition drain_closed :: "pydict \<Rightarrow> bool" where
  "drain_closed s \<longleftrightarrow>
     natural_int (dget s ''requests_admitted'') \<and> py_eq (dget s ''responses_completed'') (dget s ''requests_admitted'')
     \<and> dget s ''final_drain_complete'' = PBool True \<and> is_digest (dget s ''response_seal_digest'')
     \<and> is_digest (dget s ''fully_drained_seal_digest'') \<and> is_digest (dget s ''phase_terminal_digest'')"

definition completion_closed :: "pydict \<Rightarrow> bool" where
  "completion_closed s \<longleftrightarrow>
     nonempty_str (dget s ''phase_artifact_path'') \<and> is_digest (dget s ''phase_artifact_digest'')
     \<and> is_digest (dget s ''terminal_evidence_digest'')
     \<and> (\<exists>units. dget s ''metric_units'' = PList units \<and> set units \<subseteq> {PStr ''GiB/s'', PStr ''kIOPS''})"

definition field_of :: "string \<Rightarrow> pydict list \<Rightarrow> pyval list" where
  "field_of name ds = map (\<lambda>d. dget d name) ds"

definition observers_of :: "pydict list \<Rightarrow> pydict list" where
  "observers_of ds = filter (\<lambda>d. dget d ''role'' = PStr ''cold-observer'') ds"

definition identities_ok :: "(pyval \<Rightarrow> bool) \<Rightarrow> pyval list \<Rightarrow> bool" where
  "identities_ok ok vs \<longleftrightarrow> list_all hashable vs \<and> pairwise_new vs \<and> list_all ok vs"

definition guests_declared :: "pydict list \<Rightarrow> bool" where
  "guests_declared ds \<longleftrightarrow>
     ds \<noteq> [] \<and> identities_ok truthy (field_of ''guest_uuid'' ds)
     \<and> identities_ok truthy (field_of ''independent_address_space'' ds)
     \<and> identities_ok natural_int (field_of ''endpoint_host_id'' ds) \<and> length (observers_of ds) = 1"

definition guests_observed :: "pydict \<Rightarrow> pydict list \<Rightarrow> bool" where
  "guests_observed s ds \<longleftrightarrow>
     dget s ''hdm_db_bi_observed'' = PBool True \<and> PNone \<notin> set (field_of ''region_generation'' ds)
     \<and> dget (hd (observers_of ds)) ''launch_state'' = PStr ''launched-and-observed''"

lemma process_identity_Inr: "process_identity r = Inr i \<longleftrightarrow> process_closed r \<and> i = identity_of r"
  unfolding process_identity_def process_closed_def case_dict_Inr
  by (auto simp: rbind_Inr_iff Let_def)

lemma list_all2_graph: "list_all2 (\<lambda>x y. p x \<and> y = f x) xs ys \<longleftrightarrow> list_all p xs \<and> ys = map f xs"
  by (induction xs arbitrary: ys) (auto simp: list_all2_Cons1)

lemma process_terminals_Inr:
  "validate_process_terminals s = Inr u \<longleftrightarrow> (is_complete s \<longrightarrow> terminals_closed s)"
proof -
  have ids: "rmap process_identity rs = Inr is \<longleftrightarrow> list_all process_closed rs \<and> is = map identity_of rs" for rs "is"
    unfolding rmap_Inr_iff process_identity_Inr by (rule list_all2_graph)
  show ?thesis
    by (cases "dget s ''records''")
       (auto simp: validate_process_terminals_def terminals_closed_def rbind_Inr_iff ids Let_def)
qed

lemma network_closure_Inr: "validate_network_closure s = Inr u \<longleftrightarrow> (is_complete s \<longrightarrow> network_closed s)"
  by (simp add: validate_network_closure_def network_closed_def rbind_Inr_iff del: py_eq_int)

lemma response_Inr: "validate_response_and_drain s = Inr u \<longleftrightarrow> (is_complete s \<longrightarrow> drain_closed s)"
  by (simp add: validate_response_and_drain_def drain_closed_def rbind_Inr_iff Let_def)

lemma units_known:
  "(\<exists>x. rdisj (map (\<lambda>u. rbind (in_set u names) (\<lambda>known. Inr (\<not> known))) units) = Inr x \<and> \<not> x)
     \<longleftrightarrow> set units \<subseteq> PStr ` set names"
proof -
  have "rbind (in_set u names) (\<lambda>known. Inr (\<not> known)) = Inr False \<longleftrightarrow> in_set u names = Inr True" for u
    by (cases "in_set u names") simp_all
  moreover have "(\<exists>x. m = Inr x \<and> \<not> x) \<longleftrightarrow> m = Inr False" for m :: "bool res" by auto
  ultimately show ?thesis by auto
qed

lemma artifact_completion_Inr:
  "validate_artifact_completion s = Inr u \<longleftrightarrow> (is_complete s \<longrightarrow> completion_closed s)"
proof (cases "dget s ''metric_units''")
  case (PList units)
  then show ?thesis
    by (simp add: validate_artifact_completion_def completion_closed_def rbind_Inr_iff units_known)
qed (simp_all add: validate_artifact_completion_def completion_closed_def rbind_Inr_iff)

lemma rmap_get: "rmap (\<lambda>r. get_of r name) (map PDict ds) = Inr (field_of name ds)"
  by (induction ds) (simp_all add: field_of_def get_of_def)

lemma rmap_get_Inr: "rmap (\<lambda>r. get_of r name) rs = Inr vs \<Longrightarrow> \<exists>ds. rs = map PDict ds"
proof (induction rs arbitrary: vs)
  case (Cons r rs)
  then obtain d ds where "r = PDict d" "rs = map PDict ds" by (auto simp: rbind_Inr_iff get_of_Inr)
  then have "r # rs = map PDict (d # ds)" by simp
  then show ?case by (rule exI)
qed simp

lemma rfilter_observers:
  "rfilter (\<lambda>r. rbind (get_of r ''role'') (\<lambda>role. Inr (role = PStr ''cold-observer''))) (map PDict ds)
     = Inr (map PDict (observers_of ds))"
  by (induction ds) (simp_all add: observers_of_def get_of_def)

lemma repeats_checked:
  "rbind (has_repeats vs) (\<lambda>repeated. rbind (fail (repeated \<or> \<not> list_all ok vs) message) f) = Inr u \<longleftrightarrow>
     identities_ok ok vs \<and> f () = Inr u"
  by (auto simp: has_repeats_def identities_ok_def rbind_Inr_iff)

lemma topology_Inr:
  "validate_topology s = Inr u \<longleftrightarrow>
     (\<exists>ds. dget s ''guest_declarations'' = PList (map PDict ds) \<and> guests_declared ds \<and> (is_complete s \<longrightarrow> guests_observed s ds))"
proof (cases "\<exists>ds. dget s ''guest_declarations'' = PList (map PDict ds)")
  case True
  then obtain ds where g: "dget s ''guest_declarations'' = PList (map PDict ds)" by blast
  have inj: "dget s ''guest_declarations'' = PList (map PDict ds') \<longleftrightarrow> ds' = ds" for ds'
    unfolding g by (auto simp: inj_map_eq_map inj_def)
  show ?thesis
  proof (cases ds)
    case Nil
    then show ?thesis by (simp add: validate_topology_def g guests_declared_def)
  next
    case (Cons d ds')
    have one: "length (observers_of ds) = 1 \<Longrightarrow> get_of (hd (map PDict (observers_of ds))) n = Inr (dget (hd (observers_of ds)) n)" for n
      by (cases "observers_of ds") (simp_all add: get_of_def)
    have "validate_topology s = Inr u \<longleftrightarrow> guests_declared ds \<and> (is_complete s \<longrightarrow> guests_observed s ds)"
      unfolding validate_topology_def g Let_def
      apply (simp only: Cons list.map pyval.case list.case)
      apply (simp only: list.map(2) [symmetric] Cons [symmetric])
      apply (simp only: rmap_get rfilter_observers rbind_simps repeats_checked length_map)
      using one Cons by (auto simp: guests_declared_def guests_observed_def rbind_Inr_iff)
    then show ?thesis by (simp add: inj)
  qed
next
  case False
  have "validate_topology s \<noteq> Inr u"
  proof
    assume v: "validate_topology s = Inr u"
    then obtain r rs where rs: "dget s ''guest_declarations'' = PList (r # rs)"
      by (auto simp: validate_topology_def split: pyval.splits list.splits)
    with v obtain vs where "rmap (\<lambda>record. get_of record ''guest_uuid'') (r # rs) = Inr vs"
      unfolding validate_topology_def Let_def by (simp only: pyval.case list.case rbind_Inr_iff) blast
    with rmap_get_Inr rs False show False by metis
  qed
  with False show ?thesis by blast
qed

definition artifact_ok :: "pydict \<Rightarrow> bool" where
  "artifact_ok r \<longleftrightarrow> nonempty_str (dget r ''path'') \<and> positive_int (dget r ''size'') \<and> is_digest (dget r ''sha256'')"

definition attestation_closed :: "pydict \<Rightarrow> bool" where
  "attestation_closed a \<longleftrightarrow>
     is_complete a \<and> is_digest (dget a ''build_identity_digest'') \<and> is_digest (dget a ''product_engine_manifest_digest'')
     \<and> is_digest (dget a ''product_capability_manifest_digest'')
     \<and> (\<exists>artifacts. map_of a ''artifacts'' = Some (PDict artifacts) \<and> set (map fst artifacts) = set CANDIDATE_ARTIFACTS
          \<and> list_all (\<lambda>name. \<exists>r. map_of artifacts name = Some (PDict r) \<and> artifact_ok r) CANDIDATE_ARTIFACTS)"

lemma index_of_Inr: "index_of v name = Inr w \<longleftrightarrow> (\<exists>d. v = PDict d \<and> map_of d name = Some w)"
  by (auto simp: index_of_def dindex_def split: pyval.splits option.splits)

lemma field_present:
  "nonempty_str (dget d n) \<Longrightarrow> map_of d n = Some (dget d n)" "positive_int (dget d n) \<Longrightarrow> map_of d n = Some (dget d n)"
  "is_digest (dget d n) \<Longrightarrow> map_of d n = Some (dget d n)"
  by (auto simp: dget_def is_digest_def split: option.splits)

lemma artifact_record_Inr:
  "artifact_record m name = Inr v \<longleftrightarrow>
     (\<exists>artifacts r. map_of m ''artifacts'' = Some (PDict artifacts) \<and> map_of artifacts name = Some (PDict r) \<and> artifact_ok r
        \<and> v = [(''path'', dget r ''path''), (''size'', dget r ''size''), (''sha256'', dget r ''sha256'')])"
proof -
  have "artifact_record m name = Inr v \<longleftrightarrow>
      (\<exists>path extent digest artifacts r. map_of m ''artifacts'' = Some (PDict artifacts) \<and> map_of artifacts name = Some (PDict r)
         \<and> map_of r ''path'' = Some path \<and> map_of r ''size'' = Some extent \<and> map_of r ''sha256'' = Some digest
         \<and> nonempty_str path \<and> positive_int extent \<and> is_digest digest
         \<and> v = [(''path'', path), (''size'', extent), (''sha256'', digest)])"
  proof -
    have lookup: "(case x of Inl _ \<Rightarrow> Inl e | Inr (a, b, c) \<Rightarrow> f a b c) = Inr v \<longleftrightarrow> (\<exists>a b c. x = Inr (a, b, c) \<and> f a b c = Inr v)"
      for x :: "(pyval \<times> pyval \<times> pyval) res" and e :: pyerr and f by (cases x) auto
    have guards: "(if \<not> a then Inl e else if \<not> b then Inl e' else if \<not> c then Inl e'' else Inr x) = Inr v \<longleftrightarrow> a \<and> b \<and> c \<and> v = x"
      for a b c and e e' e'' :: pyerr and x by auto
    show ?thesis
      unfolding artifact_record_def lookup guards rbind_Inr_iff index_of_Inr
      by (auto simp: dindex_def split: option.splits)
  qed
  also have "\<dots> \<longleftrightarrow> (\<exists>artifacts r. map_of m ''artifacts'' = Some (PDict artifacts) \<and> map_of artifacts name = Some (PDict r) \<and> artifact_ok r
        \<and> v = [(''path'', dget r ''path''), (''size'', dget r ''size''), (''sha256'', dget r ''sha256'')])"
  proof ((intro iffI; elim exE conjE), goal_cases)
    case (1 path extent digest artifacts r)
    then have "dget r ''path'' = path" "dget r ''size'' = extent" "dget r ''sha256'' = digest" by (simp_all add: dget_def)
    with 1 show ?case unfolding artifact_ok_def by blast
  next
    case (2 artifacts r)
    with field_present show ?case unfolding artifact_ok_def by blast
  qed
  finally show ?thesis .
qed

lemma same_names_dict: "same_names (PDict d) names = Inr (set (map fst d) = set names)"
  by (simp add: same_names_def)

lemma check_attestation_Inr: "check_attestation a = Inr u \<longleftrightarrow> attestation_closed a"
proof (cases "\<exists>artifacts. map_of a ''artifacts'' = Some (PDict artifacts)")
  case True
  then obtain artifacts where a: "map_of a ''artifacts'' = Some (PDict artifacts)" by blast
  have "check_attestation a = Inr u \<longleftrightarrow>
      is_complete a \<and> set (map fst artifacts) = set CANDIDATE_ARTIFACTS
      \<and> list_all (\<lambda>field. is_digest (dget a field))
          [''build_identity_digest'', ''product_engine_manifest_digest'', ''product_capability_manifest_digest'']
      \<and> list_all (\<lambda>name. \<exists>r. map_of artifacts name = Some (PDict r) \<and> artifact_ok r) CANDIDATE_ARTIFACTS"
    unfolding check_attestation_def
    by (simp add: rbind_Inr_iff a same_names_dict dindex_def artifact_record_Inr list_all_iff)
  then show ?thesis by (auto simp: attestation_closed_def a)
next
  case False
  then have "artifact_record [(''artifacts'', v)] ''rdwo_client'' \<noteq> Inr w" if "map_of a ''artifacts'' = Some v" for v w
    using that by (auto simp: artifact_record_Inr)
  then have "check_attestation a \<noteq> Inr u"
    unfolding check_attestation_def
    by (auto simp: rbind_Inr_iff dindex_def CANDIDATE_ARTIFACTS_def split: option.splits)
  with False show ?thesis by (auto simp: attestation_closed_def)
qed

text \<open>The status of a section of a document.\<close>

definition section_of :: "pydict \<Rightarrow> string \<Rightarrow> pydict" where
  "section_of d name =
     (case dget d ''sections'' of
        PDict sections \<Rightarrow> (case map_of sections name of Some (PDict s) \<Rightarrow> s | _ \<Rightarrow> [])
      | _ \<Rightarrow> [])"

definition section_status :: "pydict \<Rightarrow> string \<Rightarrow> pyval" where
  "section_status d name = dget (section_of d name) ''status''"

text \<open>All six sections of an accepted document, in order, and what the checks have established.\<close>

lemma accepted_sections:
  assumes "validate (PDict d) = Inr w"
  shows "validate_sections (map (section_of d) SECTION_NAMES) = Inr ()"
    and "dget d ''status'' = PStr (expected_status (map (section_of d) SECTION_NAMES))"
    and "\<And>name. name \<in> set SECTION_NAMES \<Longrightarrow>
           section_status d name = PStr ''complete''
           \<or> section_status d name = PStr ''not_yet_supported'' \<and> validate_unsupported name (section_of d name) = Inr ()
           \<or> section_status d name = PStr ''failed'' \<and> nonempty_str (dget (section_of d name) ''reason'')
               \<and> nonempty_str (dget (section_of d name) ''failure_class'')"
proof -
  from assms obtain sections checked where s: "dget d ''sections'' = PDict sections"
      and c: "rmap (check_section sections) SECTION_NAMES = Inr checked"
      and v: "validate_sections checked = Inr ()" "dget d ''status'' = PStr (expected_status checked)"
    unfolding validate_Inr by auto
  have at: "check_section sections name = Inr t \<Longrightarrow> t = section_of d name" for name t
    by (auto simp: check_section_Inr section_of_def s)
  from c have l: "list_all2 (\<lambda>name t. check_section sections name = Inr t) SECTION_NAMES checked" by (simp add: rmap_Inr_iff)
  then have "list_all2 (\<lambda>name t. t = section_of d name) SECTION_NAMES checked" by (rule list_all2_mono) (rule at)
  then have checked: "checked = map (section_of d) SECTION_NAMES"
    using list_all2_graph [of "\<lambda>_. True" "section_of d" SECTION_NAMES checked] by simp
  show "validate_sections (map (section_of d) SECTION_NAMES) = Inr ()"
    and "dget d ''status'' = PStr (expected_status (map (section_of d) SECTION_NAMES))"
    using v by (simp_all add: checked)
  fix name assume "name \<in> set SECTION_NAMES"
  with l checked have "check_section sections name = Inr (section_of d name)"
    by (simp add: list.rel_map(2) list_all2_same)
  then show "section_status d name = PStr ''complete''
           \<or> section_status d name = PStr ''not_yet_supported'' \<and> validate_unsupported name (section_of d name) = Inr ()
           \<or> section_status d name = PStr ''failed'' \<and> nonempty_str (dget (section_of d name) ''reason'')
               \<and> nonempty_str (dget (section_of d name) ''failure_class'')"
    by (simp add: check_section_Inr section_status_def)
qed

lemma validate_sections_Inr:
  "validate_sections (map f SECTION_NAMES) = Inr u \<longleftrightarrow>
     attestation_closed (f ''engine_build_attestation'')
     \<and> (is_complete (f ''process_terminals'') \<longrightarrow> terminals_closed (f ''process_terminals''))
     \<and> (is_complete (f ''network_closure'') \<longrightarrow> network_closed (f ''network_closure''))
     \<and> (is_complete (f ''response_and_final_drain'') \<longrightarrow> drain_closed (f ''response_and_final_drain''))
     \<and> (\<exists>ds. dget (f ''qemu_bi_topology'') ''guest_declarations'' = PList (map PDict ds) \<and> guests_declared ds
          \<and> (is_complete (f ''qemu_bi_topology'') \<longrightarrow> guests_observed (f ''qemu_bi_topology'') ds))
     \<and> (is_complete (f ''artifact_completion'') \<longrightarrow> completion_closed (f ''artifact_completion''))"
  unfolding validate_sections_def SECTION_NAMES_def
  by (simp only: list.map list.case rbind_Inr_iff check_attestation_Inr process_terminals_Inr network_closure_Inr response_Inr
        topology_Inr artifact_completion_Inr) blast

lemma expected_status_cases:
  "expected_status ss = ''failed'' \<longleftrightarrow> (\<exists>s\<in>set ss. dget s ''status'' = PStr ''failed'')"
  "expected_status ss = ''complete'' \<longleftrightarrow> (\<forall>s\<in>set ss. is_complete s)"
proof -
  have "PStr ''failed'' \<in> (\<lambda>d. dget d ''status'') ` set ss \<longleftrightarrow> (\<exists>s\<in>set ss. dget s ''status'' = PStr ''failed'')" by force
  then show "expected_status ss = ''failed'' \<longleftrightarrow> (\<exists>s\<in>set ss. dget s ''status'' = PStr ''failed'')"
    and "expected_status ss = ''complete'' \<longleftrightarrow> (\<forall>s\<in>set ss. is_complete s)"
    by (auto simp: expected_status_def Let_def list_all_iff)
qed

text \<open>
  (C24) An accepted document never claims more than its evidence. Its aggregate status is
  complete exactly when all six sections are, and failed exactly when one is; a complete
  document has closed process records with conserved operations, no filesystem route over
  the network, drained responses, distinct and observed guests with one launched cold
  observer, and finished artifacts. In every accepted document the build is attested, no
  legacy source is cited, and the digest is the SHA-256 of the canonical text of the rest.
\<close>

theorem candidate_evidence_sound:
  assumes "validate (PDict d) = Inr w"
  shows "fixed_fields d \<and> free_of_legacy d \<and> attestation_closed (section_of d ''engine_build_attestation'')
    \<and> (dget d ''status'' = PStr ''complete'' \<longleftrightarrow> list_all (\<lambda>name. section_status d name = PStr ''complete'') SECTION_NAMES)
    \<and> (dget d ''status'' = PStr ''failed'' \<longleftrightarrow> list_ex (\<lambda>name. section_status d name = PStr ''failed'') SECTION_NAMES)
    \<and> (dget d ''status'' = PStr ''complete'' \<longrightarrow>
         terminals_closed (section_of d ''process_terminals'') \<and> network_closed (section_of d ''network_closure'')
         \<and> drain_closed (section_of d ''response_and_final_drain'') \<and> completion_closed (section_of d ''artifact_completion'')
         \<and> (\<exists>guests. dget (section_of d ''qemu_bi_topology'') ''guest_declarations'' = PList (map PDict guests)
              \<and> guests_declared guests \<and> guests_observed (section_of d ''qemu_bi_topology'') guests))
    \<and> dget d ''evidence_digest'' = PStr (sha256 (canonical_text (PDict (without ''evidence_digest'' d))))"
proof -
  note accepted = accepted_sections [OF assms]
  have sections: "attestation_closed (section_of d ''engine_build_attestation'')"
      "\<exists>ds. dget (section_of d ''qemu_bi_topology'') ''guest_declarations'' = PList (map PDict ds) \<and> guests_declared ds
         \<and> (is_complete (section_of d ''qemu_bi_topology'') \<longrightarrow> guests_observed (section_of d ''qemu_bi_topology'') ds)"
    using accepted(1) by (simp_all only: validate_sections_Inr)
  have status: "dget d ''status'' = PStr ''complete'' \<longleftrightarrow> list_all (\<lambda>name. section_status d name = PStr ''complete'') SECTION_NAMES"
      "dget d ''status'' = PStr ''failed'' \<longleftrightarrow> list_ex (\<lambda>name. section_status d name = PStr ''failed'') SECTION_NAMES"
    by (simp_all only: accepted(2) pyval.inject expected_status_cases section_status_def list_all_iff list_ex_iff set_map ball_simps bex_simps)
  have closed: "terminals_closed (section_of d ''process_terminals'') \<and> network_closed (section_of d ''network_closure'')
         \<and> drain_closed (section_of d ''response_and_final_drain'') \<and> completion_closed (section_of d ''artifact_completion'')
         \<and> is_complete (section_of d ''qemu_bi_topology'')" if "dget d ''status'' = PStr ''complete''"
    using that accepted(1) unfolding status(1) validate_sections_Inr by (simp add: SECTION_NAMES_def section_status_def)
  have "fixed_fields d \<and> free_of_legacy d
      \<and> dget d ''evidence_digest'' = PStr (sha256 (canonical_text (PDict (without ''evidence_digest'' d))))"
    using assms unfolding validate_Inr canonical_digest_Inr by auto
  with sections status closed show ?thesis by blast
qed


section \<open>The initial document is accepted\<close>

text \<open>No banned key and no banned fragment anywhere in a value.\<close>

fun legacy_clean :: "pyval \<Rightarrow> bool" where
  "legacy_clean (PList vs) = list_all legacy_clean vs"
| "legacy_clean (PDict d) = list_all (\<lambda>(k, v). k \<notin> set BANNED_LEGACY_KEYS \<and> legacy_clean v) d"
| "legacy_clean v = (\<not> cites_legacy v)"

lemma legacy_clean_top: "legacy_clean v \<Longrightarrow> \<not> cites_legacy v"
  by (cases v) (simp_all add: cites_legacy_def)

lemma index_not_banned: "show_nat n \<notin> set BANNED_LEGACY_KEYS"
proof -
  obtain c cs where c: "show_nat n = c # cs" "is_digit c" using show_nat_head by blast
  have "list_all (\<lambda>k. \<not> is_digit (hd k)) BANNED_LEGACY_KEYS" by code_simp
  with c show ?thesis by (auto simp only: list_all_iff list.sel)
qed

lemma walk_clean:
  "legacy_clean v \<Longrightarrow> (path', w) \<in> set (walk path v) \<Longrightarrow> last path' \<notin> set BANNED_LEGACY_KEYS \<and> \<not> cites_legacy w"
proof (induction path v arbitrary: path' w rule: walk.induct)
  case (1 path d)
  then obtain k v where kv: "(k, v) \<in> set d" "(path', w) = (path @ [k], v) \<or> (path', w) \<in> set (walk (path @ [k]) v)" by auto
  with 1(2) have "k \<notin> set BANNED_LEGACY_KEYS" "legacy_clean v" by (auto simp: list_all_iff)
  with kv 1(1) show ?case by (auto simp: legacy_clean_top)
next
  case (2 path vs)
  then obtain i v where iv: "(i, v) \<in> set (zip [0..<length vs] vs)"
      "(path', w) = (path @ [show_nat i], v) \<or> (path', w) \<in> set (walk (path @ [show_nat i]) v)" by auto
  with 2(2) have "legacy_clean v" by (auto simp: list_all_iff dest: set_zip_rightD)
  with iv 2(1) index_not_banned [of i] show ?case by (auto simp: legacy_clean_top)
qed simp_all

lemma legacy_clean_free: "legacy_clean (PDict d) \<Longrightarrow> free_of_legacy d"
proof -
  assume clean: "legacy_clean (PDict d)"
  have "(case pv of (path, v) \<Rightarrow> last path \<notin> set BANNED_LEGACY_KEYS \<and> \<not> cites_legacy v)" if "pv \<in> set (walk [] (PDict d))" for pv
    using walk_clean [OF clean] that by (cases pv) (simp only: prod.case simp_thms)
  then show ?thesis unfolding free_of_legacy_def list_all_iff by (rule ballI)
qed

lemma contains_subset: "contains p s \<Longrightarrow> set p \<subseteq> set s"
proof -
  assume "contains p s"
  then obtain i where "find_sub p s = Some i" by (auto simp: contains_def)
  then have "take (length p) (drop i s) = p" using find_sub_Some by (auto simp: starts_with_def)
  then show ?thesis by (metis set_drop_subset set_take_subset subset_trans)
qed

text \<open>Every banned fragment has an n or a space.\<close>

lemma no_fragment:
  assumes "CHR ''n'' \<notin> set (ascii_lower s)" "CHR '' '' \<notin> set (ascii_lower s)"
  shows "\<not> cites_legacy (PStr s)"
proof
  assume "cites_legacy (PStr s)"
  then obtain f where "f \<in> set BANNED_LEGACY_VALUE_FRAGMENTS" "contains f (ascii_lower s)"
    by (auto simp: cites_legacy_def list_ex_iff)
  moreover have "list_all (\<lambda>f. CHR ''n'' \<in> set f \<or> CHR '' '' \<in> set f) BANNED_LEGACY_VALUE_FRAGMENTS" by code_simp
  ultimately show False using assms contains_subset [of f "ascii_lower s"] by (auto simp only: list_all_iff)
qed

lemma hex_lower: "hex_char c \<Longrightarrow> ord c < 128 \<and> \<not> (65 \<le> ord c \<and> ord c \<le> 90) \<and> c \<noteq> CHR ''n'' \<and> c \<noteq> CHR '' ''"
proof -
  have "\<forall>c\<in>set ''0123456789abcdef''. ord c < 128 \<and> \<not> (65 \<le> ord c \<and> ord c \<le> 90) \<and> c \<noteq> CHR ''n'' \<and> c \<noteq> CHR '' ''" by code_simp
  then show "hex_char c \<Longrightarrow> ?thesis" by (simp only: hex_char_def) blast
qed

definition plain_text :: "string \<Rightarrow> bool" where
  "plain_text s = list_all (\<lambda>c. ord c < 128 \<and> \<not> (65 \<le> ord c \<and> ord c \<le> 90) \<and> c \<noteq> CHR ''n'' \<and> c \<noteq> CHR '' '') s"

lemma plain_text_clean: "plain_text s \<Longrightarrow> utf8_valid s \<and> legacy_clean (PStr s) \<and> encodable (PStr s)"
proof -
  assume p: "plain_text s"
  have same: "ascii_lower s = s" unfolding ascii_lower_def by (rule map_idI) (use p in \<open>auto simp: plain_text_def list_all_iff\<close>)
  have "\<not> cites_legacy (PStr s)" by (rule no_fragment) (use p in \<open>auto simp: same plain_text_def list_all_iff\<close>)
  moreover have "utf8_valid s" by (rule utf8_valid_ascii) (use p in \<open>auto simp: plain_text_def list_all_iff\<close>)
  ultimately show ?thesis by simp
qed

lemma uuid_plain: "plain_text (uuid_str u)"
proof -
  have "plain_text (hex_text bs)" for bs
    using hex_text_digits [of bs] hex_lower unfolding plain_text_def list_all_iff by blast
  moreover have "plain_text (a @ b) \<longleftrightarrow> plain_text a \<and> plain_text b" for a b by (simp add: plain_text_def)
  moreover have "plain_text ''-''" by code_simp
  ultimately show ?thesis unfolding uuid_str_def by (simp only: simp_thms)
qed

text \<open>The identity of a guest of a run.\<close>

definition guest_text :: "string \<Rightarrow> string \<times> int \<Rightarrow> string" where
  "guest_text random ri =
     uuid_str (with_version 5 (take 16 (sha1_digest (uuid4 random @ fst ri @ '':'' @ show_int (snd ri)))))"

definition declared_guest :: "string \<Rightarrow> string \<Rightarrow> int \<times> string \<times> int \<Rightarrow> pydict" where
  "declared_guest random state = (\<lambda>(endpoint, role, index).
     [(''role'', PStr role), (''index'', PInt index), (''guest_uuid'', PStr (guest_text random (role, index))),
      (''independent_address_space'', PStr (''qemu-process:'' @ guest_text random (role, index))),
      (''endpoint_host_id'', PInt endpoint), (''region_generation'', PNone), (''launch_state'', PStr state)])"

definition declared_guests :: "string \<Rightarrow> int \<Rightarrow> int \<Rightarrow> pydict list" where
  "declared_guests random servers clients =
     (let roles = guest_roles servers clients
      in map (declared_guest random ''required'') (zip [0..int (length roles) - 1] roles)
         @ [declared_guest random ''predeclared-not-launched'' (int (length roles), ''cold-observer'', 0)])"

lemma guest_declaration_eq:
  assumes "length random = 16" "ascii7 role"
  shows "guest_declaration (uuid_str (uuid4 random)) role index endpoint state
    = Inr (declared_guest random state (endpoint, role, index))"
proof -
  have "utf8_valid (role @ '':'' @ show_int index)" using assms(2) by (intro ascii7_valid) (simp add: ascii7_show_int)
  then show ?thesis
    using assms(1) by (simp add: guest_declaration_def uuid_roundtrip uuid4_length uuid5_def utf8_encode_def declared_guest_def
        guest_text_def Let_def)
qed

lemma role_ascii: "(role, index) \<in> set (guest_roles servers clients) \<Longrightarrow> ascii7 role"
  by (auto simp: guest_roles_def)

lemma guest_declarations_eq:
  assumes "length random = 16"
  shows "guest_declarations (uuid_str (uuid4 random)) servers clients = Inr (map PDict (declared_guests random servers clients))"
proof -
  let ?roles = "guest_roles servers clients"
  let ?indexed = "zip [0..int (length ?roles) - 1] ?roles"
  have "rmap (\<lambda>(endpoint, role, index). guest_declaration (uuid_str (uuid4 random)) role index endpoint ''required'') ?indexed
      = Inr (map (declared_guest random ''required'') ?indexed)"
  proof -
    have "guest_declaration (uuid_str (uuid4 random)) role index endpoint ''required'' = Inr (declared_guest random ''required'' (endpoint, role, index))"
      if "(endpoint, role, index) \<in> set ?indexed" for endpoint role index
      by (rule guest_declaration_eq [OF assms role_ascii [OF set_zip_rightD [OF that]]])
    then show ?thesis unfolding rmap_Inr_iff by (simp add: list.rel_map(2) list_all2_same) fast
  qed
  moreover have "ascii7 ''cold-observer''" by code_simp
  ultimately show ?thesis
    using guest_declaration_eq [OF assms, of "''cold-observer''"] by (simp add: guest_declarations_def declared_guests_def Let_def)
qed

definition identity_text :: "skeleton_request \<Rightarrow> string" where
  "identity_text rq = canonical_text (PDict (without ''artifacts'' (sk_build_manifest rq)))"

definition attested :: "skeleton_request \<Rightarrow> pydict \<Rightarrow> pyval \<Rightarrow> pyval \<Rightarrow> pydict" where
  "attested rq artifacts engine capability =
     [(''status'', PStr ''complete''), (''build_identity_digest'', PStr (sha256 (identity_text rq))), (''artifacts'', PDict artifacts),
      (''product_engine_manifest_digest'', engine), (''product_capability_manifest_digest'', capability)]"

lemma skeleton_artifacts_Inr:
  assumes "skeleton_artifacts m = Inr artifacts"
  shows "map fst artifacts = CANDIDATE_ARTIFACTS"
    and "\<And>name. name \<in> set CANDIDATE_ARTIFACTS \<Longrightarrow> \<exists>r. map_of artifacts name = Some (PDict r) \<and> artifact_ok r"
proof -
  have l: "list_all2 (\<lambda>name kv. fst kv = name \<and> (\<exists>r. snd kv = PDict r \<and> artifact_ok r)) CANDIDATE_ARTIFACTS artifacts"
    using assms unfolding skeleton_artifacts_def rmap_Inr_iff
    by (rule list_all2_mono) (auto simp: rbind_Inr_iff artifact_record_Inr artifact_ok_def)
  have "list_all2 (=) (map fst artifacts) CANDIDATE_ARTIFACTS"
    using l by (auto simp: list.rel_map(1) list_all2_conv_all_nth)
  then show k: "map fst artifacts = CANDIDATE_ARTIFACTS" by (simp add: list.rel_eq)
  fix name assume n: "name \<in> set CANDIDATE_ARTIFACTS"
  with k obtain v where v: "map_of artifacts name = Some v" by (metis map_of_eq_None_iff not_None_eq set_map)
  then have "(name, v) \<in> set artifacts" by (rule map_of_SomeD)
  with l show "\<exists>r. map_of artifacts name = Some (PDict r) \<and> artifact_ok r"
    using v by (fastforce simp: list_all2_conv_all_nth in_set_conv_nth)
qed

lemma artifact_digest_ok:
  assumes "skeleton_artifacts m = Inr artifacts" "name \<in> set CANDIDATE_ARTIFACTS"
  shows "\<exists>v. artifact_digest artifacts name = Inr v \<and> is_digest v"
proof -
  from skeleton_artifacts_Inr(2) [OF assms] obtain r where "map_of artifacts name = Some (PDict r)" "artifact_ok r" by blast
  then show ?thesis using field_present(3) [of r "''sha256''"]
    by (simp add: artifact_digest_def dindex_def index_of_def artifact_ok_def)
qed

lemma digest_plain: "is_digest v \<Longrightarrow> encodable v \<and> legacy_clean v"
proof -
  assume "is_digest v"
  then obtain s where s: "v = PStr s" "list_all hex_char s" by (auto simp: is_digest_def split: pyval.splits)
  then have "plain_text s" using hex_lower unfolding plain_text_def list_all_iff by blast
  with s show ?thesis using plain_text_clean by simp
qed

lemma sha256_is_digest: "is_digest (PStr (sha256 s))"
  using sha256_hex [of s] by (simp add: is_digest_def HEX_DIGEST_LENGTH_def)

lemma attested_closed:
  assumes "skeleton_artifacts m = Inr artifacts" "is_digest engine" "is_digest capability"
  shows "attestation_closed (attested rq artifacts engine capability)"
  using assms(2,3) skeleton_artifacts_Inr [OF assms(1)] sha256_is_digest [of "identity_text rq"]
  by (auto simp: attestation_closed_def attested_def list_all_iff simp flip: set_map)

lemma pairwise_new_map:
  "pairwise_new (map PStr xs) \<longleftrightarrow> distinct xs" "pairwise_new (map PInt is) \<longleftrightarrow> distinct is"
proof -
  show "pairwise_new (map PStr xs) \<longleftrightarrow> distinct xs" by (induction xs) (auto simp: list_all_iff)
  show "pairwise_new (map PInt is) \<longleftrightarrow> distinct is" by (induction "is") (auto simp: list_all_iff)
qed

lemma guest_fields:
  fixes servers clients :: int
  defines "roles \<equiv> guest_roles servers clients @ [(''cold-observer'', 0)]"
  shows "field_of ''guest_uuid'' (declared_guests random servers clients) = map PStr (map (guest_text random) roles)"
    and "field_of ''independent_address_space'' (declared_guests random servers clients)
           = map PStr (map (\<lambda>r. ''qemu-process:'' @ guest_text random r) roles)"
    and "field_of ''endpoint_host_id'' (declared_guests random servers clients) = map PInt [0..int (length roles) - 1]"
    and "observers_of (declared_guests random servers clients)
           = [declared_guest random ''predeclared-not-launched'' (int (length roles) - 1, ''cold-observer'', 0)]"
proof -
  let ?rs = "guest_roles servers clients"
  let ?is = "[0..int (length ?rs) - 1]"
  have len: "length ?is = length ?rs" by simp
  have second: "map (\<lambda>t. f (snd t)) (zip ?is ?rs) = map f ?rs" for f :: "string \<times> int \<Rightarrow> 'b"
  proof -
    have "map f (map snd (zip ?is ?rs)) = map f ?rs" using len by (simp only: map_snd_zip)
    then show ?thesis by (simp only: list.map_comp comp_def)
  qed
  have first: "map (\<lambda>t. f (fst t)) (zip ?is ?rs) = map f ?is" for f :: "int \<Rightarrow> 'b"
  proof -
    have "map f (map fst (zip ?is ?rs)) = map f ?is" using len by (simp only: map_fst_zip)
    then show ?thesis by (simp only: list.map_comp comp_def)
  qed
  show "field_of ''guest_uuid'' (declared_guests random servers clients) = map PStr (map (guest_text random) roles)"
    using second [of "\<lambda>r. PStr (guest_text random r)"]
    by (simp add: field_of_def declared_guests_def Let_def declared_guest_def roles_def case_prod_unfold comp_def)
  show "field_of ''independent_address_space'' (declared_guests random servers clients)
           = map PStr (map (\<lambda>r. ''qemu-process:'' @ guest_text random r) roles)"
    using second [of "\<lambda>r. PStr (''qemu-process:'' @ guest_text random r)"]
    by (simp add: field_of_def declared_guests_def Let_def declared_guest_def roles_def case_prod_unfold comp_def)
  have "[0..int (length ?rs)] = ?is @ [int (length ?rs)]" using upto_split2 [of 0 "int (length ?rs)" "int (length ?rs)"] by (simp add: upto_rec2)
  then show "field_of ''endpoint_host_id'' (declared_guests random servers clients) = map PInt [0..int (length roles) - 1]"
    using first [of PInt]
    by (simp add: field_of_def declared_guests_def Let_def declared_guest_def roles_def case_prod_unfold comp_def)
  have "filter (\<lambda>d. dget d ''role'' = PStr ''cold-observer'') (map (declared_guest random ''required'') (zip ?is ?rs)) = []"
    by (auto simp: filter_empty_conv declared_guest_def guest_roles_def dest!: set_zip_rightD)
  then show "observers_of (declared_guests random servers clients)
           = [declared_guest random ''predeclared-not-launched'' (int (length roles) - 1, ''cold-observer'', 0)]"
    by (simp add: observers_of_def declared_guests_def Let_def roles_def) (simp add: declared_guest_def)
qed

lemma declared_guests_ok:
  assumes "distinct (map (guest_text random) (guest_roles servers clients @ [(''cold-observer'', 0)]))"
  shows "guests_declared (declared_guests random servers clients)"
proof -
  let ?roles = "guest_roles servers clients @ [(''cold-observer'', 0 :: int)]"
  have hash: "list_all hashable (map PStr xs)" "list_all hashable (map PInt is)" for xs "is" by (simp_all add: list_all_iff)
  have nonempty: "guest_text random r \<noteq> []" for r by (simp add: guest_text_def uuid_str_def)
  have spaces: "distinct (map (\<lambda>r. ''qemu-process:'' @ guest_text random r) ?roles)"
    using assms unfolding distinct_map by (auto simp: inj_on_def)
  have "identities_ok truthy (field_of ''guest_uuid'' (declared_guests random servers clients))"
    using assms nonempty by (simp only: identities_ok_def guest_fields pairwise_new_map hash) (simp add: list_all_iff)
  moreover have "identities_ok truthy (field_of ''independent_address_space'' (declared_guests random servers clients))"
    using spaces by (simp only: identities_ok_def guest_fields pairwise_new_map hash) (simp add: list_all_iff)
  moreover have "identities_ok natural_int (field_of ''endpoint_host_id'' (declared_guests random servers clients))"
    by (simp only: identities_ok_def guest_fields pairwise_new_map hash) (simp add: list_all_iff)
  moreover have "length (observers_of (declared_guests random servers clients)) = 1" by (simp only: guest_fields) simp
  ultimately show ?thesis by (simp add: guests_declared_def declared_guests_def Let_def)
qed

definition pending_section :: "string \<Rightarrow> string list \<Rightarrow> pydict" where
  "pending_section reason missing =
     [(''status'', PStr ''not_yet_supported''), (''reason'', PStr reason), (''missing_evidence'', PList (map PStr missing))]"

definition pending_topology :: "skeleton_request \<Rightarrow> string \<Rightarrow> pydict" where
  "pending_topology rq random =
     [(''status'', PStr ''not_yet_supported''),
      (''reason'', PStr ''guest identities are predeclared, but region generations and the cold-observer launch receipt are not yet emitted''),
      (''missing_evidence'', PList [PStr ''per_guest_region_generation'', PStr ''cold_observer_launch_receipt'']),
      (''qemu_machine'', PStr (sk_qemu_machine rq)), (''hdm_db_bi_required'', PBool True),
      (''shared_region_bytes'', PInt (sk_shared_region_bytes rq)),
      (''guest_declarations'', PList (map PDict (declared_guests random (sk_server_count rq) (sk_client_count rq))))]"

definition pending_sections :: "skeleton_request \<Rightarrow> string \<Rightarrow> pydict \<Rightarrow> pydict" where
  "pending_sections rq random attestation =
     [(''engine_build_attestation'', PDict attestation),
      (''process_terminals'', PDict (pending_section ''candidate process-terminal ABI is introduced in V1''
          [''root_operation_conservation'', ''per_process_terminal_records''])),
      (''network_closure'', PDict (pending_section ''candidate socket and route accounting is introduced in V1''
          [''filesystem_socket_ledger'', ''route_allowlist_digest''])),
      (''response_and_final_drain'', PDict (pending_section ''candidate response and durability seals are introduced in V1''
          [''response_seal'', ''fully_drained_seal'', ''phase_terminal''])),
      (''qemu_bi_topology'', PDict (pending_topology rq random)),
      (''artifact_completion'', PDict (pending_section ''candidate phase artifacts cannot close before V1 terminal records exist''
          [''phase_artifact_digest'', ''terminal_evidence_digest'']))]"

text \<open>Inputs that can be written into a document: encodable text without legacy sources.\<close>

definition clean_value :: "pyval \<Rightarrow> bool" where
  "clean_value v \<longleftrightarrow> encodable v \<and> legacy_clean v"

definition clean_request :: "skeleton_request \<Rightarrow> pydict \<Rightarrow> bool" where
  "clean_request rq artifacts \<longleftrightarrow>
     encodable (PDict (without ''artifacts'' (sk_build_manifest rq)))
     \<and> list_all clean_value
         [PStr (sk_run_id rq), PStr (sk_stage rq), PStr (sk_owner_token rq), PStr (sk_qemu_machine rq), PDict artifacts,
          case sk_evaluation_manifest rq of None \<Rightarrow> PNone | Some m \<Rightarrow> dget m ''manifest_digest'']"

lemma skeleton_sections_eq:
  assumes "length random = 16" "skeleton_artifacts (sk_build_manifest rq) = Inr artifacts" "clean_request rq artifacts"
  obtains engine capability where "is_digest engine" "is_digest capability"
    "skeleton_sections rq (uuid_str (uuid4 random)) = Inr (pending_sections rq random (attested rq artifacts engine capability))"
proof -
  have "''product_engine_manifest'' \<in> set CANDIDATE_ARTIFACTS" "''product_capability_manifest'' \<in> set CANDIDATE_ARTIFACTS"
    by (simp_all add: CANDIDATE_ARTIFACTS_def)
  then obtain engine capability where digests: "artifact_digest artifacts ''product_engine_manifest'' = Inr engine" "is_digest engine"
      "artifact_digest artifacts ''product_capability_manifest'' = Inr capability" "is_digest capability"
    using artifact_digest_ok [OF assms(2)] by blast
  have identity: "canonical_digest (without ''artifacts'' (sk_build_manifest rq)) = Inr (sha256 (identity_text rq))"
    using canonical_digest_encodable assms(3) unfolding clean_request_def identity_text_def by blast
  have "skeleton_sections rq (uuid_str (uuid4 random)) = Inr (pending_sections rq random (attested rq artifacts engine capability))"
    by (simp add: skeleton_sections_def assms(2) skeleton_attestation_def identity digests unsupported_def skeleton_topology_def
        guest_declarations_eq [OF assms(1)] pending_sections_def pending_section_def pending_topology_def attested_def)
  with digests that show thesis by blast
qed

lemma clean_PDict: "clean_value (PDict d) \<longleftrightarrow> list_all (\<lambda>(k, v). utf8_valid k \<and> k \<notin> set BANNED_LEGACY_KEYS \<and> clean_value v) d"
  by (auto simp: clean_value_def list_all_iff)

lemma clean_PList: "clean_value (PList vs) \<longleftrightarrow> list_all clean_value vs"
  by (auto simp: clean_value_def list_all_iff)

lemma clean_atoms: "clean_value PNone" "clean_value (PBool b)" "clean_value (PInt i)"
  by (simp_all add: clean_value_def cites_legacy_def)

lemma clean_digest: "is_digest v \<Longrightarrow> clean_value v"
  by (simp add: clean_value_def digest_plain)

lemma clean_plain: "plain_text s \<Longrightarrow> clean_value (PStr s)"
  using plain_text_clean by (simp add: clean_value_def)

text \<open>The keys and constant strings of the initial document.\<close>

lemma clean_constants:
  "list_all (\<lambda>k. utf8_valid k \<and> k \<notin> set BANNED_LEGACY_KEYS)
     [''status'', ''reason'', ''missing_evidence'', ''qemu_machine'', ''hdm_db_bi_required'', ''shared_region_bytes'',
      ''guest_declarations'', ''role'', ''index'', ''guest_uuid'', ''independent_address_space'', ''endpoint_host_id'',
      ''region_generation'', ''launch_state'', ''build_identity_digest'', ''artifacts'', ''product_engine_manifest_digest'',
      ''product_capability_manifest_digest'', ''engine_build_attestation'', ''process_terminals'', ''network_closure'',
      ''response_and_final_drain'', ''qemu_bi_topology'', ''artifact_completion'', ''schema_version'', ''filesystem_mode'',
      ''run_id'', ''run_uuid'', ''owner_token'', ''stage'', ''functional_model_only'', ''physical_hardware_evidence'',
      ''official_candidate'', ''evaluation_manifest_digest'', ''sections'', ''evidence_digest'']"
  by code_simp

lemma clean_strings:
  "list_all (\<lambda>s. clean_value (PStr s))
     [''complete'', ''not_yet_supported'', ''candidate process-terminal ABI is introduced in V1'', ''root_operation_conservation'',
      ''per_process_terminal_records'', ''candidate socket and route accounting is introduced in V1'', ''filesystem_socket_ledger'',
      ''route_allowlist_digest'', ''candidate response and durability seals are introduced in V1'', ''response_seal'',
      ''fully_drained_seal'', ''phase_terminal'', ''per_guest_region_generation'', ''cold_observer_launch_receipt'',
      ''guest identities are predeclared, but region generations and the cold-observer launch receipt are not yet emitted'',
      ''candidate phase artifacts cannot close before V1 terminal records exist'', ''phase_artifact_digest'',
      ''terminal_evidence_digest'', ''server'', ''client'', ''cold-observer'', ''required'', ''predeclared-not-launched'',
      SCHEMA_VERSION, ''rdwo-candidate'']"
  by code_simp

lemmas clean_simps = clean_PDict clean_PList clean_atoms clean_constants [unfolded list.pred_inject]
  clean_strings [unfolded list.pred_inject]

lemma clean_guest:
  assumes "clean_value (PStr role)" "clean_value (PStr state)"
  shows "clean_value (PDict (declared_guest random state (endpoint, role, index)))"
proof -
  have "plain_text (guest_text random r)" for r unfolding guest_text_def by (rule uuid_plain)
  moreover have "plain_text ''qemu-process:''" by code_simp
  ultimately have "clean_value (PStr (guest_text random r))" "clean_value (PStr (''qemu-process:'' @ guest_text random r))" for r
    by (simp_all only: clean_plain plain_text_def list_all_append simp_thms)
  with assms show ?thesis by (simp only: declared_guest_def clean_simps list.pred_inject prod.case simp_thms)
qed

lemma clean_guests: "list_all (\<lambda>g. clean_value (PDict g)) (declared_guests random servers clients)"
proof -
  have "clean_value (PStr role)" if "(role, index) \<in> set (guest_roles servers clients)" for role index
    using that clean_strings by (auto simp: guest_roles_def)
  moreover have "clean_value (PStr ''required'')" "clean_value (PStr ''cold-observer'')" "clean_value (PStr ''predeclared-not-launched'')"
    using clean_strings by simp_all
  ultimately show ?thesis
    unfolding declared_guests_def Let_def list_all_iff by (auto dest!: set_zip_rightD intro: clean_guest)
qed

lemma clean_sections:
  assumes "clean_request rq artifacts" "is_digest engine" "is_digest capability"
  shows "clean_value (PDict (pending_sections rq random (attested rq artifacts engine capability)))"
proof -
  have "clean_value (PDict (attested rq artifacts engine capability))"
    using assms clean_digest sha256_is_digest by (simp only: attested_def clean_request_def clean_simps list.pred_inject prod.case simp_thms)
  moreover have "clean_value (PDict (pending_topology rq random))"
    using assms(1) clean_guests [of random "sk_server_count rq" "sk_client_count rq"]
    by (simp only: pending_topology_def clean_request_def clean_simps list.pred_inject prod.case simp_thms list.pred_map comp_def)
  ultimately show ?thesis
    by (simp only: pending_sections_def pending_section_def clean_simps list.pred_inject prod.case simp_thms list.map)
qed

lemma clean_document:
  assumes "clean_request rq artifacts" "clean_value (PDict sections)"
  shows "clean_value (PDict (skeleton_document rq (uuid_str u) sections))"
  using assms clean_plain [OF uuid_plain [of u]]
  by (simp only: skeleton_document_def clean_request_def clean_simps list.pred_inject prod.case simp_thms)

text \<open>A clean body with accepted sections becomes an accepted document by signing it.\<close>

definition signed :: "pydict \<Rightarrow> pydict" where
  "signed body = body @ [(''evidence_digest'', PStr (sha256 (canonical_text (PDict body))))]"

lemma dget_signed [simp]:
  "''evidence_digest'' \<noteq> k \<Longrightarrow> dget (signed body) k = dget body k"
  by (auto simp: signed_def dget_def map_of_append split: option.splits)

lemma dget_signed_digest:
  "''evidence_digest'' \<notin> fst ` set body \<Longrightarrow> dget (signed body) ''evidence_digest'' = PStr (sha256 (canonical_text (PDict body)))"
  by (simp add: signed_def dget_def map_of_append map_add_def map_of_eq_None_iff [THEN iffD2])

lemma signed_accepted:
  assumes "clean_value (PDict body)" "''evidence_digest'' \<notin> fst ` set body" "fixed_fields body" "dget body ''sections'' = PDict s"
    and "set (map fst s) = set SECTION_NAMES" "rmap (check_section s) SECTION_NAMES = Inr checked"
    and "validate_sections checked = Inr ()" "dget body ''status'' = PStr (expected_status checked)"
  shows "validate (PDict (signed body)) = Inr (PDict (signed body))"
    and "canonical_digest body = Inr (sha256 (canonical_text (PDict body)))"
proof -
  have digest: "canonical_digest body = Inr (sha256 (canonical_text (PDict body)))"
    using canonical_digest_encodable assms(1) by (simp only: clean_value_def)
  then show "canonical_digest body = Inr (sha256 (canonical_text (PDict body)))" .
  have "clean_value (PDict (signed body))"
    using assms(1) clean_digest [OF sha256_is_digest] unfolding signed_def clean_PDict list_all_append
    by (simp only: clean_simps list.pred_inject prod.case simp_thms)
  then have free: "free_of_legacy (signed body)" by (simp only: clean_value_def legacy_clean_free)
  have fields: "fixed_fields (signed body)" using assms(3) by (simp add: fixed_fields_def)
  have body: "without ''evidence_digest'' (signed body) = body"
    using assms(2) by (auto simp: signed_def without_def filter_id_conv image_iff)
  show "validate (PDict (signed body)) = Inr (PDict (signed body))"
    unfolding validate_Inr
  proof (rule conjI [OF refl], rule exI [of _ "signed body"], rule exI [of _ s], rule exI [of _ checked], intro conjI)
    show "\<exists>digest. canonical_digest (without ''evidence_digest'' (signed body)) = Inr digest
        \<and> dget (signed body) ''evidence_digest'' = PStr digest"
      using digest dget_signed_digest [OF assms(2)] by (simp only: body) blast
  qed (use assms free fields in simp_all)
qed

lemma pending_sections_checked:
  assumes "skeleton_artifacts (sk_build_manifest rq) = Inr artifacts" "is_digest engine" "is_digest capability"
    and "distinct (map (guest_text random) (guest_roles (sk_server_count rq) (sk_client_count rq) @ [(''cold-observer'', 0)]))"
    and "dget d ''sections'' = PDict (pending_sections rq random (attested rq artifacts engine capability))"
  shows "rmap (check_section (pending_sections rq random (attested rq artifacts engine capability))) SECTION_NAMES
           = Inr (map (section_of d) SECTION_NAMES)"
    and "validate_sections (map (section_of d) SECTION_NAMES) = Inr ()"
    and "expected_status (map (section_of d) SECTION_NAMES) = ''not_yet_supported''"
proof -
  let ?s = "pending_sections rq random (attested rq artifacts engine capability)"
  have sections: "section_of d name = (case map_of ?s name of Some (PDict s) \<Rightarrow> s | _ \<Rightarrow> [])" for name
    by (simp add: section_of_def assms(5))
  show "rmap (check_section ?s) SECTION_NAMES = Inr (map (section_of d) SECTION_NAMES)"
    unfolding rmap_Inr_iff list.rel_map(2) list_all2_same
    by (auto simp: SECTION_NAMES_def check_section_Inr sections pending_sections_def pending_section_def pending_topology_def attested_def
        validate_unsupported_def)
  have topology: "section_of d ''qemu_bi_topology'' = pending_topology rq random" by (simp add: sections pending_sections_def)
  show "validate_sections (map (section_of d) SECTION_NAMES) = Inr ()"
    unfolding validate_sections_Inr topology
    using attested_closed [OF assms(1-3), of rq] declared_guests_ok [OF assms(4)]
    by (auto simp: sections pending_sections_def pending_section_def pending_topology_def)
  show "expected_status (map (section_of d) SECTION_NAMES) = ''not_yet_supported''"
    by (simp add: expected_status_def SECTION_NAMES_def sections pending_sections_def pending_section_def pending_topology_def attested_def)
qed

text \<open>
  (C29) For every request with complete artifacts and clean text the construction succeeds: the
  document it returns passes the validator, is marked as not yet supported together with
  every section but the build attestation, and predeclares one guest per server and client
  and a cold observer. The hypothesis on the identities excludes colliding UUIDs.
\<close>

theorem skeleton_accepted:
  assumes "length random = 16" "skeleton_artifacts (sk_build_manifest rq) = Inr artifacts" "clean_request rq artifacts"
    and "distinct (map (guest_text random) (guest_roles (sk_server_count rq) (sk_client_count rq) @ [(''cold-observer'', 0)]))"
  shows "\<exists>d. create_skeleton random rq = Inr d \<and> validate (PDict d) = Inr (PDict d)
           \<and> dget d ''status'' = PStr ''not_yet_supported''
           \<and> map (section_status d) SECTION_NAMES = PStr ''complete'' # replicate 5 (PStr ''not_yet_supported'')
           \<and> dget (section_of d ''qemu_bi_topology'') ''guest_declarations''
               = PList (map PDict (declared_guests random (sk_server_count rq) (sk_client_count rq)))"
proof -
  obtain engine capability where digests: "is_digest engine" "is_digest capability"
    and sections: "skeleton_sections rq (uuid_str (uuid4 random)) = Inr (pending_sections rq random (attested rq artifacts engine capability))"
    using skeleton_sections_eq [OF assms(1-3)] by blast
  define s where "s = pending_sections rq random (attested rq artifacts engine capability)"
  define body where "body = skeleton_document rq (uuid_str (uuid4 random)) s"
  define d where "d = signed body"
  have clean: "clean_value (PDict body)"
    unfolding body_def s_def by (rule clean_document [OF assms(3) clean_sections [OF assms(3) digests]])
  have top: "fixed_fields body" "dget body ''sections'' = PDict s" "dget body ''status'' = PStr ''not_yet_supported''"
      "''evidence_digest'' \<notin> fst ` set body"
    by (simp_all add: body_def skeleton_document_def fixed_fields_def)
  note checked = pending_sections_checked [OF assms(2) digests assms(4), of body, folded s_def, OF top(2)]
  have names: "set (map fst s) = set SECTION_NAMES" by (simp add: s_def pending_sections_def SECTION_NAMES_def)
  have valid: "validate (PDict d) = Inr (PDict d)" and digest: "canonical_digest body = Inr (sha256 (canonical_text (PDict body)))"
    unfolding d_def using signed_accepted [OF clean top(4,1,2) names checked(1,2)] top(3) checked(3) by simp_all
  have "aset ''evidence_digest'' v body = body @ [(''evidence_digest'', v)]" for v by (simp add: body_def skeleton_document_def)
  then have created: "create_skeleton random rq = Inr d"
    using sections valid digest by (simp add: create_skeleton_def Let_def d_def signed_def flip: s_def body_def)
  have sections_d: "dget d ''sections'' = PDict s" "dget d ''status'' = PStr ''not_yet_supported''" using top(2,3) by (simp_all add: d_def)
  have statuses: "map (section_status d) SECTION_NAMES = PStr ''complete'' # replicate 5 (PStr ''not_yet_supported'')"
    "dget (section_of d ''qemu_bi_topology'') ''guest_declarations''
       = PList (map PDict (declared_guests random (sk_server_count rq) (sk_client_count rq)))"
  proof -
    have "section_of d name = (case map_of s name of Some (PDict t) \<Rightarrow> t | _ \<Rightarrow> [])" for name by (simp add: section_of_def sections_d)
    then show "map (section_status d) SECTION_NAMES = PStr ''complete'' # replicate 5 (PStr ''not_yet_supported'')"
      "dget (section_of d ''qemu_bi_topology'') ''guest_declarations''
         = PList (map PDict (declared_guests random (sk_server_count rq) (sk_client_count rq)))"
      by (simp_all add: SECTION_NAMES_def section_status_def s_def pending_sections_def pending_section_def
          pending_topology_def attested_def eval_nat_numeral)
  qed
  show ?thesis using created valid sections_d(2) statuses by (intro exI [of _ d] conjI)
qed

definition sample_artifact :: pyval where
  "sample_artifact = PDict [(''path'', PStr ''bin/rdwo''), (''size'', PInt 4096), (''sha256'', PStr (replicate 64 CHR ''a''))]"

definition sample_artifacts :: pydict where
  "sample_artifacts = map (\<lambda>name. (name, sample_artifact)) CANDIDATE_ARTIFACTS"

definition sample_request :: skeleton_request where
  "sample_request =
     \<lparr>sk_run_id = ''run-1'', sk_stage = ''v0'', sk_owner_token = ''owner'',
      sk_build_manifest = [(''schema_version'', PInt 2), (''artifacts'', PDict sample_artifacts)],
      sk_evaluation_manifest = None, sk_server_count = 1, sk_client_count = 2, sk_qemu_machine = ''virt'',
      sk_shared_region_bytes = 68719476736\<rparr>"

lemma sample_request_ok:
  "skeleton_artifacts (sk_build_manifest sample_request) = Inr sample_artifacts" "clean_request sample_request sample_artifacts"
  by code_simp+

lemma sample_guests_distinct:
  "distinct (map (guest_text (replicate 16 CHR ''r''))
     (guest_roles (sk_server_count sample_request) (sk_client_count sample_request) @ [(''cold-observer'', 0)]))"
  by code_simp

theorem skeleton_accepted_witness:
  "\<exists>d. create_skeleton (replicate 16 CHR ''r'') sample_request = Inr d \<and> dget d ''status'' = PStr ''not_yet_supported''"
  using skeleton_accepted [OF _ sample_request_ok sample_guests_distinct] by auto

definition hex64 :: pyval where
  "hex64 = PStr (replicate 64 CHR ''0'')"

definition sample_guest :: "string \<Rightarrow> int \<Rightarrow> string \<Rightarrow> pyval" where
  "sample_guest name i state =
     PDict [(''role'', PStr (if i = 1 then ''cold-observer'' else ''server'')), (''guest_uuid'', PStr name),
            (''independent_address_space'', PStr (''qemu-process:'' @ name)), (''endpoint_host_id'', PInt i),
            (''region_generation'', PInt 7), (''launch_state'', PStr state)]"

definition sample_sections :: pydict where
  "sample_sections =
     [(''engine_build_attestation'', PDict
         [(''status'', PStr ''complete''), (''build_identity_digest'', hex64), (''artifacts'', PDict sample_artifacts),
          (''product_engine_manifest_digest'', hex64), (''product_capability_manifest_digest'', hex64)]),
      (''process_terminals'', PDict
         [(''status'', PStr ''complete''), (''expected_processes'', PInt 1),
          (''records'', PList [PDict [(''process_uuid'', PStr ''p0''), (''exec_incarnation'', PStr ''e0''),
             (''terminal'', PStr ''completed''), (''terminal_digest'', hex64)]]),
          (''root_operations_issued'', PInt 12), (''root_operations_terminal'', PInt 12)]),
      (''network_closure'', PDict
         [(''status'', PStr ''complete''), (''filesystem_socket_calls'', PInt 0), (''filesystem_tcp_routes'', PInt 0),
          (''unknown_semantic_routes'', PInt 0), (''filesystem_network_namespace_enforced'', PBool True),
          (''functional_model_transport_classified'', PBool True), (''route_allowlist_digest'', hex64)]),
      (''response_and_final_drain'', PDict
         [(''status'', PStr ''complete''), (''requests_admitted'', PInt 5), (''responses_completed'', PInt 5),
          (''final_drain_complete'', PBool True), (''response_seal_digest'', hex64), (''fully_drained_seal_digest'', hex64),
          (''phase_terminal_digest'', hex64)]),
      (''qemu_bi_topology'', PDict
         [(''status'', PStr ''complete''), (''hdm_db_bi_observed'', PBool True),
          (''guest_declarations'', PList [sample_guest ''g0'' 0 ''required'', sample_guest ''g1'' 1 ''launched-and-observed''])]),
      (''artifact_completion'', PDict
         [(''status'', PStr ''complete''), (''phase_artifact_path'', PStr ''phase.json''), (''phase_artifact_digest'', hex64),
          (''terminal_evidence_digest'', hex64), (''metric_units'', PList [PStr ''GiB/s''])])]"

definition sample_body :: pydict where
  "sample_body =
     [(''schema_version'', PStr SCHEMA_VERSION), (''filesystem_mode'', PStr ''rdwo-candidate''),
      (''status'', PStr ''complete''), (''functional_model_only'', PBool True), (''physical_hardware_evidence'', PBool False),
      (''official_candidate'', PBool False), (''sections'', PDict sample_sections)]"

text \<open>The same body with its first two fields exchanged.\<close>

definition sample_reordered :: pydict where
  "sample_reordered = sample_body ! 1 # sample_body ! 0 # drop 2 sample_body"

definition sample_checked :: "pydict list" where
  "sample_checked = map (\<lambda>name. case map_of sample_sections name of Some (PDict s) \<Rightarrow> s | _ \<Rightarrow> []) SECTION_NAMES"

lemma sample_sections_ok:
  "set (map fst sample_sections) = set SECTION_NAMES" "rmap (check_section sample_sections) SECTION_NAMES = Inr sample_checked"
  "validate_sections sample_checked = Inr ()" "expected_status sample_checked = ''complete''"
  by code_simp+

lemma hex64_clean: "clean_value hex64"
  by (rule clean_digest) code_simp

lemma sample_body_clean: "clean_value (PDict sample_body)"
  by (simp only: sample_body_def sample_sections_def sample_guest_def clean_PDict clean_PList clean_atoms hex64_clean
      list.pred_inject list.map prod.case simp_thms, intro conjI) code_simp+

lemma sample_reordered_clean: "clean_value (PDict sample_reordered)"
proof -
  have "set sample_reordered = set sample_body" by (auto simp: sample_reordered_def sample_body_def)
  with sample_body_clean show ?thesis unfolding clean_PDict list_all_iff by simp
qed

lemma document_accepted: "validate (PDict (signed sample_body)) = Inr (PDict (signed sample_body))"
  by (rule signed_accepted(1) [OF sample_body_clean _ _ _ sample_sections_ok(1-3)])
     (auto simp: sample_body_def fixed_fields_def sample_sections_ok(4))

lemma reordered_accepted: "validate (PDict (signed sample_reordered)) = Inr (PDict (signed sample_reordered))"
  by (rule signed_accepted(1) [OF sample_reordered_clean _ _ _ sample_sections_ok(1-3)])
     (auto simp: sample_reordered_def sample_body_def fixed_fields_def sample_sections_ok(4))

theorem candidate_evidence_sound_witness:
  "terminals_closed (section_of (signed sample_body) ''process_terminals'')
   \<and> network_closed (section_of (signed sample_body) ''network_closure'')"
  using candidate_evidence_sound [OF document_accepted] by (simp add: sample_body_def)

lemma sample_distinct:
  "plain_json (PDict sample_body)" "plain_json (PDict sample_reordered)"
  "''evidence_digest'' \<notin> fst ` set sample_body" "''evidence_digest'' \<notin> fst ` set sample_reordered"
  by code_simp+

lemma document_plain: "plain_json (PDict (signed sample_body))" "plain_json (PDict (signed sample_reordered))"
  using sample_distinct by (simp_all add: signed_def)


end
