(* ===== verification/Ini_Config.thy ===== *)
theory Ini_Config
  imports Py_Text
begin

text \<open>
  \<^verbatim>\<open>configparser.ConfigParser(interpolation=None, strict=True)\<close> with \<^verbatim>\<open>optionxform = str\<close>, as
  the profile compiler uses it: \<^verbatim>\<open>read_file\<close> with comments, continuation lines and the
  errors of the strict mode, lookup over the default section, \<^verbatim>\<open>set\<close>, \<^verbatim>\<open>add_section\<close> and
  \<^verbatim>\<open>write\<close>. The main result is that a written configuration is read back unchanged.
\<close>

section \<open>Configurations\<close>

type_synonym options = "(string \<times> string) list"

record config =
  cf_defaults :: options
  cf_sections :: "(string \<times> options) list"

definition DEFAULT :: string where
  "DEFAULT = ''DEFAULT''"

definition has_section :: "config \<Rightarrow> string \<Rightarrow> bool" where
  "has_section c s = (map_of (cf_sections c) s \<noteq> None)"

definition section_options :: "config \<Rightarrow> string \<Rightarrow> options" where
  "section_options c s = (case map_of (cf_sections c) s of Some os \<Rightarrow> os | None \<Rightarrow> [])"

text \<open>\<^verbatim>\<open>parser.items(section)\<close>: the defaults, updated with the options of the section.\<close>

definition items :: "config \<Rightarrow> string \<Rightarrow> options" where
  "items c s = foldl (\<lambda>d (k, v). aset k v d) (cf_defaults c) (section_options c s)"

definition set_in_section :: "config \<Rightarrow> string \<Rightarrow> string \<Rightarrow> string \<Rightarrow> config" where
  "set_in_section c s name v = c\<lparr>cf_sections := aset s (aset name v (section_options c s)) (cf_sections c)\<rparr>"

definition add_section :: "config \<Rightarrow> string \<Rightarrow> config res" where
  "add_section c s =
     (if s = DEFAULT then Inl (ValueError ''Invalid section name: DEFAULT'')
      else if has_section c s then Inl (ConfigError ''DuplicateSectionError'')
      else Inr (c\<lparr>cf_sections := cf_sections c @ [(s, [])]\<rparr>))"

section \<open>Reading\<close>

text \<open>Text mode turns every line end into a line feed; iteration over the file splits at line feeds.\<close>

fun universal_newlines :: "string \<Rightarrow> string" where
  "universal_newlines [] = []"
| "universal_newlines (c # cs) =
     (if c = CHR 0x0D
      then CHR 0x0A # (case cs of d # r \<Rightarrow> if d = CHR 0x0A then universal_newlines r else universal_newlines cs | [] \<Rightarrow> [])
      else c # universal_newlines cs)"

fun split_lf :: "string \<Rightarrow> string \<Rightarrow> string list" where
  "split_lf acc [] = (if acc = [] then [] else [rev acc])"
| "split_lf acc (c # cs) = (if c = CHR 0x0A then rev acc # split_lf [] cs else split_lf (c # acc) cs)"

text \<open>The number of white-space characters at the start of a line.\<close>

function indent_of :: "string \<Rightarrow> nat" where
  "indent_of [] = 0"
| "indent_of (c # cs) =
     (if white_len (c # cs) = 0 then 0 else Suc (indent_of (drop (white_len (c # cs) - 1) cs)))"
  by pat_completeness auto
termination
  by (relation "measure length") auto

datatype cursor = NoSection | InDefaults | InSection string

record ini_state =
  ini_defaults :: "(string \<times> string list) list"
  ini_sections :: "(string \<times> (string \<times> string list) list) list"
  ini_cursor :: cursor
  ini_option :: string
  ini_indent :: nat
  ini_seen :: "(string \<times> string) list"
  ini_bad :: bool

definition ini_start :: ini_state where
  "ini_start = \<lparr>ini_defaults = [], ini_sections = [], ini_cursor = NoSection, ini_option = [], ini_indent = 0,
                 ini_seen = [], ini_bad = False\<rparr>"

text \<open>The parts of the value of the current option, changed by \<open>f\<close>.\<close>

definition update_parts :: "(string list \<Rightarrow> string list) \<Rightarrow> string \<Rightarrow> (string \<times> string list) list \<Rightarrow> (string \<times> string list) list" where
  "update_parts f name os = aset name (f (case map_of os name of Some ps \<Rightarrow> ps | None \<Rightarrow> [])) os"

definition update_option :: "(string list \<Rightarrow> string list) \<Rightarrow> string \<Rightarrow> ini_state \<Rightarrow> ini_state" where
  "update_option f name st =
     (case ini_cursor st of
        NoSection \<Rightarrow> st
      | InDefaults \<Rightarrow> st\<lparr>ini_defaults := update_parts f name (ini_defaults st)\<rparr>
      | InSection s \<Rightarrow>
          st\<lparr>ini_sections :=
               aset s (update_parts f name (case map_of (ini_sections st) s of Some os \<Rightarrow> os | None \<Rightarrow> [])) (ini_sections st)\<rparr>)"

definition cursor_name :: "cursor \<Rightarrow> string" where
  "cursor_name c = (case c of InSection s \<Rightarrow> s | _ \<Rightarrow> DEFAULT)"

text \<open>\<^verbatim>\<open>\[(.+)\]\<close> at the start of a line, and \<^verbatim>\<open>(.*?)\s*(?:=|:)\s*(.*)$\<close>.\<close>

definition section_header :: "string \<Rightarrow> string option" where
  "section_header v =
     (case v of
        c # r \<Rightarrow>
          if c = CHR ''['' then
            (let h = rev (dropWhile (\<lambda>x. x \<noteq> CHR '']'') (rev r)) in if 2 \<le> length h then Some (butlast h) else None)
          else None
      | [] \<Rightarrow> None)"

definition is_delimiter :: "char \<Rightarrow> bool" where
  "is_delimiter c = (c = CHR ''='' \<or> c = CHR '':'')"

definition option_line :: "string \<Rightarrow> (string \<times> string) option" where
  "option_line v =
     (let name = takeWhile (\<lambda>c. \<not> is_delimiter c) v; r = dropWhile (\<lambda>c. \<not> is_delimiter c) v
      in if r = [] then None else Some (rstrip name, strip (tl r)))"

definition is_comment :: "string \<Rightarrow> bool" where
  "is_comment line = (case strip line of c # _ \<Rightarrow> c = CHR ''#'' \<or> c = CHR '';'' | [] \<Rightarrow> False)"

definition in_option :: "ini_state \<Rightarrow> bool" where
  "in_option st = (ini_cursor st \<noteq> NoSection \<and> ini_option st \<noteq> [])"

definition read_header :: "ini_state \<Rightarrow> string \<Rightarrow> ini_state res" where
  "read_header st name =
     (if map_of (ini_sections st) name \<noteq> None then Inl (ConfigError ''DuplicateSectionError'')
      else if name = DEFAULT then Inr (st\<lparr>ini_cursor := InDefaults, ini_option := []\<rparr>)
      else Inr (st\<lparr>ini_sections := ini_sections st @ [(name, [])], ini_cursor := InSection name, ini_option := []\<rparr>))"

definition read_option :: "ini_state \<Rightarrow> string \<Rightarrow> string \<Rightarrow> ini_state res" where
  "read_option st name v =
     (let st = (if name = [] then st\<lparr>ini_bad := True\<rparr> else st); key = (cursor_name (ini_cursor st), name)
      in if key \<in> set (ini_seen st) then Inl (ConfigError ''DuplicateOptionError'')
         else Inr (update_option (\<lambda>_. [v]) name (st\<lparr>ini_option := name, ini_seen := key # ini_seen st\<rparr>)))"

definition read_line :: "ini_state \<Rightarrow> string \<Rightarrow> ini_state res" where
  "read_line st line =
     (let v = (if is_comment line then [] else strip line)
      in if v = [] then
           Inr (if \<not> is_comment line \<and> in_option st then update_option (\<lambda>ps. ps @ [[]]) (ini_option st) st else st)
         else if in_option st \<and> ini_indent st < indent_of line then
           Inr (update_option (\<lambda>ps. ps @ [v]) (ini_option st) st)
         else
           let st = st\<lparr>ini_indent := indent_of line\<rparr>
           in (case section_header v of
                 Some name \<Rightarrow> read_header st name
               | None \<Rightarrow>
                   if ini_cursor st = NoSection then Inl (ConfigError ''MissingSectionHeaderError'')
                   else case option_line v of
                          None \<Rightarrow> Inr (st\<lparr>ini_bad := True\<rparr>)
                        | Some (name, value) \<Rightarrow> read_option st name value))"

fun join_lf :: "string list \<Rightarrow> string" where
  "join_lf [] = []"
| "join_lf [x] = x"
| "join_lf (x # y # r) = x @ CHR 0x0A # join_lf (y # r)"

definition joined :: "(string \<times> string list) list \<Rightarrow> options" where
  "joined os = map (\<lambda>(k, ps). (k, rstrip (join_lf ps))) os"

definition read_string :: "string \<Rightarrow> config res" where
  "read_string source =
     rbind (rfold read_line ini_start (split_lf [] source)) (\<lambda>st.
     if ini_bad st then Inl (ConfigError ''ParsingError'')
     else Inr \<lparr>cf_defaults = joined (ini_defaults st), cf_sections = map (\<lambda>(s, os). (s, joined os)) (ini_sections st)\<rparr>)"

section \<open>Writing\<close>

definition tabbed :: "string \<Rightarrow> string" where
  "tabbed v = concat (map (\<lambda>c. if c = CHR 0x0A then [CHR 0x0A, CHR 0x09] else [c]) v)"

definition write_section :: "string \<times> options \<Rightarrow> string" where
  "write_section = (\<lambda>(name, os).
     CHR ''['' # name @ '']'' @ [CHR 0x0A]
     @ concat (map (\<lambda>(k, v). k @ '' = '' @ tabbed v @ [CHR 0x0A]) os) @ [CHR 0x0A])"

definition write_config :: "config \<Rightarrow> string" where
  "write_config c =
     (if cf_defaults c = [] then [] else write_section (DEFAULT, cf_defaults c))
     @ concat (map write_section (cf_sections c))"

section \<open>Well-formed configurations\<close>

definition wf_config :: "config \<Rightarrow> bool" where
  "wf_config c \<longleftrightarrow>
     distinct (map fst (cf_defaults c)) \<and> distinct (map fst (cf_sections c))
     \<and> (\<forall>(s, os)\<in>set (cf_sections c). s \<noteq> DEFAULT \<and> distinct (map fst os))"

lemma wf_section_options: "wf_config c \<Longrightarrow> distinct (map fst (section_options c s))"
  by (auto simp: wf_config_def section_options_def split: option.splits dest: map_of_SomeD)

lemma set_aset_cases: "(a, b) \<in> set (aset k v d) \<Longrightarrow> (a, b) = (k, v) \<or> (a, b) \<in> set d"
  by (induction k v d rule: aset.induct) (auto split: if_splits)

lemma wf_set_in_section: "wf_config c \<Longrightarrow> s \<noteq> DEFAULT \<Longrightarrow> wf_config (set_in_section c s name v)"
  using wf_section_options [of c s]
  by (auto simp: wf_config_def set_in_section_def distinct_aset simp del: keys_aset dest!: set_aset_cases)

lemma section_options_set [simp]:
  "section_options (set_in_section c s name v) t = (if t = s then aset name v (section_options c s) else section_options c t)"
  by (simp add: section_options_def set_in_section_def)

lemma has_section_set [simp]: "has_section (set_in_section c s name v) t \<longleftrightarrow> t = s \<or> has_section c t"
  by (simp add: has_section_def set_in_section_def)

lemma defaults_set [simp]: "cf_defaults (set_in_section c s name v) = cf_defaults c"
  by (simp add: set_in_section_def)

text \<open>Setting an option of a section updates the merged items in place.\<close>

lemma aset_aset [simp]: "aset k v (aset k w d) = aset k v d"
  by (induction k w d rule: aset.induct) auto

lemma aset_commute: "k \<in> fst ` set d \<Longrightarrow> a \<noteq> k \<Longrightarrow> aset a b (aset k v d) = aset k v (aset a b d)"
  by (induction d) (fastforce simp: image_iff split: if_splits)+

lemma fst_aset [simp]: "fst ` set (aset k v d) = insert k (fst ` set d)"
  by (induction k v d rule: aset.induct) auto

lemma merge_present:
  "k \<in> fst ` set d \<Longrightarrow> k \<notin> fst ` set os \<Longrightarrow>
     foldl (\<lambda>d (k, v). aset k v d) (aset k v d) os = aset k v (foldl (\<lambda>d (k, v). aset k v d) d os)"
proof (induction os arbitrary: d)
  case (Cons o' os)
  obtain a b where o: "o' = (a, b)" by (cases o')
  with Cons.prems have "a \<noteq> k" by auto
  with Cons o show ?case using aset_commute [of k d a b v] by auto
qed simp

lemma merge_update:
  "distinct (map fst os) \<Longrightarrow> foldl (\<lambda>d (k, v). aset k v d) d (aset k v os) = aset k v (foldl (\<lambda>d (k, v). aset k v d) d os)"
proof (induction os arbitrary: d)
  case (Cons o' os)
  obtain a b where o: "o' = (a, b)" by (cases o')
  show ?case
  proof (cases "a = k")
    case True
    with Cons.prems o merge_present [of k "aset k b d" os v] show ?thesis by simp
  next
    case False
    with Cons o show ?thesis by simp
  qed
qed simp

lemma items_set: "wf_config c \<Longrightarrow> items (set_in_section c s name v) s = aset name v (items c s)"
  by (simp add: items_def merge_update wf_section_options)

lemma items_other [simp]: "t \<noteq> s \<Longrightarrow> items (set_in_section c s name v) t = items c t"
  by (simp add: items_def)

text \<open>The first item whose name satisfies a condition.\<close>

lemma find_aset_hit:
  "List.find (\<lambda>(k, v). q k) d = Some (k, w) \<Longrightarrow> List.find (\<lambda>(k, v). q k) (aset k v d) = Some (k, v)"
proof -
  assume f: "List.find (\<lambda>(k, v). q k) d = Some (k, w)"
  then have "q k" by (auto simp: find_Some_iff)
  with f show ?thesis by (induction d) (auto split: if_splits)
qed

lemma find_aset_new:
  "List.find (\<lambda>(k, v). q k) d = None \<Longrightarrow> q k \<Longrightarrow> List.find (\<lambda>(k, v). q k) (aset k v d) = Some (k, v)"
  by (induction d) (auto split: if_splits)

lemma find_aset_other: "\<not> q k \<Longrightarrow> List.find (\<lambda>(k, v). q k) (aset k v d) = List.find (\<lambda>(k, v). q k) d"
  by (induction d) (auto split: if_splits)

section \<open>A written configuration is read back\<close>

definition plain_key :: "string \<Rightarrow> bool" where
  "plain_key k \<longleftrightarrow>
     ascii_line k \<and> k \<noteq> [] \<and> last k \<noteq> CHR '' '' \<and> hd k \<notin> set '' #;['' \<and> list_all (\<lambda>c. \<not> is_delimiter c) k"

definition plain_value :: "string \<Rightarrow> bool" where
  "plain_value v \<longleftrightarrow> ascii_line v \<and> (v = [] \<or> hd v \<noteq> CHR '' '' \<and> last v \<noteq> CHR '' '')"

definition plain_options :: "options \<Rightarrow> bool" where
  "plain_options os \<longleftrightarrow> distinct (map fst os) \<and> list_all (\<lambda>(k, v). plain_key k \<and> plain_value v) os"

definition plain_config :: "config \<Rightarrow> bool" where
  "plain_config c \<longleftrightarrow>
     wf_config c \<and> plain_options (cf_defaults c)
     \<and> list_all (\<lambda>(s, os). ascii_line s \<and> s \<noteq> [] \<and> plain_options os) (cf_sections c)"

lemma split_lf_line: "CHR 0x0A \<notin> set l \<Longrightarrow> split_lf acc (l @ CHR 0x0A # r) = (rev acc @ l) # split_lf [] r"
  by (induction l arbitrary: acc) auto

lemma split_lf_lines: "\<forall>l\<in>set ls. CHR 0x0A \<notin> set l \<Longrightarrow> split_lf [] (concat (map (\<lambda>l. l @ [CHR 0x0A]) ls)) = ls"
  by (induction ls) (simp_all add: split_lf_line)

lemma ascii_no_lf: "ascii_line l \<Longrightarrow> CHR 0x0A \<notin> set l"
  by (auto simp: list_all_iff ascii_char_def)

definition section_lines :: "string \<times> options \<Rightarrow> string list" where
  "section_lines = (\<lambda>(name, os). (CHR ''['' # name @ '']'') # map (\<lambda>(k, v). k @ '' = '' @ v) os @ [[]])"

lemma tabbed_plain: "CHR 0x0A \<notin> set v \<Longrightarrow> tabbed v = v"
  by (induction v) (auto simp: tabbed_def)

lemma write_section_lines:
  assumes "plain_options os"
  shows "write_section (name, os) = concat (map (\<lambda>l. l @ [CHR 0x0A]) (section_lines (name, os)))"
proof -
  have "map (\<lambda>(k, v). k @ '' = '' @ tabbed v @ [CHR 0x0A]) os = map ((\<lambda>l. l @ [CHR 0x0A]) \<circ> (\<lambda>(k, v). k @ '' = '' @ v)) os"
    using assms by (auto simp: plain_options_def plain_value_def list_all_iff tabbed_plain ascii_no_lf [unfolded list_all_iff])
  then show ?thesis by (simp only: write_section_def section_lines_def prod.case list.map map_append concat.simps concat_append list.map_comp
        append.simps append_assoc append_Nil2)
qed

text \<open>What the reader has collected so far.\<close>

definition collected :: "ini_state \<Rightarrow> options \<times> (string \<times> options) list" where
  "collected st = (joined (ini_defaults st), map (\<lambda>(s, os). (s, joined os)) (ini_sections st))"

text \<open>The reader between the lines of a plain file: no error, no indentation, options remembered under known sections.\<close>

definition level :: "ini_state \<Rightarrow> bool" where
  "level st \<longleftrightarrow>
     \<not> ini_bad st \<and> ini_indent st = 0
     \<and> (\<forall>(s, k)\<in>set (ini_seen st). s = DEFAULT \<or> s \<in> fst ` set (ini_sections st))"

lemma strip_plain: "ascii_line l \<Longrightarrow> l \<noteq> [] \<Longrightarrow> hd l \<noteq> CHR '' '' \<Longrightarrow> last l \<noteq> CHR '' '' \<Longrightarrow> strip l = l"
  by (rule strip_ascii)

lemma indent_plain: "ascii_line l \<Longrightarrow> hd l \<noteq> CHR '' '' \<Longrightarrow> indent_of l = 0"
  by (cases l) (simp_all add: white_len_ascii del: white_len.simps)

lemma strip_empty [simp]: "strip [] = []" "rstrip [] = []"
  by (simp_all add: strip_def)

lemma section_header_line: "name \<noteq> [] \<Longrightarrow> section_header (CHR ''['' # name @ '']'') = Some name"
  by (cases name) (simp_all add: section_header_def)

lemma section_header_other: "hd u \<noteq> CHR ''['' \<Longrightarrow> section_header u = None"
  by (cases u) (simp_all add: section_header_def)

lemma not_comment: "hd (strip l) \<notin> set ''#;'' \<Longrightarrow> \<not> is_comment l"
  by (cases "strip l") (simp_all add: is_comment_def)

lemma header_step:
  assumes "level st" "ascii_line name" "name \<noteq> []" "map_of (ini_sections st) name = None"
  shows "read_line st (CHR ''['' # name @ '']'') =
    Inr (if name = DEFAULT then st\<lparr>ini_cursor := InDefaults, ini_option := []\<rparr>
         else st\<lparr>ini_sections := ini_sections st @ [(name, [])], ini_cursor := InSection name, ini_option := []\<rparr>)"
proof -
  let ?l = "CHR ''['' # name @ '']''"
  have a: "ascii_line ?l" using assms(2) by (simp add: ascii_char_def)
  then have "strip ?l = ?l" "indent_of ?l = 0" by (simp_all add: strip_plain indent_plain del: append_Cons)
  moreover have "st\<lparr>ini_indent := 0\<rparr> = st" using assms(1) by (simp add: level_def)
  ultimately show ?thesis
    using assms by (simp add: read_line_def is_comment_def section_header_line read_header_def Let_def)
qed

lemma lstrip_visible: "ascii_line l \<Longrightarrow> \<exists>x\<in>set l. x \<noteq> CHR '' '' \<Longrightarrow> lstrip (l @ r) \<noteq> []"
  by (induction l) (auto simp: white_len_ascii simp del: white_len.simps)

lemma rstrip_suffix:
  assumes "lstrip w = []"
  shows "ascii_line l \<Longrightarrow> l \<noteq> [] \<Longrightarrow> last l \<noteq> CHR '' '' \<Longrightarrow> rstrip (l @ w) = l"
proof (induction l)
  case (Cons c cs)
  have "\<exists>x\<in>set (c # cs). x \<noteq> CHR '' ''" using Cons.prems(3) last_in_set [of "c # cs"] by blast
  then have visible: "lstrip (c # cs @ w) \<noteq> []" using lstrip_visible [OF Cons.prems(1), of w] by simp
  have "rstrip w = []" using assms by (cases w) (simp_all del: lstrip.simps)
  with Cons visible show ?case by (cases "cs = []") (simp_all del: lstrip.simps)
qed simp

lemma strip_value: "plain_value v \<Longrightarrow> strip (CHR '' '' # v) = v \<and> rstrip v = v \<and> rstrip (v @ [CHR 0x0A]) = v \<and> strip v = v"
proof -
  assume v: "plain_value v"
  show ?thesis
  proof (cases "v = []")
    case False
    with v have p: "ascii_line v" "hd v \<noteq> CHR '' ''" "last v \<noteq> CHR '' ''" by (auto simp: plain_value_def)
    have "lstrip (CHR '' '' # v) = lstrip v" by simp
    then have "strip (CHR '' '' # v) = strip v" by (simp only: strip_def)
    with p False show ?thesis by (simp add: strip_plain rstrip_ascii rstrip_suffix)
  qed (simp add: strip_def)
qed

lemma option_line_plain:
  assumes "plain_key k" "plain_value v"
  shows "option_line (if v = [] then k @ '' ='' else k @ '' = '' @ v) = Some (k, v)"
proof -
  have k: "ascii_line k" "k \<noteq> []" "last k \<noteq> CHR '' ''" "\<forall>c\<in>set k. \<not> is_delimiter c"
    using assms(1) by (auto simp: plain_key_def list_all_iff)
  have d: "is_delimiter CHR ''=''" "\<not> is_delimiter CHR '' ''" by (simp_all add: is_delimiter_def)
  have name: "takeWhile (\<lambda>c. \<not> is_delimiter c) (k @ CHR '' '' # CHR ''='' # r) = k @ '' ''"
    "dropWhile (\<lambda>c. \<not> is_delimiter c) (k @ CHR '' '' # CHR ''='' # r) = CHR ''='' # r" for r
    using k(4) d by (simp_all add: takeWhile_append2 dropWhile_append2)
  have "rstrip (k @ '' '') = k" by (rule rstrip_suffix [OF _ k(1-3)]) simp
  with name strip_value [OF assms(2)] d show ?thesis by (simp add: option_line_def Let_def)
qed

text \<open>The line of an option, as the reader strips it.\<close>

lemma option_step:
  assumes "level st" "ini_cursor st \<noteq> NoSection" "plain_key k" "plain_value v" "(cursor_name (ini_cursor st), k) \<notin> set (ini_seen st)"
  shows "read_line st (k @ '' = '' @ v) =
    Inr (update_option (\<lambda>_. [v]) k (st\<lparr>ini_option := k, ini_seen := (cursor_name (ini_cursor st), k) # ini_seen st\<rparr>))"
proof -
  let ?l = "k @ '' = '' @ v"
  let ?v = "if v = [] then k @ '' ='' else ?l"
  have k: "ascii_line k" "k \<noteq> []" "hd k \<noteq> CHR '' ''" "hd k \<notin> set ''#;[''" using assms(3) by (auto simp: plain_key_def)
  have a: "ascii_line ?l" using k(1) assms(4) by (simp add: plain_value_def ascii_char_def)
  have h: "hd ?l = hd k" using k(2) by simp
  have line: "strip ?l = ?v"
  proof (cases "v = []")
    case True
    have "lstrip ?l = ?l" using a h k by (cases k) (simp_all add: white_len_ascii del: white_len.simps)
    moreover have "rstrip ((k @ '' ='') @ '' '') = k @ '' =''"
      by (rule rstrip_suffix) (use k in \<open>simp_all add: ascii_char_def\<close>)
    ultimately show ?thesis using True by (simp add: strip_def)
  next
    case False
    then have "last ?l \<noteq> CHR '' ''" using assms(4) by (auto simp: plain_value_def)
    then have "strip ?l = ?l" by (intro strip_plain) (use a h k in auto)
    with False show ?thesis by simp
  qed
  have i: "indent_of ?l = 0" by (rule indent_plain) (use a h k in auto)
  have f: "?v \<noteq> []" "hd ?v = hd k" using k(2) by auto
  have "\<not> is_comment ?l" by (rule not_comment) (use line f k(4) in \<open>simp only: line f, simp\<close>)
  moreover have "section_header ?v = None" by (rule section_header_other) (use f k(4) in \<open>simp only: f, simp\<close>)
  moreover have "st\<lparr>ini_indent := 0\<rparr> = st" using assms(1) by (simp add: level_def)
  ultimately show ?thesis
    using assms(2,5) option_line_plain [OF assms(3,4)] line i f(1) k(2)
    by (simp add: read_line_def Let_def read_option_def del: if_split split del: if_split)
qed

lemma blank_step:
  "read_line st [] = Inr (if in_option st then update_option (\<lambda>ps. ps @ [[]]) (ini_option st) st else st)"
  by (simp add: read_line_def is_comment_def)

text \<open>The options at the cursor.\<close>

definition current :: "ini_state \<Rightarrow> (string \<times> string list) list" where
  "current st =
     (case ini_cursor st of
        NoSection \<Rightarrow> []
      | InDefaults \<Rightarrow> ini_defaults st
      | InSection s \<Rightarrow> (case map_of (ini_sections st) s of Some os \<Rightarrow> os | None \<Rightarrow> []))"

definition put :: "(string \<times> string list) list \<Rightarrow> ini_state \<Rightarrow> ini_state" where
  "put os st =
     (case ini_cursor st of
        NoSection \<Rightarrow> st
      | InDefaults \<Rightarrow> st\<lparr>ini_defaults := os\<rparr>
      | InSection s \<Rightarrow> st\<lparr>ini_sections := aset s os (ini_sections st)\<rparr>)"

lemma update_option_put: "update_option f k st = put (update_parts f k (current st)) st"
  by (simp add: update_option_def put_def current_def split: cursor.splits)

lemma put_simps [simp]:
  "ini_cursor (put os st) = ini_cursor st" "ini_option (put os st) = ini_option st" "ini_seen (put os st) = ini_seen st"
  "ini_bad (put os st) = ini_bad st" "ini_indent (put os st) = ini_indent st"
  by (simp_all add: put_def split: cursor.splits)

lemma current_put [simp]: "ini_cursor st \<noteq> NoSection \<Longrightarrow> current (put os st) = os"
  by (simp add: put_def current_def split: cursor.splits)

lemma put_put [simp]: "put os (put os' st) = put os st"
  by (simp add: put_def split: cursor.splits)

lemma put_fields [simp]:
  "(put os st)\<lparr>ini_option := k\<rparr> = put os (st\<lparr>ini_option := k\<rparr>)" "(put os st)\<lparr>ini_seen := x\<rparr> = put os (st\<lparr>ini_seen := x\<rparr>)"
  "current (st\<lparr>ini_option := k\<rparr>) = current st" "current (st\<lparr>ini_seen := x\<rparr>) = current st"
  by (simp_all add: put_def current_def split: cursor.splits)

lemma aset_absent: "k \<notin> fst ` set d \<Longrightarrow> aset k v d = d @ [(k, v)]"
  by (induction d) auto

lemma update_parts_new: "k \<notin> fst ` set os \<Longrightarrow> update_parts f k os = os @ [(k, f [])]"
  by (simp add: update_parts_def aset_absent map_of_eq_None_iff [THEN iffD2])

lemma steady_put:
  assumes "level st" "ini_cursor st \<noteq> NoSection" "\<And>s. ini_cursor st = InSection s \<Longrightarrow> s \<in> fst ` set (ini_sections st)"
  shows "level (put os (st\<lparr>ini_option := k, ini_seen := (cursor_name (ini_cursor st), k) # ini_seen st\<rparr>))"
  using assms by (cases "ini_cursor st") (auto simp: level_def put_def cursor_name_def)

abbreviation option_text :: "string \<times> string \<Rightarrow> string" where
  "option_text kv \<equiv> (case kv of (k, v) \<Rightarrow> k @ '' = '' @ v)"

text \<open>Only the options at the cursor, the current option and the memory of options differ.\<close>

definition framed :: "ini_state \<Rightarrow> ini_state \<Rightarrow> bool" where
  "framed st st' \<longleftrightarrow>
     ini_cursor st' = ini_cursor st \<and> ini_defaults st' = ini_defaults (put (current st') st)
     \<and> ini_sections st' = ini_sections (put (current st') st)"

lemma put_framed:
  "ini_cursor st \<noteq> NoSection \<Longrightarrow> framed st (put os (st\<lparr>ini_option := k, ini_seen := seen\<rparr>))"
  by (cases "ini_cursor st") (simp_all add: framed_def put_def current_def)

lemma framed_trans:
  assumes "framed st st1" "framed st1 st2"
  shows "framed st st2"
proof (cases "ini_cursor st")
  case (InSection s)
  with assms have "ini_sections st1 = aset s (current st1) (ini_sections st)" "ini_sections st2 = aset s (current st2) (ini_sections st1)"
    by (simp_all add: framed_def put_def)
  then have "ini_sections st2 = aset s (current st2) (ini_sections st)" by (metis aset_aset)
  with assms InSection show ?thesis by (simp add: framed_def put_def)
qed (use assms in \<open>auto simp: framed_def put_def current_def\<close>)

lemma aset_same: "map_of d k = Some v \<Longrightarrow> aset k v d = d"
  by (induction d) (auto split: if_splits)

text \<open>The cursor stands in a section that has been seen.\<close>

definition placed :: "ini_state \<Rightarrow> bool" where
  "placed st \<longleftrightarrow>
     (case ini_cursor st of NoSection \<Rightarrow> False | InDefaults \<Rightarrow> True | InSection s \<Rightarrow> s \<in> fst ` set (ini_sections st))"

lemma placed_framed: "placed st \<Longrightarrow> framed st st"
  by (auto simp: placed_def framed_def put_def current_def aset_same map_of_eq_None_iff split: cursor.splits option.splits)

lemma placed_put: "placed st \<Longrightarrow> placed (put os (st\<lparr>ini_option := k, ini_seen := seen\<rparr>))"
  by (auto simp: placed_def put_def split: cursor.splits)

lemma placed_cursor: "placed st \<Longrightarrow> ini_cursor st \<noteq> NoSection \<and> (ini_cursor st = InSection s \<longrightarrow> s \<in> fst ` set (ini_sections st))"
  by (auto simp: placed_def split: cursor.splits)

lemma options_fold:
  assumes "level st" "placed st" "plain_options os"
    and "\<forall>k\<in>fst ` set os. (cursor_name (ini_cursor st), k) \<notin> set (ini_seen st) \<and> k \<notin> fst ` set (current st)"
  shows "\<exists>st'. rfold read_line st (map option_text os) = Inr st' \<and> level st' \<and> placed st' \<and> framed st st'
     \<and> current st' = current st @ map (\<lambda>(k, v). (k, [v])) os
     \<and> ini_option st' = (if os = [] then ini_option st else fst (last os))"
  using assms
proof (induction os arbitrary: st)
  case Nil
  then show ?case using placed_framed by simp
next
  case (Cons kv os)
  obtain k v where kv: "kv = (k, v)" by (cases kv)
  have plain: "plain_key k" "plain_value v" "plain_options os" "k \<notin> fst ` set os"
    using Cons.prems(3) by (auto simp: kv plain_options_def)
  have fresh: "(cursor_name (ini_cursor st), k) \<notin> set (ini_seen st)" "k \<notin> fst ` set (current st)" using Cons.prems(4) kv by auto
  have cursor: "ini_cursor st \<noteq> NoSection" using placed_cursor [OF Cons.prems(2)] by blast
  define st1 where "st1 = put (current st @ [(k, [v])]) (st\<lparr>ini_option := k, ini_seen := (cursor_name (ini_cursor st), k) # ini_seen st\<rparr>)"
  have step: "read_line st (option_text kv) = Inr st1"
    using option_step [OF Cons.prems(1) cursor plain(1,2) fresh(1)] fresh(2)
    by (simp add: kv update_option_put update_parts_new st1_def)
  have "level st1" unfolding st1_def by (rule steady_put) (use Cons.prems(1,2) placed_cursor in blast)+
  moreover have "placed st1" unfolding st1_def by (rule placed_put [OF Cons.prems(2)])
  moreover have current1: "current st1 = current st @ [(k, [v])]" using cursor by (simp add: st1_def)
  moreover have "\<forall>k'\<in>fst ` set os. (cursor_name (ini_cursor st1), k') \<notin> set (ini_seen st1) \<and> k' \<notin> fst ` set (current st1)"
    unfolding current1 using Cons.prems(4) plain(4) by (auto simp: st1_def kv)
  ultimately obtain st2 where st2: "rfold read_line st1 (map option_text os) = Inr st2" "level st2" "placed st2" "framed st1 st2"
      "current st2 = current st1 @ map (\<lambda>(k, v). (k, [v])) os" "ini_option st2 = (if os = [] then ini_option st1 else fst (last os))"
    using Cons.IH [of st1] plain(3) by blast
  have "framed st st1" unfolding st1_def by (rule put_framed [OF cursor])
  then have "framed st st2" using st2(4) by (rule framed_trans)
  moreover have "ini_option st1 = k" by (simp add: st1_def)
  ultimately show ?case using step st2 by (intro exI [of _ st2]) (simp add: kv current1)
qed

lemma joined_append [simp]: "joined (a @ b) = joined a @ joined b"
  by (simp add: joined_def)

lemma joined_plain: "plain_options os \<Longrightarrow> joined (map (\<lambda>(k, v). (k, [v])) os) = os"
  by (induction os) (auto simp: joined_def plain_options_def strip_value)

lemma aset_last: "k \<notin> fst ` set d \<Longrightarrow> aset k y (d @ [(k, x)]) = d @ [(k, y)] \<and> map_of (d @ [(k, x)]) k = Some x"
  by (induction d) auto

text \<open>A whole section, with the blank line that ends it.\<close>

lemma body_fold:
  assumes "level st" "placed st" "plain_options os" "current st = []" "ini_option st = []"
    and "\<forall>k\<in>fst ` set os. (cursor_name (ini_cursor st), k) \<notin> set (ini_seen st)"
  shows "\<exists>st'. rfold read_line st (map option_text os @ [[]]) = Inr st' \<and> level st' \<and> framed st st' \<and> joined (current st') = os"
proof -
  from options_fold [OF assms(1-3)] assms(4,6)
  obtain st1 where st1: "rfold read_line st (map option_text os) = Inr st1" "level st1" "placed st1" "framed st st1"
      "current st1 = map (\<lambda>(k, v). (k, [v])) os" "ini_option st1 = (if os = [] then [] else fst (last os))"
    using assms(5) by auto
  show ?thesis
  proof (cases "os = []")
    case True
    with st1 show ?thesis by (simp add: rfold_append blank_step in_option_def joined_def)
  next
    case False
    then obtain before k v where os: "os = before @ [(k, v)]" by (metis rev_exhaust surj_pair)
    have k: "k \<noteq> []" "plain_value v" "k \<notin> fst ` set before" "plain_options before"
      using assms(3) by (auto simp: os plain_options_def plain_key_def)
    have cursor: "ini_cursor st1 \<noteq> NoSection" using placed_cursor [OF st1(3)] by blast
    define st2 where "st2 = put (map (\<lambda>(k, v). (k, [v])) before @ [(k, [v, []])]) st1"
    have "update_parts (\<lambda>ps. ps @ [[]]) k (map (\<lambda>(k, v). (k, [v])) before @ [(k, [v])]) = map (\<lambda>(k, v). (k, [v])) before @ [(k, [v, []])]"
    proof -
      have "k \<notin> fst ` set (map (\<lambda>(k, v). (k, [v])) before)" using k(3) by force
      note last = aset_last [OF this]
      show ?thesis by (simp only: update_parts_def last option.case append.simps)
    qed
    then have step: "read_line st1 [] = Inr st2"
      using st1(5,6) k(1) cursor by (simp add: blank_step in_option_def os update_option_put st2_def)
    have "joined (current st2) = os"
      using cursor k joined_plain [OF k(4)] strip_value [OF k(2)] by (simp add: st2_def os) (simp add: joined_def)
    moreover have "level st2" using st1(2,3) by (auto simp: st2_def level_def put_def placed_def split: cursor.splits)
    moreover have "framed st1 st2"
      using put_framed [OF cursor, where k = "ini_option st1" and seen = "ini_seen st1"] by (simp add: st2_def)
    ultimately show ?thesis using st1 step by (auto simp: rfold_append dest: framed_trans)
  qed
qed

lemma section_fold:
  assumes "level st" "ascii_line name" "name \<noteq> []" "name \<noteq> DEFAULT" "name \<notin> fst ` set (ini_sections st)" "plain_options os"
  shows "\<exists>st' raw. rfold read_line st (section_lines (name, os)) = Inr st' \<and> level st' \<and> ini_defaults st' = ini_defaults st
     \<and> ini_sections st' = ini_sections st @ [(name, raw)] \<and> joined raw = os"
proof -
  define st1 where "st1 = st\<lparr>ini_sections := ini_sections st @ [(name, [])], ini_cursor := InSection name, ini_option := []\<rparr>"
  have none: "map_of (ini_sections st) name = None" using assms(5) by (simp add: map_of_eq_None_iff)
  have step: "read_line st (CHR ''['' # name @ '']'') = Inr st1"
    using header_step [OF assms(1-3) none] assms(4) by (simp add: st1_def)
  have "level st1" "placed st1" using assms(1) by (auto simp: st1_def level_def placed_def)
  moreover have "current st1 = []" "ini_option st1 = []" using none by (simp_all add: st1_def current_def map_add_def)
  moreover have "\<forall>k\<in>fst ` set os. (cursor_name (ini_cursor st1), k) \<notin> set (ini_seen st1)"
    using assms(1,4,5) by (auto simp: st1_def cursor_name_def level_def)
  ultimately obtain st2 where st2: "rfold read_line st1 (map option_text os @ [[]]) = Inr st2" "level st2" "framed st1 st2" "joined (current st2) = os"
    using body_fold [OF _ _ assms(6)] by blast
  have "aset name raw (ini_sections st @ [(name, [])]) = ini_sections st @ [(name, raw)]" for raw
    using aset_last [OF assms(5)] by blast
  with st2(3) have "ini_defaults st2 = ini_defaults st" "ini_sections st2 = ini_sections st @ [(name, current st2)]"
    by (simp_all add: framed_def put_def st1_def)
  with st2 step show ?thesis by (auto simp: section_lines_def)
qed

lemma default_fold:
  assumes "plain_options os"
  shows "\<exists>st'. rfold read_line ini_start (section_lines (DEFAULT, os)) = Inr st' \<and> level st' \<and> joined (ini_defaults st') = os
     \<and> ini_sections st' = []"
proof -
  define st1 where "st1 = ini_start\<lparr>ini_cursor := InDefaults, ini_option := []\<rparr>"
  have start: "level ini_start" "map_of (ini_sections ini_start) DEFAULT = None" by (simp_all add: level_def ini_start_def)
  have "ascii_line DEFAULT" "DEFAULT \<noteq> []" by code_simp+
  then have step: "read_line ini_start (CHR ''['' # DEFAULT @ '']'') = Inr st1"
    using header_step [OF start(1) _ _ start(2)] by (simp add: st1_def)
  have "level st1" "placed st1" "current st1 = []" "ini_option st1 = []" "ini_seen st1 = []"
    by (simp_all add: st1_def level_def placed_def current_def ini_start_def)
  then obtain st2 where st2: "rfold read_line st1 (map option_text os @ [[]]) = Inr st2" "level st2" "framed st1 st2" "joined (current st2) = os"
    using body_fold [OF _ _ assms, where st = st1] by auto
  then have "joined (ini_defaults st2) = os" "ini_sections st2 = []"
    by (simp_all add: framed_def put_def st1_def ini_start_def)
  with st2 step show ?thesis by (auto simp: section_lines_def)
qed

lemma sections_fold:
  assumes "level st" "list_all (\<lambda>(s, os). ascii_line s \<and> s \<noteq> [] \<and> s \<noteq> DEFAULT \<and> plain_options os) ss"
    and "distinct (map fst (ini_sections st) @ map fst ss)"
  shows "\<exists>st'. rfold read_line st (concat (map section_lines ss)) = Inr st' \<and> level st' \<and> ini_defaults st' = ini_defaults st
     \<and> map (\<lambda>(s, os). (s, joined os)) (ini_sections st') = map (\<lambda>(s, os). (s, joined os)) (ini_sections st) @ ss"
  using assms
proof (induction ss arbitrary: st)
  case (Cons x ss)
  obtain name os where x: "x = (name, os)" by (cases x)
  from Cons.prems x have "name \<notin> fst ` set (ini_sections st)" by auto
  with Cons.prems x section_fold [of st name os] obtain st1 raw where st1: "rfold read_line st (section_lines x) = Inr st1" "level st1"
      "ini_defaults st1 = ini_defaults st" "ini_sections st1 = ini_sections st @ [(name, raw)]" "joined raw = os"
    by auto
  from Cons.prems x st1(4) have "distinct (map fst (ini_sections st1) @ map fst ss)" by auto
  with Cons.IH [OF st1(2)] Cons.prems(2) obtain st2 where "rfold read_line st1 (concat (map section_lines ss)) = Inr st2" "level st2"
      "ini_defaults st2 = ini_defaults st1"
      "map (\<lambda>(s, os). (s, joined os)) (ini_sections st2) = map (\<lambda>(s, os). (s, joined os)) (ini_sections st1) @ ss" by auto
  with st1 x show ?case by (auto simp: rfold_append)
qed simp

lemma config_read_back:
  assumes "plain_config c"
  shows "read_string (write_config c) = Inr c"
proof -
  let ?head = "if cf_defaults c = [] then [] else section_lines (DEFAULT, cf_defaults c)"
  let ?lines = "?head @ concat (map section_lines (cf_sections c))"
  have plain: "wf_config c" "plain_options (cf_defaults c)"
      "list_all (\<lambda>(s, os). ascii_line s \<and> s \<noteq> [] \<and> plain_options os) (cf_sections c)"
    using assms by (simp_all add: plain_config_def)
  have wf: "list_all (\<lambda>(s, os). ascii_line s \<and> s \<noteq> [] \<and> s \<noteq> DEFAULT \<and> plain_options os) (cf_sections c)" "distinct (map fst (cf_sections c))"
    using plain(1,3) by (auto simp: wf_config_def list_all_iff)
  have lf: "CHR 0x0A \<notin> set l" if "ascii_line name" "plain_options os" "l \<in> set (section_lines (name, os))" for l name os
  proof -
    have "ascii_line (option_text kv)" if "kv \<in> set os" for kv
      using \<open>plain_options os\<close> that
      by (cases kv) (auto simp: plain_options_def plain_key_def plain_value_def list_all_iff [of "\<lambda>(k, v). _ k v"] ascii_char_def)
    then have "ascii_line l" using that(1,3) by (auto simp: section_lines_def ascii_char_def)
    then show ?thesis by (rule ascii_no_lf)
  qed
  have "ascii_line DEFAULT" by code_simp
  with lf plain wf have "\<forall>l\<in>set ?lines. CHR 0x0A \<notin> set l" by (auto simp: list_all_iff split: if_splits)
  moreover have "write_config c = concat (map (\<lambda>l. l @ [CHR 0x0A]) ?lines)"
  proof -
    have "concat (map write_section ss) = concat (map (\<lambda>l. l @ [CHR 0x0A]) (concat (map section_lines ss)))"
      if "list_all (\<lambda>(s, os). plain_options os) ss" for ss
      using that by (induction ss) (auto simp: write_section_lines)
    moreover have "list_all (\<lambda>(s, os). plain_options os) (cf_sections c)" using plain(3) by (auto simp: list_all_iff)
    ultimately show ?thesis using plain(2) by (simp add: write_config_def write_section_lines)
  qed
  ultimately have lines: "split_lf [] (write_config c) = ?lines" by (simp only: split_lf_lines)
  have "\<exists>st. rfold read_line ini_start ?head = Inr st \<and> level st \<and> joined (ini_defaults st) = cf_defaults c \<and> ini_sections st = []"
    using default_fold [OF plain(2)] by (auto simp: ini_start_def level_def joined_def)
  then obtain st where st: "rfold read_line ini_start ?head = Inr st" "level st" "joined (ini_defaults st) = cf_defaults c" "ini_sections st = []"
    by blast
  with sections_fold [OF st(2) wf(1)] wf(2) obtain st' where "rfold read_line st (concat (map section_lines (cf_sections c))) = Inr st'"
      "level st'" "ini_defaults st' = ini_defaults st" "map (\<lambda>(s, os). (s, joined os)) (ini_sections st') = cf_sections c" by auto
  with st lines show ?thesis by (simp add: read_string_def rfold_append level_def)
qed

text \<open>
  Reading what was written gives the same configuration back, for configurations of
  printable single-line values.
\<close>

theorem config_roundtrip:
  assumes "plain_config c"
  shows "read_string (write_config c) = Inr c"
  using assms by (rule config_read_back)

theorem config_roundtrip_witness:
  "read_string (write_config \<lparr>cf_defaults = [(''seed'', ''1'')],
       cf_sections = [(''global'', [(''scc'', ''FALSE''), (''note'', [])]), (''ior-easy'', [(''run'', ''TRUE'')])]\<rparr>) =
     Inr \<lparr>cf_defaults = [(''seed'', ''1'')],
       cf_sections = [(''global'', [(''scc'', ''FALSE''), (''note'', [])]), (''ior-easy'', [(''run'', ''TRUE'')])]\<rparr>"
proof (rule config_roundtrip)
  show "plain_config \<lparr>cf_defaults = [(''seed'', ''1'')],
       cf_sections = [(''global'', [(''scc'', ''FALSE''), (''note'', [])]), (''ior-easy'', [(''run'', ''TRUE'')])]\<rparr>"
    by code_simp
qed

section \<open>The reader yields well-formed configurations\<close>

definition wf_state :: "ini_state \<Rightarrow> bool" where
  "wf_state st \<longleftrightarrow>
     distinct (map fst (ini_defaults st)) \<and> distinct (map fst (ini_sections st))
     \<and> (\<forall>(s, os)\<in>set (ini_sections st). s \<noteq> DEFAULT \<and> distinct (map fst os)) \<and> ini_cursor st \<noteq> InSection DEFAULT"

lemma wf_update_option: "wf_state st \<Longrightarrow> wf_state (update_option f k st)"
proof -
  assume wf: "wf_state st"
  have "distinct (map fst (case map_of (ini_sections st) s of Some os \<Rightarrow> os | None \<Rightarrow> []))" for s
    using wf by (auto simp: wf_state_def split: option.splits dest: map_of_SomeD)
  with wf show ?thesis
    by (auto simp: wf_state_def update_option_def update_parts_def distinct_aset simp del: keys_aset
        split: cursor.splits dest!: set_aset_cases)
qed

lemma wf_fields [simp]:
  "wf_state (st\<lparr>ini_option := x\<rparr>) = wf_state st" "wf_state (st\<lparr>ini_seen := y\<rparr>) = wf_state st"
  "wf_state (st\<lparr>ini_indent := n\<rparr>) = wf_state st" "wf_state (st\<lparr>ini_bad := b\<rparr>) = wf_state st"
  by (simp_all add: wf_state_def)

lemma wf_read_line: "wf_state st \<Longrightarrow> read_line st l = Inr st' \<Longrightarrow> wf_state st'"
proof -
  assume wf: "wf_state st" and r: "read_line st l = Inr st'"
  have header: "read_header s n = Inr s' \<Longrightarrow> wf_state s \<Longrightarrow> wf_state s'" for s n s'
    by (auto simp: read_header_def wf_state_def map_of_eq_None_iff split: if_splits)
  have option: "read_option s n v = Inr s' \<Longrightarrow> wf_state s \<Longrightarrow> wf_state s'" for s n v s'
    by (auto simp: read_option_def Let_def intro!: wf_update_option split: if_splits)
  show ?thesis
    using r wf by (auto simp: read_line_def Let_def wf_update_option split: if_splits option.splits dest: header option)
qed

lemma read_string_wf: "read_string s = Inr c \<Longrightarrow> wf_config c"
proof -
  assume "read_string s = Inr c"
  then obtain st where st: "rfold read_line ini_start (split_lf [] s) = Inr st"
      and c: "c = \<lparr>cf_defaults = joined (ini_defaults st), cf_sections = map (\<lambda>(s, os). (s, joined os)) (ini_sections st)\<rparr>"
    by (auto simp: read_string_def rbind_Inr_iff split: if_splits)
  have "wf_state ini_start" by (simp add: wf_state_def ini_start_def)
  then have "wf_state st" by (rule rfold_invariant [OF st]) (rule wf_read_line)
  moreover have "map fst (joined os) = map fst os" for os by (simp add: joined_def case_prod_unfold comp_def)
  ultimately show ?thesis by (auto simp: c wf_config_def wf_state_def case_prod_unfold comp_def)
qed

end
