(* ===== verification/Profile.thy ===== *)
theory Profile
  imports Ini_Config Canonical_Json Atomic_Write
begin

text \<open>
  The compiler of evaluation manifests (\<^verbatim>\<open>scripts/legofs_evaluation_manifest.py\<close>): phase
  tables, derivation of a profile from an INI file, check of the build artifacts and the
  manifest that closes over all of them with digests. Files are those of the disk of
  \<open>Atomic_Write\<close>, addressed by the path as given; \<^verbatim>\<open>Path.resolve\<close> and the root of the
  workspace are arguments.
\<close>

section \<open>Tables\<close>

definition EVALUATION_SCHEMA_VERSION :: string where
  "EVALUATION_SCHEMA_VERSION = ''legofs.evaluation-run-manifest.v1''"

definition PHASE_EVIDENCE_SCHEMA_VERSION :: string where
  "PHASE_EVIDENCE_SCHEMA_VERSION = ''legofs.phase-evidence-manifest.v1''"

definition FILESYSTEM_MODES :: "string list" where
  "FILESYSTEM_MODES = [''legacy-cxl-reference'', ''rdwo-candidate'']"

definition REQUIRED_BUILD_ARTIFACTS :: "string list" where
  "REQUIRED_BUILD_ARTIFACTS =
     [''qemu'', ''cxlmemsim_server'', ''opensbi'', ''u_boot'', ''linux'', ''payload'', ''io500'', ''io500_verify'',
      ''mpiexec'', ''hydra_proxy'', ''io500_result_export'', ''dependency_versions'', ''libpmem_build'',
      ''cxlmemsim_build_deps'', ''uboot_build_deps'', ''isa_gate'']"

definition MODE_BUILD_ARTIFACTS :: "(string \<times> string list) list" where
  "MODE_BUILD_ARTIFACTS =
     [(''legacy-cxl-reference'', [''badfs_server'', ''badfs_bench'', ''badfs_intercept'', ''syscall_intercept'']),
      (''rdwo-candidate'', [''rdwo_client'', ''rdwo_server'', ''rdwo_host_agent'', ''rdwo_intercept'',
                            ''product_engine_manifest'', ''product_capability_manifest''])]"

definition PHASE_GROUP :: "(string \<times> string) list" where
  "PHASE_GROUP =
     [(''ior-easy-write'', ''ior-easy''), (''ior-easy-read'', ''ior-easy''), (''mdtest-easy-write'', ''mdtest-easy''),
      (''mdtest-easy-stat'', ''mdtest-easy''), (''mdtest-easy-delete'', ''mdtest-easy''), (''ior-hard-write'', ''ior-hard''),
      (''ior-hard-read'', ''ior-hard''), (''mdtest-hard-write'', ''mdtest-hard''), (''mdtest-hard-stat'', ''mdtest-hard''),
      (''mdtest-hard-read'', ''mdtest-hard''), (''mdtest-hard-delete'', ''mdtest-hard''), (''ior-rnd4K-write'', ''ior-rnd4K''),
      (''ior-rnd4K-read'', ''ior-rnd4K''), (''ior-rnd4K-easy-read'', ''ior-rnd4K''), (''ior-rnd1MB-write'', ''ior-rnd1MB''),
      (''ior-rnd1MB-read'', ''ior-rnd1MB''), (''mdworkbench-create'', ''mdworkbench''), (''mdworkbench-bench'', ''mdworkbench''),
      (''mdworkbench-delete'', ''mdworkbench'')]"

definition EXTENDED_PHASE_ORDER :: "string list" where
  "EXTENDED_PHASE_ORDER =
     [''ior-easy-write'', ''ior-rnd4K-write'', ''mdtest-easy-write'', ''ior-rnd1MB-write'', ''mdworkbench-create'',
      ''find-easy'', ''ior-hard-write'', ''mdtest-hard-write'', ''find'', ''ior-rnd4K-read'', ''ior-rnd1MB-read'',
      ''find-hard'', ''mdworkbench-bench'', ''ior-easy-read'', ''mdtest-easy-stat'', ''ior-hard-read'', ''mdtest-hard-stat'',
      ''mdworkbench-delete'', ''mdtest-easy-delete'', ''mdtest-hard-read'', ''mdtest-hard-delete'', ''ior-rnd4K-easy-read'']"

definition STANDARD_PHASE_ORDER :: "string list" where
  "STANDARD_PHASE_ORDER =
     filter (\<lambda>phase. phase \<notin> set
       [''ior-rnd4K-write'', ''ior-rnd4K-read'', ''ior-rnd1MB-write'', ''ior-rnd1MB-read'', ''mdworkbench-create'',
        ''mdworkbench-bench'', ''mdworkbench-delete'', ''find-easy'', ''find-hard'']) EXTENDED_PHASE_ORDER"

definition PHASE_ORDER :: "string list" where
  "PHASE_ORDER = EXTENDED_PHASE_ORDER"

definition IO500_MODES :: "(string \<times> string list) list" where
  "IO500_MODES = [(''standard'', STANDARD_PHASE_ORDER), (''extended'', EXTENDED_PHASE_ORDER)]"

definition PHASE_PREREQUISITES :: "(string \<times> string list) list" where
  "PHASE_PREREQUISITES =
     [(''ior-easy-read'', [''ior-easy-write'']), (''ior-hard-read'', [''ior-hard-write'']),
      (''ior-rnd4K-read'', [''ior-rnd4K-write'']), (''ior-rnd1MB-read'', [''ior-rnd1MB-write'']),
      (''ior-rnd4K-easy-read'', [''ior-easy-write'']), (''mdtest-easy-stat'', [''mdtest-easy-write'']),
      (''mdtest-easy-delete'', [''mdtest-easy-write'']), (''mdtest-hard-stat'', [''mdtest-hard-write'']),
      (''mdtest-hard-read'', [''mdtest-hard-write'']), (''mdtest-hard-delete'', [''mdtest-hard-write'']),
      (''find-easy'', [''mdtest-easy-write'']), (''find'', [''mdtest-easy-write'', ''mdtest-hard-write'']),
      (''find-hard'', [''mdtest-hard-write'']), (''mdworkbench-bench'', [''mdworkbench-create'']),
      (''mdworkbench-delete'', [''mdworkbench-create''])]"

text \<open>\<^verbatim>\<open>dict.fromkeys\<close>: the first occurrences in order.\<close>

definition fromkeys :: "'a list \<Rightarrow> 'a list" where
  "fromkeys xs = foldl (\<lambda>ks x. if x \<in> set ks then ks else ks @ [x]) [] xs"

definition RUN_SECTIONS :: "string list" where
  "RUN_SECTIONS = fromkeys (map snd PHASE_GROUP @ PHASE_ORDER)"

definition prerequisites :: "string \<Rightarrow> string list" where
  "prerequisites phase = (case map_of PHASE_PREREQUISITES phase of Some ps \<Rightarrow> ps | None \<Rightarrow> [])"

section \<open>Options\<close>

text \<open>
  The names that are looked up are ASCII and contain no \<^verbatim>\<open>k\<close>, so that only ASCII letters
  matter in the comparison of lower-case names.
\<close>

definition find_option :: "config \<Rightarrow> string \<Rightarrow> string \<Rightarrow> (string \<times> string) option" where
  "find_option c s name = List.find (\<lambda>(k, v). ascii_lower k = ascii_lower name) (items c s)"

definition option :: "config \<Rightarrow> string \<Rightarrow> string \<Rightarrow> string option" where
  "option c s name =
     (if \<not> has_section c s then None
      else case find_option c s name of None \<Rightarrow> None | Some (k, v) \<Rightarrow> Some (strip v))"

definition set_option :: "config \<Rightarrow> string \<Rightarrow> string \<Rightarrow> string \<Rightarrow> config res" where
  "set_option c s name v =
     rbind (if has_section c s then Inr c else add_section c s) (\<lambda>c.
     Inr (case find_option c s name of
            Some (k, _) \<Rightarrow> set_in_section c s k v
          | None \<Rightarrow> set_in_section c s name v))"

definition validate_standard_source :: "path \<Rightarrow> config \<Rightarrow> unit res" where
  "validate_standard_source source c =
     rbind (rcheck (path_name source \<noteq> ''io500-standard.ini'')
              (ValueError ''stage-authorizing profiles must derive from io500-standard.ini'')) (\<lambda>_.
     rbind (rcheck (option c ''global'' ''scc'' \<noteq> Some ''FALSE'')
              (ValueError ''pinned standard config must keep scc=FALSE'')) (\<lambda>_.
     rcheck (option c ''debug'' ''stonewall-time'' \<noteq> Some ''300'')
       (ValueError ''pinned standard config must keep 300-second stonewall'')))"

text \<open>
  \<^verbatim>\<open>value.upper()\<close> as far as it decides equality with the two words: ASCII letters, and the
  long s, the only other character that becomes one of their letters.
\<close>

fun config_upper :: "string \<Rightarrow> string" where
  "config_upper [] = []"
| "config_upper (c # cs) =
     (if c = CHR 0xC5 \<and> cs \<noteq> [] \<and> hd cs = CHR 0xBF then CHR ''S'' # config_upper (tl cs)
      else (if 97 \<le> ord c \<and> ord c \<le> 122 then char_of (ord c - 32) else c) # config_upper cs)"

definition parse_config_bool :: "string option \<Rightarrow> string \<Rightarrow> bool res" where
  "parse_config_bool value section =
     (case value of
        None \<Rightarrow> Inl (ValueError (''diagnostic config must explicitly set '' @ section @ ''.run''))
      | Some v \<Rightarrow>
          if config_upper v = ''TRUE'' then Inr True
          else if config_upper v = ''FALSE'' then Inr False
          else Inl (ValueError (''diagnostic config has invalid '' @ section @ ''.run='' @ v)))"

definition phase_enabled :: "config \<Rightarrow> string \<Rightarrow> bool res" where
  "phase_enabled c phase =
     rbind (parse_config_bool (option c phase ''run'') phase) (\<lambda>own.
     rbind (case map_of PHASE_GROUP phase of
              Some part \<Rightarrow> parse_config_bool (option c part ''run'') part
            | None \<Rightarrow> Inr True) (\<lambda>part_on.
     Inr (own \<and> part_on)))"

definition configured_phases :: "config \<Rightarrow> string list \<Rightarrow> string list res" where
  "configured_phases c mode_order = rfilter (phase_enabled c) mode_order"

section \<open>Profiles\<close>

text \<open>\<^verbatim>\<open>", ".join(sorted(names))\<close> of a set of names.\<close>

fun comma_separated :: "string list \<Rightarrow> string" where
  "comma_separated [] = []"
| "comma_separated [x] = x"
| "comma_separated (x # y # r) = x @ '', '' @ comma_separated (y # r)"

definition sorted_names :: "string list \<Rightarrow> string" where
  "sorted_names names = comma_separated (sort (remdups names))"

text \<open>One pass of the closure loop and the loop, which takes the last pending phase.\<close>

definition close_step :: "string list \<times> string list \<Rightarrow> string \<Rightarrow> string list \<times> string list" where
  "close_step = (\<lambda>(found, pending) p. if p \<in> set found then (found, pending) else (found @ [p], pending @ [p]))"

lemma close_steps:
  assumes "foldl close_step (found, pending) ps = (found', pending')"
  shows "set found' = set found \<union> set ps \<and> (\<exists>added. found' = found @ added \<and> pending' = pending @ added
           \<and> set added \<subseteq> set ps - set found)"
  using assms
proof (induction ps arbitrary: found pending)
  case (Cons p ps)
  then show ?case
  proof (cases "p \<in> set found")
    case True
    then show ?thesis using Cons.IH [of found pending] Cons.prems by (auto simp: close_step_def)
  next
    case False
    with Cons.prems have "foldl close_step (found @ [p], pending @ [p]) ps = (found', pending')" by (simp add: close_step_def)
    from Cons.IH [OF this] False show ?thesis by auto
  qed
qed simp

definition prerequisite_universe :: "string set" where
  "prerequisite_universe = (\<Union>(_, ps)\<in>set PHASE_PREREQUISITES. set ps)"

lemma prerequisites_universe: "set (prerequisites phase) \<subseteq> prerequisite_universe"
  unfolding prerequisites_def prerequisite_universe_def by (force split: option.splits dest: map_of_SomeD [OF sym] map_of_SomeD)

function close_phases :: "string list \<Rightarrow> string list \<Rightarrow> string list" where
  "close_phases found pending =
     (if pending = [] then found
      else case foldl close_step (found, butlast pending) (prerequisites (last pending)) of
             (found', pending') \<Rightarrow> close_phases found' pending')"
  by pat_completeness auto
termination
proof (relation "measures [\<lambda>(found, pending). card (prerequisite_universe - set found), \<lambda>(found, pending). length pending]",
    goal_cases)
  case 1
  then show ?case by simp
next
  case (2 found pending found' pending')
  then obtain added where a: "found' = found @ added" "pending' = butlast pending @ added"
      "set added \<subseteq> set (prerequisites (last pending)) - set found"
    using close_steps by metis
  show ?case
  proof (cases "added = []")
    case True
    with a 2 show ?thesis by simp
  next
    case False
    then obtain x where "x \<in> set added" by (cases added) auto
    with a prerequisites_universe have "x \<in> prerequisite_universe - set found" "x \<notin> prerequisite_universe - set found'" by auto
    moreover have "prerequisite_universe - set found' \<subseteq> prerequisite_universe - set found" using a by auto
    moreover have "finite (prerequisite_universe - set found)" by (auto simp: prerequisite_universe_def)
    ultimately have "card (prerequisite_universe - set found') < card (prerequisite_universe - set found)"
      by (metis psubset_card_mono psubsetI)
    then show ?thesis by simp
  qed
qed

declare close_phases.simps [simp del]

record profile =
  pf_parser :: config
  pf_phases :: "string list"
  pf_requested :: "string list"
  pf_classification :: string

definition check_prerequisites :: "string list \<Rightarrow> string \<Rightarrow> unit res" where
  "check_prerequisites phases phase =
     (let missing = filter (\<lambda>p. p \<notin> set phases) (prerequisites phase)
      in rcheck (missing \<noteq> [])
           (ValueError (''diagnostic config phase '' @ phase @ '' lacks prerequisite(s): '' @ sorted_names missing)))"

definition enabled_sections :: "string list \<Rightarrow> string list" where
  "enabled_sections ordered = ordered @ List.map_filter (map_of PHASE_GROUP) ordered"

definition run_value :: "string list \<Rightarrow> string \<Rightarrow> string" where
  "run_value ordered s = (if s \<in> set (enabled_sections ordered) then ''TRUE'' else ''FALSE'')"

definition write_run_flags :: "config \<Rightarrow> string list \<Rightarrow> config res" where
  "write_run_flags c ordered = rfold (\<lambda>c s. set_option c s ''run'' (run_value ordered s)) c RUN_SECTIONS"

definition set_stonewall :: "config \<Rightarrow> int option \<Rightarrow> config res" where
  "set_stonewall c seconds =
     (case seconds of
        None \<Rightarrow> Inr c
      | Some n \<Rightarrow>
          rbind (rcheck (n \<le> 0) (ValueError ''stonewall must be positive'')) (\<lambda>_.
          set_option c ''debug'' ''stonewall-time'' (show_int n)))"

text \<open>The groups are a set in the source; every order of updates gives the same configuration.\<close>

definition mdtest_groups :: "string list \<Rightarrow> string list" where
  "mdtest_groups ordered =
     remdups (List.map_filter (\<lambda>phase. case map_of PHASE_GROUP phase of
        Some part \<Rightarrow> if starts_with part ''mdtest-'' then Some part else None | None \<Rightarrow> None) ordered)"

definition set_mdtest_items :: "config \<Rightarrow> string list \<Rightarrow> int option \<Rightarrow> config res" where
  "set_mdtest_items c ordered mdtest_items =
     (case mdtest_items of
        None \<Rightarrow> Inr c
      | Some n \<Rightarrow>
          rbind (rcheck (n \<le> 0) (ValueError ''mdtest item count must be positive'')) (\<lambda>_.
          rbind (rcheck (mdtest_groups ordered = []) (ValueError ''mdtest item count requires an enabled MDTest phase'')) (\<lambda>_.
          rfold (\<lambda>c s. set_option c s ''n'' (show_int n)) c (mdtest_groups ordered))))"

definition custom_profile :: "config \<Rightarrow> string list \<Rightarrow> profile res" where
  "custom_profile c mode_order =
     rbind (configured_phases c mode_order) (\<lambda>phases.
     rbind (rcheck (phases = []) (ValueError ''custom diagnostic config enables no IO500 phases'')) (\<lambda>_.
     rbind (rforall (check_prerequisites phases) phases) (\<lambda>_.
     Inr \<lparr>pf_parser = c, pf_phases = phases, pf_requested = phases, pf_classification = ''diagnostic-custom-shape''\<rparr>)))"

definition upstream_profile :: "config \<Rightarrow> string list \<Rightarrow> string list \<Rightarrow> int option \<Rightarrow> int option \<Rightarrow> profile res" where
  "upstream_profile c mode_order requested stonewall_seconds mdtest_items =
     (let found = close_phases requested requested; ordered = filter (\<lambda>p. p \<in> set found) mode_order
      in rbind (write_run_flags c ordered) (\<lambda>c.
         rbind (set_stonewall c stonewall_seconds) (\<lambda>c.
         rbind (set_mdtest_items c ordered mdtest_items) (\<lambda>c.
         Inr \<lparr>pf_parser = c, pf_phases = ordered, pf_requested = filter (\<lambda>p. p \<in> set requested) mode_order,
              pf_classification = ''diagnostic-upstream-shape''\<rparr>))))"

definition derive_profile ::
  "config res \<Rightarrow> path \<Rightarrow> string list \<Rightarrow> string \<Rightarrow> int option \<Rightarrow> int option \<Rightarrow> profile res" where
  "derive_profile parsed source enabled_phases io500_mode stonewall_seconds mdtest_items =
     rbind parsed (\<lambda>c.
     case map_of IO500_MODES io500_mode of
       None \<Rightarrow> Inl (ValueError (''unsupported IO500 mode: '' @ io500_mode))
     | Some mode_order \<Rightarrow>
         let requested = fromkeys enabled_phases; unknown = filter (\<lambda>p. p \<notin> set PHASE_ORDER) requested;
             unavailable = filter (\<lambda>p. p \<notin> set mode_order) requested
         in rbind (rcheck (unknown \<noteq> []) (ValueError (''unknown IO500 phase(s): '' @ sorted_names unknown))) (\<lambda>_.
            rbind (rcheck (unavailable \<noteq> []) (ValueError (''phase(s) require IO500 extended mode: '' @ sorted_names unavailable))) (\<lambda>_.
            if path_name source \<noteq> ''io500-standard.ini'' then
              rbind (rcheck (requested \<noteq> [] \<or> stonewall_seconds \<noteq> None \<or> mdtest_items \<noteq> None)
                       (ValueError ''custom diagnostic configs cannot be modified by the manifest tool'')) (\<lambda>_.
              custom_profile c mode_order)
            else
              rbind (validate_standard_source source c) (\<lambda>_.
              if requested = [] then
                rbind (rcheck (stonewall_seconds \<noteq> None \<or> mdtest_items \<noteq> None)
                         (ValueError ''full official-shape profile cannot change stonewall or object count'')) (\<lambda>_.
                Inr \<lparr>pf_parser = c, pf_phases = mode_order, pf_requested = mode_order, pf_classification = ''official-shape''\<rparr>)
              else upstream_profile c mode_order requested stonewall_seconds mdtest_items))))"

section \<open>Build artifacts\<close>

type_synonym files = "path \<rightharpoonup> string"

definition read_bytes :: "files \<Rightarrow> path \<Rightarrow> string res" where
  "read_bytes files path = (case files path of Some b \<Rightarrow> Inr b | None \<Rightarrow> Inl (FileNotFoundError path))"

definition read_text :: "files \<Rightarrow> path \<Rightarrow> string res" where
  "read_text files path = rbind (rbind (read_bytes files path) utf8_decode) (\<lambda>t. Inr (universal_newlines t))"

definition sha256_file :: "files \<Rightarrow> path \<Rightarrow> string res" where
  "sha256_file files path = rbind (read_bytes files path) (\<lambda>b. Inr (sha256 b))"

definition read_json :: "files \<Rightarrow> path \<Rightarrow> pydict res" where
  "read_json files path =
     rbind (read_text files path) (\<lambda>t.
     rbind (json_loads plain_hook t) (\<lambda>v.
     case v of PDict d \<Rightarrow> Inr d | _ \<Rightarrow> Inl (ValueError (path @ '' does not contain a JSON object''))))"

definition read_config :: "files \<Rightarrow> path \<Rightarrow> config res" where
  "read_config files path = rbind (read_text files path) read_string"

definition resolve_artifact :: "files \<Rightarrow> path \<Rightarrow> pydict \<Rightarrow> string \<Rightarrow> (string \<times> pyval) res" where
  "resolve_artifact files workspace artifacts name =
     (case dget artifacts name of
        PDict record \<Rightarrow>
          (case (dget record ''path'', dget record ''sha256'', int_value (dget record ''size'')) of
             (PStr path_value, PStr expected, Some expected_size) \<Rightarrow>
               let path = (if is_absolute path_value then path_value else path_join workspace path_value)
               in rbind (rcheck (files path = None) (FileNotFoundError (''build artifact does not exist: '' @ path))) (\<lambda>_.
                  rbind (rcheck (length expected \<noteq> 64 \<or> \<not> list_all hex_char expected)
                           (ValueError (''build artifact '' @ name @ '' has invalid sha256''))) (\<lambda>_.
                  rbind (rcheck (expected_size \<le> 0) (ValueError (''build artifact '' @ name @ '' has invalid size''))) (\<lambda>_.
                  rbind (read_bytes files path) (\<lambda>content.
                  rbind (rcheck (sha256 content \<noteq> expected) (ValueError (''build artifact hash mismatch: '' @ name))) (\<lambda>_.
                  rbind (rcheck (int (length content) \<noteq> expected_size) (ValueError (''build artifact size mismatch: '' @ name))) (\<lambda>_.
                  Inr (name, PDict [(''path'', PStr path_value), (''size'', PInt (int (length content))), (''sha256'', PStr (sha256 content))])))))))
           | _ \<Rightarrow> Inl (ValueError (''build artifact '' @ name @ '' lacks path, size, or sha256'')))
      | _ \<Rightarrow> Inl (ValueError (''build manifest lacks required artifact: '' @ name)))"


definition resolve_artifacts :: "files \<Rightarrow> path \<Rightarrow> path \<Rightarrow> string \<Rightarrow> (pydict \<times> pydict) res" where
  "resolve_artifacts files workspace build_manifest_path filesystem_mode =
     rbind (read_json files build_manifest_path) (\<lambda>build.
     rbind (rcheck (\<not> py_eq (dget build ''schema_version'') (PInt 2)) (ValueError ''unsupported build manifest schema'')) (\<lambda>_.
     case dget build ''artifacts'' of
       PDict artifacts \<Rightarrow>
         (case map_of MODE_BUILD_ARTIFACTS filesystem_mode of
            None \<Rightarrow> Inl KeyError
          | Some extra \<Rightarrow>
              rbind (rmap (resolve_artifact files workspace artifacts) (REQUIRED_BUILD_ARTIFACTS @ extra)) (\<lambda>selected.
              rbind (sha256_file files build_manifest_path) (\<lambda>manifest_hash.
              let identity = [(''schema_version'', dget build ''schema_version''),
                    (''superproject_commit'', dget build ''superproject_commit''), (''sources'', dget build ''sources''),
                    (''compilers'', dget build ''compilers''), (''build_manifest_sha256'', PStr manifest_hash)]
              in rbind (canonical_digest identity) (\<lambda>digest. Inr (identity @ [(''digest'', PStr digest)], selected)))))
     | _ \<Rightarrow> Inl (ValueError ''build manifest lacks artifact table'')))"

section \<open>The manifest\<close>

definition phase_record :: "string list \<Rightarrow> string \<Rightarrow> pyval" where
  "phase_record requested phase =
     PDict [(''phase'', PStr phase),
            (''config_section_closure'',
               PList (map PStr ((case map_of PHASE_GROUP phase of Some part \<Rightarrow> [part] | None \<Rightarrow> []) @ [phase]))),
            (''workload_prerequisites'', PList (map PStr (prerequisites phase))),
            (''role'', PStr (if phase \<in> set requested then ''measurement'' else ''setup'')),
            (''primary_metric_unit'', PStr (if starts_with phase ''ior-'' then ''GiB/s'' else ''kIOPS'')),
            (''required_metric_units'',
               PList (map PStr (if starts_with phase ''ior-'' then [''GiB/s'', ''kIOPS''] else [''kIOPS'']))),
            (''product_visible_phase_identity'', PBool False)]"

definition phase_evidence :: "string list \<Rightarrow> string list \<Rightarrow> pyval list" where
  "phase_evidence phases requested = map (phase_record requested) phases"

record evaluation_request =
  er_source_config :: path
  er_output_config :: path
  er_build_manifest :: path
  er_filesystem_mode :: string
  er_io500_mode :: string
  er_profile_name :: string
  er_enabled_phases :: "string list"
  er_stonewall_seconds :: "int option"
  er_mdtest_items :: "int option"
  er_server_count :: int
  er_client_count :: int

definition name_char :: "char \<Rightarrow> bool" where
  "name_char c = (c \<in> set ''abcdefghijklmnopqrstuvwxyzABCDEFGHIJKLMNOPQRSTUVWXYZ0123456789._-'')"

definition check_request :: "(path \<Rightarrow> path) \<Rightarrow> evaluation_request \<Rightarrow> unit res" where
  "check_request resolve rq =
     rbind (rcheck (er_filesystem_mode rq \<notin> set FILESYSTEM_MODES)
              (ValueError (''unsupported filesystem mode: '' @ er_filesystem_mode rq))) (\<lambda>_.
     rbind (rcheck (\<not> (1 \<le> er_server_count rq \<and> er_server_count rq \<le> 2)) (ValueError ''server count must be 1 or 2'')) (\<lambda>_.
     rbind (rcheck (\<not> (1 \<le> er_client_count rq \<and> er_client_count rq \<le> 10))
              (ValueError ''client count must be between 1 and 10'')) (\<lambda>_.
     rbind (rcheck (er_profile_name rq = [] \<or> \<not> list_all name_char (er_profile_name rq))
              (ValueError ''profile name contains unsupported characters'')) (\<lambda>_.
     rcheck (resolve (er_source_config rq) = resolve (er_output_config rq))
       (ValueError ''effective config must not overwrite its source config'')))))"

definition optional_int :: "int option \<Rightarrow> pyval" where
  "optional_int n = (case n of None \<Rightarrow> PNone | Some i \<Rightarrow> PInt i)"

definition manifest_body ::
  "evaluation_request \<Rightarrow> profile \<Rightarrow> string \<Rightarrow> string \<Rightarrow> pydict \<Rightarrow> pydict \<Rightarrow> pydict" where
  "manifest_body rq pf source_hash rendered identity artifacts =
     (let upstream = (pf_classification pf = ''diagnostic-upstream-shape'')
      in [(''schema_version'', PStr EVALUATION_SCHEMA_VERSION), (''profile_name'', PStr (er_profile_name rq)),
          (''classification'', PStr (pf_classification pf)),
          (''official_parameter_shape'', PBool (pf_classification pf = ''official-shape'')), (''official_candidate'', PBool False),
          (''filesystem_mode'', PStr (er_filesystem_mode rq)), (''io500_mode'', PStr (er_io500_mode rq)),
          (''product_consumes_this_manifest'', PBool False), (''product_engine_manifest_digest'', PNone),
          (''source_config'', PDict [(''path'', PStr (er_source_config rq)), (''sha256'', PStr source_hash)]),
          (''effective_config'', PDict [(''path'', PStr (er_output_config rq)), (''sha256'', PStr (sha256 rendered))]),
          (''allowed_derivation'', PDict
             [(''source_bytes_preserved'', PBool (\<not> upstream)), (''run_flags_rewritten'', PBool upstream),
              (''stonewall_seconds'', optional_int (er_stonewall_seconds rq)), (''mdtest_items'', optional_int (er_mdtest_items rq)),
              (''transfer_size_changed'', PBool False), (''access_pattern_changed'', PBool False), (''sharing_shape_changed'', PBool False)]),
          (''phase_evidence'', PDict
             [(''schema_version'', PStr PHASE_EVIDENCE_SCHEMA_VERSION), (''external_only'', PBool True),
              (''product_visible_phase_identity'', PBool False), (''requested_phases'', PList (map PStr (pf_requested pf))),
              (''execution_phases'', PList (map PStr (pf_phases pf))), (''implicit_runtime_phases'', PList [PStr ''timestamp'']),
              (''records'', PList (phase_evidence (pf_phases pf) (pf_requested pf)))]),
          (''topology'', PDict
             [(''server_guests'', PInt (er_server_count rq)), (''client_guests'', PInt (er_client_count rq)),
              (''mpi_ranks'', PInt (er_client_count rq)), (''shared_cxl_type3_region_bytes'', PInt (64 * 1024 ^ 3)),
              (''hdm_db_bi_required'', PBool True), (''functional_model_only'', PBool True),
              (''physical_hardware_evidence'', PBool False)]),
          (''build_identity'', PDict identity), (''artifacts'', PDict artifacts)])"

text \<open>Everything up to the first write: the profile, the bytes to write and the build.\<close>

definition prepare_evaluation ::
  "files \<Rightarrow> path \<Rightarrow> (path \<Rightarrow> path) \<Rightarrow> evaluation_request \<Rightarrow> (profile \<times> string \<times> pydict \<times> pydict) res" where
  "prepare_evaluation files workspace resolve rq =
     rbind (check_request resolve rq) (\<lambda>_.
     rbind (derive_profile (read_config files (er_source_config rq)) (er_source_config rq) (er_enabled_phases rq) (er_io500_mode rq)
              (er_stonewall_seconds rq) (er_mdtest_items rq)) (\<lambda>pf.
     rbind (if pf_classification pf = ''diagnostic-upstream-shape'' then utf8_encode (write_config (pf_parser pf))
            else read_bytes files (er_source_config rq)) (\<lambda>rendered.
     rbind (resolve_artifacts files workspace (er_build_manifest rq) (er_filesystem_mode rq)) (\<lambda>(identity, artifacts).
     Inr (pf, rendered, identity, artifacts)))))"

definition on_files :: "(files \<Rightarrow> 'a res) \<Rightarrow> 'a on_disk" where
  "on_files f d = (f (dk_files d), d)"

definition build_evaluation_manifest ::
  "disk_io \<Rightarrow> path \<Rightarrow> path \<Rightarrow> (path \<Rightarrow> path) \<Rightarrow> evaluation_request \<Rightarrow> pydict on_disk" where
  "build_evaluation_manifest io temporary workspace resolve rq =
     sbind (on_files (\<lambda>files. prepare_evaluation files workspace resolve rq)) (\<lambda>(pf, rendered, identity, artifacts).
     sbind (write_atomic io (er_output_config rq) temporary rendered) (\<lambda>_.
     sbind (on_files (\<lambda>files. sha256_file files (er_source_config rq))) (\<lambda>source_hash.
     let manifest = manifest_body rq pf source_hash rendered identity artifacts
     in sresult (rbind (canonical_digest manifest) (\<lambda>digest. Inr (manifest @ [(''manifest_digest'', PStr digest)]))))))"

text \<open>\<^verbatim>\<open>json.dumps(manifest, indent=2, sort_keys=True, ensure_ascii=False)\<close>.\<close>

definition line_start :: "nat \<Rightarrow> string" where
  "line_start depth = CHR 0x0A # replicate (2 * depth) CHR '' ''"

definition indent_block :: "nat \<Rightarrow> char \<Rightarrow> string list \<Rightarrow> char \<Rightarrow> string" where
  "indent_block depth opening entries closing =
     (if entries = [] then [opening, closing]
      else opening # line_start (Suc depth)
           @ concat (hd entries # map (\<lambda>e. CHR '','' # line_start (Suc depth) @ e) (tl entries)) @ line_start depth @ [closing])"

fun indented_text :: "nat \<Rightarrow> pyval \<Rightarrow> string" where
  "indented_text depth PNone = ''null''"
| "indented_text depth (PBool b) = (if b then ''true'' else ''false'')"
| "indented_text depth (PInt i) = show_int i"
| "indented_text depth (PFloat f) = float_text f"
| "indented_text depth (PStr s) = json_string s"
| "indented_text depth (PList vs) = indent_block depth CHR ''['' (map (indented_text (Suc depth)) vs) CHR '']''"
| "indented_text depth (PDict d) =
     indent_block depth CHR ''{''
       (map (\<lambda>(k, t). json_string k @ '': '' @ t) (sort_items (map (\<lambda>(k, v). (k, indented_text (Suc depth) v)) d))) CHR ''}''"

definition evaluation_main ::
  "disk_io \<Rightarrow> path \<Rightarrow> path \<Rightarrow> path \<Rightarrow> (path \<Rightarrow> path) \<Rightarrow> evaluation_request \<Rightarrow> path \<Rightarrow> string on_disk" where
  "evaluation_main io temporary temporary' workspace resolve rq output_manifest =
     sbind (scheck (resolve output_manifest \<in> {resolve (er_source_config rq), resolve (er_output_config rq), resolve (er_build_manifest rq)})
              (ValueError ''output manifest must use a distinct path'')) (\<lambda>_.
     sbind (build_evaluation_manifest io temporary workspace resolve rq) (\<lambda>manifest.
     sbind (sresult (utf8_encode (indented_text 0 (PDict manifest) @ [CHR 0x0A]))) (\<lambda>encoded.
     sbind (write_atomic io output_manifest temporary' encoded) (\<lambda>_. sreturn output_manifest))))"

section \<open>The closure of the requested phases\<close>

definition needs :: "(string \<times> string) set" where
  "needs = {(p, q). q \<in> set (prerequisites p)}"

lemma close_phases_spec:
  assumes "set pending \<subseteq> set found" "\<forall>p\<in>set found - set pending. set (prerequisites p) \<subseteq> set found"
  shows "set found \<subseteq> set (close_phases found pending) \<and> set (close_phases found pending) \<subseteq> needs\<^sup>* `` set found
     \<and> (\<forall>p\<in>set (close_phases found pending). set (prerequisites p) \<subseteq> set (close_phases found pending))"
  using assms
proof (induction found pending rule: close_phases.induct)
  case (1 found pending)
  show ?case
  proof (cases "pending = []")
    case True
    moreover have "close_phases found [] = found" by (subst close_phases.simps) simp
    ultimately show ?thesis using 1 by auto
  next
    case False
    obtain found' pending' where step: "foldl close_step (found, butlast pending) (prerequisites (last pending)) = (found', pending')"
      by (metis surj_pair)
    from close_steps [OF step] obtain added where a: "set found' = set found \<union> set (prerequisites (last pending))"
        "found' = found @ added" "pending' = butlast pending @ added" by blast
    have p: "set pending = insert (last pending) (set (butlast pending))" using False by (metis append_butlast_last_id list.simps(15) rotate1.simps(2) set_rotate1)
    have "set pending' \<subseteq> set found'" using 1(2) a p by auto
    moreover have "\<forall>p\<in>set found' - set pending'. set (prerequisites p) \<subseteq> set found'" using 1(3) a p by auto
    ultimately have ih: "set found' \<subseteq> set (close_phases found' pending')" "set (close_phases found' pending') \<subseteq> needs\<^sup>* `` set found'"
        "\<forall>p\<in>set (close_phases found' pending'). set (prerequisites p) \<subseteq> set (close_phases found' pending')"
      using 1(1) [OF False step [symmetric]] by auto
    have "last pending \<in> set found" using 1(2) p by auto
    moreover have "(last pending, q) \<in> needs" if "q \<in> set (prerequisites (last pending))" for q using that by (simp add: needs_def)
    ultimately have "set found' \<subseteq> needs\<^sup>* `` set found" unfolding a(1) by blast
    then have "needs\<^sup>* `` set found' \<subseteq> needs\<^sup>* `` set found" by (auto intro: rtrancl_trans)
    moreover have "close_phases found pending = close_phases found' pending'" using False step by (subst close_phases.simps) simp
    ultimately show ?thesis using ih a(1) by auto
  qed
qed

lemma close_phases_needs: "set (close_phases xs xs) = needs\<^sup>* `` set xs"
proof -
  have spec: "set xs \<subseteq> set (close_phases xs xs)" "set (close_phases xs xs) \<subseteq> needs\<^sup>* `` set xs"
      "\<forall>p\<in>set (close_phases xs xs). set (prerequisites p) \<subseteq> set (close_phases xs xs)"
    using close_phases_spec [of xs xs] by auto
  then have "needs `` set (close_phases xs xs) \<subseteq> set (close_phases xs xs)" by (auto simp: needs_def)
  then have "needs\<^sup>* `` set xs \<subseteq> set (close_phases xs xs)" 
  proof -
    assume closed: "needs `` set (close_phases xs xs) \<subseteq> set (close_phases xs xs)"
    have "q \<in> set (close_phases xs xs)" if "(p, q) \<in> needs\<^sup>*" "p \<in> set (close_phases xs xs)" for p q
      using that by (induction rule: rtrancl_induct) (use closed in auto)
    with spec(1) show ?thesis by blast
  qed
  with spec(2) show ?thesis by blast
qed

text \<open>Every list of phases whose prerequisites come first keeps them first when a closed set is selected.\<close>

definition ordered_phases :: "string list \<Rightarrow> bool" where
  "ordered_phases ps \<longleftrightarrow> (\<forall>i<length ps. set (prerequisites (ps ! i)) \<subseteq> set (take i ps))"

lemma ordered_snoc: "ordered_phases (ps @ [p]) \<longleftrightarrow> ordered_phases ps \<and> set (prerequisites p) \<subseteq> set ps"
  by (auto simp: ordered_phases_def nth_append less_Suc_eq)

lemma ordered_filter:
  "ordered_phases ps \<Longrightarrow> (\<And>p. q p \<Longrightarrow> \<forall>r\<in>set (prerequisites p). q r) \<Longrightarrow> ordered_phases (filter q ps)"
  by (induction ps rule: rev_induct) (auto simp: ordered_snoc)

lemma modes_ordered: "map_of IO500_MODES mode = Some order \<Longrightarrow> ordered_phases order \<and> distinct order \<and> set order \<subseteq> set RUN_SECTIONS"
proof -
  have code: "ordered_phases ps \<longleftrightarrow> list_all (\<lambda>i. set (prerequisites (ps ! i)) \<subseteq> set (take i ps)) [0..<length ps]" for ps
    by (auto simp: ordered_phases_def list_all_iff)
  have "list_all (\<lambda>(mode, ps). list_all (\<lambda>i. set (prerequisites (ps ! i)) \<subseteq> set (take i ps)) [0..<length ps] \<and> distinct ps
      \<and> set ps \<subseteq> set RUN_SECTIONS) IO500_MODES"
    by code_simp
  then show "map_of IO500_MODES mode = Some order \<Longrightarrow> ?thesis"
  proof -
    assume all: "list_all (\<lambda>(mode, ps). list_all (\<lambda>i. set (prerequisites (ps ! i)) \<subseteq> set (take i ps)) [0..<length ps] \<and> distinct ps
      \<and> set ps \<subseteq> set RUN_SECTIONS) IO500_MODES" and "map_of IO500_MODES mode = Some order"
    then have "(mode, order) \<in> set IO500_MODES" by (simp add: map_of_SomeD)
    with all have "case (mode, order) of (mode, ps) \<Rightarrow> list_all (\<lambda>i. set (prerequisites (ps ! i)) \<subseteq> set (take i ps)) [0..<length ps]
      \<and> distinct ps \<and> set ps \<subseteq> set RUN_SECTIONS" by (simp only: list_all_iff)
    then show ?thesis by (simp only: code prod.case)
  qed
qed

section \<open>The options of a derived profile\<close>

lemma find_option_set:
  assumes "wf_config c" "find_option c s name = (case w of None \<Rightarrow> None | Some x \<Rightarrow> Some (k, x))" "w = None \<longrightarrow> k = name"
  shows "find_option (set_in_section c s k v) s name = Some (k, v)"
proof (cases w)
  case None
  then show ?thesis
    using assms find_aset_new [where q = "\<lambda>k. ascii_lower k = ascii_lower name" and d = "items c s" and k = name and v = v]
    by (simp add: find_option_def items_set)
next
  case (Some x)
  then show ?thesis
    using assms find_aset_hit [where q = "\<lambda>k. ascii_lower k = ascii_lower name" and d = "items c s" and k = k and v = v and w = x]
    by (simp add: find_option_def items_set)
qed

lemma find_option_name: "find_option c s name = Some (k, w) \<Longrightarrow> ascii_lower k = ascii_lower name"
  by (auto simp: find_option_def find_Some_iff)

lemma find_option_other:
  assumes "wf_config c" "t \<noteq> s \<or> ascii_lower k \<noteq> ascii_lower m"
  shows "find_option (set_in_section c s k v) t m = find_option c t m"
proof (cases "t = s")
  case True
  with assms show ?thesis
    using find_aset_other [where q = "\<lambda>k. ascii_lower k = ascii_lower m" and k = k] by (simp add: find_option_def items_set)
qed (simp add: find_option_def)

lemma set_option_existing:
  assumes "wf_config c" "s \<noteq> DEFAULT" "has_section c s"
  shows "\<exists>c'. set_option c s name v = Inr c' \<and> wf_config c' \<and> option c' s name = Some (strip v)
     \<and> (\<forall>t. has_section c' t \<longleftrightarrow> has_section c t)
     \<and> (\<forall>t m. t \<noteq> s \<or> ascii_lower m \<noteq> ascii_lower name \<longrightarrow> option c' t m = option c t m)"
proof -
  obtain k w where k: "find_option c s name = (case w of None \<Rightarrow> None | Some x \<Rightarrow> Some (k, x))" "w = None \<longrightarrow> k = name"
  proof (cases "find_option c s name")
    case None
    then show thesis using that [where w = None and k = name] by simp
  next
    case (Some kx)
    then show thesis using that [where w = "Some (snd kx)" and k = "fst kx"] by simp
  qed
  have lower: "ascii_lower k = ascii_lower name" using k find_option_name by (cases w) auto
  let ?c = "set_in_section c s k v"
  have "set_option c s name v = Inr ?c" using assms(3) k by (cases w) (auto simp: set_option_def)
  moreover have "wf_config ?c" by (rule wf_set_in_section [OF assms(1,2)])
  moreover have "option ?c s name = Some (strip v)" using find_option_set [OF assms(1) k] by (simp add: option_def)
  moreover have "option ?c t m = option c t m" if "t \<noteq> s \<or> ascii_lower m \<noteq> ascii_lower name" for t m
    using find_option_other [OF assms(1), of t s k m v] that lower assms(3) by (auto simp: option_def)
  ultimately show ?thesis using assms(3) by (intro exI [of _ ?c]) auto
qed

lemma set_option_spec:
  assumes "wf_config c" "s \<noteq> DEFAULT"
  shows "\<exists>c'. set_option c s name v = Inr c' \<and> wf_config c' \<and> option c' s name = Some (strip v)
     \<and> (\<forall>t. has_section c' t \<longleftrightarrow> t = s \<or> has_section c t)
     \<and> (\<forall>t m. t \<noteq> s \<or> has_section c s \<and> ascii_lower m \<noteq> ascii_lower name \<longrightarrow> option c' t m = option c t m)"
proof (cases "has_section c s")
  case True
  with set_option_existing [OF assms True] show ?thesis by metis
next
  case False
  define c1 where "c1 = c\<lparr>cf_sections := cf_sections c @ [(s, [])]\<rparr>"
  have added: "add_section c s = Inr c1" using False assms(2) by (simp add: add_section_def c1_def)
  have new: "s \<notin> fst ` set (cf_sections c)" using False by (simp add: has_section_def map_of_eq_None_iff)
  have "wf_config c1" using assms new by (auto simp: wf_config_def c1_def)
  moreover have sec: "has_section c1 t \<longleftrightarrow> t = s \<or> has_section c t" for t by (auto simp: has_section_def c1_def)
  ultimately obtain c' where c': "set_option c1 s name v = Inr c'" "wf_config c'" "option c' s name = Some (strip v)"
      "\<forall>t. has_section c' t \<longleftrightarrow> has_section c1 t"
      "\<forall>t m. t \<noteq> s \<or> ascii_lower m \<noteq> ascii_lower name \<longrightarrow> option c' t m = option c1 t m"
    using set_option_existing [of c1 s name v] assms(2) by blast
  have "set_option c s name v = set_option c1 s name v" using False added sec by (simp add: set_option_def)
  moreover have "option c1 t m = option c t m" if "t \<noteq> s" for t m
  proof -
    have "section_options c1 t = section_options c t" using that by (simp add: section_options_def c1_def map_add_def split: option.splits)
    moreover have "cf_defaults c1 = cf_defaults c" by (simp add: c1_def)
    ultimately show ?thesis using that sec by (simp add: option_def find_option_def items_def)
  qed
  ultimately show ?thesis using c' sec False by auto
qed

lemma run_flags_fold:
  assumes "wf_config c" "DEFAULT \<notin> set ss" "distinct ss"
  shows "\<exists>c'. rfold (\<lambda>c s. set_option c s ''run'' (f s)) c ss = Inr c' \<and> wf_config c'
     \<and> (\<forall>s\<in>set ss. has_section c' s \<and> option c' s ''run'' = Some (strip (f s)))
     \<and> (\<forall>t. has_section c t \<longrightarrow> has_section c' t) \<and> (\<forall>t m. t \<notin> set ss \<longrightarrow> option c' t m = option c t m)"
  using assms
proof (induction ss arbitrary: c)
  case (Cons s ss)
  then have "s \<noteq> DEFAULT" by auto
  from set_option_spec [OF Cons.prems(1) this, of "''run''" "f s"] obtain c1 where c1: "set_option c s ''run'' (f s) = Inr c1" "wf_config c1"
      "option c1 s ''run'' = Some (strip (f s))" "\<forall>t. has_section c1 t \<longleftrightarrow> t = s \<or> has_section c t"
      "\<forall>t m. t \<noteq> s \<longrightarrow> option c1 t m = option c t m" by blast
  from Cons.IH [OF c1(2)] Cons.prems obtain c' where c': "rfold (\<lambda>c s. set_option c s ''run'' (f s)) c1 ss = Inr c'" "wf_config c'"
      "\<forall>s\<in>set ss. has_section c' s \<and> option c' s ''run'' = Some (strip (f s))" "\<forall>t. has_section c1 t \<longrightarrow> has_section c' t"
      "\<forall>t m. t \<notin> set ss \<longrightarrow> option c' t m = option c1 t m" by auto
  have "has_section c' s \<and> option c' s ''run'' = Some (strip (f s))" using c1 c' Cons.prems(3) by simp
  with c1 c' show ?case by (intro exI [of _ c']) auto
qed simp

text \<open>The table facts that the derivation relies on.\<close>

lemma run_sections: "DEFAULT \<notin> set RUN_SECTIONS" "distinct RUN_SECTIONS" "''debug'' \<notin> set RUN_SECTIONS"
  "snd ` set PHASE_GROUP \<subseteq> set RUN_SECTIONS" "set PHASE_ORDER \<inter> snd ` set PHASE_GROUP = {}"
  by code_simp+

lemma run_words: "strip ''TRUE'' = ''TRUE''" "strip ''FALSE'' = ''FALSE''"
  "parse_config_bool (Some ''TRUE'') s = Inr True" "parse_config_bool (Some ''FALSE'') s = Inr False"
proof -
  show "strip ''TRUE'' = ''TRUE''" "strip ''FALSE'' = ''FALSE''" by code_simp+
  have "config_upper ''TRUE'' = ''TRUE''" "config_upper ''FALSE'' = ''FALSE''" by code_simp+
  then show "parse_config_bool (Some ''TRUE'') s = Inr True" "parse_config_bool (Some ''FALSE'') s = Inr False"
    by (simp_all add: parse_config_bool_def)
qed

definition run_flags :: "config \<Rightarrow> string list \<Rightarrow> bool" where
  "run_flags c ordered \<longleftrightarrow> (\<forall>s\<in>set RUN_SECTIONS. option c s ''run'' = Some (run_value ordered s))"

lemma write_run_flags_spec:
  assumes "wf_config c"
  shows "\<exists>c'. write_run_flags c ordered = Inr c' \<and> wf_config c' \<and> run_flags c' ordered \<and> (\<forall>s\<in>set RUN_SECTIONS. has_section c' s)"
proof -
  have "strip (run_value ordered s) = run_value ordered s" for s using run_words by (simp add: run_value_def)
  with run_flags_fold [OF assms run_sections(1,2), of "run_value ordered"] show ?thesis
    unfolding write_run_flags_def run_flags_def by (metis (no_types, lifting))
qed

lemma flags_configured:
  assumes "run_flags c (filter q order)" "set order \<subseteq> set PHASE_ORDER" "set order \<subseteq> set RUN_SECTIONS"
  shows "configured_phases c order = Inr (filter q order)"
proof -
  let ?o = "filter q order"
  have parse: "parse_config_bool (option c s ''run'') s = Inr (s \<in> set (enabled_sections ?o))" if "s \<in> set RUN_SECTIONS" for s
    using assms(1) that run_words by (auto simp: run_flags_def run_value_def)
  have "phase_enabled c p = Inr (q p)" if p: "p \<in> set order" for p
  proof -
    have own: "p \<in> set (enabled_sections ?o) \<longleftrightarrow> q p"
    proof -
      have "p \<notin> snd ` set PHASE_GROUP" using p assms(2) run_sections(5) by blast
      then have "p \<notin> set (List.map_filter (map_of PHASE_GROUP) ?o)"
        by (force simp: map_filter_def dest: map_of_SomeD)
      with p show ?thesis by (simp add: enabled_sections_def)
    qed
    have runs: "p \<in> set RUN_SECTIONS" using p assms(3) by blast
    show ?thesis
    proof (cases "map_of PHASE_GROUP p")
      case None
      then show ?thesis using parse [OF runs] own by (simp add: phase_enabled_def)
    next
      case (Some g)
      then have "g \<in> set RUN_SECTIONS" using run_sections(4) by (force dest: map_of_SomeD)
      moreover have "q p \<Longrightarrow> g \<in> set (enabled_sections ?o)"
        using p Some by (force simp: enabled_sections_def map_filter_def)
      ultimately show ?thesis using parse parse [OF runs] own Some by (auto simp: phase_enabled_def)
    qed
  qed
  then have "rfilter (phase_enabled c) ps = Inr (filter q ps)" if "set ps \<subseteq> set order" for ps
    using that by (induction ps) auto
  then show ?thesis by (simp add: configured_phases_def)
qed

text \<open>Updates outside the run flags keep them.\<close>

lemma flags_kept:
  assumes "wf_config c" "run_flags c ordered" "s \<noteq> DEFAULT" "s \<notin> set RUN_SECTIONS \<or> has_section c s \<and> ascii_lower name \<noteq> ''run''"
    and "set_option c s name v = Inr c'"
  shows "wf_config c' \<and> run_flags c' ordered \<and> (\<forall>t. has_section c t \<longrightarrow> has_section c' t)"
proof -
  have "ascii_lower ''run'' = ''run''" by code_simp
  with set_option_spec [OF assms(1,3), of name v] assms(2,4,5) show ?thesis unfolding run_flags_def by (auto, metis)
qed

lemma stonewall_kept:
  assumes "wf_config c" "run_flags c ordered" "set_stonewall c seconds = Inr c'"
  shows "wf_config c' \<and> run_flags c' ordered \<and> (\<forall>t. has_section c t \<longrightarrow> has_section c' t)"
proof (cases seconds)
  case (Some n)
  have "''debug'' \<noteq> DEFAULT" by code_simp
  with flags_kept [OF assms(1,2) this] run_sections(3) assms(3) Some show ?thesis by (auto simp: set_stonewall_def rbind_Inr_iff)
qed (use assms in \<open>simp add: set_stonewall_def\<close>)

lemma mdtest_groups_run: "set (mdtest_groups ordered) \<subseteq> set RUN_SECTIONS"
proof
  fix s assume "s \<in> set (mdtest_groups ordered)"
  then obtain phase where "map_of PHASE_GROUP phase = Some s"
    by (auto simp: mdtest_groups_def map_filter_def split: option.splits if_splits)
  then have "(phase, s) \<in> set PHASE_GROUP" by (rule map_of_SomeD)
  then have "s \<in> snd ` set PHASE_GROUP" by (metis imageI snd_conv)
  then show "s \<in> set RUN_SECTIONS" using run_sections(4) by blast
qed

lemma mdtest_kept:
  assumes "wf_config c" "run_flags c ordered" "\<forall>s\<in>set RUN_SECTIONS. has_section c s" "set_mdtest_items c ordered' objects = Inr c'"
  shows "wf_config c' \<and> run_flags c' ordered"
proof (cases objects)
  case (Some n)
  let ?P = "\<lambda>c. wf_config c \<and> run_flags c ordered \<and> (\<forall>s\<in>set RUN_SECTIONS. has_section c s)"
  from assms(4) Some have r: "rfold (\<lambda>c s. set_option c s ''n'' (show_int n)) c (mdtest_groups ordered') = Inr c'"
    by (auto simp: set_mdtest_items_def rbind_Inr_iff)
  have "?P c'"
  proof (rule rfold_invariant [OF r])
    show "?P c" using assms by blast
    fix u s u' assume s: "s \<in> set (mdtest_groups ordered')" and u: "?P u" and o: "set_option u s ''n'' (show_int n) = Inr u'"
    have "s \<in> set RUN_SECTIONS" using s mdtest_groups_run by blast
    moreover have "ascii_lower ''n'' \<noteq> ''run''" by code_simp
    ultimately show "?P u'" using flags_kept [OF _ _ _ _ o] u run_sections(1) by metis
  qed
  then show ?thesis by blast
qed (use assms in \<open>simp add: set_mdtest_items_def\<close>)

lemma upstream_profile_spec:
  assumes "wf_config c" "upstream_profile c order requested seconds objects = Inr pf" "set order \<subseteq> set PHASE_ORDER" "set order \<subseteq> set RUN_SECTIONS"
  shows "pf_phases pf = filter (\<lambda>p. p \<in> needs\<^sup>* `` set requested) order \<and> pf_requested pf = filter (\<lambda>p. p \<in> set requested) order
     \<and> configured_phases (pf_parser pf) order = Inr (pf_phases pf) \<and> pf_classification pf = ''diagnostic-upstream-shape''"
proof -
  let ?o = "filter (\<lambda>p. p \<in> set (close_phases requested requested)) order"
  from assms(2) obtain c1 c2 c3 where c: "write_run_flags c ?o = Inr c1" "set_stonewall c1 seconds = Inr c2" "set_mdtest_items c2 ?o objects = Inr c3"
      and pf: "pf = \<lparr>pf_parser = c3, pf_phases = ?o, pf_requested = filter (\<lambda>p. p \<in> set requested) order, pf_classification = ''diagnostic-upstream-shape''\<rparr>"
    by (auto simp: upstream_profile_def Let_def rbind_Inr_iff)
  from write_run_flags_spec [OF assms(1), of ?o] c(1) have 1: "wf_config c1" "run_flags c1 ?o" "\<forall>s\<in>set RUN_SECTIONS. has_section c1 s" by auto
  from stonewall_kept [OF 1(1,2) c(2)] 1(3) have 2: "wf_config c2" "run_flags c2 ?o" "\<forall>s\<in>set RUN_SECTIONS. has_section c2 s" by auto
  from mdtest_kept [OF 2 c(3)] have "run_flags c3 ?o" by blast
  then have "configured_phases c3 order = Inr ?o" by (rule flags_configured [OF _ assms(3,4)])
  then show ?thesis by (simp add: pf close_phases_needs)
qed

lemma fromkeys_set [simp]: "set (fromkeys xs) = set xs"
proof -
  have "set (foldl (\<lambda>ks x. if x \<in> set ks then ks else ks @ [x]) acc xs) = set acc \<union> set xs" for acc
    by (induction xs arbitrary: acc) auto
  from this [of "[]"] show ?thesis by (simp add: fromkeys_def)
qed

text \<open>The three ways to a profile.\<close>

lemma derive_profile_cases:
  assumes "derive_profile (Inr c) source enabled mode seconds objects = Inr pf" "map_of IO500_MODES mode = Some order"
  obtains (custom) "custom_profile c order = Inr pf" "enabled = []"
    | (official) "pf = \<lparr>pf_parser = c, pf_phases = order, pf_requested = order, pf_classification = ''official-shape''\<rparr>" "enabled = []"
    | (upstream) "upstream_profile c order (fromkeys enabled) seconds objects = Inr pf" "set enabled \<subseteq> set order" "enabled \<noteq> []"
proof -
  have "fromkeys enabled = [] \<longleftrightarrow> enabled = []" using fromkeys_set [of enabled] by (metis set_empty)
  with assms that show thesis
    by (auto simp: derive_profile_def Let_def rbind_Inr_iff filter_empty_conv split: if_splits)
qed

lemma mode_phases: "map_of IO500_MODES mode = Some order \<Longrightarrow> set order \<subseteq> set PHASE_ORDER"
  by (auto simp: IO500_MODES_def PHASE_ORDER_def STANDARD_PHASE_ORDER_def split: if_splits)

text \<open>
  (C25) Derived profiles are runnable and say what they run. The phases are taken from the
  order of the mode and every prerequisite of a phase comes before it; the requested phases
  are among them; a profile from the standard configuration with requested phases consists
  of exactly the requested phases and what they need. Unless the profile is the unchanged
  standard configuration, its configuration enables exactly these phases.
\<close>

theorem derived_profile_sound:
  assumes "read_string text = Inr c" "derive_profile (Inr c) source enabled mode seconds objects = Inr pf"
    and "map_of IO500_MODES mode = Some order"
  shows "ordered_phases (pf_phases pf) \<and> pf_phases pf = filter (\<lambda>p. p \<in> set (pf_phases pf)) order
     \<and> set enabled \<subseteq> set (pf_requested pf) \<and> set (pf_requested pf) \<subseteq> set (pf_phases pf)
     \<and> (enabled \<noteq> [] \<longrightarrow> set (pf_phases pf) = (needs\<^sup>* `` set enabled) \<inter> set order)
     \<and> (pf_classification pf \<noteq> ''official-shape'' \<longrightarrow> configured_phases (pf_parser pf) order = Inr (pf_phases pf))"
proof -
  note mode = modes_ordered [OF assms(3)] mode_phases [OF assms(3)]
  have again: "filter (\<lambda>p. p \<in> set (filter q order)) order = filter q order" for q by (rule filter_cong) auto
  from assms(2,3) show ?thesis
  proof (cases rule: derive_profile_cases)
    case custom
    then obtain phases where ph: "configured_phases c order = Inr phases" "\<forall>p\<in>set phases. check_prerequisites phases p = Inr ()"
        "pf = \<lparr>pf_parser = c, pf_phases = phases, pf_requested = phases, pf_classification = ''diagnostic-custom-shape''\<rparr>"
      by (auto simp: custom_profile_def rbind_Inr_iff)
    from ph(1) have f: "phases = filter (\<lambda>p. phase_enabled c p = Inr True) order" unfolding configured_phases_def by (rule rfilter_Inr)
    then have sub: "phases = filter (\<lambda>p. p \<in> set phases) order" using again by metis
    have "set (prerequisites p) \<subseteq> set phases" if "p \<in> set phases" for p
      using ph(2) that by (fastforce simp: check_prerequisites_def Let_def filter_empty_conv)
    then have "ordered_phases (filter (\<lambda>p. p \<in> set phases) order)" using mode by (intro ordered_filter) auto
    with sub ph custom show ?thesis by simp
  next
    case official
    then show ?thesis using mode by (simp add: filter_id_conv [THEN iffD2])
  next
    case upstream
    from upstream_profile_spec [OF read_string_wf [OF assms(1)] upstream(1)] mode
    have pf: "pf_phases pf = filter (\<lambda>p. p \<in> needs\<^sup>* `` set enabled) order" "pf_requested pf = filter (\<lambda>p. p \<in> set enabled) order"
        "configured_phases (pf_parser pf) order = Inr (pf_phases pf)" by auto
    have "ordered_phases (pf_phases pf)"
      unfolding pf(1) using mode by (intro ordered_filter) (auto simp: needs_def intro: rtrancl_into_rtrancl)
    moreover have "set enabled \<subseteq> set (pf_requested pf)" using upstream(2) pf(2) by auto
    moreover have "pf_phases pf = filter (\<lambda>p. p \<in> set (pf_phases pf)) order" unfolding pf(1) by (rule again [symmetric])
    ultimately show ?thesis using pf by auto
  qed
qed

section \<open>The effective configuration\<close>

lemma plain_options_aset: "plain_options os \<Longrightarrow> plain_key k \<Longrightarrow> plain_value v \<Longrightarrow> plain_options (aset k v os)"
  by (auto simp: plain_options_def distinct_aset list_all_iff simp del: keys_aset dest!: set_aset_cases)

lemma plain_section_options: "plain_config c \<Longrightarrow> plain_options (section_options c s)"
proof -
  assume c: "plain_config c"
  show ?thesis
  proof (cases "map_of (cf_sections c) s")
    case None
    then show ?thesis by (simp add: section_options_def plain_options_def)
  next
    case (Some os)
    then have "(s, os) \<in> set (cf_sections c)" by (rule map_of_SomeD)
    with c have "plain_options os" by (auto simp: plain_config_def list_all_iff)
    with Some show ?thesis by (simp add: section_options_def)
  qed
qed

lemma plain_set_in_section:
  assumes "plain_config c" "plain_key k" "plain_value v" "ascii_line s" "s \<noteq> []" "s \<noteq> DEFAULT"
  shows "plain_config (set_in_section c s k v)"
proof -
  have "wf_config c" using assms(1) by (simp add: plain_config_def)
  then have "wf_config (set_in_section c s k v)" using assms(6) by (rule wf_set_in_section)
  moreover have "list_all (\<lambda>(s, os). ascii_line s \<and> s \<noteq> [] \<and> plain_options os) (cf_sections (set_in_section c s k v))"
    using assms plain_options_aset [OF plain_section_options [OF assms(1)] assms(2,3)]
    by (auto simp: set_in_section_def plain_config_def list_all_iff dest!: set_aset_cases)
  ultimately show ?thesis using assms(1) by (simp add: plain_config_def)
qed

lemma items_keys: "fst ` set (items c s) = fst ` set (cf_defaults c) \<union> fst ` set (section_options c s)"
proof -
  have "fst ` set (foldl (\<lambda>d (k, v). aset k v d) d os) = fst ` set d \<union> fst ` set os" for d os :: options
    by (induction os arbitrary: d) (simp_all add: case_prod_unfold)
  then show ?thesis by (simp add: items_def)
qed

lemma plain_set_option:
  assumes "plain_config c" "plain_key name" "plain_value v" "ascii_line s" "s \<noteq> []" "s \<noteq> DEFAULT" "set_option c s name v = Inr c'"
  shows "plain_config c'"
proof -
  obtain c1 where c1: "(if has_section c s then Inr c else add_section c s) = Inr c1"
      and c': "c' = (case find_option c1 s name of Some (k, _) \<Rightarrow> set_in_section c1 s k v | None \<Rightarrow> set_in_section c1 s name v)"
    using assms(7) by (auto simp: set_option_def rbind_Inr_iff)
  have plain1: "plain_config c1"
    using c1 assms(1,4-6) by (auto simp: add_section_def plain_config_def wf_config_def has_section_def map_of_eq_None_iff plain_options_def split: if_splits)
  have "plain_key k" if "find_option c1 s name = Some (k, w)" for k w
  proof -
    from that obtain i where "i < length (items c1 s)" "items c1 s ! i = (k, w)"
      by (auto simp: find_option_def find_Some_iff)
    then have "(k, w) \<in> set (items c1 s)" by (metis nth_mem)
    then have "k \<in> fst ` set (items c1 s)" by (metis fst_conv imageI)
    then show ?thesis
      using plain1 plain_section_options [OF plain1, of s] unfolding items_keys by (auto simp: plain_config_def plain_options_def list_all_iff)
  qed
  then show ?thesis
    unfolding c' using plain_set_in_section [OF plain1 _ assms(3-6)] assms(2) by (auto split: option.splits)
qed

lemma digit_plain: "is_digit c \<Longrightarrow> ascii_char c \<and> c \<noteq> CHR '' ''"
  by (auto simp: ascii_char_def)

lemma plain_show_int: "plain_value (show_int i)"
proof -
  have digits: "list_all is_digit (show_nat n)" for n
    using digits_of_show [of n] unfolding digits_of_def by (metis list_all_iff set_takeWhileD)
  have nonempty: "show_nat n \<noteq> []" for n using show_nat_head [of n] by auto
  have "list_all (\<lambda>c. ascii_char c \<and> c \<noteq> CHR '' '') (show_int i)"
  proof (cases "i < 0")
    case True
    have "ascii_char CHR ''-''" by (simp add: ascii_char_def)
    with True digits digit_plain show ?thesis by (simp add: show_int_def list_all_iff del: is_digit.simps)
  next
    case False
    with digits digit_plain show ?thesis by (simp add: show_int_def list_all_iff del: is_digit.simps)
  qed
  moreover have "show_int i \<noteq> []" using nonempty by (simp add: show_int_def)
  ultimately show ?thesis by (auto simp: plain_value_def list_all_iff)
qed

lemma profile_words: "plain_key ''run''" "plain_key ''n''" "plain_key ''stonewall-time''" "plain_value ''TRUE''" "plain_value ''FALSE''"
  "list_all (\<lambda>s. ascii_line s \<and> s \<noteq> [] \<and> s \<noteq> DEFAULT) (''debug'' # RUN_SECTIONS)"
  by code_simp+

lemma upstream_plain:
  assumes "plain_config c" "upstream_profile c order requested seconds objects = Inr pf"
  shows "plain_config (pf_parser pf)"
proof -
  have word: "ascii_line s" "s \<noteq> []" "s \<noteq> DEFAULT" if "s = ''debug'' \<or> s \<in> set RUN_SECTIONS" for s
    using profile_words(6) that by (auto simp: list_all_iff)
  have kept: "plain_config c'" if "plain_config c" "s = ''debug'' \<or> s \<in> set RUN_SECTIONS" "plain_key k" "plain_value v" "set_option c s k v = Inr c'" for c s k v c'
    using plain_set_option [OF that(1,3,4) word [OF that(2)] that(5)] .
  have flag: "plain_value (run_value o' s)" for o' s using profile_words(4,5) by (simp add: run_value_def)
  from assms(2) obtain o' c1 c2 where c: "write_run_flags c o' = Inr c1" "set_stonewall c1 seconds = Inr c2" "set_mdtest_items c2 o' objects = Inr (pf_parser pf)"
    by (auto simp: upstream_profile_def Let_def rbind_Inr_iff)
  have 1: "plain_config c1"
    by (rule rfold_invariant [OF c(1) [unfolded write_run_flags_def]]) (use assms(1) kept profile_words(1) flag in blast)+
  then have 2: "plain_config c2"
    using c(2) kept [of c1 "''debug''" "''stonewall-time''"] profile_words(3) plain_show_int
    by (auto simp: set_stonewall_def rbind_Inr_iff split: option.splits)
  show ?thesis
  proof (cases objects)
    case (Some n)
    with c(3) have r: "rfold (\<lambda>c s. set_option c s ''n'' (show_int n)) c2 (mdtest_groups o') = Inr (pf_parser pf)"
      by (auto simp: set_mdtest_items_def rbind_Inr_iff)
    show ?thesis
      by (rule rfold_invariant [OF r]) (use 2 kept profile_words(2) plain_show_int mdtest_groups_run in blast)+
  qed (use c(3) 2 in \<open>simp add: set_mdtest_items_def\<close>)
qed


section \<open>A run of the compiler\<close>

definition verified_artifact :: "files \<Rightarrow> path \<Rightarrow> pyval \<Rightarrow> bool" where
  "verified_artifact files workspace v \<longleftrightarrow>
     (\<exists>p content. files (if is_absolute p then p else path_join workspace p) = Some content \<and> content \<noteq> []
        \<and> v = PDict [(''path'', PStr p), (''size'', PInt (int (length content))), (''sha256'', PStr (sha256 content))])"

lemma resolve_artifact_spec:
  assumes "resolve_artifact files workspace artifacts name = Inr nv"
  shows "fst nv = name \<and> verified_artifact files workspace (snd nv)"
proof -
  from assms obtain r where r: "dget artifacts name = PDict r"
    by (auto simp: resolve_artifact_def split: pyval.splits)
  from assms r obtain p h n where v: "dget r ''path'' = PStr p" "dget r ''sha256'' = PStr h" "int_value (dget r ''size'') = Some n"
    unfolding resolve_artifact_def by (auto split: pyval.splits option.splits)
  let ?path = "if is_absolute p then p else path_join workspace p"
  from assms r v obtain content where c: "read_bytes files ?path = Inr content" "0 < n" "int (length content) = n"
      and nv: "nv = (name, PDict [(''path'', PStr p), (''size'', PInt (int (length content))), (''sha256'', PStr (sha256 content))])"
    unfolding resolve_artifact_def by (simp add: Let_def rbind_Inr_iff) blast
  from c(1) have "files ?path = Some content" by (auto simp: read_bytes_def split: option.splits)
  moreover have "content \<noteq> []" using c by auto
  ultimately show ?thesis unfolding verified_artifact_def nv by auto
qed

lemma resolve_artifacts_spec:
  assumes "resolve_artifacts files workspace build mode = Inr (identity, artifacts)"
  shows "map_of MODE_BUILD_ARTIFACTS mode = Some extra \<Longrightarrow> map fst artifacts = REQUIRED_BUILD_ARTIFACTS @ extra"
    and "list_all (\<lambda>(name, v). verified_artifact files workspace v) artifacts"
proof -
  from assms obtain b where b: "read_json files build = Inr b" by (auto simp: resolve_artifacts_def rbind_Inr_iff)
  with assms obtain table where table: "dget b ''artifacts'' = PDict table"
    by (cases "dget b ''artifacts''") (simp_all add: resolve_artifacts_def rbind_Inr_iff)
  with assms b obtain extra' where extra: "map_of MODE_BUILD_ARTIFACTS mode = Some extra'"
    by (cases "map_of MODE_BUILD_ARTIFACTS mode") (simp_all add: resolve_artifacts_def rbind_Inr_iff)
  from assms b table extra have "rmap (resolve_artifact files workspace table) (REQUIRED_BUILD_ARTIFACTS @ extra') = Inr artifacts"
    by (auto simp: resolve_artifacts_def Let_def rbind_Inr_iff)
  note m = extra this
  have "map fst ys = xs \<and> list_all (\<lambda>(name, v). verified_artifact files workspace v) ys"
    if "list_all2 (\<lambda>x y. resolve_artifact files workspace table x = Inr y) xs ys" for xs ys
    using that by (induction rule: list_all2_induct) (auto dest: resolve_artifact_spec)
  with m(2) have "map fst artifacts = REQUIRED_BUILD_ARTIFACTS @ extra'" "list_all (\<lambda>(name, v). verified_artifact files workspace v) artifacts"
    by (auto simp: rmap_Inr_iff)
  with m(1) show "map_of MODE_BUILD_ARTIFACTS mode = Some extra \<Longrightarrow> map fst artifacts = REQUIRED_BUILD_ARTIFACTS @ extra"
      "list_all (\<lambda>(name, v). verified_artifact files workspace v) artifacts" by simp_all
qed

text \<open>What a published manifest stands for.\<close>

definition evaluation_closed :: "files \<Rightarrow> files \<Rightarrow> path \<Rightarrow> (path \<Rightarrow> path) \<Rightarrow> evaluation_request \<Rightarrow> path \<Rightarrow> bool" where
  "evaluation_closed before after workspace resolve rq out \<longleftrightarrow>
     (\<exists>pf rendered identity artifacts source digest.
        prepare_evaluation before workspace resolve rq = Inr (pf, rendered, identity, artifacts)
        \<and> before (er_source_config rq) = Some source \<and> after (er_source_config rq) = Some source
        \<and> after (er_output_config rq) = Some rendered
        \<and> list_all (\<lambda>(name, v). verified_artifact before workspace v) artifacts
        \<and> canonical_digest (manifest_body rq pf (sha256 source) rendered identity artifacts) = Inr digest
        \<and> after out = Some (indented_text 0 (PDict (manifest_body rq pf (sha256 source) rendered identity artifacts
             @ [(''manifest_digest'', PStr digest)])) @ [CHR 0x0A]))"

lemma build_outcome:
  assumes "build_evaluation_manifest io t workspace resolve rq d = (r, d1)" "t \<notin> {er_source_config rq, er_output_config rq}"
  obtains (early) e where "r = Inl e" "dk_files d1 = dk_files d"
    | (torn) e rendered where "r = Inl e" "intact (dk_files d1) (dk_files d) (er_output_config rq) t rendered"
    | (built) pf rendered identity artifacts source digest where
        "prepare_evaluation (dk_files d) workspace resolve rq = Inr (pf, rendered, identity, artifacts)"
        "dk_files d (er_source_config rq) = Some source" "er_source_config rq \<noteq> er_output_config rq"
        "dk_files d1 = (dk_files d)(er_output_config rq \<mapsto> rendered, t := None)"
        "canonical_digest (manifest_body rq pf (sha256 source) rendered identity artifacts) = Inr digest"
        "r = Inr (manifest_body rq pf (sha256 source) rendered identity artifacts @ [(''manifest_digest'', PStr digest)])"
proof (cases "prepare_evaluation (dk_files d) workspace resolve rq")
  case (Inl e)
  then show ?thesis using assms(1) early by (auto simp: build_evaluation_manifest_def sbind_def on_files_def)
next
  case (Inr p)
  obtain pf rendered identity artifacts where p: "p = (pf, rendered, identity, artifacts)" by (cases p)
  obtain u d2 where w: "write_atomic io (er_output_config rq) t rendered d = (u, d2)" by (metis surj_pair)
  have fresh: "er_output_config rq \<noteq> t" using assms(2) by auto
  show ?thesis
  proof (cases u)
    case (Inl e)
    with w Inr p assms(1) have "r = Inl e" "d1 = d2" by (auto simp: build_evaluation_manifest_def sbind_def on_files_def)
    with mkstemp_writer.crash_safe [OF fresh w] show ?thesis using torn by auto
  next
    case (Inr u')
    note d2 = mkstemp_writer.written [OF fresh w [unfolded Inr]]
    have checked: "er_source_config rq \<noteq> er_output_config rq"
      using \<open>prepare_evaluation _ _ _ _ = Inr p\<close> by (auto simp: prepare_evaluation_def check_request_def rbind_Inr_iff)
    then have kept: "dk_files d2 (er_source_config rq) = dk_files d (er_source_config rq)" using d2 assms(2) by auto
    have rest: "(r, d1) = (rbind (sha256_file (dk_files d2) (er_source_config rq)) (\<lambda>h. rbind (canonical_digest (manifest_body rq pf h rendered identity artifacts))
        (\<lambda>digest. Inr (manifest_body rq pf h rendered identity artifacts @ [(''manifest_digest'', PStr digest)]))), d2)"
      using assms(1) w Inr \<open>prepare_evaluation _ _ _ _ = Inr p\<close> p
      by (auto simp: build_evaluation_manifest_def sbind_def on_files_def sresult_def Let_def split: sum.splits)
    show ?thesis
    proof (cases r)
      case (Inl e)
      moreover have "intact (dk_files d1) (dk_files d) (er_output_config rq) t rendered" using rest d2 fresh by (auto simp: intact_def)
      ultimately show ?thesis using torn by blast
    next
      case (Inr m)
      with rest have "rbind (sha256_file (dk_files d2) (er_source_config rq)) (\<lambda>h. rbind (canonical_digest (manifest_body rq pf h rendered identity artifacts))
        (\<lambda>digest. Inr (manifest_body rq pf h rendered identity artifacts @ [(''manifest_digest'', PStr digest)]))) = Inr m"
        by (simp only: prod.inject)
      then obtain h digest where h: "sha256_file (dk_files d2) (er_source_config rq) = Inr h"
          "canonical_digest (manifest_body rq pf h rendered identity artifacts) = Inr digest"
          "m = manifest_body rq pf h rendered identity artifacts @ [(''manifest_digest'', PStr digest)]"
        unfolding rbind_Inr_iff sum.inject by blast
      from h(1) obtain source where source: "dk_files d (er_source_config rq) = Some source" "h = sha256 source"
        by (auto simp: sha256_file_def read_bytes_def kept rbind_Inr_iff split: option.splits)
      have "dk_files d1 = (dk_files d)(er_output_config rq \<mapsto> rendered, t := None)" using rest d2 by simp
      with built [OF \<open>prepare_evaluation _ _ _ _ = Inr p\<close> [unfolded p] source(1) checked] h(2,3) source(2) Inr show ?thesis by blast
    qed
  qed
qed


section \<open>Instances\<close>

definition sample_ini :: string where
  "sample_ini = ''[global]'' @ newline @ ''scc = FALSE'' @ newline @ ''[debug]'' @ newline @ ''stonewall-time = 300'' @ newline"

definition pinned_config :: config where
  "pinned_config = \<lparr>cf_defaults = [], cf_sections = [(''global'', [(''scc'', ''FALSE'')]), (''debug'', [(''stonewall-time'', ''300'')])]\<rparr>"

lemma sample_read: "read_string sample_ini = Inr pinned_config"
  by code_simp

lemma sample_plain: "plain_config pinned_config"
  by code_simp

definition sample_phases :: "string list" where
  "sample_phases = [''mdtest-easy-write'', ''mdtest-hard-write'', ''find'']"

lemma sample_derived:
  "\<exists>pf. derive_profile (Inr pinned_config) ''config/io500-standard.ini'' [''find''] ''standard'' (Some 5) (Some 7) = Inr pf
     \<and> pf_phases pf = sample_phases \<and> pf_classification pf = ''diagnostic-upstream-shape''"
proof -
  have "(case derive_profile (Inr pinned_config) ''config/io500-standard.ini'' [''find''] ''standard'' (Some 5) (Some 7) of
      Inr pf \<Rightarrow> pf_phases pf = sample_phases \<and> pf_classification pf = ''diagnostic-upstream-shape'' | Inl e \<Rightarrow> False)"
    by code_simp
  then show ?thesis by (auto split: sum.splits)
qed

lemma sample_mode: "map_of IO500_MODES ''standard'' = Some STANDARD_PHASE_ORDER"
  by (simp add: IO500_MODES_def)

theorem derived_profile_sound_witness:
  "\<exists>pf. derive_profile (Inr pinned_config) ''config/io500-standard.ini'' [''find''] ''standard'' (Some 5) (Some 7) = Inr pf
     \<and> pf_phases pf = sample_phases \<and> ordered_phases sample_phases
     \<and> configured_phases (pf_parser pf) STANDARD_PHASE_ORDER = Inr sample_phases"
proof -
  obtain pf where pf: "derive_profile (Inr pinned_config) ''config/io500-standard.ini'' [''find''] ''standard'' (Some 5) (Some 7) = Inr pf"
      "pf_phases pf = sample_phases" "pf_classification pf = ''diagnostic-upstream-shape''" using sample_derived by blast
  have "pf_classification pf \<noteq> ''official-shape''" using pf(3) by simp
  with derived_profile_sound [OF sample_read pf(1) sample_mode] pf(1,2) show ?thesis by auto
qed


definition sample_evaluation :: evaluation_request where
  "sample_evaluation = \<lparr>er_source_config = ''io500-standard.ini'', er_output_config = ''effective.ini'', er_build_manifest = ''build.json'',
     er_filesystem_mode = ''rdwo-candidate'', er_io500_mode = ''standard'', er_profile_name = ''find'', er_enabled_phases = [''find''],
     er_stonewall_seconds = Some 5, er_mdtest_items = None, er_server_count = 1, er_client_count = 2\<rparr>"

definition sample_disk :: disk where
  "sample_disk = \<lparr>dk_files = (\<lambda>_. None)(''io500-standard.ini'' \<mapsto> sample_ini, ''run.json'' \<mapsto> ''old''), dk_history = [], dk_tick = 0\<rparr>"


end
