(* ===== verification/Time_Ledger.thy ===== *)
theory Time_Ledger
  imports Py_Float Py_Text
begin

text \<open>
  The time ledgers of paired runs (\<^verbatim>\<open>_nested_number\<close>, \<^verbatim>\<open>_timing_integer\<close>,
  \<^verbatim>\<open>_closed_timing_layer\<close>, \<^verbatim>\<open>result_time_ledger\<close> and \<^verbatim>\<open>paired_time_closure\<close> of
  scripts/legofs_observe.py): counters are read from a result, split into layers of a parent
  and its children, and compared between a baseline and a candidate. Booleans count as the
  integers they equal. The main results are that every layer adds up and that the
  differences between two runs add up too.
\<close>

section \<open>Reading a result\<close>

text \<open>\<^verbatim>\<open>value.get(name, default)\<close>, \<^verbatim>\<open>value[name]\<close>, \<^verbatim>\<open>value > 0\<close> and \<^verbatim>\<open>float(value)\<close>.\<close>

definition get_or :: "pyval \<Rightarrow> string \<Rightarrow> pyval \<Rightarrow> pyval res" where
  "get_or v name w =
     (case v of PDict d \<Rightarrow> Inr (case map_of d name of Some x \<Rightarrow> x | None \<Rightarrow> w) | _ \<Rightarrow> Inl AttributeError)"

definition index_value :: "pyval \<Rightarrow> string \<Rightarrow> pyval res" where
  "index_value v name = (case v of PDict d \<Rightarrow> dindex d name | _ \<Rightarrow> Inl TypeError)"

definition exceeds_zero :: "pyval \<Rightarrow> bool res" where
  "exceeds_zero v = (case num_of v of Some x \<Rightarrow> Inr (float_lt (Fin 0) x) | None \<Rightarrow> Inl TypeError)"

definition as_float :: "pyval \<Rightarrow> pyfloat res" where
  "as_float v =
     (case v of PFloat f \<Rightarrow> Inr f
      | _ \<Rightarrow> (case int_value v of Some i \<Rightarrow> int_float (of_int i) | None \<Rightarrow> Inl TypeError))"

definition py_sub :: "pyval \<Rightarrow> pyval \<Rightarrow> pyval res" where
  "py_sub v w =
     (case (int_value v, int_value w) of
        (Some i, Some j) \<Rightarrow> Inr (PInt (i - j))
      | _ \<Rightarrow> rbind (as_float v) (\<lambda>a. rbind (as_float w) (\<lambda>b. Inr (PFloat (fadd a (fneg b))))))"

definition quoted :: "string \<Rightarrow> string" where
  "quoted s = CHR 0x27 # s @ [CHR 0x27]"

text \<open>\<^verbatim>\<open>path.split(".")\<close>.\<close>

fun split_dots :: "string \<Rightarrow> string list" where
  "split_dots [] = [[]]"
| "split_dots (c # cs) =
     (if c = CHR ''.'' then [] # split_dots cs
      else case split_dots cs of w # ws \<Rightarrow> (c # w) # ws | [] \<Rightarrow> [[c]])"

fun nested_lookup :: "string \<Rightarrow> pyval \<Rightarrow> string list \<Rightarrow> pyval res" where
  "nested_lookup path current [] = Inr current"
| "nested_lookup path current (component # cs) =
     (case current of
        PDict d \<Rightarrow>
          (case map_of d component of
             Some v \<Rightarrow> nested_lookup path v cs
           | None \<Rightarrow> Inl (ValueError (''paired input lacks numeric counter '' @ quoted path)))
      | _ \<Rightarrow> Inl (ValueError (''paired input lacks numeric counter '' @ quoted path)))"

definition nested_number :: "pyval \<Rightarrow> string \<Rightarrow> pyfloat res" where
  "nested_number value path =
     rbind (nested_lookup path value (split_dots path)) (\<lambda>current.
     rbind (rcheck (num_of current = None) (ValueError (''paired counter '' @ quoted path @ '' is not numeric''))) (\<lambda>_.
     as_float current))"

definition timing_integer :: "pyval \<Rightarrow> string \<Rightarrow> bool \<Rightarrow> int res" where
  "timing_integer value path positive =
     rbind (nested_number value path) (\<lambda>number.
     case number of
       Fin q \<Rightarrow>
         rbind (rcheck (of_int \<lfloor>q\<rfloor> \<noteq> q) (ValueError (''timing counter '' @ quoted path @ '' is not an integer''))) (\<lambda>_.
         rbind (rcheck (\<lfloor>q\<rfloor> < 0 \<or> positive \<and> \<lfloor>q\<rfloor> = 0)
                  (ValueError (''timing counter '' @ quoted path @ '' must be '' @ (if positive then ''positive'' else ''nonnegative'')))) (\<lambda>_.
         Inr \<lfloor>q\<rfloor>))
     | _ \<Rightarrow> Inl (ValueError (''timing counter '' @ quoted path @ '' is not an integer'')))"

definition timing_integers :: "pyval \<Rightarrow> string \<Rightarrow> string list \<Rightarrow> (string \<times> int) list res" where
  "timing_integers result prefix names =
     rmap (\<lambda>name. rbind (timing_integer result (prefix @ name) False) (\<lambda>n. Inr (name, n))) names"

text \<open>A counter that has to be a natural number, with its name.\<close>

definition named_count :: "string \<Rightarrow> string \<Rightarrow> pyval \<Rightarrow> (string \<times> int) res" where
  "named_count label name v =
     (case int_value v of
        Some n \<Rightarrow> if n < 0 then Inl (ValueError (label @ '' timing counter '' @ quoted name @ '' must be nonnegative'')) else Inr (name, n)
      | None \<Rightarrow> Inl (ValueError (label @ '' timing counter '' @ quoted name @ '' must be nonnegative'')))"

section \<open>Layers\<close>

record timing_layer =
  tl_parent_ns :: int
  tl_children :: "(string \<times> int) list"
  tl_children_ns :: int
  tl_remainder_ns :: int
  tl_remainder_share :: pyfloat
  tl_arithmetic_closed :: bool
  tl_closed :: bool
  tl_within_five_percent :: bool

definition closed_timing_layer :: "int \<Rightarrow> (string \<times> int) list \<Rightarrow> string \<Rightarrow> timing_layer res" where
  "closed_timing_layer parent children name =
     rbind (rcheck (parent \<le> 0) (ValueError (name @ '' timing parent must be positive''))) (\<lambda>_.
     rbind (rcheck (list_ex (\<lambda>(_, n). n < 0) children) (ValueError (name @ '' timing child must be nonnegative''))) (\<lambda>_.
     let children_sum = sum_list (map snd children); remainder = parent - children_sum
     in rbind (rcheck (remainder < 0) (ValueError (name @ '' timing children exceed their parent''))) (\<lambda>_.
        rbind (int_truediv remainder parent) (\<lambda>share.
        Inr \<lparr>tl_parent_ns = parent, tl_children = children, tl_children_ns = children_sum, tl_remainder_ns = remainder,
             tl_remainder_share = share, tl_arithmetic_closed = (children_sum + remainder = parent),
             tl_closed = (children_sum + remainder = parent), tl_within_five_percent = float_le share (fl (5 / 100))\<rparr>))))"

definition layer_child :: "timing_layer \<Rightarrow> string \<Rightarrow> int res" where
  "layer_child l name = (case map_of (tl_children l) name of Some n \<Rightarrow> Inr n | None \<Rightarrow> Inl KeyError)"

section \<open>The ledger of a result\<close>

record time_ledger =
  td_rank_wall :: timing_layer
  td_client_control :: timing_layer
  td_transport :: timing_layer
  td_transport_calls :: int
  td_arena :: timing_layer
  td_arena_calls :: int
  td_direct_write :: timing_layer
  td_direct_groups :: int
  td_direct_items :: int
  td_authority_persistence :: "(timing_layer \<times> pyval \<times> pyval) option"

definition client_intervals :: "string list" where
  "client_intervals = [''metadata_rpc_wait_ns'', ''read_control_rpc_wait_ns'', ''write_control_rpc_wait_ns'']"

definition rank_layers :: "pyval \<Rightarrow> (timing_layer \<times> timing_layer) res" where
  "rank_layers result =
     rbind (timing_integer result ''legofs_timing.aggregate_rank_wall_ns'' True) (\<lambda>rank_wall_ns.
     rbind (timing_integer result ''legofs_timing.client_timed_intervals_ns'' False) (\<lambda>client_timed_ns.
     rbind (timing_integers result ''legofs_timing.client_timed_intervals.'' client_intervals) (\<lambda>client_children.
     rbind (closed_timing_layer client_timed_ns client_children ''client control'') (\<lambda>client_control.
     rbind (closed_timing_layer rank_wall_ns [(''client_timed_intervals_ns'', client_timed_ns)] ''aggregate rank wall'') (\<lambda>rank_wall.
     Inr (rank_wall, client_control))))))"

definition transport_stages :: "string list" where
  "transport_stages = [''authority_queue_wait_ns'', ''successful_request_poll_ns'', ''dispatcher_backend_ns'',
     ''completion_publication_wait_ns'', ''cqe_publish_ns'']"

definition transport_layer :: "pyval \<Rightarrow> (timing_layer \<times> int) res" where
  "transport_layer result =
     rbind (timing_integer result ''legofs_timing.transport_client.calls'' True) (\<lambda>transport_calls.
     rbind (timing_integer result ''legofs_timing.transport_authority.sqe_consumed'' True) (\<lambda>consumed.
     rbind (timing_integer result ''legofs_timing.transport_authority.cqe_published'' True) (\<lambda>published.
     rbind (rcheck (transport_calls \<noteq> consumed \<or> consumed \<noteq> published) (ValueError ''transport timing call counts do not close'')) (\<lambda>_.
     rbind (timing_integer result ''legofs_timing.transport_client.cq_wait_ns'' True) (\<lambda>parent.
     rbind (timing_integers result ''legofs_timing.transport_authority.'' transport_stages) (\<lambda>children.
     rbind (closed_timing_layer parent children ''transport CQ envelope'') (\<lambda>transport.
     Inr (transport, transport_calls))))))))"

definition arena_stages :: "string list" where
  "arena_stages = [''arena_acquire_lock_wait_ns'', ''arena_acquire_state_clone_ns'', ''arena_acquire_allocation_plan_ns'',
     ''arena_acquire_backend_reserve_ns'', ''arena_acquire_state_build_ns'', ''arena_acquire_state_validate_ns'',
     ''arena_acquire_grant_install_ns'', ''arena_acquire_state_persist_ns'', ''arena_acquire_trace_ns'']"

definition arena_acquire_layer :: "pyval \<Rightarrow> (timing_layer \<times> int) res" where
  "arena_acquire_layer result =
     rbind (timing_integer result ''legofs_timing.arena_acquire.arena_acquire_calls'' False) (\<lambda>arena_calls.
     rbind (timing_integer result ''legofs_timing.arena_acquire.arena_acquire_total_ns'' False) (\<lambda>parent.
     rbind (rcheck (arena_calls \<le> 0 \<or> parent \<le> 0) (ValueError ''candidate timing ledger requires a reached arena path'')) (\<lambda>_.
     rbind (rbind (index_value result ''legofs_timing'') (\<lambda>timing. index_value timing ''arena_acquire'')) (\<lambda>arena.
     rbind (rmap (\<lambda>name. rbind (get_or arena name (PInt 0)) (named_count ''arena'' name)) arena_stages) (\<lambda>children.
     rbind (closed_timing_layer parent children ''arena acquire'') (\<lambda>layer. Inr (layer, arena_calls)))))))"

text \<open>\<^verbatim>\<open>result.get("legofs_timing", {}).get(name, default)\<close>.\<close>

definition timing_entry :: "pyval \<Rightarrow> string \<Rightarrow> pyval \<Rightarrow> pyval res" where
  "timing_entry result name w = rbind (get_or result ''legofs_timing'' (PDict [])) (\<lambda>timing. get_or timing name w)"

text \<open>\<^verbatim>\<open>isinstance(value, int)\<close> and positive.\<close>

definition positive_count :: "pyval \<Rightarrow> int option" where
  "positive_count v = (case int_value v of Some n \<Rightarrow> if 0 < n then Some n else None | None \<Rightarrow> None)"

definition direct_write_stages :: "string list" where
  "direct_write_stages = [''direct_write_prepare_ns'', ''direct_write_payload_persist_ns'', ''direct_write_state_build_ns'',
     ''direct_write_state_persist_ns'', ''direct_write_publish_ns'', ''direct_write_trace_ns'']"

definition direct_write_layer :: "pyval \<Rightarrow> (timing_layer \<times> int \<times> int) res" where
  "direct_write_layer result =
     rbind (timing_entry result ''direct_write'' PNone) (\<lambda>direct.
     case direct of
       PDict d \<Rightarrow>
         (case (positive_count (dget d ''direct_write_commit_groups''), positive_count (dget d ''direct_write_commit_items'')) of
            (Some groups, Some objects) \<Rightarrow>
              (case positive_count (dget d ''direct_write_total_ns'') of
                 Some parent \<Rightarrow>
                   rbind (timing_entry result ''server_direct_write_commit_ns'' PNone) (\<lambda>legacy.
                   rbind (rcheck (legacy \<noteq> PNone \<and> \<not> py_eq legacy (PInt parent)) (ValueError ''direct-write timing parents disagree'')) (\<lambda>_.
                   rbind (rmap (\<lambda>name. named_count ''direct-write'' name (dget d name)) direct_write_stages) (\<lambda>children.
                   rbind (closed_timing_layer parent children ''direct write'') (\<lambda>layer. Inr (layer, groups, objects)))))
               | None \<Rightarrow> Inl (ValueError ''direct-write timing parent must be positive''))
          | _ \<Rightarrow> Inl (ValueError ''candidate timing ledger requires a reached direct-write path''))
     | _ \<Rightarrow> Inl (ValueError ''candidate timing ledger lacks direct-write timing''))"

definition authority_layer :: "pyval \<Rightarrow> (timing_layer \<times> pyval \<times> pyval) option res" where
  "authority_layer result =
     rbind (timing_entry result ''persistence'' (PDict [])) (\<lambda>persistence.
     rbind (get_or persistence ''authority_coherent_acquire_jobs'' (PInt 0)) (\<lambda>jobs.
     rbind (exceeds_zero jobs) (\<lambda>reached.
     if \<not> reached then Inr None
     else
       rbind (get_or persistence ''deferred_state_dependency_close_ns'' (PInt 0)) (\<lambda>parent.
       rbind (get_or persistence ''authority_coherent_acquire_ns'' (PInt 0)) (\<lambda>acquire.
       rbind (get_or persistence ''authority_payload_persist_ns'' (PInt 0)) (\<lambda>persist.
       case (int_value parent, int_value acquire, int_value persist) of
         (Some parent_ns, Some acquire_ns, Some persist_ns) \<Rightarrow>
           rbind (closed_timing_layer parent_ns
                    [(''authority_coherent_acquire_ns'', acquire_ns), (''authority_payload_persist_ns'', persist_ns)]
                    ''authority persistence dependency closure'') (\<lambda>layer.
           rbind (get_of persistence ''authority_coherent_acquire_jobs'') (\<lambda>acquire_jobs.
           rbind (get_of persistence ''authority_payload_persist_jobs'') (\<lambda>persist_jobs.
           Inr (Some (layer, acquire_jobs, persist_jobs)))))
       | _ \<Rightarrow> Inl (ValueError ''authority persistence timing counters must be integers'')))))))"

definition result_time_ledger :: "pyval \<Rightarrow> time_ledger res" where
  "result_time_ledger result =
     rbind (rank_layers result) (\<lambda>(rank_wall, client_control).
     rbind (transport_layer result) (\<lambda>(transport, transport_calls).
     rbind (arena_acquire_layer result) (\<lambda>(arena, arena_calls).
     rbind (direct_write_layer result) (\<lambda>(direct, groups, objects).
     rbind (authority_layer result) (\<lambda>authority.
     Inr \<lparr>td_rank_wall = rank_wall, td_client_control = client_control, td_transport = transport,
          td_transport_calls = transport_calls, td_arena = arena, td_arena_calls = arena_calls, td_direct_write = direct,
          td_direct_groups = groups, td_direct_items = objects, td_authority_persistence = authority\<rparr>)))))"

text \<open>The object that is reported for a ledger.\<close>

definition layer_fields :: "timing_layer \<Rightarrow> pydict" where
  "layer_fields l =
     [(''parent_ns'', PInt (tl_parent_ns l)), (''children'', PDict (map (\<lambda>(name, n). (name, PInt n)) (tl_children l))),
      (''children_ns'', PInt (tl_children_ns l)), (''remainder_ns'', PInt (tl_remainder_ns l)),
      (''remainder_share'', PFloat (tl_remainder_share l)), (''arithmetic_closed'', PBool (tl_arithmetic_closed l)),
      (''closed'', PBool (tl_closed l)), (''within_five_percent'', PBool (tl_within_five_percent l))]"

definition ledger_json :: "time_ledger \<Rightarrow> pyval" where
  "ledger_json l = PDict
     [(''schema_version'', PStr ''legofs.performance.time-ledger.v1''),
      (''rank_wall'', PDict (layer_fields (td_rank_wall l))),
      (''client_control'', PDict (layer_fields (td_client_control l))),
      (''transport'', PDict (layer_fields (td_transport l)
         @ [(''calls'', PInt (td_transport_calls l)),
            (''remainder_semantics'', PStr ''request/completion handoff plus uninstrumented authority work'')])),
      (''arena'', PDict (layer_fields (td_arena l) @ [(''calls'', PInt (td_arena_calls l))])),
      (''direct_write'', PDict (layer_fields (td_direct_write l)
         @ [(''groups'', PInt (td_direct_groups l)), (''items'', PInt (td_direct_items l))])),
      (''authority_persistence'', case td_authority_persistence l of
           None \<Rightarrow> PNone
         | Some (layer, acquire_jobs, persist_jobs) \<Rightarrow>
             PDict (layer_fields layer @ [(''acquire_jobs'', acquire_jobs), (''persist_jobs'', persist_jobs)])),
      (''nested_domains'', PDict
         [(''transport_is_nested_in_client_control'', PBool True), (''arena_is_nested_in_transport_authority'', PBool True),
          (''direct_write_is_nested_in_transport_authority'', PBool True),
          (''persistence_counters_span_arena_and_direct_write'', PBool True),
          (''authority_persistence_is_nested_in_background_lifecycle'', PBool True)]),
      (''interpretation'', PStr (''Only children within one named layer are additive. Transport, arena, ''
         @ ''direct-write and persistence are nested diagnostic layers and are never summed ''
         @ ''with aggregate rank wall or client control.''))]"

section \<open>Two runs\<close>

text \<open>Iteration over a value; characters and keys stand for themselves.\<close>

definition iter_values :: "pyval \<Rightarrow> pyval list res" where
  "iter_values v =
     (case v of PList vs \<Rightarrow> Inr vs | PDict d \<Rightarrow> Inr (map (PStr \<circ> fst) d) | PStr s \<Rightarrow> Inr (map (\<lambda>c. PStr [c]) s) | _ \<Rightarrow> Inl TypeError)"

definition result_phases :: "pyval \<Rightarrow> pyval list res" where
  "result_phases result =
     rbind (get_or result ''io500'' (PDict [])) (\<lambda>io500.
     rbind (get_or io500 ''metrics'' (PDict [])) (\<lambda>metrics.
     rbind (get_or metrics ''phases'' (PList [])) iter_values))"

text \<open>Dictionaries keyed by hashable values.\<close>

fun vset :: "pyval \<Rightarrow> 'a \<Rightarrow> (pyval \<times> 'a) list \<Rightarrow> (pyval \<times> 'a) list" where
  "vset k v [] = [(k, v)]"
| "vset k v ((k', v') # d) = (if py_eq k' k then (k', v) # d else (k', v') # vset k v d)"

definition vget :: "pyval \<Rightarrow> (pyval \<times> 'a) list \<Rightarrow> 'a option" where
  "vget k d = map_option snd (List.find (\<lambda>(k', _). py_eq k' k) d)"

definition phase_name :: "pyval \<Rightarrow> pyval res" where
  "phase_name phase =
     rbind (get_of phase ''name'') (\<lambda>name. if hashable name then Inr name else Inl TypeError)"

definition phases_by_name :: "pyval list \<Rightarrow> (pyval \<times> pyval) list res" where
  "phases_by_name phases = rfold (\<lambda>d phase. rbind (phase_name phase) (\<lambda>name. Inr (vset name phase d))) [] phases"

record phase_delta =
  pd_baseline_elapsed_s :: pyval
  pd_candidate_elapsed_s :: pyval
  pd_elapsed_reduction_s :: pyval

definition reached_seconds :: "pyval \<Rightarrow> bool res" where
  "reached_seconds phase = rbind (get_or phase ''seconds'' (PInt 0)) exceeds_zero"

definition add_phase_delta ::
  "(pyval \<times> pyval) list \<Rightarrow> (pyval \<times> phase_delta) list \<Rightarrow> pyval \<Rightarrow> (pyval \<times> phase_delta) list res" where
  "add_phase_delta baseline_phases deltas phase =
     rbind (phase_name phase) (\<lambda>name.
     case vget name baseline_phases of
       None \<Rightarrow> Inr deltas
     | Some before \<Rightarrow>
         rbind (rconj [reached_seconds before, reached_seconds phase]) (\<lambda>comparable.
         if \<not> comparable then Inr deltas
         else
           rbind (index_value before ''seconds'') (\<lambda>b.
           rbind (index_value phase ''seconds'') (\<lambda>c.
           rbind (py_sub b c) (\<lambda>reduction.
           Inr (vset name \<lparr>pd_baseline_elapsed_s = b, pd_candidate_elapsed_s = c, pd_elapsed_reduction_s = reduction\<rparr> deltas))))))"

definition phase_deltas :: "pyval \<Rightarrow> pyval \<Rightarrow> (pyval \<times> phase_delta) list res" where
  "phase_deltas baseline candidate =
     rbind (rbind (result_phases baseline) phases_by_name) (\<lambda>baseline_phases.
     rbind (result_phases candidate) (\<lambda>phases. rfold (add_phase_delta baseline_phases) [] phases))"

definition child_delta :: "timing_layer \<Rightarrow> timing_layer \<Rightarrow> string \<Rightarrow> (string \<times> int) res" where
  "child_delta baseline candidate name =
     rbind (layer_child baseline name) (\<lambda>b. rbind (layer_child candidate name) (\<lambda>c. Inr (name, b - c)))"

definition child_deltas :: "timing_layer \<Rightarrow> timing_layer \<Rightarrow> (string \<times> int) list res" where
  "child_deltas baseline candidate = rmap (child_delta baseline candidate) (map fst (tl_children baseline))"

definition packed_names :: "string list" where
  "packed_names = [''small_segment_claim_persist_ns'', ''legacy_small_arena_reserve_ns'', ''client_dynamic_mmap_ns'', ''client_protection_ns'']"

definition packed_delta :: "pydict \<Rightarrow> pydict \<Rightarrow> string \<Rightarrow> (string \<times> int) res" where
  "packed_delta baseline candidate name =
     rbind (named_count ''packed'' name (dget baseline name)) (\<lambda>(_, before).
     rbind (named_count ''packed'' name (dget candidate name)) (\<lambda>(_, after). Inr (name, before - after)))"

definition packed_deltas :: "pyval \<Rightarrow> pyval \<Rightarrow> (string \<times> int) list res" where
  "packed_deltas baseline candidate =
     rbind (timing_entry baseline ''packed_small_segment'' PNone) (\<lambda>b.
     rbind (timing_entry candidate ''packed_small_segment'' PNone) (\<lambda>c.
     case (b, c) of
       (PDict before, PDict after) \<Rightarrow> rmap (packed_delta before after) packed_names
     | _ \<Rightarrow> Inr []))"

definition parent_delta :: "(time_ledger \<Rightarrow> timing_layer) \<Rightarrow> time_ledger \<Rightarrow> time_ledger \<Rightarrow> int" where
  "parent_delta layer b c = tl_parent_ns (layer b) - tl_parent_ns (layer c)"

definition remainder_delta :: "(time_ledger \<Rightarrow> timing_layer) \<Rightarrow> time_ledger \<Rightarrow> time_ledger \<Rightarrow> int" where
  "remainder_delta layer b c = tl_remainder_ns (layer b) - tl_remainder_ns (layer c)"

definition nested_deltas :: "pyval \<Rightarrow> pyval \<Rightarrow> time_ledger \<Rightarrow> time_ledger \<Rightarrow> (string \<times> int) list res" where
  "nested_deltas baseline candidate b c =
     rbind (child_delta (td_arena b) (td_arena c) ''arena_acquire_backend_reserve_ns'') (\<lambda>(_, reserve).
     rbind (child_deltas (td_direct_write b) (td_direct_write c)) (\<lambda>direct.
     rbind (packed_deltas baseline candidate) (\<lambda>packed.
     Inr ([(''transport_cq_wait'', parent_delta td_transport b c), (''arena_acquire_total'', parent_delta td_arena b c),
           (''arena_backend_reserve'', reserve), (''direct_write_total'', parent_delta td_direct_write b c)] @ direct @ packed))))"

record time_closure =
  tc_pair :: int
  tc_baseline :: time_ledger
  tc_candidate :: time_ledger
  tc_wall_delta_ns :: int
  tc_client_timed_delta_ns :: int
  tc_rank_wall_remainder_delta_ns :: int
  tc_wall_delta_error_ns :: int
  tc_client_category_deltas_ns :: "(string \<times> int) list"
  tc_client_category_remainder_delta_ns :: int
  tc_nested_diagnostic_deltas_ns :: "(string \<times> int) list"
  tc_phase_elapsed_deltas :: "(pyval \<times> phase_delta) list"
  tc_arithmetic_closed :: bool

definition paired_time_closure :: "pyval \<Rightarrow> pyval \<Rightarrow> int \<Rightarrow> time_closure res" where
  "paired_time_closure baseline candidate pair =
     rbind (result_time_ledger baseline) (\<lambda>b.
     rbind (result_time_ledger candidate) (\<lambda>c.
     let wall_delta = parent_delta td_rank_wall b c; client_delta = parent_delta td_client_control b c;
         wall_rest = remainder_delta td_rank_wall b c; delta_error = wall_delta - client_delta - wall_rest;
         client_rest = remainder_delta td_client_control b c
     in rbind (rcheck (delta_error \<noteq> 0) (ValueError ''paired aggregate-rank wall delta does not close'')) (\<lambda>_.
        rbind (child_deltas (td_client_control b) (td_client_control c)) (\<lambda>categories.
        rbind (rcheck (sum_list (map snd categories) + client_rest \<noteq> client_delta)
                 (ValueError ''paired client-control delta does not close'')) (\<lambda>_.
        rbind (phase_deltas baseline candidate) (\<lambda>phases.
        rbind (nested_deltas baseline candidate b c) (\<lambda>nested.
        Inr \<lparr>tc_pair = pair, tc_baseline = b, tc_candidate = c, tc_wall_delta_ns = wall_delta,
             tc_client_timed_delta_ns = client_delta, tc_rank_wall_remainder_delta_ns = wall_rest,
             tc_wall_delta_error_ns = delta_error, tc_client_category_deltas_ns = categories,
             tc_client_category_remainder_delta_ns = client_rest, tc_nested_diagnostic_deltas_ns = nested,
             tc_phase_elapsed_deltas = phases,
             tc_arithmetic_closed = list_all (\<lambda>l. list_all (\<lambda>layer. tl_arithmetic_closed (layer l))
                 [td_rank_wall, td_client_control, td_transport, td_arena, td_direct_write]) [b, c]\<rparr>)))))))"

section \<open>Layers add up\<close>

definition layer_ok :: "timing_layer \<Rightarrow> bool" where
  "layer_ok l \<longleftrightarrow>
     0 < tl_parent_ns l \<and> list_all (\<lambda>(_, n). 0 \<le> n) (tl_children l) \<and> 0 \<le> tl_remainder_ns l
     \<and> tl_parent_ns l = sum_list (map snd (tl_children l)) + tl_remainder_ns l
     \<and> tl_children_ns l = sum_list (map snd (tl_children l)) \<and> tl_arithmetic_closed l \<and> tl_closed l
     \<and> (tl_parent_ns l \<le> 2 ^ 52 \<longrightarrow> (tl_within_five_percent l \<longleftrightarrow> 20 * tl_remainder_ns l \<le> tl_parent_ns l))"

text \<open>
  The binary64 threshold \<^verbatim>\<open>0.05\<close> is slightly above one twentieth. For parents up to \<open>2^52\<close>
  nanoseconds no quotient lies between them.
\<close>

lemma five_percent: "fl (5 / 100) = Fin (7205759403792794 * 2 powi (- 57))"
  using fl_literal [of "- 5" "5 / 100" 7205759403792794] by (simp add: power_int_minus)

lemma above_five_percent: "fl (7205759403792795 * 2 powi (- 57)) = Fin (7205759403792795 * 2 powi (- 57))"
  using fl_literal [of "- 5" "7205759403792795 * 2 powi (- 57)" 7205759403792795] by (simp add: power_int_minus)

lemma share_finite:
  assumes "0 \<le> r" "r \<le> p" "0 < p"
  obtains q where "fl (of_int r / of_int p) = Fin q"
proof -
  have "(0 :: rat) \<le> of_int r / of_int p" "of_int r / of_int p \<le> (of_int 1 :: rat)" using assms by simp_all
  then show thesis using fl_nonneg_finite [of "of_int r / of_int p" 1] that by auto
qed

lemma five_percent_exact:
  assumes "0 \<le> r" "r \<le> p" "0 < p" "p \<le> 2 ^ 52"
  shows "float_le (fl (of_int r / of_int p)) (fl (5 / 100)) \<longleftrightarrow> 20 * r \<le> p"
proof -
  obtain q where q: "fl (of_int r / of_int p) = Fin q" using share_finite assms(1-3) by blast
  have nonneg: "(0 :: rat) \<le> of_int r / of_int p" using assms by simp
  show ?thesis
  proof (cases "20 * r \<le> p")
    case True
    then have "(of_int (20 * r) :: rat) \<le> of_int p" by (simp only: of_int_le_iff)
    then have "of_int r / of_int p \<le> (5 / 100 :: rat)" using assms(3) by (simp add: field_simps)
    from fl_mono [OF nonneg this q five_percent] True show ?thesis unfolding q five_percent by simp
  next
    case False
    then have "(of_int (p + 1) :: rat) \<le> of_int (20 * r)" by (simp only: of_int_le_iff)
    moreover have "(of_int p :: rat) \<le> of_int (2 ^ 52)" using assms(4) by (simp only: of_int_le_iff)
    ultimately have "7205759403792795 * 2 powi (- 57) \<le> (of_int r / of_int p :: rat)"
      using assms(3) by (simp add: field_simps power_int_minus)
    from fl_mono [OF _ this above_five_percent q] have "7205759403792795 * 2 powi (- 57) \<le> q" by simp
    then show ?thesis using False unfolding q five_percent by (simp add: power_int_minus)
  qed
qed

lemma closed_timing_layer_ok:
  assumes "closed_timing_layer parent children name = Inr l"
  shows "layer_ok l \<and> tl_parent_ns l = parent \<and> tl_children l = children"
proof -
  let ?r = "parent - sum_list (map snd children)"
  from assms obtain share where c: "0 < parent" "\<not> list_ex (\<lambda>(_, n). n < 0) children" "0 \<le> ?r" "int_truediv ?r parent = Inr share"
      and l: "l = \<lparr>tl_parent_ns = parent, tl_children = children, tl_children_ns = sum_list (map snd children), tl_remainder_ns = ?r,
        tl_remainder_share = share, tl_arithmetic_closed = True, tl_closed = True, tl_within_five_percent = float_le share (fl (5 / 100))\<rparr>"
    by (auto simp: closed_timing_layer_def Let_def rbind_Inr_iff not_le not_less)
  have children: "list_all (\<lambda>(_, n). 0 \<le> n) children" using c(2) by (force simp: list_ex_iff list_all_iff)
  then have "0 \<le> sum_list (map snd children)" by (intro sum_list_nonneg) (auto simp: list_all_iff)
  then have bound: "?r \<le> parent" by simp
  obtain q where q: "fl (of_int ?r / of_int parent) = Fin q" using share_finite [OF c(3) bound c(1)] by blast
  then have "share = fl (of_int ?r / of_int parent)" using c(1,4) by (auto simp: int_truediv_def int_float_def)
  with five_percent_exact [OF c(3) bound c(1)] children c(1,3) show ?thesis by (simp add: layer_ok_def l)
qed

lemma timing_integers_names: "timing_integers result prefix names = Inr xs \<Longrightarrow> map fst xs = names"
  unfolding timing_integers_def rmap_Inr_iff by (induction rule: list_all2_induct) (auto simp: rbind_Inr_iff)

lemma named_count_name: "named_count label name v = Inr nv \<Longrightarrow> fst nv = name"
  by (auto simp: named_count_def split: option.splits if_splits)

lemma named_counts_names: "rmap (\<lambda>name. rbind (f name) (named_count label name)) names = Inr xs \<Longrightarrow> map fst xs = names"
  unfolding rmap_Inr_iff by (induction rule: list_all2_induct) (auto simp: rbind_Inr_iff dest: named_count_name)

lemma named_values_names: "rmap (\<lambda>name. named_count label name (g name)) names = Inr xs \<Longrightarrow> map fst xs = names"
  unfolding rmap_Inr_iff by (induction rule: list_all2_induct) (auto dest: named_count_name)

definition layer_for :: "string list \<Rightarrow> timing_layer \<Rightarrow> bool" where
  "layer_for names l \<longleftrightarrow> layer_ok l \<and> map fst (tl_children l) = names"

lemma closed_layer_for: "closed_timing_layer parent children name = Inr l \<Longrightarrow> map fst children = names \<Longrightarrow> layer_for names l"
  using closed_timing_layer_ok by (simp add: layer_for_def)

lemma rank_layers_ok:
  assumes "rank_layers result = Inr (wall, client)"
  shows "layer_ok wall \<and> tl_children wall = [(''client_timed_intervals_ns'', tl_parent_ns client)] \<and> layer_for client_intervals client"
proof -
  from assms obtain n m children where "timing_integers result ''legofs_timing.client_timed_intervals.'' client_intervals = Inr children"
      and c: "closed_timing_layer m children ''client control'' = Inr client"
      and w: "closed_timing_layer n [(''client_timed_intervals_ns'', m)] ''aggregate rank wall'' = Inr wall"
    unfolding rank_layers_def rbind_Inr_iff by auto
  then have "layer_for client_intervals client" using closed_layer_for timing_integers_names by blast
  with closed_timing_layer_ok [OF c] closed_timing_layer_ok [OF w] show ?thesis by simp
qed

lemma transport_layer_ok: "transport_layer result = Inr (l, calls) \<Longrightarrow> layer_for transport_stages l"
  unfolding transport_layer_def rbind_Inr_iff by (auto intro: closed_layer_for timing_integers_names)

lemma arena_acquire_layer_ok: "arena_acquire_layer result = Inr (l, calls) \<Longrightarrow> layer_for arena_stages l"
  unfolding arena_acquire_layer_def rbind_Inr_iff by (auto intro: closed_layer_for named_counts_names simp del: rcheck_Inr)

lemma direct_write_layer_ok:
  assumes "direct_write_layer result = Inr (l, n, m)"
  shows "layer_for direct_write_stages l"
proof -
  from assms obtain v where v: "timing_entry result ''direct_write'' PNone = Inr v" by (auto simp: direct_write_layer_def rbind_Inr_iff)
  with assms obtain d where d: "v = PDict d" by (cases v) (auto simp: direct_write_layer_def)
  from assms v d obtain parent children where
      "rmap (\<lambda>name. named_count ''direct-write'' name (dget d name)) direct_write_stages = Inr children"
      "closed_timing_layer parent children ''direct write'' = Inr l"
    by (auto simp: direct_write_layer_def rbind_Inr_iff split: option.splits)
  then show ?thesis using closed_layer_for named_values_names by blast
qed

lemma authority_layer_ok: "authority_layer result = Inr (Some (l, x, y)) \<Longrightarrow> layer_ok l"
  by (auto simp: authority_layer_def rbind_Inr_iff split: if_splits option.splits dest!: closed_timing_layer_ok)

text \<open>The layers of an accepted ledger.\<close>

definition ledger_ok :: "time_ledger \<Rightarrow> bool" where
  "ledger_ok l \<longleftrightarrow>
     layer_ok (td_rank_wall l) \<and> tl_children (td_rank_wall l) = [(''client_timed_intervals_ns'', tl_parent_ns (td_client_control l))]
     \<and> layer_for client_intervals (td_client_control l) \<and> layer_for transport_stages (td_transport l)
     \<and> layer_for arena_stages (td_arena l) \<and> layer_for direct_write_stages (td_direct_write l)
     \<and> (case td_authority_persistence l of None \<Rightarrow> True | Some (a, _, _) \<Rightarrow> layer_ok a)"

lemma result_time_ledger_ok: "result_time_ledger result = Inr l \<Longrightarrow> ledger_ok l"
proof -
  assume "result_time_ledger result = Inr l"
  then obtain wall client transport calls arena calls' direct groups objects authority where parts:
      "rank_layers result = Inr (wall, client)" "transport_layer result = Inr (transport, calls)"
      "arena_acquire_layer result = Inr (arena, calls')" "direct_write_layer result = Inr (direct, groups, objects)"
      "authority_layer result = Inr authority"
      and l: "l = \<lparr>td_rank_wall = wall, td_client_control = client, td_transport = transport, td_transport_calls = calls, td_arena = arena,
        td_arena_calls = calls', td_direct_write = direct, td_direct_groups = groups, td_direct_items = objects,
        td_authority_persistence = authority\<rparr>"
    by (auto simp: result_time_ledger_def rbind_Inr_iff)
  have "case authority of None \<Rightarrow> True | Some (a, _, _) \<Rightarrow> layer_ok a"
    using authority_layer_ok parts(5) by (auto split: option.splits)
  with rank_layers_ok [OF parts(1)] transport_layer_ok [OF parts(2)] arena_acquire_layer_ok [OF parts(3)] direct_write_layer_ok [OF parts(4)]
  show ?thesis by (simp add: ledger_ok_def l)
qed

text \<open>
  (C31) Every ledger adds up. In each layer the children are nonnegative and, with a nonnegative
  remainder, sum to the positive parent; the mark for a remainder within five per cent is
  exact for parents up to \<open>2^52\<close> nanoseconds although it is decided in binary64. The wall time of
  all ranks is the three client intervals and the remainders of the two outer layers.
\<close>

theorem time_ledger_closed:
  assumes "result_time_ledger result = Inr l"
  shows "list_all layer_ok [td_rank_wall l, td_client_control l, td_transport l, td_arena l, td_direct_write l]
     \<and> (case td_authority_persistence l of None \<Rightarrow> True | Some (a, _, _) \<Rightarrow> layer_ok a)
     \<and> map fst (tl_children (td_client_control l)) = client_intervals
     \<and> tl_parent_ns (td_rank_wall l) = sum_list (map snd (tl_children (td_client_control l)))
         + tl_remainder_ns (td_client_control l) + tl_remainder_ns (td_rank_wall l)"
  using result_time_ledger_ok [OF assms] unfolding ledger_ok_def layer_for_def by (auto simp: layer_ok_def)

section \<open>Differences add up\<close>

lemma map_of_children: "distinct (map fst xs) \<Longrightarrow> map (\<lambda>n. the (map_of xs n)) (map fst xs) = map snd xs"
  by (auto simp: comp_def)

lemma child_deltas_sum:
  assumes "map fst (tl_children b) = names" "map fst (tl_children c) = names" "distinct names"
  shows "\<exists>ds. child_deltas b c = Inr ds \<and> map fst ds = names
     \<and> sum_list (map snd ds) = sum_list (map snd (tl_children b)) - sum_list (map snd (tl_children c))"
proof -
  let ?v = "\<lambda>l n. the (map_of (tl_children l) n)"
  have defined: "layer_child l n = Inr (?v l n)" if "map fst (tl_children l) = names" "n \<in> set names" for l n
  proof -
    from that have "n \<in> fst ` set (tl_children l)" by (metis set_map)
    then show ?thesis by (auto simp: layer_child_def map_of_eq_None_iff split: option.splits)
  qed
  have "rmap (child_delta b c) ns = Inr (map (\<lambda>n. (n, ?v b n - ?v c n)) ns)" if "set ns \<subseteq> set names" for ns
    using that by (induction ns) (auto simp: child_delta_def defined assms)
  moreover have "map (?v b) names = map snd (tl_children b)" "map (?v c) names = map snd (tl_children c)"
    using map_of_children [of "tl_children b"] map_of_children [of "tl_children c"] assms by simp_all
  ultimately show ?thesis
    by (intro exI [of _ "map (\<lambda>n. (n, ?v b n - ?v c n)) names"]) (simp add: child_deltas_def assms(1) comp_def sum_list_subtractf)
qed

lemma stage_names_distinct: "distinct client_intervals" "distinct direct_write_stages" "''arena_acquire_backend_reserve_ns'' \<in> set arena_stages"
  by code_simp+

lemma nested_deltas_defined:
  assumes "ledger_ok b" "ledger_ok c"
  shows "\<exists>ds. nested_deltas baseline candidate b c = rbind (packed_deltas baseline candidate) (\<lambda>packed. Inr (ds @ packed))"
proof -
  have arena: "map fst (tl_children (td_arena b)) = arena_stages" "map fst (tl_children (td_arena c)) = arena_stages"
      and direct: "map fst (tl_children (td_direct_write b)) = direct_write_stages" "map fst (tl_children (td_direct_write c)) = direct_write_stages"
    using assms by (simp_all add: ledger_ok_def layer_for_def)
  obtain ds where ds: "child_deltas (td_direct_write b) (td_direct_write c) = Inr ds"
    using child_deltas_sum [OF direct stage_names_distinct(2)] by blast
  have "\<exists>n. layer_child l ''arena_acquire_backend_reserve_ns'' = Inr n" if "map fst (tl_children l) = arena_stages" for l
  proof -
    have "''arena_acquire_backend_reserve_ns'' \<in> fst ` set (tl_children l)" using stage_names_distinct(3) that by (metis set_map)
    then show ?thesis by (auto simp: layer_child_def map_of_eq_None_iff split: option.splits)
  qed
  with arena obtain n m where "layer_child (td_arena b) ''arena_acquire_backend_reserve_ns'' = Inr n"
      "layer_child (td_arena c) ''arena_acquire_backend_reserve_ns'' = Inr m" by blast
  with ds show ?thesis
    by (intro exI [of _ "[(''transport_cq_wait'', parent_delta td_transport b c), (''arena_acquire_total'', parent_delta td_arena b c),
          (''arena_backend_reserve'', n - m), (''direct_write_total'', parent_delta td_direct_write b c)] @ ds"])
       (simp add: nested_deltas_def child_delta_def)
qed

text \<open>
  (C30) The comparison of two runs closes. Once both ledgers are accepted neither of its two
  checks can fail: it raises only for malformed phases or packed counters. The reported change
  of the wall time is the sum of the changes of the client categories and of the two
  remainders, without an error term.
\<close>

theorem paired_closure_exact:
  assumes "result_time_ledger baseline = Inr b" "result_time_ledger candidate = Inr c"
  shows "case paired_time_closure baseline candidate pair of
       Inr t \<Rightarrow> tc_arithmetic_closed t \<and> tc_wall_delta_error_ns t = 0 \<and> map fst (tc_client_category_deltas_ns t) = client_intervals
         \<and> tc_wall_delta_ns t = tl_parent_ns (td_rank_wall b) - tl_parent_ns (td_rank_wall c)
         \<and> tc_wall_delta_ns t = sum_list (map snd (tc_client_category_deltas_ns t)) + tc_client_category_remainder_delta_ns t
             + tc_rank_wall_remainder_delta_ns t
     | Inl e \<Rightarrow> rbind (phase_deltas baseline candidate) (\<lambda>_. packed_deltas baseline candidate) = Inl e"
proof -
  note ok = result_time_ledger_ok [OF assms(1)] result_time_ledger_ok [OF assms(2)]
  have client: "map fst (tl_children (td_client_control b)) = client_intervals" "map fst (tl_children (td_client_control c)) = client_intervals"
    using ok by (simp_all add: ledger_ok_def layer_for_def)
  obtain cats where cats: "child_deltas (td_client_control b) (td_client_control c) = Inr cats" "map fst cats = client_intervals"
      "sum_list (map snd cats) = sum_list (map snd (tl_children (td_client_control b))) - sum_list (map snd (tl_children (td_client_control c)))"
    using child_deltas_sum [OF client stage_names_distinct(1)] by blast
  have wall: "parent_delta td_rank_wall b c = parent_delta td_client_control b c + remainder_delta td_rank_wall b c"
      and inner: "sum_list (map snd cats) + remainder_delta td_client_control b c = parent_delta td_client_control b c"
    using ok cats(3) by (auto simp: ledger_ok_def layer_for_def layer_ok_def parent_delta_def remainder_delta_def)
  have flags: "list_all (\<lambda>l. list_all (\<lambda>layer. tl_arithmetic_closed (layer l))
      [td_rank_wall, td_client_control, td_transport, td_arena, td_direct_write]) [b, c]"
    using ok by (simp add: ledger_ok_def layer_for_def layer_ok_def)
  obtain ds where nested: "nested_deltas baseline candidate b c = rbind (packed_deltas baseline candidate) (\<lambda>packed. Inr (ds @ packed))"
    using nested_deltas_defined [OF ok] by blast
  show ?thesis
    by (cases "phase_deltas baseline candidate"; cases "packed_deltas baseline candidate")
       (use wall inner flags cats(2) in \<open>simp_all add: paired_time_closure_def Let_def assms cats(1) nested parent_delta_def\<close>)
qed

section \<open>Instances\<close>

text \<open>A result with all layers; \<open>n\<close> is the wall time.\<close>

definition timing_sample :: "int \<Rightarrow> pyval" where
  "timing_sample n = PDict
     [(''legofs_timing'', PDict
         [(''aggregate_rank_wall_ns'', PInt n), (''client_timed_intervals_ns'', PInt 80),
          (''client_timed_intervals'', PDict [(''metadata_rpc_wait_ns'', PInt 30), (''read_control_rpc_wait_ns'', PInt 20),
             (''write_control_rpc_wait_ns'', PInt 28)]),
          (''transport_client'', PDict [(''calls'', PInt 2), (''cq_wait_ns'', PInt 50)]),
          (''transport_authority'', PDict ((''sqe_consumed'', PInt 2) # (''cqe_published'', PInt 2)
             # map (\<lambda>name. (name, PInt 9)) transport_stages)),
          (''arena_acquire'', PDict [(''arena_acquire_calls'', PInt 1), (''arena_acquire_total_ns'', PInt 7), (''arena_acquire_trace_ns'', PInt 3)]),
          (''direct_write'', PDict ((''direct_write_commit_groups'', PInt 1) # (''direct_write_commit_items'', PInt 4)
             # (''direct_write_total_ns'', PInt 13) # map (\<lambda>name. (name, PInt 2)) direct_write_stages)),
          (''persistence'', PDict [(''authority_coherent_acquire_jobs'', PInt 1), (''authority_payload_persist_jobs'', PInt 1),
             (''deferred_state_dependency_close_ns'', PInt 6), (''authority_coherent_acquire_ns'', PInt 5)])]),
      (''io500'', PDict [(''metrics'', PDict [(''phases'', PList [PDict [(''name'', PStr ''find''), (''seconds'', PInt n)]])])])]"

lemma timing_integer_int:
  assumes "nested_lookup path v (split_dots path) = Inr (PInt n)" "0 \<le> n" "n < 2 ^ 53" "positive \<Longrightarrow> 0 < n"
  shows "timing_integer v path positive = Inr n"
proof -
  have "fl (of_int n) = Fin (of_int n)" using assms(2,3) by (intro fl_of_int) simp
  then show ?thesis using assms by (auto simp: timing_integer_def nested_number_def as_float_def int_float_def)
qed

lemma closed_timing_layer_defined:
  assumes "0 < parent" "list_all (\<lambda>(_, n). 0 \<le> n) children" "sum_list (map snd children) \<le> parent"
  shows "\<exists>l. closed_timing_layer parent children name = Inr l"
proof -
  have "0 \<le> sum_list (map snd children)" using assms(2) by (intro sum_list_nonneg) (auto simp: list_all_iff)
  then obtain q where "fl (of_int (parent - sum_list (map snd children)) / of_int parent) = Fin q"
    using share_finite [of "parent - sum_list (map snd children)" parent] assms(1,3) by auto
  moreover have "\<not> list_ex (\<lambda>(_, n). n < 0) children" using assms(2) by (force simp: list_ex_iff list_all_iff)
  ultimately show ?thesis using assms(1,3) by (simp add: closed_timing_layer_def Let_def int_truediv_def int_float_def)
qed

lemma sample_rank: "80 \<le> n \<Longrightarrow> n < 2 ^ 53 \<Longrightarrow> \<exists>l. rank_layers (timing_sample n) = Inr l"
proof -
  assume n: "80 \<le> n" "n < 2 ^ 53"
  have wall: "timing_integer (timing_sample n) ''legofs_timing.aggregate_rank_wall_ns'' True = Inr n"
    by (rule timing_integer_int) (use n in \<open>simp_all add: timing_sample_def\<close>)
  have client: "timing_integer (timing_sample n) ''legofs_timing.client_timed_intervals_ns'' False = Inr 80"
    by (rule timing_integer_int) (simp_all add: timing_sample_def)
  have "timing_integer (timing_sample n) ''legofs_timing.client_timed_intervals.metadata_rpc_wait_ns'' False = Inr 30"
      "timing_integer (timing_sample n) ''legofs_timing.client_timed_intervals.read_control_rpc_wait_ns'' False = Inr 20"
      "timing_integer (timing_sample n) ''legofs_timing.client_timed_intervals.write_control_rpc_wait_ns'' False = Inr 28"
    by (rule timing_integer_int; simp add: timing_sample_def)+
  then have children: "timing_integers (timing_sample n) ''legofs_timing.client_timed_intervals.'' client_intervals
      = Inr [(''metadata_rpc_wait_ns'', 30), (''read_control_rpc_wait_ns'', 20), (''write_control_rpc_wait_ns'', 28)]"
    by (simp add: timing_integers_def client_intervals_def)
  obtain c where "closed_timing_layer 80 [(''metadata_rpc_wait_ns'', 30), (''read_control_rpc_wait_ns'', 20), (''write_control_rpc_wait_ns'', 28)]
      ''client control'' = Inr c" using closed_timing_layer_defined [of 80] by force
  moreover obtain w where "closed_timing_layer n [(''client_timed_intervals_ns'', 80)] ''aggregate rank wall'' = Inr w"
    using closed_timing_layer_defined [of n "[(''client_timed_intervals_ns'', 80)]"] n by force
  ultimately show ?thesis unfolding rank_layers_def by (simp only: wall client children rbind_simps) blast
qed

lemma sample_transport: "\<exists>l. transport_layer (timing_sample n) = Inr l"
proof -
  have calls: "timing_integer (timing_sample n) ''legofs_timing.transport_client.calls'' True = Inr 2"
      "timing_integer (timing_sample n) ''legofs_timing.transport_authority.sqe_consumed'' True = Inr 2"
      "timing_integer (timing_sample n) ''legofs_timing.transport_authority.cqe_published'' True = Inr 2"
      "timing_integer (timing_sample n) ''legofs_timing.transport_client.cq_wait_ns'' True = Inr 50"
    by (rule timing_integer_int; simp add: timing_sample_def)+
  have "timing_integer (timing_sample n) (''legofs_timing.transport_authority.'' @ name) False = Inr 9" if "name \<in> set transport_stages" for name
    by (rule timing_integer_int) (use that in \<open>auto simp: timing_sample_def transport_stages_def\<close>)
  then have "rmap (\<lambda>name. rbind (timing_integer (timing_sample n) (''legofs_timing.transport_authority.'' @ name) False) (\<lambda>n. Inr (name, n))) ns
      = Inr (map (\<lambda>name. (name, 9)) ns)" if "set ns \<subseteq> set transport_stages" for ns
    using that by (induction ns) auto
  then have children: "timing_integers (timing_sample n) ''legofs_timing.transport_authority.'' transport_stages
      = Inr (map (\<lambda>name. (name, 9)) transport_stages)" by (simp add: timing_integers_def)
  obtain l where "closed_timing_layer 50 (map (\<lambda>name. (name, 9)) transport_stages) ''transport CQ envelope'' = Inr l"
    using closed_timing_layer_defined [of 50 "map (\<lambda>name. (name, 9)) transport_stages"] by (auto simp: transport_stages_def)
  then show ?thesis unfolding transport_layer_def by (simp add: calls children)
qed

lemma sample_arena: "\<exists>l. arena_acquire_layer (timing_sample n) = Inr l"
proof -
  have calls: "timing_integer (timing_sample n) ''legofs_timing.arena_acquire.arena_acquire_calls'' False = Inr 1"
      "timing_integer (timing_sample n) ''legofs_timing.arena_acquire.arena_acquire_total_ns'' False = Inr 7"
    by (rule timing_integer_int; simp add: timing_sample_def)+
  let ?arena = "PDict [(''arena_acquire_calls'', PInt 1), (''arena_acquire_total_ns'', PInt 7), (''arena_acquire_trace_ns'', PInt 3)]"
  have arena: "rbind (index_value (timing_sample n) ''legofs_timing'') (\<lambda>timing. index_value timing ''arena_acquire'') = Inr ?arena"
    by (simp add: timing_sample_def index_value_def dindex_def)
  have children: "rmap (\<lambda>name. rbind (get_or ?arena name (PInt 0)) (named_count ''arena'' name)) arena_stages
      = Inr (map (\<lambda>name. (name, if name = ''arena_acquire_trace_ns'' then 3 else 0)) arena_stages)"
    by code_simp
  obtain l where "closed_timing_layer 7 (map (\<lambda>name. (name, if name = ''arena_acquire_trace_ns'' then 3 else 0)) arena_stages) ''arena acquire'' = Inr l"
    using closed_timing_layer_defined [of 7 "map (\<lambda>name. (name, if name = ''arena_acquire_trace_ns'' then 3 else 0)) arena_stages"]
    by (auto simp: arena_stages_def)
  then show ?thesis unfolding arena_acquire_layer_def by (simp add: calls arena children)
qed

lemma sample_direct: "\<exists>l. direct_write_layer (timing_sample n) = Inr l"
proof -
  let ?d = "(''direct_write_commit_groups'', PInt 1) # (''direct_write_commit_items'', PInt 4) # (''direct_write_total_ns'', PInt 13)
     # map (\<lambda>name. (name, PInt 2)) direct_write_stages"
  have entry: "timing_entry (timing_sample n) ''direct_write'' PNone = Inr (PDict ?d)"
      "timing_entry (timing_sample n) ''server_direct_write_commit_ns'' PNone = Inr PNone"
    by (simp_all add: timing_sample_def timing_entry_def get_or_def)
  have counts: "positive_count (dget ?d ''direct_write_commit_groups'') = Some 1" "positive_count (dget ?d ''direct_write_commit_items'') = Some 4"
      "positive_count (dget ?d ''direct_write_total_ns'') = Some 13"
      "rmap (\<lambda>name. named_count ''direct-write'' name (dget ?d name)) direct_write_stages = Inr (map (\<lambda>name. (name, 2)) direct_write_stages)"
    by code_simp+
  obtain l where "closed_timing_layer 13 (map (\<lambda>name. (name, 2)) direct_write_stages) ''direct write'' = Inr l"
    using closed_timing_layer_defined [of 13 "map (\<lambda>name. (name, 2)) direct_write_stages"] by (auto simp: direct_write_stages_def)
  then show ?thesis
    unfolding direct_write_layer_def
    by (simp only: entry counts rbind_simps rcheck_simps pyval.case prod.case option.case simp_thms) blast
qed

lemma sample_authority: "\<exists>a. authority_layer (timing_sample n) = Inr a"
proof -
  obtain l where l: "closed_timing_layer 6 [(''authority_coherent_acquire_ns'', 5), (''authority_payload_persist_ns'', 0)]
      ''authority persistence dependency closure'' = Inr l"
    using closed_timing_layer_defined [of 6 "[(''authority_coherent_acquire_ns'', 5), (''authority_payload_persist_ns'', 0)]"] by auto
  show ?thesis
    unfolding authority_layer_def
    by (simp add: timing_sample_def timing_entry_def get_or_def get_of_def exceeds_zero_def float_lt_def l)
qed

lemma sample_time_ledger: "80 \<le> n \<Longrightarrow> n < 2 ^ 53 \<Longrightarrow> \<exists>l. result_time_ledger (timing_sample n) = Inr l"
  using sample_rank [of n] sample_transport [of n] sample_arena [of n] sample_direct [of n] sample_authority [of n]
  by (auto simp: result_time_ledger_def)

theorem time_ledger_closed_witness:
  "\<exists>l. result_time_ledger (timing_sample 100) = Inr l \<and> layer_ok (td_transport l)
     \<and> tl_parent_ns (td_rank_wall l) = sum_list (map snd (tl_children (td_client_control l)))
         + tl_remainder_ns (td_client_control l) + tl_remainder_ns (td_rank_wall l)"
proof -
  obtain l where l: "result_time_ledger (timing_sample 100) = Inr l" using sample_time_ledger [of 100] by auto
  from time_ledger_closed [OF l] l show ?thesis by auto
qed

theorem paired_closure_exact_witness:
  "\<exists>t. paired_time_closure (timing_sample 100) (timing_sample 90) 1 = Inr t \<and> tc_arithmetic_closed t \<and> tc_wall_delta_error_ns t = 0"
proof -
  obtain b c where bc: "result_time_ledger (timing_sample 100) = Inr b" "result_time_ledger (timing_sample 90) = Inr c"
    using sample_time_ledger [of 100] sample_time_ledger [of 90] by auto
  have "packed_deltas (timing_sample 100) (timing_sample 90) = Inr []"
    by (simp add: packed_deltas_def timing_entry_def get_or_def timing_sample_def)
  moreover have "\<exists>ds. phase_deltas (timing_sample 100) (timing_sample 90) = Inr ds"
    by (simp add: phase_deltas_def result_phases_def get_or_def get_of_def iter_values_def phases_by_name_def phase_name_def
        add_phase_delta_def vget_def reached_seconds_def exceeds_zero_def float_lt_def index_value_def dindex_def dget_def py_sub_def timing_sample_def)
  ultimately obtain ds where "rbind (phase_deltas (timing_sample 100) (timing_sample 90)) (\<lambda>_. packed_deltas (timing_sample 100) (timing_sample 90)) = Inr ds"
    by auto
  with paired_closure_exact [OF bc, where pair = 1] show ?thesis by (auto split: sum.splits)
qed

end
