(* ===== verification/Spec2Isabelle.thy ===== *)
theory Spec2Isabelle
  imports Bi_Trace Bi_Stats Bi_Guest Launch Type3_Runtime Three_Node Owned_Process Console Observation
    Bi_Experiment Shm_Workflow Candidate Profile Time_Ledger
begin

text \<open>
  Verification of the experiment scripts of CXLMemSim-riscv.

  The repository boots RISC-V guests under QEMU against the CXLMemSim coherence server and
  turns what the guests, the server and the runners leave behind (console text, JSON lines,
  binary observation arenas, process records) into a verdict. The Python programs under
  src/scripts are these runners and evaluators. Their core is the decision whether the
  collected evidence supports a passing result, and the discipline with which they start,
  address and stop processes and publish files. This development models that core.

  Layers. \<open>Py_Base\<close> has Python values, exceptions as an error type, the result type with its
  sequencing and dictionaries; \<open>Py_Text\<close> strings, decimal and hexadecimal text, \<^verbatim>\<open>splitlines\<close>,
  \<^verbatim>\<open>strip\<close>, \<^verbatim>\<open>find\<close> and UTF-8; \<open>Py_Decode\<close> decoding with replacement and \<^verbatim>\<open>repr\<close>; \<open>Py_Float\<close>
  binary64 arithmetic on rationals; \<open>Py_Json\<close> the JSON scanner and a printer; \<open>Py_Struct\<close>
  little-endian records; \<open>Py_State\<close> computations with state and exceptions and a Hoare logic
  for them; \<open>Py_Hash\<close> SHA-256, SHA-1 and UUIDs as functions on bytes; \<open>Canonical_Json\<close> the sorted
  compact JSON text and its digest; \<open>Ini_Config\<close> the INI parser and writer of \<^verbatim>\<open>configparser\<close>.
  These are models of the language and its standard library.

  Components, with the files they model:

  \<^item> \<open>Strict_Json\<close>, \<open>Stamped_Lines\<close>: duplicate-rejecting JSON and records in console text
    (cxl_bi_app.py, legofs_type3_2node.py). Round trips against noisy transcripts; the locale
    \<open>line_extractor\<close> is the interface of a reader of records in lines, \<open>stamped_reader\<close> that of a
    reader of time-stamped JSON lines.
  \<^item> \<open>Bi_Trace\<close>, \<open>Bi_Stats\<close>, \<open>Bi_Guest\<close>, \<open>Bi_Experiment\<close>: the two-guest experiment
    (cxl_bi_app.py). Every reported dirty path is a request, snoop, acknowledgement and
    completion of the trace in order, and isolated chains are reported; the guest gates are
    sound and complete; percentiles are nearest-rank; a passing verdict is backed by the whole
    evidence.
  \<^item> \<open>Type3_Trace\<close>, \<open>Registrations\<close>, \<open>Type3_Evidence\<close>, \<open>Type3_Runtime\<close>: the two-node experiment
    (legofs_type3_2node.py). The correlation loop is equivalent to a declarative definition;
    the checksum loop has a closed form and ends exactly for positive block sizes; accepted
    evidence is sound. The three registration validators share the locale \<open>registration_loop\<close>.
  \<^item> \<open>Barrier\<close>, \<open>Three_Node\<close>: the three-node experiment (legofs_type3_3node.py). The barrier server
    is a step relation over the interleaving of its threads; a connection is released only
    when both clients arrived, and every order of arrivals completes; arrivals refine the
    abstract rendezvous of the locale \<open>rendezvous\<close>.
  \<^item> \<open>Launch\<close>, \<open>Manifests\<close>, \<open>Boot\<close>, \<open>Console\<close>, \<open>Owned_Process\<close>: what the runners share. Paths and
    command lines, manifest checks, the U-Boot dialogues, reader threads and waiting loops,
    and processes that are signalled only after their identity was checked (locales
    \<open>identity_check\<close> and \<open>marked_check\<close>, interpreted for both runners).
  \<^item> \<open>Atomic_Write\<close>: the six writers of result files (cxl_bi_app.py, legofs_type3_2node.py, run.py,
    write_manifest.py, legofs_evaluation_manifest.py, legofs_rdwo_closure.py) implement the
    contract of the locale \<open>atomic_writer\<close> on a disk where every call may fail.
  \<^item> \<open>Shm_Run\<close>, \<open>Shm_Workflow\<close>: the demonstration runner (run.py) as a whole, from the manifest to
    the published result, with its clean-up.
  \<^item> \<open>Arena\<close>, \<open>Ledger\<close>, \<open>Observation\<close>: the observation arenas (legofs_observe.py up to the
    analysis of observation files). Decoding inverts an encoder, aggregation is exact and
    independent of the order, digests are independent of the split over processes, and a valid
    observation rests on complete evidence.
  \<^item> \<open>Time_Ledger\<close>: the time ledgers of paired runs (legofs_observe.py, result_time_ledger and
    paired_time_closure). Every layer adds up, and so do the differences of two runs, so the
    closure checks of the comparison cannot fail.
  \<^item> \<open>Candidate\<close>: the candidate evidence document (legofs_candidate_evidence.py). Accepted
    documents are closed and carry their own digest; equal digests mean equal documents up to
    the order of keys and collisions of SHA-256; the constructed initial document is accepted.
  \<^item> \<open>Profile\<close>: the evaluation manifest compiler (legofs_evaluation_manifest.py). Profiles consist
    of the requested phases and their prerequisites in order; the written configuration, read
    back, enables exactly these phases; the loop that closes the requested phases ends by a
    measure on the phases not yet found; a run publishes its manifest last and only with
    everything the manifest vouches for.

  Interaction. A runner reserves files and ports (\<open>Launch\<close>), checks the manifest (\<open>Manifests\<close>),
  starts processes (\<open>Owned_Process\<close>), boots the guests (\<open>Boot\<close> over \<open>Console\<close>), collects text and
  traces, and evaluates them (\<open>Bi_Experiment\<close>, \<open>Type3_Runtime\<close>, \<open>Three_Node\<close>, \<open>Shm_Workflow\<close>), and
  writes the result (\<open>Atomic_Write\<close>).

  Conventions. Operations return \<open>pyerr + 'a\<close> (\<open>Inl\<close> an exception); exceptions carry their
  message where it is built from literals and modelled values. Dictionaries are association
  lists in insertion order. Strings are lists of bytes in UTF-8. What the scripts observe of
  the world (clock, process status, file contents, arriving text, failing calls, the hash of
  a file in the manifest checks, the power function of the C library, resolved paths, random
  bytes) is a parameter, indexed by the number of the observation where it can change.

  Fuel and termination. The JSON scanner has fuel \<^verbatim>\<open>2 * len + 2\<close>, proved to be enough. Waiting
  loops are \<open>poll_until\<close>, a partial function in the option monad; they are proved to return
  once the clock has passed the deadline. In \<open>Shm_Workflow\<close> a loop without a result counts as an
  exception \<open>OutOfFuel\<close>.

  Not modelled: the comparison of summaries, the audits of candidate results, the paired
  gates and the command line of legofs_observe.py, the IO500 and native runners
  (legofs_io500.py, legofs_v2_qemu_bi.py) and the helper scripts; the spawning of processes and
  threads in the runners other than run.py; argparse and printed messages; CPython's limit on
  the length of decimal numbers and its recursion limit; signed zeros of floats. Guest programs
  in C and shell scripts are outside: their output is the input of the validators.
\<close>

end
